(* ===== verification/Prelude.thy ===== *)
theory Prelude
  imports Main "HOL-Library.Sublist" "HOL-Library.Code_Target_Nat"
begin

text \<open>
  The prelude of the development: how Python values appear in the model, and the lemmas on
  strings, digits, lists and association lists that the components share.

  \<^item> A Python \<open>str\<close> is a \<^typ>\<open>string\<close>: the UTF-8 bytes of the text. Equality,
    concatenation, substring tests, splitting and prefixes agree with Python on every text;
    the character classes (\<open>isspace\<close>, \<open>isdigit\<close>, \<open>lower\<close>, the regular expression
    class \<open>\d\<close>) are those of ASCII, and \<open>len\<close> counts bytes.
  \<^item> A Python \<open>int\<close> is an \<^typ>\<open>int\<close>; a \<open>float\<close> is an exact rational, with
    the rounding functions of Python written out where the code calls them.
  \<^item> A \<open>datetime\<close> is the number of microseconds since the epoch, a \<open>timedelta\<close> a number
    of microseconds.
  \<^item> A \<open>UUID\<close> is a natural number: only equality of identifiers matters.
  \<^item> A raised exception is the left value of a sum; a \<open>dict\<close> whose order matters is an
    association list.
\<close>

named_theorems py_simps \<open>evaluation rules of the Python string operations\<close>

type_synonym ('k, 'v) dict = "('k \<times> 'v) list"

type_synonym uuid = nat

type_synonym time = int

subsection \<open>Characters\<close>

abbreviation newline :: char where
  "newline \<equiv> CHR 0x0A"

abbreviation code :: "char \<Rightarrow> nat" where
  "code c \<equiv> of_char c"

definition isspace :: "char \<Rightarrow> bool" where
  "isspace c \<longleftrightarrow> (let n = code c in (9 \<le> n \<and> n \<le> 13) \<or> (28 \<le> n \<and> n \<le> 32))"

definition isdigit :: "char \<Rightarrow> bool" where
  "isdigit c \<longleftrightarrow> 48 \<le> code c \<and> code c \<le> 57"

definition islower :: "char \<Rightarrow> bool" where
  "islower c \<longleftrightarrow> 97 \<le> code c \<and> code c \<le> 122"

definition isupper :: "char \<Rightarrow> bool" where
  "isupper c \<longleftrightarrow> 65 \<le> code c \<and> code c \<le> 90"

definition lower_char :: "char \<Rightarrow> char" where
  "lower_char c = (if isupper c then char_of (code c + 32) else c)"

definition upper_char :: "char \<Rightarrow> char" where
  "upper_char c = (if islower c then char_of (code c - 32) else c)"

lemma isupper_lower_char [simp]: "\<not> isupper (lower_char c)"
  by (auto simp: lower_char_def isupper_def)

lemma lower_char_idem [simp]: "lower_char (lower_char c) = lower_char c"
  by (simp add: lower_char_def [of "lower_char c"])

lemma code_inj: "code a = code b \<longleftrightarrow> a = b"
  by simp

subsection \<open>Strings\<close>

abbreviation lower :: "string \<Rightarrow> string" where
  "lower s \<equiv> map lower_char s"

definition lstrip_by :: "(char \<Rightarrow> bool) \<Rightarrow> string \<Rightarrow> string" where
  "lstrip_by P s = dropWhile P s"

definition rstrip_by :: "(char \<Rightarrow> bool) \<Rightarrow> string \<Rightarrow> string" where
  "rstrip_by P s = rev (dropWhile P (rev s))"

definition strip_by :: "(char \<Rightarrow> bool) \<Rightarrow> string \<Rightarrow> string" where
  "strip_by P s = rstrip_by P (lstrip_by P s)"

abbreviation strip :: "string \<Rightarrow> string" where
  "strip s \<equiv> strip_by isspace s"

definition startswith :: "string \<Rightarrow> string \<Rightarrow> bool" where
  "startswith s p \<longleftrightarrow> take (length p) s = p"

definition endswith :: "string \<Rightarrow> string \<Rightarrow> bool" where
  "endswith s p \<longleftrightarrow> take (length p) (rev s) = rev p"

fun contains :: "string \<Rightarrow> string \<Rightarrow> bool" where
  "contains [] p = (p = [])"
| "contains (c # s) p = (startswith (c # s) p \<or> contains s p)"

text \<open>\<open>s.split(c)\<close> for a one-character separator, and \<open>s.split()\<close>.\<close>

fun split_on :: "char \<Rightarrow> string \<Rightarrow> string list" where
  "split_on d [] = [[]]"
| "split_on d (c # s) =
     (if c = d then [] # split_on d s
      else (case split_on d s of [] \<Rightarrow> [[c]] | w # ws \<Rightarrow> (c # w) # ws))"

fun split_ws_aux :: "string \<Rightarrow> string \<Rightarrow> string list" where
  "split_ws_aux [] acc = (if acc = [] then [] else [rev acc])"
| "split_ws_aux (c # s) acc =
     (if isspace c then (if acc = [] then split_ws_aux s [] else rev acc # split_ws_aux s [])
      else split_ws_aux s (c # acc))"

definition split_ws :: "string \<Rightarrow> string list" where
  "split_ws s = split_ws_aux s []"

fun join :: "string \<Rightarrow> string list \<Rightarrow> string" where
  "join sep [] = []"
| "join sep [w] = w"
| "join sep (w # ws) = w @ sep @ join sep ws"

text \<open>\<open>s.partition(sep)\<close>: the part before the first \<open>sep\<close>, whether it occurs, the rest.\<close>

fun partition_str :: "string \<Rightarrow> string \<Rightarrow> string \<times> bool \<times> string" where
  "partition_str sep [] = ([], sep = [], [])"
| "partition_str sep (c # s) =
     (if startswith (c # s) sep then ([], True, drop (length sep) (c # s))
      else (case partition_str sep s of (a, found, b) \<Rightarrow> (c # a, found, b)))"

text \<open>\<open>s.rpartition(c)\<close>: with no separator the whole string is the last component.\<close>

definition rpartition :: "char \<Rightarrow> string \<Rightarrow> string \<times> bool \<times> string" where
  "rpartition d s =
     (let r = rev s; tail = takeWhile (\<lambda>c. c \<noteq> d) r in
      if length tail = length r then ([], False, s)
      else (rev (drop (Suc (length tail)) r), True, rev tail))"

definition replace_char :: "char \<Rightarrow> string \<Rightarrow> string \<Rightarrow> string" where
  "replace_char d by s = concat (map (\<lambda>c. if c = d then by else [c]) s)"

lemma endswith_iff: "endswith s p \<longleftrightarrow> (\<exists>u. s = u @ p)"
proof
  assume "endswith s p"
  then have "rev s = rev p @ drop (length p) (rev s)"
    by (metis endswith_def append_take_drop_id)
  then have "s = rev (drop (length p) (rev s)) @ p"
    by (metis rev_append rev_rev_ident)
  then show "\<exists>u. s = u @ p" ..
qed (auto simp: endswith_def)

lemma startswith_iff: "startswith s p \<longleftrightarrow> (\<exists>u. s = p @ u)"
  by (metis append_eq_conv_conj append_take_drop_id startswith_def)

lemma split_on_nonempty [simp]: "split_on d s \<noteq> []"
  by (induction s) (auto split: list.splits)

lemma join_Cons_head: "join sep ((c # w) # ws) = c # join sep (w # ws)"
  by (cases ws) auto

lemma join_Nil_head: "ws \<noteq> [] \<Longrightarrow> join sep ([] # ws) = sep @ join sep ws"
  by (cases ws) auto

lemma join_split_on: "join [d] (split_on d s) = s"
proof (induction s)
  case (Cons c s)
  then show ?case
    by (cases "split_on d s") (auto simp: join_Cons_head join_Nil_head simp del: join.simps(3))
qed simp

lemma split_on_no_sep: "w \<in> set (split_on d s) \<Longrightarrow> d \<notin> set w"
  by (induction s arbitrary: w) (auto split: if_splits list.splits)

lemma split_on_append_no_sep:
  "d \<notin> set w \<Longrightarrow> split_on d (w @ d # s) = w # split_on d s"
  by (induction w) auto

lemma split_on_atom: "d \<notin> set w \<Longrightarrow> split_on d w = [w]"
  by (induction w) auto

lemma split_on_join:
  "ws \<noteq> [] \<Longrightarrow> \<forall>w \<in> set ws. d \<notin> set w \<Longrightarrow> split_on d (join [d] ws) = ws"
proof (induction "[d]" ws rule: join.induct)
  case (3 w v ws)
  then show ?case by (simp add: split_on_append_no_sep)
qed (auto simp: split_on_atom)

lemma set_split_on: "w \<in> set (split_on d s) \<Longrightarrow> set w \<subseteq> set s"
proof (induction s arbitrary: w)
  case (Cons c s)
  then show ?case by (cases "split_on d s") (force split: if_splits)+
qed simp

lemma set_join_single: "set (join [d] ws) \<subseteq> insert d (\<Union> (set ` set ws))"
  by (induction "[d]" ws rule: join.induct) auto

lemma rpartition_app:
  "d \<notin> set t \<Longrightarrow> rpartition d (h @ d # t) = (h, True, t)"
  by (simp add: rpartition_def Let_def takeWhile_append takeWhile_eq_all_conv)

lemma partition_str_none: "d \<notin> set s \<Longrightarrow> partition_str [d] s = (s, False, [])"
  by (induction s) (auto simp: startswith_def)

lemma partition_str_app: "d \<notin> set s \<Longrightarrow> partition_str [d] (s @ d # t) = (s, True, t)"
  by (induction s) (auto simp: startswith_def)

lemma partition_str_cases:
  obtains (none) "d \<notin> set s" "partition_str [d] s = (s, False, [])"
  | (app) a b where "d \<notin> set a" "s = a @ d # b" "partition_str [d] s = (a, True, b)"
proof (cases "d \<in> set s")
  case True
  then obtain a b where "s = a @ d # b" "d \<notin> set a" by (meson split_list_first)
  then show thesis using app partition_str_app by blast
qed (use none partition_str_none in blast)

lemma join_has_sep: "1 < length ws \<Longrightarrow> d \<in> set (join [d] ws)"
  by (induction "[d]" ws rule: join.induct) auto

lemma rstrip_by_id: "s = [] \<or> \<not> P (last s) \<Longrightarrow> rstrip_by P s = s"
  by (cases s rule: rev_cases) (auto simp: rstrip_by_def)

lemma lstrip_by_id: "s = [] \<or> \<not> P (hd s) \<Longrightarrow> lstrip_by P s = s"
  by (cases s) (auto simp: lstrip_by_def)

lemma strip_by_id:
  "s = [] \<or> (\<not> P (hd s) \<and> \<not> P (last s)) \<Longrightarrow> strip_by P s = s"
  by (auto simp: strip_by_def lstrip_by_id rstrip_by_id)

lemma strip_by_none: "\<forall>c \<in> set s. \<not> P c \<Longrightarrow> strip_by P s = s"
  by (cases "s = []") (auto intro: strip_by_id)

lemma set_strip_by: "set (strip_by P s) \<subseteq> set s"
  by (auto simp: strip_by_def rstrip_by_def lstrip_by_def dest!: set_dropWhileD)

lemma set_rstrip_by: "set (rstrip_by P s) \<subseteq> set s"
  by (auto simp: rstrip_by_def dest!: set_dropWhileD)

subsection \<open>Digits\<close>

text \<open>
  The digits of a number to a base, most significant first, and the value of a digit list.
  \<open>str(n)\<close> and \<open>'%x' % n\<close> print through \<open>digit_char\<close>; \<open>int(s, base)\<close> reads through
  \<open>digit_val\<close>.
\<close>

function digits :: "nat \<Rightarrow> nat \<Rightarrow> nat list" where
  "digits b n = (if n < b \<or> b \<le> 1 then [n] else digits b (n div b) @ [n mod b])"
  by pat_completeness auto
termination
  by (relation "measure snd") auto

declare digits.simps [simp del]

definition digits_value :: "nat \<Rightarrow> nat list \<Rightarrow> nat" where
  "digits_value b ds = foldl (\<lambda>acc d. acc * b + d) 0 ds"

lemma digits_value_snoc [simp]: "digits_value b (ds @ [d]) = digits_value b ds * b + d"
  by (simp add: digits_value_def)

lemma digits_value_Nil [simp]: "digits_value b [] = 0"
  by (simp add: digits_value_def)

lemma digits_value_single [simp]: "digits_value b [d] = d"
  by (simp add: digits_value_def)

lemma digits_value_digits [simp]: "digits_value b (digits b n) = n"
proof (induction b n rule: digits.induct)
  case (1 b n)
  then show ?case by (cases "n < b \<or> b \<le> 1") (auto simp: digits.simps [of b n])
qed

lemma digits_nonempty [simp]: "digits b n \<noteq> []"
  by (subst digits.simps) simp

lemma digits_less: "1 < b \<Longrightarrow> d \<in> set (digits b n) \<Longrightarrow> d < b"
proof (induction b n rule: digits.induct)
  case (1 b n)
  then show ?case by (cases "n < b") (auto simp: digits.simps [of b n])
qed

lemma digits_hd: "1 < b \<Longrightarrow> 0 < n \<Longrightarrow> hd (digits b n) \<noteq> 0"
proof (induction b n rule: digits.induct)
  case (1 b n)
  show ?case
  proof (cases "n < b")
    case True
    with 1 show ?thesis by (simp add: digits.simps [of b n])
  next
    case False
    with 1 have "hd (digits b (n div b)) \<noteq> 0" by (simp add: div_greater_zero_iff)
    with False "1.prems" show ?thesis by (simp add: digits.simps [of b n])
  qed
qed

lemma length_digits: "1 < b \<Longrightarrow> n < b ^ k \<Longrightarrow> 0 < k \<Longrightarrow> length (digits b n) \<le> k"
proof (induction b n arbitrary: k rule: digits.induct)
  case (1 b n)
  show ?case
  proof (cases "n < b")
    case True
    with 1 show ?thesis by (simp add: digits.simps [of b n])
  next
    case False
    from "1.prems" obtain j where k: "k = Suc j" by (cases k) auto
    have j: "0 < j"
    proof (rule ccontr)
      assume "\<not> 0 < j"
      with k False "1.prems" show False by simp
    qed
    from k "1.prems" have "n div b < b ^ j" by (simp add: less_mult_imp_div_less mult.commute)
    with 1 False j have "length (digits b (n div b)) \<le> j" by simp
    with False k "1.prems" show ?thesis by (simp add: digits.simps [of b n])
  qed
qed

lemma digits_value_bound:
  "1 < b \<Longrightarrow> \<forall>d \<in> set ds. d < b \<Longrightarrow> digits_value b ds < b ^ length ds"
proof (induction ds rule: rev_induct)
  case (snoc d ds)
  then have "digits_value b ds + 1 \<le> b ^ length ds" and "d < b" by auto
  then have "digits_value b ds * b + d < (digits_value b ds + 1) * b" by simp
  also have "\<dots> \<le> b ^ length ds * b"
    using \<open>digits_value b ds + 1 \<le> b ^ length ds\<close> by (rule mult_le_mono1)
  finally show ?case by (simp add: mult.commute)
qed simp

lemma digits_digits_value:
  assumes "1 < b" "ds \<noteq> []" "\<forall>d \<in> set ds. d < b" "hd ds \<noteq> 0 \<or> length ds = 1"
  shows "digits b (digits_value b ds) = ds"
  using assms(2-4)
proof (induction ds rule: rev_induct)
  case (snoc d xs)
  show ?case
  proof (cases "xs = []")
    case True
    then show ?thesis using snoc.prems assms(1) by (subst digits.simps) simp
  next
    case False
    then have IH: "digits b (digits_value b xs) = xs" and "hd xs \<noteq> 0" "d < b"
      using snoc by auto
    have "digits_value b xs \<noteq> 0"
    proof
      assume "digits_value b xs = 0"
      then have "xs = [0]" using IH assms(1) by (simp add: digits.simps [of b 0])
      then show False using \<open>hd xs \<noteq> 0\<close> by simp
    qed
    then have "b \<le> digits_value b xs * b + d" by (cases "digits_value b xs") simp_all
    then show ?thesis using IH assms(1) \<open>d < b\<close> by (subst digits.simps) simp
  qed
qed simp

definition digit_char :: "nat \<Rightarrow> char" where
  "digit_char d = char_of (if d < 10 then 48 + d else 87 + d)"

definition digit_val :: "char \<Rightarrow> nat" where
  "digit_val c = (if isdigit c then code c - 48
                  else if islower c then code c - 87 else code c - 55)"

definition is_hex :: "char \<Rightarrow> bool" where
  "is_hex c \<longleftrightarrow> isdigit c \<or> (97 \<le> code c \<and> code c \<le> 102) \<or> (65 \<le> code c \<and> code c \<le> 70)"

lemma digit_val_char [simp]: "d < 16 \<Longrightarrow> digit_val (digit_char d) = d"
  by (auto simp: digit_val_def digit_char_def isdigit_def islower_def)

lemma isdigit_digit_char [simp]: "d < 16 \<Longrightarrow> isdigit (digit_char d) \<longleftrightarrow> d < 10"
  by (auto simp: digit_char_def isdigit_def)

lemma is_hex_digit_char [simp]: "d < 16 \<Longrightarrow> is_hex (digit_char d)"
  by (auto simp: digit_char_def isdigit_def is_hex_def)

lemma digit_val_less: "isdigit c \<Longrightarrow> digit_val c < 10"
  by (auto simp: digit_val_def isdigit_def)

lemma digit_val_hex_less: "is_hex c \<Longrightarrow> digit_val c < 16"
  by (auto simp: digit_val_def isdigit_def is_hex_def islower_def)

definition parse_nat :: "string \<Rightarrow> nat" where
  "parse_nat s = digits_value 10 (map digit_val s)"

definition parse_hex :: "string \<Rightarrow> nat" where
  "parse_hex s = digits_value 16 (map digit_val s)"

definition show_nat :: "nat \<Rightarrow> string" where
  "show_nat n = map digit_char (digits 10 n)"

definition show_hex :: "nat \<Rightarrow> string" where
  "show_hex n = map digit_char (digits 16 n)"

text \<open>\<open>str(i)\<close> of an integer.\<close>

definition show_int :: "int \<Rightarrow> string" where
  "show_int i = (if i < 0 then CHR ''-'' # show_nat (nat (- i)) else show_nat (nat i))"

abbreviation all_digits :: "string \<Rightarrow> bool" where
  "all_digits s \<equiv> list_all isdigit s"

text \<open>\<open>str.isdigit\<close> is false on the empty string.\<close>

definition str_isdigit :: "string \<Rightarrow> bool" where
  "str_isdigit s \<longleftrightarrow> s \<noteq> [] \<and> all_digits s"

lemma parse_show_nat [simp]: "parse_nat (show_nat n) = n"
proof -
  have "map digit_val (map digit_char (digits 10 n)) = digits 10 n"
    by (auto simp: o_def intro!: map_idI dest!: digits_less [rotated])
  then show ?thesis by (simp add: parse_nat_def show_nat_def)
qed

lemma parse_show_hex [simp]: "parse_hex (show_hex n) = n"
proof -
  have "map digit_val (map digit_char (digits 16 n)) = digits 16 n"
    by (auto simp: o_def intro!: map_idI dest!: digits_less [rotated])
  then show ?thesis by (simp add: parse_hex_def show_hex_def)
qed

lemma show_nat_nonempty [simp]: "show_nat n \<noteq> []"
  by (simp add: show_nat_def)

lemma show_hex_nonempty [simp]: "show_hex n \<noteq> []"
  by (simp add: show_hex_def)

lemma all_digits_show_nat [simp]: "all_digits (show_nat n)"
proof -
  have "isdigit (digit_char d)" if "d \<in> set (digits 10 n)" for d
    using digits_less [of 10 d n] that by (subst isdigit_digit_char) auto
  then show ?thesis by (auto simp: show_nat_def list_all_iff)
qed

lemma show_nat_digit: "c \<in> set (show_nat n) \<Longrightarrow> isdigit c"
  using all_digits_show_nat [of n] by (simp add: list_all_iff del: all_digits_show_nat)

lemma show_hex_hex: "c \<in> set (show_hex n) \<Longrightarrow> is_hex c"
  by (auto simp: show_hex_def dest!: digits_less [rotated])

lemma length_show_nat: "n < 10 ^ k \<Longrightarrow> 0 < k \<Longrightarrow> length (show_nat n) \<le> k"
  using length_digits [of 10 n k] by (simp add: show_nat_def)

lemma length_show_hex: "n < 16 ^ k \<Longrightarrow> 0 < k \<Longrightarrow> length (show_hex n) \<le> k"
  using length_digits [of 16 n k] by (simp add: show_hex_def)

lemma digit_char_zero: "d < 16 \<Longrightarrow> digit_char d = CHR ''0'' \<longleftrightarrow> d = 0"
proof
  assume "d < 16" and "digit_char d = CHR ''0''"
  then have "digit_val (CHR ''0'') = d" by (metis digit_val_char)
  then show "d = 0" by (simp add: digit_val_def isdigit_def)
next
  have "code (digit_char 0) = code (CHR ''0'')" by (simp add: digit_char_def)
  then have zero: "digit_char 0 = CHR ''0''" by (simp only: code_inj)
  assume "d = 0"
  with zero show "digit_char d = CHR ''0''" by simp
qed

lemma digit_char_val: "isdigit c \<Longrightarrow> digit_char (digit_val c) = c"
  by (auto simp: digit_char_def digit_val_def isdigit_def simp flip: code_inj)

lemma show_parse_nat:
  assumes "all_digits s" "s \<noteq> []" "hd s \<noteq> CHR ''0'' \<or> length s = 1"
  shows "show_nat (parse_nat s) = s"
proof -
  have dig: "\<forall>c \<in> set s. isdigit c" using assms(1) by (simp add: list_all_iff)
  have "isdigit (hd s)" using dig assms(2) by simp
  from digit_char_val [OF this] have "digit_val (hd s) = 0 \<Longrightarrow> hd s = CHR ''0''"
    using digit_char_zero [of 0] by simp
  then have "hd (map digit_val s) \<noteq> 0 \<or> length (map digit_val s) = 1"
    using assms(2,3) by (auto simp: hd_map)
  then have "digits 10 (parse_nat s) = map digit_val s"
    unfolding parse_nat_def
    by (intro digits_digits_value) (use assms(2) dig in \<open>auto dest: digit_val_less\<close>)
  then show ?thesis using dig by (simp add: show_nat_def digit_char_val map_idI o_def)
qed

lemma parse_nat_bound: "all_digits s \<Longrightarrow> parse_nat s < 10 ^ length s"
  using digits_value_bound [of 10 "map digit_val s"]
  by (auto simp: parse_nat_def list_all_iff dest: digit_val_less)

lemma parse_hex_bound: "list_all is_hex s \<Longrightarrow> parse_hex s < 16 ^ length s"
  using digits_value_bound [of 16 "map digit_val s"]
  by (auto simp: parse_hex_def list_all_iff dest: digit_val_hex_less)

text \<open>
  \<open>int(s)\<close> of a string: surrounding whitespace, one sign, and single underscores between
  digits are accepted; anything else raises \<open>ValueError\<close> (here: \<^term>\<open>None\<close>).
\<close>

definition int_digits :: "string \<Rightarrow> int option" where
  "int_digits s =
     (let groups = split_on (CHR ''_'') s in
      if list_all (\<lambda>g. g \<noteq> [] \<and> all_digits g) groups
      then Some (int (parse_nat (concat groups))) else None)"

definition py_int :: "string \<Rightarrow> int option" where
  "py_int s =
     (case strip s of
        [] \<Rightarrow> None
      | c # r \<Rightarrow>
          if c = CHR ''-'' then map_option uminus (int_digits r)
          else if c = CHR ''+'' then int_digits r
          else int_digits (c # r))"

lemma isdigit_not_space: "isdigit c \<Longrightarrow> \<not> isspace c"
  by (auto simp: isdigit_def isspace_def Let_def)

lemma isdigit_neq:
  "isdigit c \<Longrightarrow> code d < 48 \<or> 57 < code d \<Longrightarrow> c \<noteq> d"
  by (auto simp: isdigit_def)

lemma int_digits_all:
  assumes "all_digits s" "s \<noteq> []"
  shows "int_digits s = Some (int (parse_nat s))"
proof -
  have "CHR ''_'' \<notin> set s"
    using assms(1) by (auto simp: list_all_iff isdigit_def)
  then show ?thesis using assms by (simp add: int_digits_def split_on_atom)
qed

lemma strip_digits: "all_digits s \<Longrightarrow> strip s = s"
  by (rule strip_by_none) (auto simp: list_all_iff isdigit_not_space)

lemma py_int_digits:
  assumes "all_digits s" "s \<noteq> []"
  shows "py_int s = Some (int (parse_nat s))"
proof -
  obtain c r where s: "s = c # r" using assms(2) by (cases s) auto
  then have "c \<noteq> CHR ''-''" "c \<noteq> CHR ''+''"
    using assms(1) by (auto simp: isdigit_def)
  then show ?thesis
    using assms int_digits_all [OF assms] by (simp add: py_int_def strip_digits s)
qed

subsection \<open>Sequencing of partial results\<close>

fun mapM_opt :: "('a \<Rightarrow> 'b option) \<Rightarrow> 'a list \<Rightarrow> 'b list option" where
  "mapM_opt f [] = Some []"
| "mapM_opt f (x # xs) =
     (case f x of None \<Rightarrow> None
      | Some y \<Rightarrow> (case mapM_opt f xs of None \<Rightarrow> None | Some ys \<Rightarrow> Some (y # ys)))"

lemma mapM_opt_Cons_Some:
  "mapM_opt f (x # xs) = Some zs \<longleftrightarrow>
     (\<exists>y ys. f x = Some y \<and> mapM_opt f xs = Some ys \<and> zs = y # ys)"
  by (auto split: option.splits)

lemma mapM_opt_Some:
  "mapM_opt f xs = Some ys \<longleftrightarrow> list_all2 (\<lambda>x y. f x = Some y) xs ys"
proof (induction xs arbitrary: ys)
  case (Cons x xs)
  show ?case by (simp only: mapM_opt_Cons_Some Cons list_all2_Cons1) blast
qed auto

lemma mapM_opt_total: "(\<And>x. x \<in> set xs \<Longrightarrow> f x = Some (g x)) \<Longrightarrow> mapM_opt f xs = Some (map g xs)"
  by (induction xs) auto

lemma mapM_opt_map: "mapM_opt f (map g xs) = mapM_opt (f \<circ> g) xs"
  by (induction xs) (auto split: option.splits)

text \<open>A computation that may raise: the left value is the exception.\<close>

definition bind_r :: "'e + 'a \<Rightarrow> ('a \<Rightarrow> 'e + 'b) \<Rightarrow> 'e + 'b" where
  "bind_r r f = (case r of Inl e \<Rightarrow> Inl e | Inr x \<Rightarrow> f x)"

lemma bind_r_simps [simp]: "bind_r (Inl e) f = Inl e" "bind_r (Inr x) f = f x"
  by (simp_all add: bind_r_def)

lemma bind_r_Inr: "bind_r r f = Inr y \<longleftrightarrow> (\<exists>x. r = Inr x \<and> f x = Inr y)"
  by (cases r) auto

fun mapM_r :: "('a \<Rightarrow> 'e + 'b) \<Rightarrow> 'a list \<Rightarrow> 'e + 'b list" where
  "mapM_r f [] = Inr []"
| "mapM_r f (x # xs) = bind_r (f x) (\<lambda>y. bind_r (mapM_r f xs) (\<lambda>ys. Inr (y # ys)))"

lemma mapM_r_Inr:
  "mapM_r f xs = Inr ys \<longleftrightarrow> list_all2 (\<lambda>x y. f x = Inr y) xs ys"
  by (induction xs arbitrary: ys) (auto simp: list_all2_Cons1 bind_r_Inr)

subsection \<open>Ordered dictionaries\<close>

text \<open>
  A dictionary whose insertion order the code relies on is an association list:
  \<open>d[k] = v\<close> overwrites in place or appends at the end.
\<close>

fun dict_set :: "('k, 'v) dict \<Rightarrow> 'k \<Rightarrow> 'v \<Rightarrow> ('k, 'v) dict" where
  "dict_set [] k v = [(k, v)]"
| "dict_set ((k', v') # d) k v = (if k' = k then (k, v) # d else (k', v') # dict_set d k v)"

definition dict_del :: "('k, 'v) dict \<Rightarrow> 'k \<Rightarrow> ('k, 'v) dict" where
  "dict_del d k = filter (\<lambda>(k', _). k' \<noteq> k) d"

definition dict_update :: "('k, 'v) dict \<Rightarrow> ('k, 'v) dict \<Rightarrow> ('k, 'v) dict" where
  "dict_update d e = foldl (\<lambda>acc (k, v). dict_set acc k v) d e"

lemma map_of_dict_set [simp]: "map_of (dict_set d k v) = (map_of d)(k \<mapsto> v)"
  by (induction d k v rule: dict_set.induct) auto

lemma map_of_dict_del [simp]: "map_of (dict_del d k) = (map_of d)(k := None)"
  by (induction d) (auto simp: dict_del_def)

lemma dict_set_keys: "fst ` set (dict_set d k v) = insert k (fst ` set d)"
  by (induction d k v rule: dict_set.induct) auto

lemma distinct_dict_set: "distinct (map fst d) \<Longrightarrow> distinct (map fst (dict_set d k v))"
proof (induction d k v rule: dict_set.induct)
  case (2 k' v' d k v)
  then show ?case using dict_set_keys [of d k v] by (auto simp flip: set_map)
qed simp

lemma distinct_dict_del: "distinct (map fst d) \<Longrightarrow> distinct (map fst (dict_del d k))"
  by (induction d) (auto simp: dict_del_def)

lemma map_of_dict_update: "map_of (dict_update d e) = map_of d ++ map_of (rev e)"
proof (induction e arbitrary: d)
  case (Cons p e)
  obtain k v where p: "p = (k, v)" by (cases p)
  have "map_of (dict_update d (p # e)) = (map_of d)(k \<mapsto> v) ++ map_of (rev e)"
    using Cons [of "dict_set d k v"] by (simp only: dict_update_def p foldl_Cons prod.case map_of_dict_set)
  then show ?case
    by (simp add: p map_add_def fun_eq_iff split: option.splits)
qed (simp add: dict_update_def)

subsection \<open>Canonical forms\<close>

text \<open>
  The contract of a parser with a printer of what it returns: printing a parsed value and
  parsing it again gives that value. Normalisation is then idempotent, and two inputs have
  the same normal form exactly when they parse to the same value.
\<close>

locale canonical_form =
  fixes parse :: "'a \<Rightarrow> 'e + 'c" and render :: "'c \<Rightarrow> 'a"
  assumes parse_render: "parse x = Inr c \<Longrightarrow> parse (render c) = Inr c"
begin

lemma normal_form_parse:
  "bind_r (parse x) (\<lambda>c. Inr (render c)) = Inr y \<Longrightarrow> parse y = parse x"
  by (cases "parse x") (auto simp: parse_render [of x])

lemma normal_form_idem:
  "bind_r (parse x) (\<lambda>c. Inr (render c)) = Inr y \<Longrightarrow>
   bind_r (parse y) (\<lambda>c. Inr (render c)) = Inr y"
  by (cases "parse x") (auto simp: parse_render [of x])

lemma render_inj:
  assumes "parse x = Inr c" "parse y = Inr d" "render c = render d"
  shows "c = d"
proof -
  have "Inr c = parse (render d)"
    using parse_render [OF assms(1)] by (simp only: assms(3))
  also have "\<dots> = Inr d" by (rule parse_render [OF assms(2)])
  finally show ?thesis by simp
qed

lemma normal_form_eq:
  assumes "bind_r (parse x) (\<lambda>c. Inr (render c)) = Inr a"
    and "bind_r (parse y) (\<lambda>c. Inr (render c)) = Inr b"
  shows "a = b \<longleftrightarrow> parse x = parse y"
  using assms by (auto simp: bind_r_Inr dest: render_inj)

end

end
