(* ===== verification/IpAddress.thy ===== *)
theory IpAddress
  imports Prelude
begin

unbundle bit_operations_syntax

text \<open>
  The part of Python's \<open>ipaddress\<close> module (3.12) that the platform uses: parsing and printing
  of IPv4 and IPv6 addresses and networks, membership, overlap and containment of networks,
  and the registry properties (\<open>is_private\<close>, \<open>is_global\<close>, \<open>is_multicast\<close>, \<open>is_reserved\<close>).
  An IPv4-mapped IPv6 address has the properties of the IPv4 address it carries. Every
  \<open>ValueError\<close> of the module is \<^const>\<open>None\<close> here.
\<close>

subsection \<open>Addresses\<close>

datatype ipver = V4 | V6

record ip =
  ip_ver :: ipver
  ip_int :: int
  ip_scope :: "string option"

fun width :: "ipver \<Rightarrow> nat" where
  "width V4 = 32"
| "width V6 = 128"

definition all_ones :: "ipver \<Rightarrow> int" where
  "all_ones v = 2 ^ width v - 1"

definition v4 :: "int \<Rightarrow> ip" where
  "v4 n = \<lparr>ip_ver = V4, ip_int = n, ip_scope = None\<rparr>"

definition v6 :: "int \<Rightarrow> ip" where
  "v6 n = \<lparr>ip_ver = V6, ip_int = n, ip_scope = None\<rparr>"

subsubsection \<open>IPv4 text\<close>

definition parse_octet :: "string \<Rightarrow> int option" where
  "parse_octet s =
     (if \<not> str_isdigit s \<or> 3 < length s \<or> s \<noteq> ''0'' \<and> hd s = CHR ''0'' \<or> 255 < parse_nat s
      then None else Some (int (parse_nat s)))"

definition from_digits :: "int \<Rightarrow> int list \<Rightarrow> int" where
  "from_digits b ds = foldl (\<lambda>acc d. acc * b + d) 0 ds"

definition parse_v4 :: "string \<Rightarrow> int option" where
  "parse_v4 s =
     (let octets = split_on (CHR ''.'') s in
      if length octets \<noteq> 4 then None
      else map_option (from_digits 256) (mapM_opt parse_octet octets))"

definition octets_of :: "int \<Rightarrow> int list" where
  "octets_of n = [n div 2 ^ 24 mod 256, n div 2 ^ 16 mod 256, n div 2 ^ 8 mod 256, n mod 256]"

definition show_v4 :: "int \<Rightarrow> string" where
  "show_v4 n = join ''.'' (map show_int (octets_of n))"

subsubsection \<open>IPv6 text\<close>

definition parse_hextet :: "string \<Rightarrow> int option" where
  "parse_hextet s =
     (if \<not> list_all is_hex s \<or> 4 < length s \<or> s = [] then None else Some (int (parse_hex s)))"

text \<open>An IPv4 suffix is replaced by its two hextets.\<close>

definition expand_v4_suffix :: "string list \<Rightarrow> string list option" where
  "expand_v4_suffix parts =
     (if CHR ''.'' \<in> set (last parts)
      then map_option (\<lambda>n. butlast parts @ [show_hex (nat (n div 2 ^ 16 mod 2 ^ 16)), show_hex (nat (n mod 2 ^ 16))])
             (parse_v4 (last parts))
      else Some parts)"

text \<open>The parts before the double colon, the number of zero hextets it stands for, the parts after.\<close>

definition v6_layout :: "string list \<Rightarrow> (string list \<times> nat \<times> string list) option" where
  "v6_layout parts =
     (let n = length parts in
      case filter (\<lambda>i. parts ! i = []) [1..<n - 1] of
        [] \<Rightarrow> if n \<noteq> 8 \<or> hd parts = [] \<or> last parts = [] then None else Some (parts, 0, [])
      | [k] \<Rightarrow>
          (let hi = (if hd parts = [] then k - 1 else k);
               lo = (if last parts = [] then n - k - 2 else n - k - 1) in
           if hd parts = [] \<and> hi \<noteq> 0 \<or> last parts = [] \<and> lo \<noteq> 0 \<or> 8 < hi + lo + 1 then None
           else Some (take hi parts, 8 - (hi + lo), drop (n - lo) parts))
      | _ \<Rightarrow> None)"

definition parse_v6 :: "string \<Rightarrow> int option" where
  "parse_v6 s =
     (let parts = split_on (CHR '':'') s in
      if length parts < 3 then None
      else Option.bind (expand_v4_suffix parts) (\<lambda>parts.
        if 9 < length parts then None
        else Option.bind (v6_layout parts) (\<lambda>(hi, skipped, lo).
          Option.bind (mapM_opt parse_hextet hi) (\<lambda>his.
          Option.bind (mapM_opt parse_hextet lo) (\<lambda>los.
            Some (from_digits (2 ^ 16) (his @ replicate skipped 0 @ los)))))))"

definition hextets_of :: "int \<Rightarrow> int list" where
  "hextets_of n = map (\<lambda>i. n div (2 ^ 16) ^ i mod 2 ^ 16) [7, 6, 5, 4, 3, 2, 1, 0]"

text \<open>
  The scan for the longest run of zero hextets: the best run (start, length) and the current
  run (start, length); a length of 0 stands for no run.
\<close>

fun zero_run :: "nat \<Rightarrow> nat \<times> nat \<Rightarrow> nat \<times> nat \<Rightarrow> string list \<Rightarrow> nat \<times> nat" where
  "zero_run i best cur [] = best"
| "zero_run i (bs, bl) (cs, cl) (h # hs) =
     (if h = ''0''
      then (let cs' = (if cl = 0 then i else cs); cl' = Suc cl in
            zero_run (Suc i) (if bl < cl' then (cs', cl') else (bs, bl)) (cs', cl') hs)
      else zero_run (Suc i) (bs, bl) (0, 0) hs)"

definition compress_hextets :: "string list \<Rightarrow> string list" where
  "compress_hextets hs =
     (case zero_run 0 (0, 0) (0, 0) hs of (s, l) \<Rightarrow>
        if 1 < l
        then (if s = 0 then [[]] else []) @ take s hs @ [[]] @ drop (s + l) hs @
             (if s + l = length hs then [[]] else [])
        else hs)"

definition show_v6 :: "int \<Rightarrow> string" where
  "show_v6 n = join '':'' (compress_hextets (map (\<lambda>h. show_hex (nat h)) (hextets_of n)))"

subsubsection \<open>Address objects\<close>

text \<open>\<open>IPv4Address\<close>, \<open>IPv6Address\<close> with its scope, and \<open>ip_address\<close>, which tries both.\<close>

definition ipv4_address :: "string \<Rightarrow> ip option" where
  "ipv4_address s = (if CHR ''/'' \<in> set s then None else map_option v4 (parse_v4 s))"

definition ipv6_address :: "string \<Rightarrow> ip option" where
  "ipv6_address s =
     (if CHR ''/'' \<in> set s then None
      else (case partition_str ''%'' s of (addr, has_scope, sc) \<Rightarrow>
        if has_scope \<and> (sc = [] \<or> CHR ''%'' \<in> set sc) then None
        else map_option (\<lambda>n. \<lparr>ip_ver = V6, ip_int = n, ip_scope = (if has_scope then Some sc else None)\<rparr>)
               (parse_v6 addr)))"

definition ip_address :: "string \<Rightarrow> ip option" where
  "ip_address s = (case ipv4_address s of Some a \<Rightarrow> Some a | None \<Rightarrow> ipv6_address s)"

definition show_ip :: "ip \<Rightarrow> string" where
  "show_ip a =
     (case ip_ver a of
        V4 \<Rightarrow> show_v4 (ip_int a)
      | V6 \<Rightarrow> show_v6 (ip_int a) @ (case ip_scope a of None \<Rightarrow> [] | Some s \<Rightarrow> CHR ''%'' # s))"

subsection \<open>Networks\<close>

record ip_net =
  network_address :: ip
  prefixlen :: nat

abbreviation net_ver :: "ip_net \<Rightarrow> ipver" where
  "net_ver n \<equiv> ip_ver (network_address n)"

abbreviation net_int :: "ip_net \<Rightarrow> int" where
  "net_int n \<equiv> ip_int (network_address n)"

definition ip_int_from_prefix :: "ipver \<Rightarrow> nat \<Rightarrow> int" where
  "ip_int_from_prefix v p = all_ones v XOR drop_bit p (all_ones v)"

definition netmask :: "ip_net \<Rightarrow> int" where
  "netmask n = ip_int_from_prefix (net_ver n) (prefixlen n)"

definition hostmask :: "ip_net \<Rightarrow> int" where
  "hostmask n = netmask n XOR all_ones (net_ver n)"

definition broadcast_address :: "ip_net \<Rightarrow> ip" where
  "broadcast_address n =
     \<lparr>ip_ver = net_ver n, ip_int = net_int n OR hostmask n, ip_scope = None\<rparr>"

definition num_addresses :: "ip_net \<Rightarrow> int" where
  "num_addresses n = ip_int (broadcast_address n) - net_int n + 1"

definition in_net :: "ip \<Rightarrow> ip_net \<Rightarrow> bool" where
  "in_net a n \<longleftrightarrow> ip_ver a = net_ver n \<and> ip_int a AND netmask n = net_int n"

definition overlaps :: "ip_net \<Rightarrow> ip_net \<Rightarrow> bool" where
  "overlaps m n \<longleftrightarrow>
     in_net (network_address m) n \<or> in_net (broadcast_address m) n \<or>
     in_net (network_address n) m \<or> in_net (broadcast_address n) m"

text \<open>\<open>subnet_of\<close> raises a \<open>TypeError\<close> for networks of different versions.\<close>

definition subnet_of :: "ip_net \<Rightarrow> ip_net \<Rightarrow> bool option" where
  "subnet_of m n =
     (if net_ver m \<noteq> net_ver n then None
      else Some (net_int n \<le> net_int m \<and>
                 ip_int (broadcast_address m) \<le> ip_int (broadcast_address n)))"

subsubsection \<open>Network text\<close>

definition prefix_from_prefix_string :: "ipver \<Rightarrow> string \<Rightarrow> nat option" where
  "prefix_from_prefix_string v s =
     (if str_isdigit s \<and> parse_nat s \<le> width v then Some (parse_nat s) else None)"

text \<open>A netmask of IPv4: the prefix length whose mask it is, if any.\<close>

definition prefix_from_ip_int :: "int \<Rightarrow> nat option" where
  "prefix_from_ip_int n = find (\<lambda>p. ip_int_from_prefix V4 p = n) [0..<33]"

definition prefix_from_ip_string :: "string \<Rightarrow> nat option" where
  "prefix_from_ip_string s =
     Option.bind (parse_v4 s) (\<lambda>n.
       case prefix_from_ip_int n of Some p \<Rightarrow> Some p
       | None \<Rightarrow> prefix_from_ip_int (n XOR all_ones V4))"

definition make_netmask :: "ipver \<Rightarrow> string \<Rightarrow> nat option" where
  "make_netmask v s =
     (case (v, prefix_from_prefix_string v s) of
        (_, Some p) \<Rightarrow> Some p
      | (V4, None) \<Rightarrow> prefix_from_ip_string s
      | (V6, None) \<Rightarrow> None)"

text \<open>A network with \<open>strict=False\<close>: host bits are cleared, and a scope is dropped with them.\<close>

definition mk_net :: "ip \<Rightarrow> nat \<Rightarrow> ip_net" where
  "mk_net a p =
     (let masked = ip_int a AND ip_int_from_prefix (ip_ver a) p in
      if masked = ip_int a then \<lparr>network_address = a, prefixlen = p\<rparr>
      else \<lparr>network_address = \<lparr>ip_ver = ip_ver a, ip_int = masked, ip_scope = None\<rparr>, prefixlen = p\<rparr>)"

definition net_from_string :: "(string \<Rightarrow> ip option) \<Rightarrow> ipver \<Rightarrow> string \<Rightarrow> ip_net option" where
  "net_from_string parse_ip v s =
     (case split_on (CHR ''/'') s of
        [a] \<Rightarrow> map_option (\<lambda>x. mk_net x (width v)) (parse_ip a)
      | [a, m] \<Rightarrow> Option.bind (parse_ip a) (\<lambda>x. map_option (mk_net x) (make_netmask v m))
      | _ \<Rightarrow> None)"

definition ip_network :: "string \<Rightarrow> ip_net option" where
  "ip_network s =
     (case net_from_string ipv4_address V4 s of Some n \<Rightarrow> Some n
      | None \<Rightarrow> net_from_string ipv6_address V6 s)"

definition show_net :: "ip_net \<Rightarrow> string" where
  "show_net n = show_ip (network_address n) @ ''/'' @ show_nat (prefixlen n)"

subsection \<open>The address registries\<close>

definition net4 :: "int list \<Rightarrow> nat \<Rightarrow> ip_net" where
  "net4 os p = \<lparr>network_address = v4 (from_digits 256 os), prefixlen = p\<rparr>"

text \<open>An IPv6 network from its leading hextets.\<close>

definition net6 :: "int list \<Rightarrow> nat \<Rightarrow> ip_net" where
  "net6 hs p =
     \<lparr>network_address = v6 (from_digits (2 ^ 16) (hs @ replicate (8 - length hs) 0)), prefixlen = p\<rparr>"

definition private_networks :: "ipver \<Rightarrow> ip_net list" where
  "private_networks v = (case v of
     V4 \<Rightarrow> [net4 [0, 0, 0, 0] 8, net4 [10, 0, 0, 0] 8, net4 [127, 0, 0, 0] 8,
           net4 [169, 254, 0, 0] 16, net4 [172, 16, 0, 0] 12, net4 [192, 0, 0, 0] 24,
           net4 [192, 0, 0, 170] 31, net4 [192, 0, 2, 0] 24, net4 [192, 168, 0, 0] 16,
           net4 [198, 18, 0, 0] 15, net4 [198, 51, 100, 0] 24, net4 [203, 0, 113, 0] 24,
           net4 [240, 0, 0, 0] 4, net4 [255, 255, 255, 255] 32]
   | V6 \<Rightarrow> [net6 [0, 0, 0, 0, 0, 0, 0, 1] 128, net6 [] 128, net6 [0, 0, 0, 0, 0, 0xFFFF] 96,
           net6 [0x64, 0xFF9B, 1] 48, net6 [0x100] 64, net6 [0x2001] 23, net6 [0x2001, 0xDB8] 32,
           net6 [0x2002] 16, net6 [0xFC00] 7, net6 [0xFE80] 10])"

definition private_exceptions :: "ipver \<Rightarrow> ip_net list" where
  "private_exceptions v = (case v of
     V4 \<Rightarrow> [net4 [192, 0, 0, 9] 32, net4 [192, 0, 0, 10] 32]
   | V6 \<Rightarrow> [net6 [0x2001, 1, 0, 0, 0, 0, 0, 1] 128, net6 [0x2001, 1, 0, 0, 0, 0, 0, 2] 128,
           net6 [0x2001, 3] 32, net6 [0x2001, 4, 0x112] 48, net6 [0x2001, 0x20] 28,
           net6 [0x2001, 0x30] 28])"

definition shared_network :: ip_net where
  "shared_network = net4 [100, 64, 0, 0] 10"

definition ipv4_mapped :: "ip \<Rightarrow> ip option" where
  "ipv4_mapped a =
     (if ip_ver a = V6 \<and> ip_int a div 2 ^ 32 = 0xFFFF then Some (v4 (ip_int a mod 2 ^ 32)) else None)"

definition sixtofour :: "ip \<Rightarrow> ip option" where
  "sixtofour a =
     (if ip_ver a = V6 \<and> ip_int a div 2 ^ 112 = 0x2002 then Some (v4 (ip_int a div 2 ^ 80 mod 2 ^ 32)) else None)"

text \<open>The server and the client of a Teredo address.\<close>

definition teredo :: "ip \<Rightarrow> (ip \<times> ip) option" where
  "teredo a =
     (if ip_ver a = V6 \<and> ip_int a div 2 ^ 96 = 0x20010000
      then Some (v4 (ip_int a div 2 ^ 64 mod 2 ^ 32), v4 ((- ip_int a - 1) mod 2 ^ 32)) else None)"

definition plain_private :: "ip \<Rightarrow> bool" where
  "plain_private a \<longleftrightarrow>
     list_ex (in_net a) (private_networks (ip_ver a)) \<and>
     list_all (\<lambda>n. \<not> in_net a n) (private_exceptions (ip_ver a))"

text \<open>The properties of an address are those of the IPv4 address it maps, if it maps one.\<close>

definition unmapped :: "ip \<Rightarrow> ip" where
  "unmapped a = (case ipv4_mapped a of None \<Rightarrow> a | Some m \<Rightarrow> m)"

definition is_private :: "ip \<Rightarrow> bool" where
  "is_private a \<longleftrightarrow> plain_private (unmapped a)"

definition is_global :: "ip \<Rightarrow> bool" where
  "is_global a \<longleftrightarrow> \<not> in_net (unmapped a) shared_network \<and> \<not> plain_private (unmapped a)"

definition is_multicast :: "ip \<Rightarrow> bool" where
  "is_multicast a \<longleftrightarrow>
     in_net (unmapped a) (net4 [224, 0, 0, 0] 4) \<or> in_net (unmapped a) (net6 [0xFF00] 8)"

definition is_loopback :: "ip \<Rightarrow> bool" where
  "is_loopback a \<longleftrightarrow> in_net (unmapped a) (net4 [127, 0, 0, 0] 8) \<or>
     ip_ver (unmapped a) = V6 \<and> ip_int (unmapped a) = 1"

definition is_link_local :: "ip \<Rightarrow> bool" where
  "is_link_local a \<longleftrightarrow>
     in_net (unmapped a) (net4 [169, 254, 0, 0] 16) \<or> in_net (unmapped a) (net6 [0xFE80] 10)"

definition reserved_networks :: "ip_net list" where
  "reserved_networks =
     [net4 [240, 0, 0, 0] 4, net6 [] 8, net6 [0x100] 8, net6 [0x200] 7, net6 [0x400] 6,
      net6 [0x800] 5, net6 [0x1000] 4, net6 [0x4000] 3, net6 [0x6000] 3, net6 [0x8000] 3,
      net6 [0xA000] 3, net6 [0xC000] 3, net6 [0xE000] 4, net6 [0xF000] 5, net6 [0xF800] 6,
      net6 [0xFE00] 9]"

definition is_reserved :: "ip \<Rightarrow> bool" where
  "is_reserved a \<longleftrightarrow> list_ex (in_net (unmapped a)) reserved_networks"

text \<open>
  The same properties of a network look at its first and its last address only.
\<close>

definition both_in :: "ip_net \<Rightarrow> ip_net \<Rightarrow> bool" where
  "both_in n m \<longleftrightarrow> in_net (network_address n) m \<and> in_net (broadcast_address n) m"

definition net_is_private :: "ip_net \<Rightarrow> bool" where
  "net_is_private n \<longleftrightarrow>
     list_ex (both_in n) (private_networks (net_ver n)) \<and>
     list_all (\<lambda>e. \<not> in_net (network_address n) e \<and> \<not> in_net (broadcast_address n) e)
       (private_exceptions (net_ver n))"

definition net_is_global :: "ip_net \<Rightarrow> bool" where
  "net_is_global n \<longleftrightarrow> \<not> both_in n shared_network \<and> \<not> net_is_private n"

subsection \<open>Masks as arithmetic\<close>

definition wf_ip :: "ip \<Rightarrow> bool" where
  "wf_ip a \<longleftrightarrow> 0 \<le> ip_int a \<and> ip_int a < 2 ^ width (ip_ver a) \<and>
     (case ip_scope a of None \<Rightarrow> True
      | Some s \<Rightarrow> ip_ver a = V6 \<and> s \<noteq> [] \<and> CHR ''%'' \<notin> set s \<and> CHR ''/'' \<notin> set s)"

definition wf_net :: "ip_net \<Rightarrow> bool" where
  "wf_net n \<longleftrightarrow> wf_ip (network_address n) \<and> prefixlen n \<le> width (net_ver n) \<and>
     net_int n AND netmask n = net_int n"

text \<open>The number of addresses of a network, as a power of two.\<close>

definition block :: "ip_net \<Rightarrow> int" where
  "block n = 2 ^ (width (net_ver n) - prefixlen n)"

lemma block_pos [simp]: "0 < block n" "block n \<noteq> 0"
  by (simp_all add: block_def)

lemma all_ones_mask: "all_ones v = mask (width v)"
  by (simp add: all_ones_def mask_eq_exp_minus_1)

lemma bit_below: "0 \<le> x \<Longrightarrow> x < 2 ^ w \<Longrightarrow> bit x i \<Longrightarrow> i < w" for x :: int
  by (metis bit_take_bit_iff take_bit_int_eq_self)

lemma prefix_mask: "ip_int_from_prefix v p = mask (width v) XOR mask (width v - p)"
  by (simp add: ip_int_from_prefix_def all_ones_mask drop_bit_mask_eq)

lemma and_prefix_mask:
  fixes x :: int
  assumes "0 \<le> x" "x < 2 ^ w" "k \<le> w"
  shows "x AND (mask w XOR mask k) = x div 2 ^ k * 2 ^ k"
proof -
  have "x AND (mask w XOR mask k) = push_bit k (drop_bit k x)"
    using assms
    by (intro bit_eqI) (auto simp: bit_and_iff bit_xor_iff bit_mask_iff bit_push_bit_iff bit_drop_bit_eq
        dest: bit_below)
  then show ?thesis by (simp add: drop_bit_eq_div push_bit_eq_mult)
qed

lemma and_netmask:
  assumes "wf_ip a" "ip_ver a = net_ver n" "prefixlen n \<le> width (net_ver n)"
  shows "ip_int a AND netmask n = ip_int a div block n * block n"
  using assms and_prefix_mask [of "ip_int a" "width (net_ver n)" "width (net_ver n) - prefixlen n"]
  by (simp add: netmask_def prefix_mask block_def wf_ip_def)

lemma hostmask_block: "prefixlen n \<le> width (net_ver n) \<Longrightarrow> hostmask n = block n - 1"
  by (simp add: hostmask_def netmask_def prefix_mask all_ones_mask block_def xor.commute
      xor.left_commute flip: mask_eq_exp_minus_1)

lemma net_int_multiple:
  assumes "wf_net n"
  shows "net_int n = net_int n div block n * block n"
  using assms and_netmask [of "network_address n" n] by (simp add: wf_net_def)

lemma multiple_or_low:
  "y * 2 ^ k OR (2 ^ k - 1) = y * 2 ^ k + (2 ^ k - 1)" for y :: int
proof -
  have "push_bit k y AND mask k = 0"
    by (intro bit_eqI) (auto simp: bit_and_iff bit_mask_iff bit_push_bit_iff)
  then have "push_bit k y + mask k = push_bit k y OR mask k"
    by (intro disjunctive_add) (auto simp: bit_mask_iff bit_push_bit_iff)
  then show ?thesis by (simp add: push_bit_eq_mult mask_eq_exp_minus_1)
qed

lemma broadcast_block:
  assumes "wf_net n"
  shows "ip_int (broadcast_address n) = net_int n + block n - 1"
proof -
  have "net_int n OR (block n - 1) = net_int n + (block n - 1)"
    by (subst (1 2) net_int_multiple [OF assms]) (simp only: block_def multiple_or_low)
  then show ?thesis
    using assms by (simp add: broadcast_address_def hostmask_block wf_net_def)
qed

lemma div_eq_range:
  fixes x :: int
  assumes "0 < b"
  shows "x div b = m \<longleftrightarrow> m * b \<le> x \<and> x < m * b + b"
proof
  assume "x div b = m"
  moreover have "x = x div b * b + x mod b" by simp
  ultimately show "m * b \<le> x \<and> x < m * b + b"
    using pos_mod_sign [OF assms, of x] pos_mod_bound [OF assms, of x] by simp
next
  assume "m * b \<le> x \<and> x < m * b + b"
  then show "x div b = m"
    using assms by (intro int_div_pos_eq [of x b m "x - m * b"]) (auto simp: algebra_simps)
qed

text \<open>Membership is membership in the interval from the network to the broadcast address.\<close>

lemma in_net_range:
  assumes "wf_ip a" "wf_net n"
  shows "in_net a n \<longleftrightarrow> ip_ver a = net_ver n \<and>
    net_int n \<le> ip_int a \<and> ip_int a \<le> ip_int (broadcast_address n)"
proof (cases "ip_ver a = net_ver n")
  case True
  define m where "m = net_int n div block n"
  have n: "net_int n = m * block n" using net_int_multiple [OF assms(2)] by (simp add: m_def)
  have "ip_int a div block n = m \<longleftrightarrow> m * block n \<le> ip_int a \<and> ip_int a < m * block n + block n"
    by (rule div_eq_range) simp
  then show ?thesis
    using assms True by (auto simp: in_net_def and_netmask wf_net_def broadcast_block n)
qed (simp add: in_net_def)

lemma broadcast_below:
  assumes "wf_net n"
  shows "ip_int (broadcast_address n) < 2 ^ width (net_ver n)"
proof -
  define k where "k = width (net_ver n) - prefixlen n"
  define m where "m = net_int n div block n"
  have n: "net_int n = m * 2 ^ k" using net_int_multiple [OF assms] by (simp add: m_def k_def block_def)
  have w: "(2 :: int) ^ width (net_ver n) = 2 ^ prefixlen n * 2 ^ k"
    using assms by (simp add: wf_net_def k_def flip: power_add)
  have "m * 2 ^ k < 2 ^ prefixlen n * 2 ^ k"
    using assms by (simp add: wf_net_def wf_ip_def flip: n w)
  then have "m + 1 \<le> 2 ^ prefixlen n" by simp
  then have "(m + 1) * 2 ^ k \<le> 2 ^ prefixlen n * (2 :: int) ^ k" by (intro mult_right_mono) simp_all
  then have "m * 2 ^ k + 2 ^ k - 1 < 2 ^ width (net_ver n)"
    unfolding w by (simp only: distrib_right)
  then show ?thesis
    by (simp only: broadcast_block [OF assms] n block_def k_def)
qed

lemma wf_broadcast: "wf_net n \<Longrightarrow> wf_ip (broadcast_address n)"
  using broadcast_below [of n] broadcast_block [of n]
  by (simp add: wf_ip_def wf_net_def broadcast_address_def add_nonneg_pos)

lemma broadcast_ver [simp]: "ip_ver (broadcast_address n) = net_ver n"
  by (simp add: broadcast_address_def)

lemma net_le_broadcast: "wf_net n \<Longrightarrow> net_int n \<le> ip_int (broadcast_address n)"
  using block_pos(1) [of n] by (simp add: broadcast_block del: block_pos)

lemma in_own_net: "wf_net n \<Longrightarrow> in_net (network_address n) n" "wf_net n \<Longrightarrow> in_net (broadcast_address n) n"
  by (auto simp: in_net_range wf_broadcast net_le_broadcast wf_net_def)

subsection \<open>Overlap and containment\<close>

text \<open>Two networks overlap exactly when they share an address.\<close>

lemma overlaps_iff:
  assumes "wf_net m" "wf_net n"
  shows "overlaps m n \<longleftrightarrow> (\<exists>a. wf_ip a \<and> in_net a m \<and> in_net a n)"
proof
  assume "overlaps m n"
  then show "\<exists>a. wf_ip a \<and> in_net a m \<and> in_net a n"
    using assms in_own_net [of m] in_own_net [of n] wf_broadcast [of m] wf_broadcast [of n]
    by (auto simp: overlaps_def wf_net_def)
next
  assume "\<exists>a. wf_ip a \<and> in_net a m \<and> in_net a n"
  then obtain a where "wf_ip a" "in_net a m" "in_net a n" by blast
  then show "overlaps m n"
    using assms
    by (cases "net_int m \<le> net_int n")
      (auto simp: overlaps_def in_net_range wf_broadcast wf_net_def [of m] wf_net_def [of n])
qed

lemma overlaps_sym: "overlaps m n \<longleftrightarrow> overlaps n m"
  by (auto simp: overlaps_def)

lemma subnet_of_iff:
  assumes "wf_net m" "wf_net n"
  shows "subnet_of m n = Some True \<longleftrightarrow> (\<forall>a. wf_ip a \<longrightarrow> in_net a m \<longrightarrow> in_net a n)"
proof
  assume "subnet_of m n = Some True"
  then show "\<forall>a. wf_ip a \<longrightarrow> in_net a m \<longrightarrow> in_net a n"
    using assms by (auto simp: subnet_of_def in_net_range split: if_splits)
next
  assume *: "\<forall>a. wf_ip a \<longrightarrow> in_net a m \<longrightarrow> in_net a n"
  have "in_net (network_address m) n" "in_net (broadcast_address m) n"
    using * assms in_own_net [of m] wf_broadcast [of m] by (auto simp: wf_net_def)
  then show "subnet_of m n = Some True"
    using assms wf_broadcast [of m] by (auto simp: subnet_of_def in_net_range wf_net_def [of m])
qed

lemma num_addresses_block: "wf_net n \<Longrightarrow> num_addresses n = block n"
  by (simp add: num_addresses_def broadcast_block)

subsection \<open>Numbers and their digits\<close>

lemma from_digits_snoc: "from_digits b (ds @ [d]) = from_digits b ds * b + d"
  by (simp add: from_digits_def)

lemma from_digits_Cons: "from_digits b (d # ds) = d * b ^ length ds + from_digits b ds"
  by (induction ds rule: rev_induct)
    (simp_all add: from_digits_snoc algebra_simps flip: append_Cons, simp add: from_digits_def)

lemma from_digits_div_mod:
  assumes "0 < b"
  shows "from_digits b (map (\<lambda>i. n div b ^ i mod b) (rev [0..<k])) = n mod b ^ k"
proof (induction k)
  case (Suc k)
  have "n mod (b ^ k * b) = b ^ k * (n div b ^ k mod b) + n mod b ^ k"
    by (rule zmod_zmult2_eq) (use assms in simp)
  with Suc show ?case by (simp add: from_digits_Cons algebra_simps)
qed (simp add: from_digits_def)

lemma from_digits_bound:
  assumes "\<forall>d \<in> set ds. 0 \<le> d \<and> d < b"
  shows "0 \<le> from_digits b ds \<and> from_digits b ds < b ^ length ds"
  using assms
proof (induction ds rule: rev_induct)
  case (snoc d ds)
  then have b: "0 < b" and IH: "0 \<le> from_digits b ds" "from_digits b ds + 1 \<le> b ^ length ds"
    and d: "0 \<le> d" "d < b"
    by auto
  have "(from_digits b ds + 1) * b \<le> b ^ length ds * b"
    using IH b by (intro mult_right_mono) auto
  then show ?case using IH d b by (simp add: from_digits_snoc algebra_simps)
qed (simp add: from_digits_def)

lemma rev_upt_numerals:
  "rev [0..<4] = [3, 2, 1, 0]" "rev [0..<8] = [7, 6, 5, 4, 3, 2, 1, 0 :: nat]"
  by (simp_all add: upt_rec)

lemma octets_of_rev: "octets_of n = map (\<lambda>i. n div 256 ^ i mod 256) (rev [0..<4])"
  by (simp add: rev_upt_numerals octets_of_def)

lemma from_digits_octets: "0 \<le> n \<Longrightarrow> n < 2 ^ 32 \<Longrightarrow> from_digits 256 (octets_of n) = n"
  unfolding octets_of_rev by (subst from_digits_div_mod) simp_all

lemma hextets_of_rev: "hextets_of n = map (\<lambda>i. n div (2 ^ 16) ^ i mod 2 ^ 16) (rev [0..<8])"
  by (simp only: rev_upt_numerals hextets_of_def)

lemma from_digits_hextets:
  assumes "0 \<le> n" "n < 2 ^ 128"
  shows "from_digits (2 ^ 16) (hextets_of n) = n"
proof -
  have "from_digits (2 ^ 16) (hextets_of n) = n mod (2 ^ 16) ^ 8"
    unfolding hextets_of_rev by (rule from_digits_div_mod) simp
  also have "((2 :: int) ^ 16) ^ 8 = 2 ^ 128" by (simp only: power_mult [symmetric]) simp
  finally show ?thesis using assms by (simp only: mod_pos_pos_trivial)
qed

lemma octets_of_bounds: "d \<in> set (octets_of n) \<Longrightarrow> 0 \<le> d \<and> d \<le> 255"
  using pos_mod_bound [of 256 "n div 2 ^ 24"] pos_mod_bound [of 256 "n div 2 ^ 16"]
    pos_mod_bound [of 256 "n div 2 ^ 8"] pos_mod_bound [of 256 n]
  by (auto simp: octets_of_def)

lemma hextets_of_bounds: "h \<in> set (hextets_of n) \<Longrightarrow> 0 \<le> h \<and> h < 2 ^ 16"
  by (auto simp: hextets_of_def)

subsection \<open>IPv4 text round trip\<close>

lemma parse_octet_bounds: "parse_octet s = Some d \<Longrightarrow> 0 \<le> d \<and> d < 256"
  by (auto simp: parse_octet_def split: if_splits)

lemma parse_v4_bounds:
  assumes "parse_v4 s = Some n"
  shows "0 \<le> n \<and> n < 2 ^ 32"
proof -
  obtain ds where len: "length (split_on (CHR ''.'') s) = 4"
    and ds: "mapM_opt parse_octet (split_on (CHR ''.'') s) = Some ds" "n = from_digits 256 ds"
    using assms by (auto simp: parse_v4_def Let_def split: if_splits)
  have "\<forall>d \<in> set ds. 0 \<le> d \<and> d < 256"
    using ds(1) parse_octet_bounds by (force simp: mapM_opt_Some list_all2_conv_all_nth in_set_conv_nth)
  moreover have "length ds = 4"
    using ds(1) len by (auto simp: mapM_opt_Some dest: list_all2_lengthD)
  ultimately show ?thesis using from_digits_bound [of ds 256] ds(2) by simp
qed

lemma show_nat_hd: "0 < n \<Longrightarrow> hd (show_nat n) \<noteq> CHR ''0''"
  using digits_hd [of 10 n] digits_less [of 10 "hd (digits 10 n)" n]
  by (simp add: show_nat_def hd_map digit_char_zero)

lemma show_nat_0: "show_nat 0 = ''0''"
  by code_simp

lemma parse_octet_show:
  assumes "0 \<le> d" "d \<le> 255"
  shows "parse_octet (show_int d) = Some d"
proof -
  have "nat d < 10 ^ 3" using assms by simp
  then have "length (show_nat (nat d)) \<le> 3" by (intro length_show_nat) simp_all
  moreover have "show_nat (nat d) = ''0'' \<or> hd (show_nat (nat d)) \<noteq> CHR ''0''"
    using assms(1) show_nat_0 show_nat_hd [of "nat d"] by (cases "d = 0") auto
  ultimately show ?thesis
    using assms by (auto simp: parse_octet_def show_int_def str_isdigit_def)
qed

lemma show_octet_chars: "0 \<le> d \<Longrightarrow> c \<in> set (show_int d) \<Longrightarrow> isdigit c"
  by (auto simp: show_int_def dest: show_nat_digit)

lemma parse_show_v4:
  assumes "0 \<le> n" "n < 2 ^ 32"
  shows "parse_v4 (show_v4 n) = Some n"
proof -
  have no_dot: "\<forall>w \<in> set (map show_int (octets_of n)). CHR ''.'' \<notin> set w"
    using octets_of_bounds show_octet_chars by (fastforce simp: isdigit_def)
  have "split_on (CHR ''.'') (show_v4 n) = map show_int (octets_of n)"
    unfolding show_v4_def by (rule split_on_join [OF _ no_dot]) (simp add: octets_of_def)
  moreover have "mapM_opt parse_octet (map show_int (octets_of n)) = Some (octets_of n)"
    using octets_of_bounds mapM_opt_total [of "octets_of n" "parse_octet \<circ> show_int" id]
    by (simp add: mapM_opt_map parse_octet_show)
  moreover have "length (octets_of n) = 4" by (simp add: octets_of_def)
  ultimately show ?thesis using assms by (simp add: parse_v4_def from_digits_octets)
qed

lemma from_digits_inj:
  assumes "\<forall>d \<in> set ds. 0 \<le> d \<and> d < b" "\<forall>d \<in> set es. 0 \<le> d \<and> d < b"
    "length ds = length es" "from_digits b ds = from_digits b es"
  shows "ds = es"
  using assms
proof (induction ds arbitrary: es rule: rev_induct)
  case (snoc d ds)
  obtain e es' where es: "es = es' @ [e]" using snoc.prems(3) by (cases es rule: rev_cases) auto
  have eq: "from_digits b ds * b + d = from_digits b es' * b + e"
    using snoc.prems(4) by (simp add: es from_digits_snoc)
  have "d = e"
    using arg_cong [OF eq, of "\<lambda>x. x mod b"] snoc.prems(1,2) by (simp add: es)
  moreover have "from_digits b ds = from_digits b es'"
  proof -
    have "b \<noteq> 0" using snoc.prems(1) by force
    then show ?thesis using eq \<open>d = e\<close> by simp
  qed
  moreover have "ds = es'"
    by (rule snoc.IH) (use snoc.prems calculation es in auto)
  ultimately show ?case by (simp add: es)
qed simp

lemma show_parse_octet:
  assumes "parse_octet s = Some d"
  shows "show_int d = s"
  using assms show_parse_nat [of s]
  by (cases s) (auto simp: parse_octet_def show_int_def str_isdigit_def split: if_splits)

lemma show_parse_v4:
  assumes "parse_v4 s = Some n"
  shows "show_v4 n = s"
proof -
  obtain ds where len: "length (split_on (CHR ''.'') s) = 4"
    and ds: "mapM_opt parse_octet (split_on (CHR ''.'') s) = Some ds" "n = from_digits 256 ds"
    using assms by (auto simp: parse_v4_def Let_def split: if_splits)
  have all: "list_all2 (\<lambda>w d. parse_octet w = Some d) (split_on (CHR ''.'') s) ds"
    using ds(1) by (simp add: mapM_opt_Some)
  have "octets_of n = ds"
  proof (rule from_digits_inj)
    show "\<forall>d \<in> set (octets_of n). 0 \<le> d \<and> d < 256" using octets_of_bounds by fastforce
    show "\<forall>d \<in> set ds. 0 \<le> d \<and> d < 256"
      using all parse_octet_bounds by (force simp: list_all2_conv_all_nth in_set_conv_nth)
    show "length (octets_of n) = length ds"
      using len list_all2_lengthD [OF all] by (simp add: octets_of_def)
    show "from_digits 256 (octets_of n) = from_digits 256 ds"
      using parse_v4_bounds [OF assms] ds(2) by (simp add: from_digits_octets)
  qed
  moreover have "map show_int ds = split_on (CHR ''.'') s"
    using all show_parse_octet by (auto simp: list_all2_conv_all_nth intro!: nth_equalityI)
  ultimately show ?thesis by (simp add: show_v4_def join_split_on)
qed

lemma show_v4_chars: "c \<in> set (show_v4 n) \<Longrightarrow> isdigit c \<or> c = CHR ''.''"
  using set_join_single [of "CHR ''.''" "map show_int (octets_of n)"] octets_of_bounds show_octet_chars
  unfolding show_v4_def by fastforce

subsection \<open>IPv6 text round trip\<close>

text \<open>A run of zero hextets: its start and length, inside the list.\<close>

definition zeros :: "string list \<Rightarrow> nat \<times> nat \<Rightarrow> bool" where
  "zeros hs r \<longleftrightarrow> fst r + snd r \<le> length hs \<and> (\<forall>j. fst r \<le> j \<and> j < fst r + snd r \<longrightarrow> hs ! j = ''0'')"

lemma zeros_snoc: "zeros pre r \<Longrightarrow> zeros (pre @ [h]) r"
  by (auto simp: zeros_def nth_append)

lemma zeros_extend:
  "zeros pre (s, l) \<Longrightarrow> s + l = length pre \<Longrightarrow> zeros (pre @ [''0'']) (s, Suc l)"
  by (auto simp: zeros_def nth_append)

lemma zeros_start: "zeros (pre @ [''0'']) (length pre, Suc 0)"
  by (auto simp: zeros_def nth_append)

lemma zero_run_zeros:
  assumes "zeros pre best" "snd cur = 0 \<or> zeros pre cur \<and> fst cur + snd cur = length pre"
  shows "zeros (pre @ hs) (zero_run (length pre) best cur hs)"
  using assms
proof (induction hs arbitrary: pre best cur)
  case (Cons h hs)
  obtain bs bl cs cl where bc: "best = (bs, bl)" "cur = (cs, cl)" by (cases best; cases cur)
  define cs' where "cs' = (if cl = 0 then length pre else cs)"
  show ?case
  proof (cases "h = ''0''")
    case True
    have cur': "zeros (pre @ [h]) (cs', Suc cl)" "cs' + Suc cl = length (pre @ [h])"
      using Cons.prems(2) True zeros_start [of pre] zeros_extend [of pre cs cl]
      by (auto simp: bc cs'_def)
    have best': "zeros (pre @ [h]) (if bl < Suc cl then (cs', Suc cl) else (bs, bl))"
      using cur'(1) zeros_snoc [OF Cons.prems(1)] by (auto simp: bc)
    have "zeros ((pre @ [h]) @ hs)
        (zero_run (length (pre @ [h])) (if bl < Suc cl then (cs', Suc cl) else (bs, bl)) (cs', Suc cl) hs)"
      using best' cur' by (intro Cons.IH) auto
    then show ?thesis by (simp add: bc True Let_def flip: cs'_def)
  next
    case False
    have "zeros ((pre @ [h]) @ hs) (zero_run (length (pre @ [h])) best (0, 0) hs)"
      using zeros_snoc [OF Cons.prems(1)] by (intro Cons.IH) auto
    then show ?thesis using False by (simp add: bc)
  qed
qed simp

lemma compress_hextets_cases:
  obtains (same) "compress_hextets hs = hs"
  | (run) s l where "1 < l" "s + l \<le> length hs" "\<forall>j. s \<le> j \<and> j < s + l \<longrightarrow> hs ! j = ''0''"
    "compress_hextets hs =
       (if s = 0 then [[]] else take s hs) @ [[]] @ (if s + l = length hs then [[]] else drop (s + l) hs)"
proof -
  obtain s l where r: "zero_run 0 (0, 0) (0, 0) hs = (s, l)" by (cases "zero_run 0 (0, 0) (0, 0) hs")
  have "zeros hs (s, l)"
    using zero_run_zeros [of "[]" "(0, 0)" "(0, 0)" hs] r by (simp add: zeros_def)
  then show thesis
    using that r by (cases "1 < l") (auto simp: compress_hextets_def zeros_def)
qed

lemma filter_eq_single: "a \<le> k \<Longrightarrow> k < b \<Longrightarrow> filter (\<lambda>i. i = k) [a..<b] = [k]"
proof (induction b)
  case (Suc b)
  show ?case
  proof (cases "k = b")
    case True
    then show ?thesis using Suc.prems by (auto simp: filter_empty_conv)
  qed (use Suc in auto)
qed simp

text \<open>A list of parts with one empty part between its ends.\<close>

lemma v6_layout_gap:
  assumes X: "X = [[]] \<or> X \<noteq> [] \<and> [] \<notin> set X" and Y: "Y = [[]] \<or> Y \<noteq> [] \<and> [] \<notin> set Y"
    and len: "length (filter (\<lambda>w. w \<noteq> []) X) + length (filter (\<lambda>w. w \<noteq> []) Y) < 8"
  shows "v6_layout (X @ [[]] @ Y) =
    Some (filter (\<lambda>w. w \<noteq> []) X,
      8 - (length (filter (\<lambda>w. w \<noteq> []) X) + length (filter (\<lambda>w. w \<noteq> []) Y)),
      filter (\<lambda>w. w \<noteq> []) Y)"
proof -
  let ?p = "X @ [[]] @ Y"
  have ne: "X \<noteq> []" "Y \<noteq> []" using X Y by auto
  have iff: "?p ! i = [] \<longleftrightarrow> i = length X" if "i \<in> set [1..<length ?p - 1]" for i
  proof (cases i "length X" rule: linorder_cases)
    case less
    have "X ! i \<in> set X" using less by (rule nth_mem)
    moreover have "X \<noteq> [[]]" using that less by auto
    ultimately have "X ! i \<noteq> []" using X by metis
    then show ?thesis using less by (simp add: nth_append)
  next
    case greater
    then have "i - Suc (length X) < length Y - 1" using that by auto
    then have "Y ! (i - Suc (length X)) \<in> set Y" by (intro nth_mem) simp
    moreover have "Y \<noteq> [[]]" using \<open>i - Suc (length X) < length Y - 1\<close> by auto
    ultimately have "Y ! (i - Suc (length X)) \<noteq> []" using Y by metis
    then show ?thesis using greater by (simp add: nth_append nth_Cons')
  qed (simp add: nth_append)
  have "filter (\<lambda>i. ?p ! i = []) [1..<length ?p - 1] = filter (\<lambda>i. i = length X) [1..<length ?p - 1]"
    by (rule filter_cong [OF refl iff])
  also have "\<dots> = [length X]"
    by (rule filter_eq_single) (use ne in \<open>auto simp: Suc_le_eq\<close>)
  finally have f: "filter (\<lambda>i. ?p ! i = []) [1..<length ?p - 1] = [length X]" .
  have keep: "filter (\<lambda>w. w \<noteq> []) Z = Z" if "[] \<notin> set Z" for Z :: "string list"
    using that by (induction Z) auto
  have "hd X \<in> set X" "last Y \<in> set Y" using ne by simp_all
  then have "hd X = [] \<longleftrightarrow> X = [[]]" "last Y = [] \<longleftrightarrow> Y = [[]]"
    using X Y by (metis list.sel(1), metis last.simps)
  then have hd_p: "hd ?p = [] \<longleftrightarrow> X = [[]]" and last_p: "last ?p = [] \<longleftrightarrow> Y = [[]]"
    using ne by simp_all
  have keepX: "X \<noteq> [[]] \<Longrightarrow> filter (\<lambda>w. w \<noteq> []) X = X" and keepY: "Y \<noteq> [[]] \<Longrightarrow> filter (\<lambda>w. w \<noteq> []) Y = Y"
    using X Y keep by auto
  show ?thesis
    unfolding v6_layout_def Let_def f
    using len hd_p last_p keepX keepY by (cases "X = [[]]"; cases "Y = [[]]") auto
qed

lemma v6_layout_full:
  assumes "length hs = 8" "[] \<notin> set hs"
  shows "v6_layout hs = Some (hs, 0, [])"
proof -
  have "hs ! i \<noteq> []" if "i < 8" for i
    using assms nth_mem [of i hs] that by metis
  then have "filter (\<lambda>i. hs ! i = []) [1..<length hs - 1] = []"
    by (simp add: filter_empty_conv assms(1))
  moreover have "hs \<noteq> []" using assms(1) by auto
  moreover from this have "hd hs \<noteq> []" "last hs \<noteq> []"
    using assms(2) hd_in_set last_in_set by metis+
  ultimately show ?thesis by (simp add: v6_layout_def Let_def assms(1))
qed

lemma v6_layout_compress:
  assumes "length hs = 8" "[] \<notin> set hs"
  obtains s l where "v6_layout (compress_hextets hs) = Some (take s hs, l, drop (s + l) hs)"
    "s + l \<le> 8" "\<forall>j. s \<le> j \<and> j < s + l \<longrightarrow> hs ! j = ''0''"
proof (cases hs rule: compress_hextets_cases)
  case same
  then show thesis by (intro that [of 8 0]) (auto simp: v6_layout_full assms)
next
  case (run s l)
  let ?X = "if s = 0 then [[]] else take s hs"
  let ?Y = "if s + l = length hs then [[]] else drop (s + l) hs"
  have ne: "[] \<notin> set (take s hs)" "[] \<notin> set (drop (s + l) hs)"
    using assms(2) by (auto dest: in_set_takeD in_set_dropD)
  have keep: "filter (\<lambda>w. w \<noteq> []) Z = Z" if "[] \<notin> set Z" for Z :: "string list"
    using that by (induction Z) auto
  have fX: "filter (\<lambda>w. w \<noteq> []) ?X = take s hs" and fY: "filter (\<lambda>w. w \<noteq> []) ?Y = drop (s + l) hs"
    using keep [OF ne(1)] keep [OF ne(2)] by auto
  have "v6_layout (?X @ [[]] @ ?Y) = Some (filter (\<lambda>w. w \<noteq> []) ?X,
      8 - (length (filter (\<lambda>w. w \<noteq> []) ?X) + length (filter (\<lambda>w. w \<noteq> []) ?Y)), filter (\<lambda>w. w \<noteq> []) ?Y)"
    by (rule v6_layout_gap) (use ne run assms fX fY in auto)
  then have "v6_layout (compress_hextets hs) = Some (take s hs, l, drop (s + l) hs)"
    unfolding fX fY run(4) using run assms by simp
  then show thesis using that run assms by simp
qed

lemma parse_hextet_show: "0 \<le> h \<Longrightarrow> h < 2 ^ 16 \<Longrightarrow> parse_hextet (show_hex (nat h)) = Some h"
proof -
  assume h: "0 \<le> h" "h < 2 ^ 16"
  then have "nat h < 16 ^ 4" by simp
  then have "length (show_hex (nat h)) \<le> 4" by (intro length_show_hex) simp_all
  then show ?thesis using h show_hex_hex by (auto simp: parse_hextet_def list_all_iff)
qed

lemma show_hex_zero: "show_hex n = ''0'' \<Longrightarrow> n = 0"
  using parse_show_hex [of n] by (simp add: parse_hex_def digit_val_def isdigit_def)

lemma take_zeros_drop:
  assumes "s + l \<le> length vs" "\<forall>j. s \<le> j \<and> j < s + l \<longrightarrow> vs ! j = 0"
  shows "take s vs @ replicate l 0 @ drop (s + l) vs = vs"
proof -
  have "take l (drop s vs) = replicate l 0"
    using assms by (intro nth_equalityI) auto
  then show ?thesis by (metis append_take_drop_id drop_drop add.commute)
qed

lemma compress_hextets_shape:
  assumes "length hs = 8"
  shows "3 \<le> length (compress_hextets hs)" "length (compress_hextets hs) \<le> 9"
    "set (compress_hextets hs) \<subseteq> insert [] (set hs)"
proof -
  have "3 \<le> length (compress_hextets hs) \<and> length (compress_hextets hs) \<le> 9 \<and>
      set (compress_hextets hs) \<subseteq> insert [] (set hs)"
    by (cases hs rule: compress_hextets_cases)
      (use assms in \<open>auto dest: in_set_takeD in_set_dropD\<close>)
  then show "3 \<le> length (compress_hextets hs)" "length (compress_hextets hs) \<le> 9"
    "set (compress_hextets hs) \<subseteq> insert [] (set hs)"
    by simp_all
qed

definition hextet_strings :: "int \<Rightarrow> string list" where
  "hextet_strings n = map (\<lambda>h. show_hex (nat h)) (hextets_of n)"

lemma hextet_strings_chars: "w \<in> set (hextet_strings n) \<Longrightarrow> c \<in> set w \<Longrightarrow> is_hex c"
  by (auto simp: hextet_strings_def dest: show_hex_hex)

lemma length_hextets_of [simp]: "length (hextets_of n) = 8"
  by (simp add: hextets_of_def)

lemma length_hextet_strings [simp]: "length (hextet_strings n) = 8"
  by (simp add: hextet_strings_def)

lemma compressed_chars:
  "w \<in> set (compress_hextets (hextet_strings n)) \<Longrightarrow> c \<in> set w \<Longrightarrow> is_hex c"
  using compress_hextets_shape(3) [OF length_hextet_strings, of n] hextet_strings_chars by fastforce

lemma show_v6_split:
  "split_on (CHR '':'') (show_v6 n) = compress_hextets (hextet_strings n)"
proof -
  have "\<forall>w \<in> set (compress_hextets (hextet_strings n)). CHR '':'' \<notin> set w"
    using compressed_chars [of _ n "CHR '':''"] by (auto simp: is_hex_def isdigit_def)
  moreover have "compress_hextets (hextet_strings n) \<noteq> []"
    using compress_hextets_shape(1) [OF length_hextet_strings, of n] by auto
  ultimately show ?thesis
    unfolding show_v6_def hextet_strings_def [symmetric] by (rule split_on_join [rotated])
qed

lemma mapM_parse_hextets: "mapM_opt parse_hextet (hextet_strings n) = Some (hextets_of n)"
  using mapM_opt_total [of "hextets_of n" "parse_hextet \<circ> (\<lambda>h. show_hex (nat h))" id]
    parse_hextet_show hextets_of_bounds [of _ n]
  by (simp add: hextet_strings_def mapM_opt_map)

lemma mapM_opt_take_drop:
  assumes "mapM_opt f xs = Some ys"
  shows "mapM_opt f (take n xs) = Some (take n ys)" "mapM_opt f (drop n xs) = Some (drop n ys)"
  using assms by (auto simp: mapM_opt_Some intro: list_all2_takeI list_all2_dropI)

lemma parse_show_v6:
  assumes "0 \<le> n" "n < 2 ^ 128"
  shows "parse_v6 (show_v6 n) = Some n"
proof -
  let ?hs = "hextet_strings n" and ?vs = "hextets_of n"
  let ?parts = "compress_hextets ?hs"
  have "[] \<notin> set ?hs" by (simp add: hextet_strings_def image_iff) (metis show_hex_nonempty)
  then obtain s l where lay: "v6_layout ?parts = Some (take s ?hs, l, drop (s + l) ?hs)"
      and sl: "s + l \<le> 8" and z: "\<forall>j. s \<le> j \<and> j < s + l \<longrightarrow> ?hs ! j = ''0''"
    by (rule v6_layout_compress [OF length_hextet_strings])
  have "?vs ! j = 0" if "s \<le> j" "j < s + l" for j
  proof -
    have "show_hex (nat (?vs ! j)) = ''0''"
      using z that sl by (simp add: hextet_strings_def)
    moreover have "?vs ! j \<in> set ?vs" using that sl by (intro nth_mem) simp
    ultimately show ?thesis using show_hex_zero hextets_of_bounds by fastforce
  qed
  then have vs: "take s ?vs @ replicate l 0 @ drop (s + l) ?vs = ?vs"
    using sl by (intro take_zeros_drop) auto
  have len: "3 \<le> length ?parts" "length ?parts \<le> 9" by (simp_all add: compress_hextets_shape)
  then have "last ?parts \<in> set ?parts" by (intro last_in_set) auto
  then have "CHR ''.'' \<notin> set (last ?parts)"
    using compressed_chars [of "last ?parts" n "CHR ''.''"] by (auto simp: is_hex_def isdigit_def)
  then have "expand_v4_suffix ?parts = Some ?parts" by (simp add: expand_v4_suffix_def)
  then show ?thesis
    using len mapM_opt_take_drop [OF mapM_parse_hextets [of n]] from_digits_hextets [OF assms]
    by (simp add: parse_v6_def show_v6_split lay vs)
qed

subsection \<open>Addresses and networks: round trips and well-formedness\<close>

lemma parse_hextet_bounds: "parse_hextet s = Some h \<Longrightarrow> 0 \<le> h \<and> h < 2 ^ 16"
proof -
  assume "parse_hextet s = Some h"
  then have s: "list_all is_hex s" "length s \<le> 4" "h = int (parse_hex s)"
    by (auto simp: parse_hextet_def split: if_splits)
  have "parse_hex s < 16 ^ length s" by (rule parse_hex_bound [OF s(1)])
  also have "\<dots> \<le> 16 ^ 4" using s(2) by (intro power_increasing) simp_all
  finally show ?thesis using s(3) by simp
qed

lemma v6_layout_length:
  assumes "v6_layout parts = Some (hi, k, lo)"
  shows "length hi + k + length lo = 8"
proof -
  let ?gaps = "filter (\<lambda>i. parts ! i = []) [1..<length parts - 1]"
  show ?thesis
  proof (cases ?gaps)
    case Nil
    then show ?thesis using assms by (simp add: v6_layout_def Let_def split: if_splits)
  next
    case (Cons i ks)
    then have "i \<in> set ?gaps" by simp
    then have "1 \<le> i" "i < length parts - 1" by auto
    then show ?thesis
      using assms Cons by (auto simp: v6_layout_def Let_def split: list.splits if_splits)
  qed
qed

lemma parse_v6_bounds:
  assumes "parse_v6 s = Some n"
  shows "0 \<le> n \<and> n < 2 ^ 128"
proof -
  obtain parts hi k lo his los where lay: "v6_layout parts = Some (hi, k, lo)"
    and m: "mapM_opt parse_hextet hi = Some his" "mapM_opt parse_hextet lo = Some los"
    and n: "n = from_digits (2 ^ 16) (his @ replicate k 0 @ los)"
    using assms by (auto simp: parse_v6_def Let_def bind_eq_Some_conv split: if_splits)
  have bounds: "\<forall>d \<in> set ds. 0 \<le> d \<and> d < 2 ^ 16" if "mapM_opt parse_hextet ws = Some ds" for ws ds
    using that parse_hextet_bounds by (fastforce simp: mapM_opt_Some list_all2_conv_all_nth in_set_conv_nth)
  have "length his = length hi" "length los = length lo"
    using m by (auto simp: mapM_opt_Some dest: list_all2_lengthD)
  then have len: "length (his @ replicate k 0 @ los) = 8"
    using v6_layout_length [OF lay] by simp
  have "\<forall>d \<in> set (his @ replicate k 0 @ los). 0 \<le> d \<and> d < 2 ^ 16"
    using bounds [OF m(1)] bounds [OF m(2)] by auto
  from from_digits_bound [OF this] show ?thesis
    unfolding n len by (simp only: power_mult [symmetric]) simp
qed

lemma parse_v4_chars:
  assumes "parse_v4 s = Some n" "c \<in> set s"
  shows "isdigit c \<or> c = CHR ''.''"
proof -
  obtain ds where "mapM_opt parse_octet (split_on (CHR ''.'') s) = Some ds"
    using assms(1) by (auto simp: parse_v4_def Let_def split: if_splits)
  then have "\<forall>w \<in> set (split_on (CHR ''.'') s). all_digits w"
    by (auto simp: mapM_opt_Some list_all2_conv_all_nth in_set_conv_nth parse_octet_def str_isdigit_def
        split: if_splits)
  moreover have "c \<in> insert (CHR ''.'') (\<Union> (set ` set (split_on (CHR ''.'') s)))"
    using assms(2) set_join_single [of "CHR ''.''" "split_on (CHR ''.'') s"] by (auto simp: join_split_on)
  ultimately show ?thesis by (auto simp: list_all_iff)
qed

lemma show_v6_chars: "c \<in> set (show_v6 n) \<Longrightarrow> is_hex c \<or> c = CHR '':''"
  using set_join_single [of "CHR '':''" "compress_hextets (hextet_strings n)"] compressed_chars [of _ n c]
  unfolding show_v6_def hextet_strings_def [symmetric] by blast

lemma show_v6_colon: "CHR '':'' \<in> set (show_v6 n)"
  using compress_hextets_shape(1) [OF length_hextet_strings, of n]
  unfolding show_v6_def hextet_strings_def [symmetric] by (intro join_has_sep) simp

lemma wf_ip_v4: "wf_ip a \<Longrightarrow> ip_ver a = V4 \<Longrightarrow> ip_scope a = None"
  by (auto simp: wf_ip_def split: option.splits)

lemma show_ip_no_slash:
  assumes "wf_ip a"
  shows "CHR ''/'' \<notin> set (show_ip a)"
  using assms show_v4_chars [of "CHR ''/''"] show_v6_chars [of "CHR ''/''"]
  by (auto simp: show_ip_def wf_ip_def is_hex_def isdigit_def split: ipver.splits option.splits)

lemma ipv4_address_show: "wf_ip a \<Longrightarrow> ip_ver a = V4 \<Longrightarrow> ipv4_address (show_ip a) = Some a"
  using show_ip_no_slash [of a] wf_ip_v4 [of a]
  by (simp add: ipv4_address_def show_ip_def parse_show_v4 wf_ip_def v4_def)

lemma ipv4_address_colon: "CHR '':'' \<in> set s \<Longrightarrow> ipv4_address s = None"
  using parse_v4_chars [of s _ "CHR '':''"] by (cases "parse_v4 s") (auto simp: ipv4_address_def isdigit_def)

lemma show_ip_v6_colon: "ip_ver a = V6 \<Longrightarrow> CHR '':'' \<in> set (show_ip a)"
  using show_v6_colon by (simp add: show_ip_def)

lemma ipv6_address_show:
  assumes "wf_ip a" "ip_ver a = V6"
  shows "ipv6_address (show_ip a) = Some a"
proof -
  have pc: "CHR ''%'' \<notin> set (show_v6 (ip_int a))"
    using show_v6_chars [of "CHR ''%''" "ip_int a"] by (auto simp: is_hex_def isdigit_def)
  have p: "parse_v6 (show_v6 (ip_int a)) = Some (ip_int a)"
    using assms by (intro parse_show_v6) (auto simp: wf_ip_def)
  show ?thesis
    using assms p pc show_ip_no_slash [OF assms(1)]
    by (cases "ip_scope a")
      (auto simp: ipv6_address_def show_ip_def wf_ip_def partition_str_none partition_str_app)
qed

text \<open>Printing an address and parsing it again gives the address.\<close>

lemma ip_address_show: "wf_ip a \<Longrightarrow> ip_address (show_ip a) = Some a"
  using ipv4_address_show [of a] ipv6_address_show [of a] ipv4_address_colon [OF show_ip_v6_colon, of a]
  by (cases "ip_ver a") (simp_all add: ip_address_def)

lemma wf_ipv4_address: "ipv4_address s = Some a \<Longrightarrow> wf_ip a \<and> ip_ver a = V4"
  by (auto simp: ipv4_address_def wf_ip_def v4_def dest: parse_v4_bounds split: if_splits)

lemma set_partition_str:
  "partition_str [d] s = (a, f, b) \<Longrightarrow> set a \<subseteq> set s \<and> set b \<subseteq> set s"
  by (cases d s rule: partition_str_cases) auto

lemma wf_ipv6_address:
  assumes "ipv6_address s = Some a"
  shows "wf_ip a \<and> ip_ver a = V6"
proof -
  obtain addr f sc where p: "partition_str ''%'' s = (addr, f, sc)" by (cases "partition_str ''%'' s")
  then have "set sc \<subseteq> set s" using set_partition_str by blast
  with assms p show ?thesis
    by (auto simp: ipv6_address_def wf_ip_def dest!: parse_v6_bounds split: if_splits)
qed

lemma wf_ip_address: "ip_address s = Some a \<Longrightarrow> wf_ip a"
  by (auto simp: ip_address_def dest: wf_ipv4_address wf_ipv6_address split: option.splits)

lemma mk_net_simps [simp]:
  "net_ver (mk_net a p) = ip_ver a" "prefixlen (mk_net a p) = p"
  "net_int (mk_net a p) = ip_int a AND ip_int_from_prefix (ip_ver a) p"
  by (simp_all add: mk_net_def Let_def)

lemma wf_mk_net:
  assumes "wf_ip a" "p \<le> width (ip_ver a)"
  shows "wf_net (mk_net a p)"
proof -
  let ?m = "ip_int a AND ip_int_from_prefix (ip_ver a) p"
  have le: "?m \<le> ip_int a" using assms by (intro AND_upper1) (simp add: wf_ip_def)
  have ge: "0 \<le> ?m" using assms by (simp add: wf_ip_def)
  have "wf_ip (network_address (mk_net a p))"
  proof (cases "?m = ip_int a")
    case True
    then show ?thesis using assms(1) by (simp add: mk_net_def)
  next
    case False
    then show ?thesis using assms(1) le ge by (simp add: mk_net_def Let_def wf_ip_def)
  qed
  then show ?thesis
    using assms by (simp add: wf_net_def netmask_def and.assoc)
qed

lemma prefix_from_ip_int_le: "prefix_from_ip_int n = Some p \<Longrightarrow> p \<le> 32"
  by (auto simp: prefix_from_ip_int_def find_Some_iff)

lemma make_netmask_le: "make_netmask v s = Some p \<Longrightarrow> p \<le> width v"
  by (cases v) (auto simp: make_netmask_def prefix_from_prefix_string_def prefix_from_ip_string_def
      bind_eq_Some_conv dest: prefix_from_ip_int_le split: option.splits if_splits)

lemma wf_net_from_string:
  assumes "net_from_string f v s = Some n" "\<And>t a. f t = Some a \<Longrightarrow> wf_ip a \<and> ip_ver a = v"
  shows "wf_net n \<and> net_ver n = v"
  using assms make_netmask_le
  by (fastforce simp: net_from_string_def bind_eq_Some_conv intro!: wf_mk_net split: list.splits)

lemma wf_ip_network: "ip_network s = Some n \<Longrightarrow> wf_net n"
  using wf_net_from_string [OF _ wf_ipv4_address] wf_net_from_string [OF _ wf_ipv6_address]
  by (fastforce simp: ip_network_def split: option.splits)

lemma mk_net_wf: "wf_net n \<Longrightarrow> mk_net (network_address n) (prefixlen n) = n"
  by (simp add: mk_net_def wf_net_def netmask_def)

lemma split_show_net:
  assumes "wf_net n"
  shows "split_on (CHR ''/'') (show_net n) = [show_ip (network_address n), show_nat (prefixlen n)]"
proof -
  have "CHR ''/'' \<notin> set (show_ip (network_address n))"
    using assms by (intro show_ip_no_slash) (simp add: wf_net_def)
  moreover have "CHR ''/'' \<notin> set (show_nat (prefixlen n))"
    using show_nat_digit [of "CHR ''/''"] by (auto simp: isdigit_def)
  ultimately show ?thesis by (simp add: show_net_def split_on_append_no_sep split_on_atom)
qed

lemma make_netmask_show: "p \<le> width v \<Longrightarrow> make_netmask v (show_nat p) = Some p"
  by (cases v) (simp_all add: make_netmask_def prefix_from_prefix_string_def str_isdigit_def)

lemma ip_network_show:
  assumes "wf_net n"
  shows "ip_network (show_net n) = Some n"
proof -
  have wf: "wf_ip (network_address n)" "prefixlen n \<le> width (net_ver n)"
    using assms by (simp_all add: wf_net_def)
  show ?thesis
  proof (cases "net_ver n")
    case V4
    then show ?thesis
      using wf by (simp add: ip_network_def net_from_string_def split_show_net [OF assms]
          ipv4_address_show make_netmask_show [of _ V4] mk_net_wf [OF assms])
  next
    case V6
    have "ipv4_address (show_ip (network_address n)) = None"
      by (rule ipv4_address_colon [OF show_ip_v6_colon [OF V6]])
    then show ?thesis
      using wf V6 by (simp add: ip_network_def net_from_string_def split_show_net [OF assms]
          ipv6_address_show make_netmask_show [of _ V6] mk_net_wf [OF assms])
  qed
qed

text \<open>An address is the network of its full prefix.\<close>

lemma in_net_full: "wf_ip a \<Longrightarrow> in_net a (mk_net a (width (ip_ver a)))"
  by (simp add: in_net_def netmask_def)

text \<open>The text of an address is also the text of the network of this one address.\<close>

lemma ip_network_of_address:
  assumes "ip_address s = Some a"
  shows "ip_network s = Some (mk_net a (width (ip_ver a)))"
proof (cases "ipv4_address s")
  case (Some b)
  then have "CHR ''/'' \<notin> set s" by (auto simp: ipv4_address_def split: if_splits)
  then show ?thesis
    using assms Some wf_ipv4_address [OF Some]
    by (simp add: ip_address_def ip_network_def net_from_string_def split_on_atom)
next
  case None
  then have v6: "ipv6_address s = Some a" using assms by (simp add: ip_address_def)
  then have "CHR ''/'' \<notin> set s" by (auto simp: ipv6_address_def split: if_splits)
  then show ?thesis
    using None v6 wf_ipv6_address [OF v6]
    by (simp add: ip_network_def net_from_string_def split_on_atom)
qed

lemma in_net_cong: "ip_ver a = ip_ver b \<Longrightarrow> ip_int a = ip_int b \<Longrightarrow> in_net a n = in_net b n"
  by (simp add: in_net_def)

lemma host_net_ends:
  assumes "wf_ip a"
  defines "n \<equiv> mk_net a (width (ip_ver a))"
  shows "in_net (network_address n) m = in_net a m" "in_net (broadcast_address n) m = in_net a m"
proof -
  have wf: "wf_net n" using assms by (simp add: wf_mk_net)
  have "net_int n = ip_int a"
    using and_netmask [of a n] assms(1) by (simp add: n_def netmask_def block_def)
  moreover have "ip_int (broadcast_address n) = net_int n"
    using broadcast_block [OF wf] by (simp add: block_def n_def)
  ultimately show "in_net (network_address n) m = in_net a m" "in_net (broadcast_address n) m = in_net a m"
    by (auto intro!: in_net_cong simp: n_def)
qed

lemma mapped_private:
  assumes "wf_ip a" "ipv4_mapped a = Some b"
  shows "plain_private a"
proof -
  have ver: "ip_ver a = V6" and hi: "ip_int a div 2 ^ 32 = 0xFFFF"
    using assms(2) by (auto simp: ipv4_mapped_def split: if_splits)
  let ?n = "net6 [0, 0, 0, 0, 0, 0xFFFF] 96"
  have wf: "wf_net ?n" by code_simp
  have ends: "net_int ?n = 0xFFFF * 2 ^ 32" "ip_int (broadcast_address ?n) = 0xFFFF * 2 ^ 32 + (2 ^ 32 - 1)"
    by code_simp+
  have bounds: "0xFFFF * 2 ^ 32 \<le> ip_int a" "ip_int a < 0xFFFF * 2 ^ 32 + 2 ^ 32"
    using hi div_eq_range [where b = "2 ^ 32" and x = "ip_int a" and m = "0xFFFF"] by simp_all
  have inn: "in_net a ?n"
    using bounds ver by (simp add: in_net_range [OF assms(1) wf] ends) (simp add: net6_def v6_def)
  have "list_all (\<lambda>e. wf_net e \<and> 0xFFFF * 2 ^ 32 + 2 ^ 32 \<le> net_int e) (private_exceptions V6)"
    by code_simp
  then have "list_all (\<lambda>e. \<not> in_net a e) (private_exceptions V6)"
    using bounds(2) by (force simp: list_all_iff in_net_range [OF assms(1)])
  then show ?thesis
    using inn ver by (auto simp: plain_private_def private_networks_def)
qed

lemma host_net_is_global:
  assumes "wf_ip a" "net_is_global (mk_net a (width (ip_ver a)))"
  shows "is_global a"
proof -
  have "both_in (mk_net a (width (ip_ver a))) = in_net a"
    by (simp add: fun_eq_iff both_in_def host_net_ends [OF assms(1)])
  then have pub: "\<not> in_net a shared_network" "\<not> plain_private a"
    using assms(2)
    by (simp_all add: net_is_global_def net_is_private_def plain_private_def host_net_ends [OF assms(1)])
  then have "unmapped a = a"
    using mapped_private [OF assms(1)] by (cases "ipv4_mapped a") (auto simp: unmapped_def)
  then show ?thesis using pub by (simp add: is_global_def)
qed

end
