(* ===== verification/Urls.thy ===== *)
theory Urls
  imports IpAddress
begin

text \<open>
  Python's \<open>urllib.parse.urlsplit\<close> (3.12) and the attributes of its result that the platform
  reads: scheme, network location, path, query, user name, password, host name and port. A
  \<open>ValueError\<close> is \<^const>\<open>None\<close>.

  The Unicode tables of the standard library are a parameter: \<open>idna\<close> is
  \<open>v.encode("idna")\<close> (\<^const>\<open>None\<close> for a \<open>UnicodeError\<close>) and \<open>nfkc_ok\<close> the check of
  \<open>urlsplit\<close> that compatibility normalisation of a network location brings up no delimiter.
  Both are consulted only for text outside ASCII.
\<close>

record unicode =
  idna :: "string \<Rightarrow> string option"
  nfkc_ok :: "string \<Rightarrow> bool"

definition is_ascii :: "string \<Rightarrow> bool" where
  "is_ascii s = list_all (\<lambda>c. code c < 128) s"

record split_result =
  scheme :: string
  netloc :: string
  path :: string
  query :: string
  fragment :: string

definition scheme_char :: "char \<Rightarrow> bool" where
  "scheme_char c \<longleftrightarrow> islower c \<or> isupper c \<or> isdigit c \<or> c \<in> {CHR ''+'', CHR ''-'', CHR ''.''}"

text \<open>\<open>v[a-fA-F0-9]+\..+\<close>\<close>

definition ipvfuture :: "string \<Rightarrow> bool" where
  "ipvfuture h =
     (case partition_str ''.'' (drop 1 h) of
        (hex, found, rest) \<Rightarrow> found \<and> hex \<noteq> [] \<and> list_all is_hex hex \<and> rest \<noteq> [])"

definition check_bracketed_host :: "string \<Rightarrow> bool" where
  "check_bracketed_host h =
     (if startswith h ''v'' then ipvfuture h
      else (case ip_address h of None \<Rightarrow> False | Some a \<Rightarrow> ip_ver a = V6))"

definition after_at :: "string \<Rightarrow> string" where
  "after_at s = (case rpartition (CHR ''@'') s of (_, _, t) \<Rightarrow> t)"

definition check_bracketed_netloc :: "string \<Rightarrow> bool" where
  "check_bracketed_netloc loc =
     (case partition_str ''['' (after_at loc) of (pre, opened, rest) \<Rightarrow>
        if opened
        then pre = [] \<and>
          (case partition_str '']'' rest of (h, _, p) \<Rightarrow> (p = [] \<or> startswith p '':'') \<and> check_bracketed_host h)
        else (case partition_str '':'' (after_at loc) of (h, _, _) \<Rightarrow> check_bracketed_host h))"

definition netloc_ok :: "unicode \<Rightarrow> string \<Rightarrow> bool" where
  "netloc_ok u loc \<longleftrightarrow>
     ((CHR ''['' \<in> set loc) = (CHR '']'' \<in> set loc)) \<and>
     (CHR ''['' \<in> set loc \<longrightarrow> check_bracketed_netloc loc) \<and>
     (is_ascii loc \<or> nfkc_ok u loc)"

definition split_scheme :: "string \<Rightarrow> string \<times> string" where
  "split_scheme url =
     (case partition_str '':'' url of (a, found, b) \<Rightarrow>
        if found \<and> a \<noteq> [] \<and> (islower (hd a) \<or> isupper (hd a)) \<and> list_all scheme_char a
        then (map lower_char a, b) else ([], url))"

definition split_netloc :: "string \<Rightarrow> string \<times> string" where
  "split_netloc url =
     (if startswith url ''//''
      then (takeWhile (\<lambda>c. c \<notin> set ''/?#'') (drop 2 url), dropWhile (\<lambda>c. c \<notin> set ''/?#'') (drop 2 url))
      else ([], url))"

definition urlsplit :: "unicode \<Rightarrow> string \<Rightarrow> split_result option" where
  "urlsplit u text =
     (let url = filter (\<lambda>c. c \<notin> {CHR 0x09, CHR 0x0A, CHR 0x0D}) (lstrip_by (\<lambda>c. code c \<le> 32) text);
          (sch, r1) = split_scheme url;
          (loc, r2) = split_netloc r1;
          (r3, _, frag) = partition_str ''#'' r2;
          (pth, _, qry) = partition_str ''?'' r3 in
      if netloc_ok u loc
      then Some \<lparr>scheme = sch, netloc = loc, path = pth, query = qry, fragment = frag\<rparr>
      else None)"

subsection \<open>Attributes\<close>

text \<open>\<open>_hostinfo\<close>: the host and the text of the port.\<close>

definition hostinfo :: "string \<Rightarrow> string \<times> string" where
  "hostinfo loc =
     (case partition_str ''['' (after_at loc) of (_, opened, rest) \<Rightarrow>
        if opened
        then (case partition_str '']'' rest of (h, _, p) \<Rightarrow>
                (h, (case partition_str '':'' p of (_, _, port) \<Rightarrow> port)))
        else (case partition_str '':'' (after_at loc) of (h, _, port) \<Rightarrow> (h, port)))"

definition hostname :: "split_result \<Rightarrow> string option" where
  "hostname p =
     (let h = fst (hostinfo (netloc p)) in
      if h = [] then None
      else (case partition_str ''%'' h of (a, found, zone) \<Rightarrow>
              Some (map lower_char a @ (if found then ''%'' @ zone else []))))"

text \<open>\<open>port\<close>: the outer option is the \<open>ValueError\<close>, the inner one an absent port.\<close>

definition url_port :: "split_result \<Rightarrow> int option option" where
  "url_port p =
     (let t = snd (hostinfo (netloc p)) in
      if t = [] then Some None
      else if str_isdigit t \<and> int (parse_nat t) \<le> 65535 then Some (Some (int (parse_nat t)))
      else None)"

definition userinfo :: "split_result \<Rightarrow> string option \<times> string option" where
  "userinfo p =
     (case rpartition (CHR ''@'') (netloc p) of (info, found, _) \<Rightarrow>
        if found
        then (case partition_str '':'' info of (user, has_pw, pw) \<Rightarrow> (Some user, if has_pw then Some pw else None))
        else (None, None))"

definition truthy :: "string option \<Rightarrow> bool" where
  "truthy o' = (case o' of None \<Rightarrow> False | Some s \<Rightarrow> s \<noteq> [])"

definition has_credentials :: "split_result \<Rightarrow> bool" where
  "has_credentials p \<longleftrightarrow> truthy (fst (userinfo p)) \<or> truthy (snd (userinfo p))"

end
