(* ===== verification/Enums.thy ===== *)
theory Enums
  imports Prelude
begin

text \<open>
  The enumerations of the platform and of the sensors: \<^verbatim>\<open>backend/app/models/enums.py\<close>,
  \<^verbatim>\<open>workers/asm_sensors/observations.py\<close>, \<^verbatim>\<open>StageType\<close> of
  \<^verbatim>\<open>workers/asm_sensors/base.py\<close> and \<^verbatim>\<open>TargetKind\<close> of
  \<^verbatim>\<open>workers/asm_sensors/targets.py\<close>. Each \<open>StrEnum\<close> is a datatype with the members of
  the source in their order; members are written with their type, as in
  \<open>asset_type.PORT\<close>, because the enumerations share member names. The functions
  \<open>*_value\<close> give the stored string of a member. The groups of members the code names
  (open findings, active scans, hostname types, ...) follow, and severities carry the
  linear order of their rank.
\<close>

datatype stage_type =
   SUBDOMAIN_DISCOVERY | DNS_RESOLUTION | IP_ENRICHMENT | PORT_DISCOVERY | HTTP_DISCOVERY
     | WEB_CRAWL | VULNERABILITY_DETECTION | OSINT_ENRICHMENT

primrec stage_type_value :: "stage_type \<Rightarrow> string" where
  "stage_type_value stage_type.SUBDOMAIN_DISCOVERY = ''subdomain_discovery''"
| "stage_type_value stage_type.DNS_RESOLUTION = ''dns_resolution''"
| "stage_type_value stage_type.IP_ENRICHMENT = ''ip_enrichment''"
| "stage_type_value stage_type.PORT_DISCOVERY = ''port_discovery''"
| "stage_type_value stage_type.HTTP_DISCOVERY = ''http_discovery''"
| "stage_type_value stage_type.WEB_CRAWL = ''web_crawl''"
| "stage_type_value stage_type.VULNERABILITY_DETECTION = ''vulnerability_detection''"
| "stage_type_value stage_type.OSINT_ENRICHMENT = ''osint_enrichment''"

datatype target_kind =
   DOMAIN | HOSTNAME | IP | CIDR | HOST_PORT | URL

primrec target_kind_value :: "target_kind \<Rightarrow> string" where
  "target_kind_value target_kind.DOMAIN = ''domain''"
| "target_kind_value target_kind.HOSTNAME = ''hostname''"
| "target_kind_value target_kind.IP = ''ip''"
| "target_kind_value target_kind.CIDR = ''cidr''"
| "target_kind_value target_kind.HOST_PORT = ''host_port''"
| "target_kind_value target_kind.URL = ''url''"

datatype observed_type =
   HOSTNAME | IP_ADDRESS | CIDR | ASN | DNS_RECORD | CERTIFICATE | PORT | SERVICE | HTTP_ENDPOINT
     | WEB_APPLICATION | TECHNOLOGY | CLOUD_RESOURCE

primrec observed_type_value :: "observed_type \<Rightarrow> string" where
  "observed_type_value observed_type.HOSTNAME = ''hostname''"
| "observed_type_value observed_type.IP_ADDRESS = ''ip_address''"
| "observed_type_value observed_type.CIDR = ''cidr''"
| "observed_type_value observed_type.ASN = ''asn''"
| "observed_type_value observed_type.DNS_RECORD = ''dns_record''"
| "observed_type_value observed_type.CERTIFICATE = ''certificate''"
| "observed_type_value observed_type.PORT = ''port''"
| "observed_type_value observed_type.SERVICE = ''service''"
| "observed_type_value observed_type.HTTP_ENDPOINT = ''http_endpoint''"
| "observed_type_value observed_type.WEB_APPLICATION = ''web_application''"
| "observed_type_value observed_type.TECHNOLOGY = ''technology''"
| "observed_type_value observed_type.CLOUD_RESOURCE = ''cloud_resource''"

datatype relation_type =
   RESOLVES_TO | CNAME | NS_RECORD | MX_RECORD | PTR | SUBDOMAIN_OF | CONTAINS | ANNOUNCES
     | BELONGS_TO_ASN | HAS_PORT | RUNS_SERVICE | SERVES | HOSTED_ON | USES_TECHNOLOGY
     | PRESENTS_CERTIFICATE | CERTIFICATE_FOR | HOSTED_BY | REDIRECTS_TO | RELATED_TO

primrec relation_type_value :: "relation_type \<Rightarrow> string" where
  "relation_type_value relation_type.RESOLVES_TO = ''resolves_to''"
| "relation_type_value relation_type.CNAME = ''cname''"
| "relation_type_value relation_type.NS_RECORD = ''ns_record''"
| "relation_type_value relation_type.MX_RECORD = ''mx_record''"
| "relation_type_value relation_type.PTR = ''ptr''"
| "relation_type_value relation_type.SUBDOMAIN_OF = ''subdomain_of''"
| "relation_type_value relation_type.CONTAINS = ''contains''"
| "relation_type_value relation_type.ANNOUNCES = ''announces''"
| "relation_type_value relation_type.BELONGS_TO_ASN = ''belongs_to_asn''"
| "relation_type_value relation_type.HAS_PORT = ''has_port''"
| "relation_type_value relation_type.RUNS_SERVICE = ''runs_service''"
| "relation_type_value relation_type.SERVES = ''serves''"
| "relation_type_value relation_type.HOSTED_ON = ''hosted_on''"
| "relation_type_value relation_type.USES_TECHNOLOGY = ''uses_technology''"
| "relation_type_value relation_type.PRESENTS_CERTIFICATE = ''presents_certificate''"
| "relation_type_value relation_type.CERTIFICATE_FOR = ''certificate_for''"
| "relation_type_value relation_type.HOSTED_BY = ''hosted_by''"
| "relation_type_value relation_type.REDIRECTS_TO = ''redirects_to''"
| "relation_type_value relation_type.RELATED_TO = ''related_to''"

datatype severity =
   INFO | LOW | MEDIUM | HIGH | CRITICAL

primrec severity_value :: "severity \<Rightarrow> string" where
  "severity_value severity.INFO = ''info''"
| "severity_value severity.LOW = ''low''"
| "severity_value severity.MEDIUM = ''medium''"
| "severity_value severity.HIGH = ''high''"
| "severity_value severity.CRITICAL = ''critical''"

datatype finding_category =
   VULNERABILITY | EXPOSURE | MISCONFIGURATION | CERTIFICATE | SERVICE_EXPOSURE | INFORMATION
     | CREDENTIAL_LEAK

primrec finding_category_value :: "finding_category \<Rightarrow> string" where
  "finding_category_value finding_category.VULNERABILITY = ''vulnerability''"
| "finding_category_value finding_category.EXPOSURE = ''exposure''"
| "finding_category_value finding_category.MISCONFIGURATION = ''misconfiguration''"
| "finding_category_value finding_category.CERTIFICATE = ''certificate''"
| "finding_category_value finding_category.SERVICE_EXPOSURE = ''service_exposure''"
| "finding_category_value finding_category.INFORMATION = ''information''"
| "finding_category_value finding_category.CREDENTIAL_LEAK = ''credential_leak''"

datatype role =
   PLATFORM_ADMIN | TENANT_ADMIN | SECURITY_ANALYST | VIEWER

primrec role_value :: "role \<Rightarrow> string" where
  "role_value role.PLATFORM_ADMIN = ''platform_admin''"
| "role_value role.TENANT_ADMIN = ''tenant_admin''"
| "role_value role.SECURITY_ANALYST = ''security_analyst''"
| "role_value role.VIEWER = ''viewer''"

datatype tenant_status =
   ACTIVE | SUSPENDED

primrec tenant_status_value :: "tenant_status \<Rightarrow> string" where
  "tenant_status_value tenant_status.ACTIVE = ''active''"
| "tenant_status_value tenant_status.SUSPENDED = ''suspended''"

datatype asset_type =
   ROOT_DOMAIN | DOMAIN | SUBDOMAIN | IP_ADDRESS | CIDR | ASN | DNS_RECORD | CERTIFICATE | PORT
     | SERVICE | HTTP_ENDPOINT | WEB_APPLICATION | TECHNOLOGY | CLOUD_RESOURCE

primrec asset_type_value :: "asset_type \<Rightarrow> string" where
  "asset_type_value asset_type.ROOT_DOMAIN = ''root_domain''"
| "asset_type_value asset_type.DOMAIN = ''domain''"
| "asset_type_value asset_type.SUBDOMAIN = ''subdomain''"
| "asset_type_value asset_type.IP_ADDRESS = ''ip_address''"
| "asset_type_value asset_type.CIDR = ''cidr''"
| "asset_type_value asset_type.ASN = ''asn''"
| "asset_type_value asset_type.DNS_RECORD = ''dns_record''"
| "asset_type_value asset_type.CERTIFICATE = ''certificate''"
| "asset_type_value asset_type.PORT = ''port''"
| "asset_type_value asset_type.SERVICE = ''service''"
| "asset_type_value asset_type.HTTP_ENDPOINT = ''http_endpoint''"
| "asset_type_value asset_type.WEB_APPLICATION = ''web_application''"
| "asset_type_value asset_type.TECHNOLOGY = ''technology''"
| "asset_type_value asset_type.CLOUD_RESOURCE = ''cloud_resource''"

datatype asset_status =
   ACTIVE | INACTIVE

primrec asset_status_value :: "asset_status \<Rightarrow> string" where
  "asset_status_value asset_status.ACTIVE = ''active''"
| "asset_status_value asset_status.INACTIVE = ''inactive''"

datatype scope_status =
   IN_SCOPE | DERIVED | OUT_OF_SCOPE

primrec scope_status_value :: "scope_status \<Rightarrow> string" where
  "scope_status_value scope_status.IN_SCOPE = ''in_scope''"
| "scope_status_value scope_status.DERIVED = ''derived''"
| "scope_status_value scope_status.OUT_OF_SCOPE = ''out_of_scope''"

datatype approval_status =
   UNVERIFIED | APPROVED | EXPECTED | THIRD_PARTY | UNKNOWN | UNAUTHORIZED | DECOMMISSIONED

primrec approval_status_value :: "approval_status \<Rightarrow> string" where
  "approval_status_value approval_status.UNVERIFIED = ''unverified''"
| "approval_status_value approval_status.APPROVED = ''approved''"
| "approval_status_value approval_status.EXPECTED = ''expected''"
| "approval_status_value approval_status.THIRD_PARTY = ''third_party''"
| "approval_status_value approval_status.UNKNOWN = ''unknown''"
| "approval_status_value approval_status.UNAUTHORIZED = ''unauthorized''"
| "approval_status_value approval_status.DECOMMISSIONED = ''decommissioned''"

datatype criticality =
   LOW | MEDIUM | HIGH | CRITICAL

primrec criticality_value :: "criticality \<Rightarrow> string" where
  "criticality_value criticality.LOW = ''low''"
| "criticality_value criticality.MEDIUM = ''medium''"
| "criticality_value criticality.HIGH = ''high''"
| "criticality_value criticality.CRITICAL = ''critical''"

datatype risk_level =
   INFO | LOW | MEDIUM | HIGH | CRITICAL

primrec risk_level_value :: "risk_level \<Rightarrow> string" where
  "risk_level_value risk_level.INFO = ''info''"
| "risk_level_value risk_level.LOW = ''low''"
| "risk_level_value risk_level.MEDIUM = ''medium''"
| "risk_level_value risk_level.HIGH = ''high''"
| "risk_level_value risk_level.CRITICAL = ''critical''"

datatype finding_status =
   NEW | INVESTIGATING | ACCEPTED_RISK | FALSE_POSITIVE | REMEDIATED | REOPENED

primrec finding_status_value :: "finding_status \<Rightarrow> string" where
  "finding_status_value finding_status.NEW = ''new''"
| "finding_status_value finding_status.INVESTIGATING = ''investigating''"
| "finding_status_value finding_status.ACCEPTED_RISK = ''accepted_risk''"
| "finding_status_value finding_status.FALSE_POSITIVE = ''false_positive''"
| "finding_status_value finding_status.REMEDIATED = ''remediated''"
| "finding_status_value finding_status.REOPENED = ''reopened''"

datatype scan_status =
   PENDING | QUEUED | RUNNING | COMPLETED | PARTIAL | FAILED | CANCELLED

primrec scan_status_value :: "scan_status \<Rightarrow> string" where
  "scan_status_value scan_status.PENDING = ''pending''"
| "scan_status_value scan_status.QUEUED = ''queued''"
| "scan_status_value scan_status.RUNNING = ''running''"
| "scan_status_value scan_status.COMPLETED = ''completed''"
| "scan_status_value scan_status.PARTIAL = ''partial''"
| "scan_status_value scan_status.FAILED = ''failed''"
| "scan_status_value scan_status.CANCELLED = ''cancelled''"

datatype stage_status =
   PENDING | RUNNING | COMPLETED | PARTIAL | FAILED | SKIPPED | CANCELLED

primrec stage_status_value :: "stage_status \<Rightarrow> string" where
  "stage_status_value stage_status.PENDING = ''pending''"
| "stage_status_value stage_status.RUNNING = ''running''"
| "stage_status_value stage_status.COMPLETED = ''completed''"
| "stage_status_value stage_status.PARTIAL = ''partial''"
| "stage_status_value stage_status.FAILED = ''failed''"
| "stage_status_value stage_status.SKIPPED = ''skipped''"
| "stage_status_value stage_status.CANCELLED = ''cancelled''"

datatype scan_trigger =
   MANUAL | SCHEDULED | API

primrec scan_trigger_value :: "scan_trigger \<Rightarrow> string" where
  "scan_trigger_value scan_trigger.MANUAL = ''manual''"
| "scan_trigger_value scan_trigger.SCHEDULED = ''scheduled''"
| "scan_trigger_value scan_trigger.API = ''api''"

datatype event_type =
   NEW_ASSET | NEW_SUBDOMAIN | ASSET_DISAPPEARED | ASSET_REAPPEARED | DNS_CHANGED | IP_CHANGED
     | PORT_OPENED | PORT_CLOSED | SERVICE_DETECTED | SERVICE_CHANGED | CERTIFICATE_CHANGED
     | CERTIFICATE_EXPIRING | CERTIFICATE_EXPIRED | TECHNOLOGY_DETECTED | TECHNOLOGY_CHANGED
     | TECHNOLOGY_REMOVED | VULNERABILITY_DETECTED | VULNERABILITY_RESOLVED
     | VULNERABILITY_REOPENED | RISK_INCREASED | RISK_DECREASED | ASSET_EXPOSED
     | OWNERSHIP_CHANGED | APPROVAL_CHANGED | HOSTING_CHANGED | SHADOW_IT_DISCOVERED
     | SCAN_FAILED | SCAN_COMPLETED | THREAT_ADVISORY_MATCHED

primrec event_type_value :: "event_type \<Rightarrow> string" where
  "event_type_value event_type.NEW_ASSET = ''new_asset''"
| "event_type_value event_type.NEW_SUBDOMAIN = ''new_subdomain''"
| "event_type_value event_type.ASSET_DISAPPEARED = ''asset_disappeared''"
| "event_type_value event_type.ASSET_REAPPEARED = ''asset_reappeared''"
| "event_type_value event_type.DNS_CHANGED = ''dns_changed''"
| "event_type_value event_type.IP_CHANGED = ''ip_changed''"
| "event_type_value event_type.PORT_OPENED = ''port_opened''"
| "event_type_value event_type.PORT_CLOSED = ''port_closed''"
| "event_type_value event_type.SERVICE_DETECTED = ''service_detected''"
| "event_type_value event_type.SERVICE_CHANGED = ''service_changed''"
| "event_type_value event_type.CERTIFICATE_CHANGED = ''certificate_changed''"
| "event_type_value event_type.CERTIFICATE_EXPIRING = ''certificate_expiring''"
| "event_type_value event_type.CERTIFICATE_EXPIRED = ''certificate_expired''"
| "event_type_value event_type.TECHNOLOGY_DETECTED = ''technology_detected''"
| "event_type_value event_type.TECHNOLOGY_CHANGED = ''technology_changed''"
| "event_type_value event_type.TECHNOLOGY_REMOVED = ''technology_removed''"
| "event_type_value event_type.VULNERABILITY_DETECTED = ''vulnerability_detected''"
| "event_type_value event_type.VULNERABILITY_RESOLVED = ''vulnerability_resolved''"
| "event_type_value event_type.VULNERABILITY_REOPENED = ''vulnerability_reopened''"
| "event_type_value event_type.RISK_INCREASED = ''risk_increased''"
| "event_type_value event_type.RISK_DECREASED = ''risk_decreased''"
| "event_type_value event_type.ASSET_EXPOSED = ''asset_exposed''"
| "event_type_value event_type.OWNERSHIP_CHANGED = ''ownership_changed''"
| "event_type_value event_type.APPROVAL_CHANGED = ''approval_changed''"
| "event_type_value event_type.HOSTING_CHANGED = ''hosting_changed''"
| "event_type_value event_type.SHADOW_IT_DISCOVERED = ''shadow_it_discovered''"
| "event_type_value event_type.SCAN_FAILED = ''scan_failed''"
| "event_type_value event_type.SCAN_COMPLETED = ''scan_completed''"
| "event_type_value event_type.THREAT_ADVISORY_MATCHED = ''threat_advisory_matched''"

datatype scope_entry_type =
   DOMAIN | IP | CIDR

primrec scope_entry_type_value :: "scope_entry_type \<Rightarrow> string" where
  "scope_entry_type_value scope_entry_type.DOMAIN = ''domain''"
| "scope_entry_type_value scope_entry_type.IP = ''ip''"
| "scope_entry_type_value scope_entry_type.CIDR = ''cidr''"

datatype verification_status =
   UNVERIFIED | PENDING | VERIFIED | NOT_REQUIRED

primrec verification_status_value :: "verification_status \<Rightarrow> string" where
  "verification_status_value verification_status.UNVERIFIED = ''unverified''"
| "verification_status_value verification_status.PENDING = ''pending''"
| "verification_status_value verification_status.VERIFIED = ''verified''"
| "verification_status_value verification_status.NOT_REQUIRED = ''not_required''"

datatype decision_result =
   ALLOWED | REJECTED

primrec decision_result_value :: "decision_result \<Rightarrow> string" where
  "decision_result_value decision_result.ALLOWED = ''allowed''"
| "decision_result_value decision_result.REJECTED = ''rejected''"

datatype integration_type =
   EMAIL | WEBHOOK | WAZUH | SLACK | TEAMS | JIRA | SERVICENOW

primrec integration_type_value :: "integration_type \<Rightarrow> string" where
  "integration_type_value integration_type.EMAIL = ''email''"
| "integration_type_value integration_type.WEBHOOK = ''webhook''"
| "integration_type_value integration_type.WAZUH = ''wazuh''"
| "integration_type_value integration_type.SLACK = ''slack''"
| "integration_type_value integration_type.TEAMS = ''teams''"
| "integration_type_value integration_type.JIRA = ''jira''"
| "integration_type_value integration_type.SERVICENOW = ''servicenow''"

datatype delivery_status =
   PENDING | SENT | FAILED | SKIPPED

primrec delivery_status_value :: "delivery_status \<Rightarrow> string" where
  "delivery_status_value delivery_status.PENDING = ''pending''"
| "delivery_status_value delivery_status.SENT = ''sent''"
| "delivery_status_value delivery_status.FAILED = ''failed''"
| "delivery_status_value delivery_status.SKIPPED = ''skipped''"

datatype report_type =
   EXECUTIVE | TECHNICAL | ASSET_INVENTORY | VULNERABILITY | CHANGES | RISK_TREND

primrec report_type_value :: "report_type \<Rightarrow> string" where
  "report_type_value report_type.EXECUTIVE = ''executive''"
| "report_type_value report_type.TECHNICAL = ''technical''"
| "report_type_value report_type.ASSET_INVENTORY = ''asset_inventory''"
| "report_type_value report_type.VULNERABILITY = ''vulnerability''"
| "report_type_value report_type.CHANGES = ''changes''"
| "report_type_value report_type.RISK_TREND = ''risk_trend''"

datatype report_format =
   HTML | PDF | CSV

primrec report_format_value :: "report_format \<Rightarrow> string" where
  "report_format_value report_format.HTML = ''html''"
| "report_format_value report_format.PDF = ''pdf''"
| "report_format_value report_format.CSV = ''csv''"

datatype job_status =
   PENDING | RUNNING | COMPLETED | FAILED

primrec job_status_value :: "job_status \<Rightarrow> string" where
  "job_status_value job_status.PENDING = ''pending''"
| "job_status_value job_status.RUNNING = ''running''"
| "job_status_value job_status.COMPLETED = ''completed''"
| "job_status_value job_status.FAILED = ''failed''"

datatype advisory_status =
   DRAFT | PUBLISHED | ARCHIVED

primrec advisory_status_value :: "advisory_status \<Rightarrow> string" where
  "advisory_status_value advisory_status.DRAFT = ''draft''"
| "advisory_status_value advisory_status.PUBLISHED = ''published''"
| "advisory_status_value advisory_status.ARCHIVED = ''archived''"

datatype match_basis =
   PRODUCT | FINDING | THIRD_PARTY

primrec match_basis_value :: "match_basis \<Rightarrow> string" where
  "match_basis_value match_basis.PRODUCT = ''product''"
| "match_basis_value match_basis.FINDING = ''finding''"
| "match_basis_value match_basis.THIRD_PARTY = ''third_party''"

datatype match_status =
   POTENTIALLY_AFFECTED | VERSION_UNKNOWN | NOT_AFFECTED_VERSION | NO_LONGER_OBSERVED

primrec match_status_value :: "match_status \<Rightarrow> string" where
  "match_status_value match_status.POTENTIALLY_AFFECTED = ''potentially_affected''"
| "match_status_value match_status.VERSION_UNKNOWN = ''version_unknown''"
| "match_status_value match_status.NOT_AFFECTED_VERSION = ''not_affected_version''"
| "match_status_value match_status.NO_LONGER_OBSERVED = ''no_longer_observed''"

datatype check_outcome =
   NONE | PENDING | DETECTED | NOT_DETECTED | INCONCLUSIVE

primrec check_outcome_value :: "check_outcome \<Rightarrow> string" where
  "check_outcome_value check_outcome.NONE = ''none''"
| "check_outcome_value check_outcome.PENDING = ''pending''"
| "check_outcome_value check_outcome.DETECTED = ''detected''"
| "check_outcome_value check_outcome.NOT_DETECTED = ''not_detected''"
| "check_outcome_value check_outcome.INCONCLUSIVE = ''inconclusive''"

datatype assessment =
   CONFIRMED | CHECK_PENDING | NOT_DETECTED | INCONCLUSIVE | POTENTIALLY_AFFECTED
     | VERSION_UNKNOWN | REPORTED_UNVERIFIED | NOT_AFFECTED_VERSION | NO_LONGER_OBSERVED

primrec assessment_value :: "assessment \<Rightarrow> string" where
  "assessment_value assessment.CONFIRMED = ''confirmed''"
| "assessment_value assessment.CHECK_PENDING = ''check_pending''"
| "assessment_value assessment.NOT_DETECTED = ''not_detected''"
| "assessment_value assessment.INCONCLUSIVE = ''inconclusive''"
| "assessment_value assessment.POTENTIALLY_AFFECTED = ''potentially_affected''"
| "assessment_value assessment.VERSION_UNKNOWN = ''version_unknown''"
| "assessment_value assessment.REPORTED_UNVERIFIED = ''reported_unverified''"
| "assessment_value assessment.NOT_AFFECTED_VERSION = ''not_affected_version''"
| "assessment_value assessment.NO_LONGER_OBSERVED = ''no_longer_observed''"

datatype remediation_status =
   OPEN | IN_PROGRESS | RESOLVED | ACCEPTED_RISK | NOT_APPLICABLE

primrec remediation_status_value :: "remediation_status \<Rightarrow> string" where
  "remediation_status_value remediation_status.OPEN = ''open''"
| "remediation_status_value remediation_status.IN_PROGRESS = ''in_progress''"
| "remediation_status_value remediation_status.RESOLVED = ''resolved''"
| "remediation_status_value remediation_status.ACCEPTED_RISK = ''accepted_risk''"
| "remediation_status_value remediation_status.NOT_APPLICABLE = ''not_applicable''"

datatype check_run_status =
   QUEUED | RUNNING | COMPLETED | INCONCLUSIVE | CANCELLED

primrec check_run_status_value :: "check_run_status \<Rightarrow> string" where
  "check_run_status_value check_run_status.QUEUED = ''queued''"
| "check_run_status_value check_run_status.RUNNING = ''running''"
| "check_run_status_value check_run_status.COMPLETED = ''completed''"
| "check_run_status_value check_run_status.INCONCLUSIVE = ''inconclusive''"
| "check_run_status_value check_run_status.CANCELLED = ''cancelled''"

datatype screenshot_status =
   QUEUED | RUNNING | SUCCEEDED | FAILED | BLOCKED | CANCELLED

primrec screenshot_status_value :: "screenshot_status \<Rightarrow> string" where
  "screenshot_status_value screenshot_status.QUEUED = ''queued''"
| "screenshot_status_value screenshot_status.RUNNING = ''running''"
| "screenshot_status_value screenshot_status.SUCCEEDED = ''succeeded''"
| "screenshot_status_value screenshot_status.FAILED = ''failed''"
| "screenshot_status_value screenshot_status.BLOCKED = ''blocked''"
| "screenshot_status_value screenshot_status.CANCELLED = ''cancelled''"

subsection \<open>Groups of members\<close>

definition HOSTNAME_TYPES :: "asset_type list" where
  "HOSTNAME_TYPES = [asset_type.ROOT_DOMAIN, asset_type.DOMAIN, asset_type.SUBDOMAIN]"

definition PRIMARY_TYPES :: "asset_type list" where
  "PRIMARY_TYPES =
     [asset_type.ROOT_DOMAIN, asset_type.DOMAIN, asset_type.SUBDOMAIN, asset_type.IP_ADDRESS,
      asset_type.CIDR, asset_type.PORT, asset_type.HTTP_ENDPOINT, asset_type.CERTIFICATE,
      asset_type.CLOUD_RESOURCE, asset_type.WEB_APPLICATION]"

definition SHADOW_IT_STATES :: "approval_status list" where
  "SHADOW_IT_STATES =
     [approval_status.UNVERIFIED, approval_status.UNKNOWN, approval_status.UNAUTHORIZED]"

definition OPEN_FINDING_STATES :: "finding_status list" where
  "OPEN_FINDING_STATES =
     [finding_status.NEW, finding_status.INVESTIGATING, finding_status.REOPENED]"

definition ACTIVE_SCAN_STATES :: "scan_status list" where
  "ACTIVE_SCAN_STATES = [scan_status.PENDING, scan_status.QUEUED, scan_status.RUNNING]"

definition AFFECTED_ASSESSMENTS :: "assessment list" where
  "AFFECTED_ASSESSMENTS =
     [assessment.CONFIRMED, assessment.CHECK_PENDING, assessment.NOT_DETECTED,
      assessment.INCONCLUSIVE, assessment.POTENTIALLY_AFFECTED, assessment.VERSION_UNKNOWN,
      assessment.REPORTED_UNVERIFIED]"

definition REMEDIATION_DONE :: "remediation_status list" where
  "REMEDIATION_DONE =
     [remediation_status.RESOLVED, remediation_status.ACCEPTED_RISK,
      remediation_status.NOT_APPLICABLE]"

definition ACTIVE_CHECK_RUN_STATES :: "check_run_status list" where
  "ACTIVE_CHECK_RUN_STATES = [check_run_status.QUEUED, check_run_status.RUNNING]"

definition ACTIVE_SCREENSHOT_STATES :: "screenshot_status list" where
  "ACTIVE_SCREENSHOT_STATES = [screenshot_status.QUEUED, screenshot_status.RUNNING]"

lemmas enum_groups =
  HOSTNAME_TYPES_def PRIMARY_TYPES_def SHADOW_IT_STATES_def OPEN_FINDING_STATES_def
  ACTIVE_SCAN_STATES_def AFFECTED_ASSESSMENTS_def REMEDIATION_DONE_def
  ACTIVE_CHECK_RUN_STATES_def ACTIVE_SCREENSHOT_STATES_def

subsection \<open>The order of severities\<close>

primrec severity_rank :: "severity \<Rightarrow> nat" where
  "severity_rank severity.INFO = 0"
| "severity_rank severity.LOW = 1"
| "severity_rank severity.MEDIUM = 2"
| "severity_rank severity.HIGH = 3"
| "severity_rank severity.CRITICAL = 4"

lemma severity_rank_inj: "severity_rank a = severity_rank b \<longleftrightarrow> a = b"
  by (cases a; cases b) simp_all

instantiation severity :: linorder
begin

definition less_eq_severity :: "severity \<Rightarrow> severity \<Rightarrow> bool" where
  "less_eq_severity a b \<longleftrightarrow> severity_rank a \<le> severity_rank b"

definition less_severity :: "severity \<Rightarrow> severity \<Rightarrow> bool" where
  "less_severity a b \<longleftrightarrow> severity_rank a < severity_rank b"

instance
  by standard (auto simp: less_eq_severity_def less_severity_def severity_rank_inj)

end

text \<open>\<open>Severity.parse\<close>: unknown text falls back to the default, or to \<open>info\<close>.\<close>

definition severity_aliases :: "(string, string) dict" where
  "severity_aliases =
     [(''informational'', ''info''), (''information'', ''info''), (''none'', ''info''),
      (''unknown'', ''info''), (''moderate'', ''medium'')]"

definition severity_of_value :: "string \<Rightarrow> severity option" where
  "severity_of_value v = find (\<lambda>s. severity_value s = v)
     [severity.INFO, severity.LOW, severity.MEDIUM, severity.HIGH, severity.CRITICAL]"

definition severity_parse :: "string option \<Rightarrow> severity option \<Rightarrow> severity" where
  "severity_parse value dflt =
     (let fallback = (case dflt of None \<Rightarrow> severity.INFO | Some d \<Rightarrow> d) in
      case value of
        None \<Rightarrow> fallback
      | Some t \<Rightarrow>
          (let v = lower (strip t);
               v = (case map_of severity_aliases v of None \<Rightarrow> v | Some w \<Rightarrow> w)
           in case severity_of_value v of None \<Rightarrow> fallback | Some s \<Rightarrow> s))"

end
