(* ===== verification/Targets.thy ===== *)
theory Targets
  imports Urls Enums
begin

text \<open>
  Strict target validation in the sensor (\<open>workers/asm_sensors/targets.py\<close>): one validator per
  kind of target, the \<open>Target\<close> model with its validator, and the host of a target.
\<close>

datatype invalid_target =
    WildcardHostname
  | InvalidIdn string
  | InvalidHostname string
  | InvalidIp string
  | InvalidCidr string
  | CidrTooLarge string
  | InvalidPort string
  | ExpectedHostPort string
  | SchemeNotPermitted string
  | EmbeddedCredentials
  | UrlWhitespace
  | UrlValueError string
  | LeadingDash

subsection \<open>Hostnames\<close>

text \<open>\<open>_LABEL\<close>: 1 to 63 characters of the class, no dash at either end.\<close>

definition label_char :: "char \<Rightarrow> bool" where
  "label_char c \<longleftrightarrow> islower c \<or> isdigit c \<or> c = CHR ''_'' \<or> c = CHR ''-''"

definition LABEL :: "string \<Rightarrow> bool" where
  "LABEL w \<longleftrightarrow> 1 \<le> length w \<and> length w \<le> 63 \<and> list_all label_char w \<and>
     hd w \<noteq> CHR ''-'' \<and> last w \<noteq> CHR ''-''"

text \<open>
  The text \<open>$\<close> leaves to be matched: it also matches before one final newline.
\<close>

definition re_body :: "string \<Rightarrow> string" where
  "re_body s = (if s \<noteq> [] \<and> last s = newline then butlast s else s)"

definition HOSTNAME_RE :: "string \<Rightarrow> bool" where
  "HOSTNAME_RE s \<longleftrightarrow>
     (let b = re_body s; labels = split_on (CHR ''.'') b in
      1 \<le> length b \<and> length b \<le> 253 \<and> 2 \<le> length labels \<and> list_all LABEL labels)"

definition validate_hostname :: "unicode \<Rightarrow> string \<Rightarrow> invalid_target + string" where
  "validate_hostname u value =
     (let v = rstrip_by (\<lambda>c. c = CHR ''.'') (map lower_char (strip value)) in
      if startswith v ''*.'' then Inl WildcardHostname
      else
        bind_r (if is_ascii v then Inr v
                else (case idna u v of None \<Rightarrow> Inl (InvalidIdn value) | Some w \<Rightarrow> Inr w)) (\<lambda>v.
        if HOSTNAME_RE v then Inr v else Inl (InvalidHostname value)))"

subsection \<open>Addresses, networks and ports\<close>

definition validate_ip :: "string \<Rightarrow> invalid_target + string" where
  "validate_ip value =
     (case ip_address (strip value) of None \<Rightarrow> Inl (InvalidIp value) | Some a \<Rightarrow> Inr (show_ip a))"

definition validate_cidr :: "nat \<Rightarrow> nat \<Rightarrow> string \<Rightarrow> invalid_target + string" where
  "validate_cidr max_ipv4_prefix max_ipv6_prefix value =
     (case ip_network (strip value) of
        None \<Rightarrow> Inl (InvalidCidr value)
      | Some net \<Rightarrow>
          if prefixlen net < (if net_ver net = V4 then max_ipv4_prefix else max_ipv6_prefix)
          then Inl (CidrTooLarge (show_net net)) else Inr (show_net net))"

definition PORT_RE :: "string \<Rightarrow> bool" where
  "PORT_RE s \<longleftrightarrow> (let b = re_body s in all_digits b \<and> 1 \<le> length b \<and> length b \<le> 5)"

definition validate_port :: "string \<Rightarrow> invalid_target + int" where
  "validate_port s =
     (if \<not> PORT_RE s then Inl (InvalidPort s)
      else (case py_int s of
              None \<Rightarrow> Inl (InvalidPort s)
            | Some n \<Rightarrow> if 1 \<le> n \<and> n \<le> 65535 then Inr n else Inl (InvalidPort s)))"

definition validate_host :: "unicode \<Rightarrow> string \<Rightarrow> invalid_target + string" where
  "validate_host u h = (case validate_ip h of Inr a \<Rightarrow> Inr a | Inl _ \<Rightarrow> validate_hostname u h)"

definition split_host_port :: "unicode \<Rightarrow> string \<Rightarrow> invalid_target + string \<times> int" where
  "split_host_port u value =
     (let v = strip value in
      if startswith v ''['' then
        (case partition_str '']:'' (drop 1 v) of (h, _, p) \<Rightarrow>
           bind_r (validate_ip h) (\<lambda>a. bind_r (validate_port p) (\<lambda>n. Inr (a, n))))
      else
        (case rpartition (CHR '':'') v of (h, found, p) \<Rightarrow>
           if \<not> found then Inl (ExpectedHostPort value)
           else bind_r (validate_host u h) (\<lambda>a. bind_r (validate_port p) (\<lambda>n. Inr (a, n)))))"

definition format_host_port :: "string \<Rightarrow> int \<Rightarrow> string" where
  "format_host_port h p =
     (if CHR '':'' \<in> set h then ''['' @ h @ '']:'' @ show_int p else h @ '':'' @ show_int p)"

subsection \<open>URLs\<close>

definition bracketed :: "string \<Rightarrow> string" where
  "bracketed h = (if CHR '':'' \<in> set h then ''['' @ h @ '']'' else h)"

definition validate_url :: "unicode \<Rightarrow> string \<Rightarrow> invalid_target + string" where
  "validate_url u value =
     (let v = strip value in
      case urlsplit u v of None \<Rightarrow> Inl (UrlValueError value)
      | Some parts \<Rightarrow>
          if scheme parts \<notin> {''http'', ''https''} then Inl (SchemeNotPermitted value)
          else if has_credentials parts then Inl EmbeddedCredentials
          else bind_r (validate_host u (case hostname parts of None \<Rightarrow> [] | Some h \<Rightarrow> h)) (\<lambda>h.
            if list_ex isspace v \<or> list_ex (\<lambda>c. code c < 32) v then Inl UrlWhitespace
            else (case url_port parts of
                    None \<Rightarrow> Inl (UrlValueError value)
                  | Some p \<Rightarrow>
                      Inr (scheme parts @ ''://'' @ bracketed h @
                           (case p of None \<Rightarrow> [] | Some n \<Rightarrow> '':'' @ show_int n) @
                           path parts @ (if query parts = [] then [] else ''?'' @ query parts)))))"

subsection \<open>Targets\<close>

fun validator :: "unicode \<Rightarrow> target_kind \<Rightarrow> string \<Rightarrow> invalid_target + string" where
  "validator u target_kind.DOMAIN v = validate_hostname u v"
| "validator u target_kind.HOSTNAME v = validate_hostname u v"
| "validator u target_kind.IP v = validate_ip v"
| "validator u target_kind.CIDR v = validate_cidr 16 48 v"
| "validator u target_kind.URL v = validate_url u v"
| "validator u target_kind.HOST_PORT v =
     bind_r (split_host_port u v) (\<lambda>(h, p). Inr (format_host_port h p))"

record target =
  kind :: target_kind
  val :: string

definition mk_target :: "unicode \<Rightarrow> target_kind \<Rightarrow> string \<Rightarrow> invalid_target + target" where
  "mk_target u k raw =
     bind_r (validator u k raw) (\<lambda>v.
       if startswith v ''-'' then Inl LeadingDash else Inr \<lparr>kind = k, val = v\<rparr>)"

definition target_host :: "unicode \<Rightarrow> target \<Rightarrow> invalid_target + string" where
  "target_host u t =
     (case kind t of
        target_kind.HOST_PORT \<Rightarrow> bind_r (split_host_port u (val t)) (\<lambda>(h, _). Inr h)
      | target_kind.URL \<Rightarrow>
          (case urlsplit u (val t) of None \<Rightarrow> Inl (UrlValueError (val t))
           | Some p \<Rightarrow> Inr (case hostname p of None \<Rightarrow> [] | Some h \<Rightarrow> h))
      | _ \<Rightarrow> Inr (val t))"

definition is_ip :: "string \<Rightarrow> bool" where
  "is_ip v \<longleftrightarrow> ip_address v \<noteq> None"

subsection \<open>Canonical addresses and networks\<close>

lemma strip_hd_last: "strip s \<noteq> [] \<Longrightarrow> \<not> isspace (hd (strip s)) \<and> \<not> isspace (last (strip s))"
proof -
  let ?t = "dropWhile isspace (rev (dropWhile isspace s))"
  assume ne: "strip s \<noteq> []"
  then have t: "?t \<noteq> []" "strip s = rev ?t"
    by (auto simp: strip_by_def rstrip_by_def lstrip_by_def)
  have "\<not> isspace (hd ?t)" using t(1) by (rule hd_dropWhile)
  moreover have ds: "dropWhile isspace s \<noteq> []" using t(1) by (metis dropWhile.simps(1) rev.simps(1))
  then have "\<not> isspace (hd (dropWhile isspace s))" by (rule hd_dropWhile)
  moreover have "last ?t = hd (dropWhile isspace s)"
    using t(1) ds
    by (metis append_self_conv2 last_appendR last_rev takeWhile_dropWhile_id)
  ultimately show ?thesis using t by (simp add: hd_rev last_rev)
qed

lemma hex_not_space: "is_hex c \<Longrightarrow> \<not> isspace c"
  by (auto simp: is_hex_def isdigit_def isspace_def Let_def)

lemma show_ip_not_space:
  assumes "c \<in> set (show_ip a)" "ip_scope a = None \<or> ip_ver a = V4"
  shows "\<not> isspace c"
  using assms show_v4_chars [of c "ip_int a"] show_v6_chars [of c "ip_int a"] isdigit_not_space hex_not_space
  by (auto simp: show_ip_def isspace_def Let_def split: ipver.splits)

lemma hd_show_v6: "\<not> isspace (hd (show_v6 n))" "show_v6 n \<noteq> []"
proof -
  show ne: "show_v6 n \<noteq> []" using show_v6_colon [of n] by auto
  have "is_hex (hd (show_v6 n)) \<or> hd (show_v6 n) = CHR '':''"
    using show_v6_chars hd_in_set [OF ne] by blast
  then show "\<not> isspace (hd (show_v6 n))" by (auto simp: hex_not_space) (simp add: isspace_def)
qed

lemma ip_scope_last:
  assumes "ip_address s = Some a" "ip_scope a = Some sc"
  shows "sc \<noteq> [] \<and> last sc = last s"
proof -
  have v6: "ipv6_address s = Some a"
    using assms by (auto simp: ip_address_def ipv4_address_def v4_def split: option.splits if_splits)
  obtain addr f t where p: "partition_str ''%'' s = (addr, f, t)" by (cases "partition_str ''%'' s")
  with v6 assms(2) have "f" "t = sc" "sc \<noteq> []"
    by (auto simp: ipv6_address_def split: if_splits)
  with p show ?thesis by (cases "CHR ''%''" s rule: partition_str_cases) auto
qed

lemma strip_show_ip:
  assumes "ip_address (strip s) = Some a"
  shows "strip (show_ip a) = show_ip a"
proof (cases "ip_scope a")
  case None
  then show ?thesis using show_ip_not_space [of _ a] by (intro strip_by_none) blast
next
  case (Some sc)
  have ver: "ip_ver a = V6" using wf_ip_address [OF assms] Some by (simp add: wf_ip_def)
  have sc: "sc \<noteq> []" "last sc = last (strip s)" using ip_scope_last [OF assms Some] by simp_all
  have "strip s \<noteq> []"
    using assms by (auto simp: ip_address_def ipv4_address_def parse_v4_def ipv6_address_def parse_v6_def Let_def)
  then have "\<not> isspace (last sc)" using strip_hd_last sc by simp
  then show ?thesis
    using hd_show_v6 sc(1) by (intro strip_by_id) (simp add: show_ip_def ver Some)
qed

definition parse_ip :: "string \<Rightarrow> invalid_target + ip" where
  "parse_ip value = (case ip_address (strip value) of None \<Rightarrow> Inl (InvalidIp value) | Some a \<Rightarrow> Inr a)"

lemma validate_ip_canon: "validate_ip value = bind_r (parse_ip value) (\<lambda>a. Inr (show_ip a))"
  by (simp add: validate_ip_def parse_ip_def split: option.splits)

interpretation ip_canon: canonical_form parse_ip show_ip
proof
  fix x a
  assume "parse_ip x = Inr a"
  then have a: "ip_address (strip x) = Some a" by (simp add: parse_ip_def split: option.splits)
  then show "parse_ip (show_ip a) = Inr a"
    by (simp add: parse_ip_def strip_show_ip ip_address_show [OF wf_ip_address])
qed

definition parse_cidr :: "nat \<Rightarrow> nat \<Rightarrow> string \<Rightarrow> invalid_target + ip_net" where
  "parse_cidr m4 m6 value =
     (case ip_network (strip value) of
        None \<Rightarrow> Inl (InvalidCidr value)
      | Some net \<Rightarrow> if prefixlen net < (if net_ver net = V4 then m4 else m6)
                   then Inl (CidrTooLarge (show_net net)) else Inr net)"

lemma validate_cidr_canon:
  "validate_cidr m4 m6 value = bind_r (parse_cidr m4 m6 value) (\<lambda>n. Inr (show_net n))"
  by (simp add: validate_cidr_def parse_cidr_def split: option.splits)

lemma show_net_strip: "strip (show_net n) = show_net n"
proof -
  have last: "\<not> isspace (last (show_net n))"
    using isdigit_not_space [OF show_nat_digit [OF last_in_set [OF show_nat_nonempty]], of "prefixlen n"]
    by (simp add: show_net_def)
  have "\<not> isspace (hd (show_net n))"
  proof (cases "net_ver n")
    case V4
    have ne: "show_v4 (net_int n) \<noteq> []" by (simp add: show_v4_def octets_of_def)
    then have "isdigit (hd (show_v4 (net_int n))) \<or> hd (show_v4 (net_int n)) = CHR ''.''"
      using show_v4_chars hd_in_set by blast
    then show ?thesis using V4 ne by (auto simp: show_net_def show_ip_def isdigit_def isspace_def Let_def)
  next
    case V6
    then show ?thesis using hd_show_v6 [of "net_int n"] by (simp add: show_net_def show_ip_def)
  qed
  with last show ?thesis by (intro strip_by_id) simp
qed

interpretation cidr_canon: canonical_form "parse_cidr m4 m6" show_net for m4 m6
proof
  fix x n
  assume "parse_cidr m4 m6 x = Inr n"
  then have "ip_network (strip x) = Some n" and "\<not> prefixlen n < (if net_ver n = V4 then m4 else m6)"
    by (auto simp: parse_cidr_def split: option.splits if_splits)
  then show "parse_cidr m4 m6 (show_net n) = Inr n"
    by (simp add: parse_cidr_def show_net_strip ip_network_show [OF wf_ip_network])
qed

subsection \<open>Hostnames\<close>

lemma HOSTNAME_RE_chars:
  assumes "HOSTNAME_RE v" "c \<in> set v" "c \<noteq> newline"
  shows "label_char c \<or> c = CHR ''.''"
proof -
  let ?ls = "split_on (CHR ''.'') (re_body v)"
  have "\<forall>w \<in> set ?ls. list_all label_char w"
    using assms(1) by (auto simp: HOSTNAME_RE_def Let_def list_all_iff LABEL_def)
  moreover have "c \<in> set (re_body v)"
    using assms(2,3) by (cases v rule: rev_cases) (auto simp: re_body_def)
  then have "c \<in> insert (CHR ''.'') (\<Union> (set ` set ?ls))"
    using set_join_single [of "CHR ''.''" ?ls] by (auto simp: join_split_on)
  ultimately show ?thesis by (auto simp: list_all_iff)
qed

definition host_char :: "char \<Rightarrow> bool" where
  "host_char c \<longleftrightarrow> label_char c \<or> c = CHR ''.''"

lemma host_char_simps:
  assumes "host_char c"
  shows "lower_char c = c" "\<not> isspace c" "code c < 128" "c \<notin> set ''/?#@[]:%*''" "32 < code c"
  using assms
  by (auto simp: host_char_def label_char_def islower_def isdigit_def lower_char_def isupper_def
      isspace_def Let_def)

lemma hostname_chars:
  assumes "HOSTNAME_RE v" "newline \<notin> set v" "c \<in> set v"
  shows "host_char c"
  using HOSTNAME_RE_chars [OF assms(1,3)] assms(2,3) unfolding host_char_def by metis

lemma re_body_no_newline: "newline \<notin> set v \<Longrightarrow> re_body v = v"
  by (cases v rule: rev_cases) (auto simp: re_body_def)

lemma hostname_last:
  assumes "HOSTNAME_RE v" "newline \<notin> set v"
  shows "v \<noteq> []" "last v \<noteq> CHR ''.''"
proof -
  let ?ls = "split_on (CHR ''.'') v"
  have v: "1 \<le> length v" "list_all LABEL ?ls"
    using assms by (auto simp: HOSTNAME_RE_def Let_def re_body_no_newline)
  then show ne: "v \<noteq> []" by auto
  show "last v \<noteq> CHR ''.''"
  proof
    assume "last v = CHR ''.''"
    then obtain u where "v = u @ [CHR ''.'']" using ne by (metis append_butlast_last_id)
    moreover have "split_on (CHR ''.'') (u @ [CHR ''.'']) = split_on (CHR ''.'') u @ [[]]"
    proof (induction u)
      case (Cons c u)
      then show ?case by (cases "split_on (CHR ''.'') u") auto
    qed simp
    ultimately show False using v(2) by (auto simp: list_all_iff LABEL_def)
  qed
qed

lemma hostname_stable:
  assumes "HOSTNAME_RE v" "newline \<notin> set v"
  shows "validate_hostname u v = Inr v"
proof -
  note ch = host_char_simps [OF hostname_chars [OF assms]]
  have "strip v = v" using ch(2) by (intro strip_by_none) blast
  moreover have "map lower_char v = v" using ch(1) by (intro map_idI)
  moreover have "rstrip_by (\<lambda>c. c = CHR ''.'') v = v"
    using hostname_last [OF assms] by (intro rstrip_by_id) simp
  moreover have "\<not> startswith v ''*.''" using ch(4) [of "CHR ''*''"] by (auto simp: startswith_iff)
  moreover have "is_ascii v" using ch(3) by (simp add: is_ascii_def list_all_iff)
  ultimately show ?thesis using assms(1) by (simp add: validate_hostname_def)
qed

lemma validate_hostname_ascii:
  assumes "validate_hostname u x = Inr v" "is_ascii x"
  shows "HOSTNAME_RE v" "set v \<subseteq> lower_char ` set x"
proof -
  let ?v = "rstrip_by (\<lambda>c. c = CHR ''.'') (map lower_char (strip x))"
  have sub: "set ?v \<subseteq> lower_char ` set x"
    using set_rstrip_by [of "\<lambda>c. c = CHR ''.''" "map lower_char (strip x)"] set_strip_by [of isspace x]
    by (auto simp: subset_iff image_iff)
  have "is_ascii ?v"
    using sub assms(2) by (force simp: is_ascii_def list_all_iff lower_char_def isupper_def)
  then have "v = ?v" "HOSTNAME_RE v"
    using assms(1) by (auto simp: validate_hostname_def Let_def split: if_splits)
  then show "HOSTNAME_RE v" "set v \<subseteq> lower_char ` set x" using sub by simp_all
qed

lemma lower_char_newline: "lower_char c = newline \<longleftrightarrow> c = newline"
  by (auto simp: lower_char_def isupper_def simp flip: code_inj)

subsection \<open>Hosts\<close>

lemma ip_address_no_colon:
  assumes "ip_address h = Some a" "CHR '':'' \<notin> set h"
  shows "ipv4_address h = Some a" "show_ip a = h"
proof -
  have "set (fst (partition_str ''%'' h)) \<subseteq> set h"
    using set_partition_str [of "CHR ''%''" h] by (cases "partition_str ''%'' h") auto
  then have "CHR '':'' \<notin> set (fst (partition_str ''%'' h))" using assms(2) by blast
  then have "parse_v6 (fst (partition_str ''%'' h)) = None" by (simp add: parse_v6_def split_on_atom)
  then have "ipv6_address h = None" by (cases "partition_str ''%'' h") (simp add: ipv6_address_def)
  then show v4: "ipv4_address h = Some a"
    using assms(1) by (simp add: ip_address_def split: option.splits)
  then show "show_ip a = h"
    by (auto simp: ipv4_address_def show_ip_def v4_def show_parse_v4 split: if_splits)
qed

lemma validate_host_stable:
  assumes "validate_host u x = Inr h" "is_ascii x" "newline \<notin> set x"
  shows "validate_host u h = Inr h"
proof (cases "validate_ip x")
  case (Inr h')
  then have "validate_ip h = Inr h"
    using assms(1) ip_canon.normal_form_idem [of x h] by (simp add: validate_host_def validate_ip_canon)
  then show ?thesis by (simp add: validate_host_def)
next
  case (Inl e)
  then have v: "validate_hostname u x = Inr h" using assms(1) by (simp add: validate_host_def)
  note h = validate_hostname_ascii [OF v assms(2)]
  have nl: "newline \<notin> set h" using h(2) assms(3) lower_char_newline by (metis imageE subsetD)
  note ch = host_char_simps [OF hostname_chars [OF h(1) nl]]
  have "strip h = h" using ch(2) by (intro strip_by_none) blast
  moreover have "CHR '':'' \<notin> set h" using ch(4) [of "CHR '':''"] by auto
  ultimately have "validate_ip h = Inr h" if "validate_ip h = Inr h'" for h'
    using that ip_address_no_colon(2) [of h]
    by (auto simp: validate_ip_def split: option.splits)
  then show ?thesis
    using hostname_stable [OF h(1) nl] by (auto simp: validate_host_def split: sum.splits)
qed

subsection \<open>Reading a validated URL again\<close>

text \<open>A host that stands in a network location as it is.\<close>

definition host_ok :: "string \<Rightarrow> bool" where
  "host_ok h \<longleftrightarrow> h \<noteq> [] \<and> (\<forall>c \<in> set h. 32 < code c \<and> code c < 128 \<and> c \<notin> set ''/?#@]'') \<and>
     (if CHR '':'' \<in> set h then check_bracketed_host h else CHR ''['' \<notin> set h) \<and>
     map lower_char (fst (partition_str ''%'' h)) = fst (partition_str ''%'' h)"

definition port_text :: "int option \<Rightarrow> string" where
  "port_text p = (case p of None \<Rightarrow> [] | Some n \<Rightarrow> '':'' @ show_int n)"

definition port_ok :: "int option \<Rightarrow> bool" where
  "port_ok p \<longleftrightarrow> (case p of None \<Rightarrow> True | Some n \<Rightarrow> 0 \<le> n \<and> n \<le> 65535)"

lemma port_text_chars: "port_ok p \<Longrightarrow> c \<in> set (port_text p) \<Longrightarrow> isdigit c \<or> c = CHR '':''"
  by (auto simp: port_text_def port_ok_def show_int_def dest: show_nat_digit split: option.splits)

lemma rpartition_none: "d \<notin> set s \<Longrightarrow> rpartition d s = ([], False, s)"
proof -
  assume "d \<notin> set s"
  then have all: "takeWhile (\<lambda>c. c \<noteq> d) (rev s) = rev s" by (auto simp: takeWhile_eq_all_conv)
  show ?thesis unfolding rpartition_def Let_def all by simp
qed

lemma after_at_none: "CHR ''@'' \<notin> set s \<Longrightarrow> after_at s = s"
  by (simp add: after_at_def rpartition_none)

lemma after_at_no_at: "CHR ''@'' \<notin> set (after_at s)"
proof (cases "CHR ''@'' \<in> set s")
  case True
  then obtain a b where "s = a @ CHR ''@'' # b" "CHR ''@'' \<notin> set b" by (meson split_list_last)
  then show ?thesis by (simp add: after_at_def rpartition_app)
qed (simp add: after_at_none)

lemma set_after_at: "set (after_at s) \<subseteq> set s"
proof (cases "CHR ''@'' \<in> set s")
  case True
  then obtain a b where "s = a @ CHR ''@'' # b" "CHR ''@'' \<notin> set b" by (meson split_list_last)
  then show ?thesis by (auto simp: after_at_def rpartition_app)
qed (simp add: after_at_none)

lemma partition_colon_port:
  "CHR '':'' \<notin> set h \<Longrightarrow>
   partition_str '':'' (h @ port_text p) = (h, p \<noteq> None, (case p of None \<Rightarrow> [] | Some n \<Rightarrow> show_int n))"
  by (cases p) (simp_all add: port_text_def partition_str_none partition_str_app)

lemma hostinfo_host_ok:
  assumes "host_ok h" "port_ok p"
  shows "fst (hostinfo (bracketed h @ port_text p)) = h"
    and "netloc_ok u (bracketed h @ port_text p)"
proof -
  let ?loc = "bracketed h @ port_text p"
  have pt: "c \<notin> set (port_text p)" if "c \<in> set ''@[]''" for c
    using port_text_chars [OF assms(2), of c] that by (auto simp: isdigit_def)
  have hc: "CHR ''@'' \<notin> set h" "CHR '']'' \<notin> set h" using assms(1) by (auto simp: host_ok_def)
  have at: "after_at ?loc = ?loc" using hc pt by (intro after_at_none) (auto simp: bracketed_def)
  have "c \<in> set (port_text p) \<Longrightarrow> code c < 128" for c
    using port_text_chars [OF assms(2), of c] by (auto simp: isdigit_def)
  then have asc: "is_ascii ?loc"
    using assms(1) by (auto simp: is_ascii_def list_all_iff host_ok_def bracketed_def)
  have "fst (hostinfo ?loc) = h \<and> netloc_ok u ?loc"
  proof (cases "CHR '':'' \<in> set h")
    case True
    then have loc: "?loc = CHR ''['' # (h @ CHR '']'' # port_text p)" and chk: "check_bracketed_host h"
      using assms(1) by (simp_all add: bracketed_def host_ok_def)
    have "partition_str ''['' ?loc = ([], True, h @ CHR '']'' # port_text p)"
      unfolding loc by (simp add: startswith_def)
    moreover have "partition_str '']'' (h @ CHR '']'' # port_text p) = (h, True, port_text p)"
      using hc(2) by (rule partition_str_app)
    moreover have "port_text p = [] \<or> startswith (port_text p) '':''"
      by (cases p) (simp_all add: port_text_def startswith_def)
    moreover have "CHR ''['' \<in> set ?loc" "CHR '']'' \<in> set ?loc" unfolding loc by simp_all
    ultimately show ?thesis
      using chk asc by (simp add: hostinfo_def at netloc_ok_def check_bracketed_netloc_def split: prod.splits)
  next
    case False
    have nb: "CHR ''['' \<notin> set ?loc" "CHR '']'' \<notin> set ?loc"
      using False assms(1) hc pt by (auto simp: bracketed_def host_ok_def)
    have "partition_str '':'' ?loc = (h, p \<noteq> None, (case p of None \<Rightarrow> [] | Some n \<Rightarrow> show_int n))"
      using partition_colon_port [OF False, of p] False by (simp add: bracketed_def)
    then show ?thesis
      using nb asc by (simp add: hostinfo_def at netloc_ok_def partition_str_none)
  qed
  then show "fst (hostinfo ?loc) = h" "netloc_ok u ?loc" by simp_all
qed

lemma takeWhile_dropWhile_at:
  assumes "\<forall>c \<in> set a. P c" "b = [] \<or> \<not> P (hd b)"
  shows "takeWhile P (a @ b) = a" "dropWhile P (a @ b) = b"
  using assms by (cases b; simp add: takeWhile_append dropWhile_append)+

lemma clean_url:
  assumes "\<forall>c \<in> set w. 32 < code c"
  shows "filter (\<lambda>c. c \<notin> {CHR 0x09, CHR 0x0A, CHR 0x0D}) (lstrip_by (\<lambda>c. code c \<le> 32) w) = w"
proof -
  have "lstrip_by (\<lambda>c. code c \<le> 32) w = w"
    using assms by (intro lstrip_by_id) (cases w; force)
  moreover have "filter (\<lambda>c. c \<notin> {CHR 0x09, CHR 0x0A, CHR 0x0D}) w = w"
    using assms by (fastforce simp: filter_id_conv)
  ultimately show ?thesis by simp
qed

lemma urlsplit_rebuilt:
  assumes "host_ok h" "port_ok p" "sch \<in> {''http'', ''https''}"
    and "pth = [] \<or> hd pth = CHR ''/''" "\<forall>c \<in> set (pth @ qry). 32 < code c \<and> c \<noteq> CHR ''#''"
    and "CHR ''?'' \<notin> set pth"
  shows "\<exists>r. urlsplit u (sch @ ''://'' @ bracketed h @ port_text p @ pth @ (if qry = [] then [] else ''?'' @ qry)) = Some r \<and>
    hostname r = Some h"
proof -
  let ?loc = "bracketed h @ port_text p" and ?rest = "pth @ (if qry = [] then [] else ''?'' @ qry)"
  let ?w = "sch @ ''://'' @ ?loc @ ?rest"
  have pt: "c \<in> set (port_text p) \<Longrightarrow> 32 < code c \<and> c \<notin> set ''/?#''" for c
    using port_text_chars [OF assms(2), of c] by (auto simp: isdigit_def)
  have locc: "\<forall>c \<in> set ?loc. 32 < code c \<and> c \<notin> set ''/?#''"
    using pt assms(1) by (auto simp: host_ok_def bracketed_def)
  have "\<forall>c \<in> set sch. 32 < code c" using assms(3) by auto
  moreover have "\<forall>c \<in> set ''://''. 32 < code c" by simp
  moreover have "\<forall>c \<in> set ?rest. 32 < code c"
    by (cases "qry = []") (use assms(5) in \<open>simp_all add: ball_Un\<close>)
  moreover note locc
  ultimately have "\<forall>c \<in> set ?w. 32 < code c"
    unfolding set_append ball_Un by (intro conjI) blast+
  then have url: "filter (\<lambda>c. c \<notin> {CHR 0x09, CHR 0x0A, CHR 0x0D}) (lstrip_by (\<lambda>c. code c \<le> 32) ?w) = ?w"
    by (rule clean_url)
  have "partition_str '':'' (sch @ CHR '':'' # (''//'' @ ?loc @ ?rest)) = (sch, True, ''//'' @ ?loc @ ?rest)"
    using assms(3) by (intro partition_str_app) auto
  then have sch: "split_scheme ?w = (sch, ''//'' @ ?loc @ ?rest)"
    using assms(3) by (auto simp: split_scheme_def scheme_char_def islower_def lower_char_def isupper_def)
  have "takeWhile (\<lambda>c. c \<notin> set ''/?#'') (?loc @ ?rest) = ?loc \<and> dropWhile (\<lambda>c. c \<notin> set ''/?#'') (?loc @ ?rest) = ?rest"
    using takeWhile_dropWhile_at [of ?loc "\<lambda>c. c \<notin> set ''/?#''" ?rest] locc assms(4) by (cases pth) auto
  then have net: "split_netloc (''//'' @ ?loc @ ?rest) = (?loc, ?rest)"
    by (simp add: split_netloc_def startswith_def)
  have frag: "partition_str ''#'' ?rest = (?rest, False, [])"
    using assms(5) by (intro partition_str_none) auto
  obtain f q where "partition_str ''?'' ?rest = (pth, f, q)"
    using assms(6) by (cases "qry = []") (simp_all add: partition_str_none partition_str_app)
  then obtain r where r: "urlsplit u ?w = Some r" "netloc r = ?loc"
    unfolding urlsplit_def Let_def url sch using hostinfo_host_ok(2) [OF assms(1,2)] net frag by simp
  have ne: "h \<noteq> []" and low: "map lower_char (fst (partition_str ''%'' h)) = fst (partition_str ''%'' h)"
    using assms(1) by (simp_all add: host_ok_def)
  have "hostname r = Some h"
    using ne low hostinfo_host_ok(1) [OF assms(1,2)]
    by (cases "CHR ''%''" h rule: partition_str_cases) (simp_all add: hostname_def r(2))
  with r show ?thesis by auto
qed

lemma ip_scope_set:
  assumes "ip_address s = Some a" "ip_scope a = Some sc"
  shows "set sc \<subseteq> set s"
proof -
  have v6: "ipv6_address s = Some a"
    using assms by (auto simp: ip_address_def ipv4_address_def v4_def split: option.splits if_splits)
  obtain addr f t where p: "partition_str ''%'' s = (addr, f, t)" by (cases "partition_str ''%'' s")
  with v6 assms(2) have "t = sc" by (auto simp: ipv6_address_def split: if_splits)
  then show ?thesis using set_partition_str p by blast
qed

lemma show_v6_lower: "map lower_char (show_v6 n) = show_v6 n"
proof (rule map_idI)
  fix c assume "c \<in> set (show_v6 n)"
  then consider "c = CHR '':''" | w where "w \<in> set (compress_hextets (hextet_strings n))" "c \<in> set w"
    using set_join_single [of "CHR '':''" "compress_hextets (hextet_strings n)"]
    unfolding show_v6_def hextet_strings_def [symmetric] by blast
  then show "lower_char c = c"
  proof cases
    case 2
    then have "w = [] \<or> w \<in> set (hextet_strings n)"
      using compress_hextets_shape(3) [OF length_hextet_strings, of n] by blast
    then obtain m where "c \<in> set (show_hex m)" using 2 by (auto simp: hextet_strings_def)
    then obtain d where "d < 16" "c = digit_char d"
      by (auto simp: show_hex_def dest: digits_less [rotated])
    then show ?thesis by (auto simp: digit_char_def lower_char_def isupper_def)
  qed (simp add: lower_char_def isupper_def)
qed

lemma fst_partition_app: "d \<notin> set s \<Longrightarrow> fst (partition_str [d] (s @ t)) = s \<or> t \<noteq> [] \<and> hd t \<noteq> d"
  by (cases t) (auto simp: partition_str_none partition_str_app)

lemma validated_host_ok:
  assumes v: "validate_host u x = Inr h"
    and x: "\<forall>c \<in> set x. 32 < code c \<and> code c < 128 \<and> c \<notin> set ''/?#@''"
    and br: "CHR '':'' \<in> set x \<Longrightarrow> CHR '']'' \<notin> set x"
  shows "host_ok h"
proof (cases "validate_ip x")
  case (Inr h')
  have "strip x = x" using x by (intro strip_by_none) (force simp: isspace_def Let_def)
  then obtain a where a: "ip_address x = Some a" "h = show_ip a"
    using v Inr by (auto simp: validate_host_def validate_ip_def split: option.splits)
  have wf: "wf_ip a" by (rule wf_ip_address [OF a(1)])
  show ?thesis
  proof (cases "ip_ver a")
    case V4
    then have h: "h = show_v4 (ip_int a)" by (simp add: a show_ip_def)
    have ch: "host_char c" if "c \<in> set h" for c
      using show_v4_chars [of c "ip_int a"] that by (auto simp: h host_char_def label_char_def)
    have "h \<noteq> []" by (simp add: h show_v4_def octets_of_def)
    moreover have "map lower_char (fst (partition_str ''%'' h)) = fst (partition_str ''%'' h)"
      using host_char_simps(1) [OF ch] host_char_simps(4) [OF ch, of "CHR ''%''"]
      by (subst (1 2) partition_str_none) (auto intro: map_idI)
    moreover have "CHR '':'' \<notin> set h" "CHR ''['' \<notin> set h"
      using host_char_simps(4) [OF ch, of "CHR '':''"] host_char_simps(4) [OF ch, of "CHR ''[''"] by auto
    ultimately show ?thesis using host_char_simps(3-5) [OF ch] by (auto simp: host_ok_def)
  next
    case V6
    have colon: "CHR '':'' \<in> set x" using ip_address_no_colon(1) [OF a(1)] wf_ipv4_address V6 by force
    define t where "t = (case ip_scope a of None \<Rightarrow> [] | Some s \<Rightarrow> CHR ''%'' # s)"
    have t: "h = show_v6 (ip_int a) @ t" "t = [] \<or> hd t = CHR ''%''"
        "set t \<subseteq> insert (CHR ''%'') (set x)"
      using V6 ip_scope_set [OF a(1)]
      by (cases "ip_scope a"; auto simp: a(2) show_ip_def t_def)+
    have pc: "CHR ''%'' \<notin> set (show_v6 (ip_int a))"
      using show_v6_chars [of "CHR ''%''" "ip_int a"] by (auto simp: is_hex_def isdigit_def)
    have low: "map lower_char (fst (partition_str ''%'' h)) = fst (partition_str ''%'' h)"
      using fst_partition_app [OF pc, of t] t(1,2) show_v6_lower by auto
    have v6c: "32 < code c \<and> code c < 128 \<and> c \<notin> set ''/?#@]v''" if "c \<in> set (show_v6 (ip_int a))" for c
      using show_v6_chars [OF that] by (auto simp: is_hex_def isdigit_def)
    have chars: "\<forall>c \<in> set h. 32 < code c \<and> code c < 128 \<and> c \<notin> set ''/?#@]''"
    proof
      fix c assume "c \<in> set h"
      then have "c \<in> set (show_v6 (ip_int a)) \<or> c = CHR ''%'' \<or> c \<in> set x" using t(1,3) by auto
      then show "32 < code c \<and> code c < 128 \<and> c \<notin> set ''/?#@]''"
      proof (elim disjE)
        assume "c \<in> set (show_v6 (ip_int a))"
        from v6c [OF this] show ?thesis by auto
      next
        assume c: "c \<in> set x"
        then have "c \<noteq> CHR '']''" using br [OF colon] by blast
        with bspec [OF x c] show ?thesis by auto
      qed simp
    qed
    have "hd h \<in> set (show_v6 (ip_int a))" using t(1) hd_show_v6(2) [of "ip_int a"] by simp
    then have "\<not> startswith h ''v''" using v6c by (cases h) (auto simp: startswith_def)
    then have "check_bracketed_host h"
      using ip_address_show [OF wf] V6 by (simp add: check_bracketed_host_def a(2))
    then show ?thesis using chars low t(1) hd_show_v6(2) by (auto simp: host_ok_def show_v6_colon)
  qed
next
  case (Inl e)
  have asc: "is_ascii x" "newline \<notin> set x"
    using x bspec [OF x, of newline] by (simp add: is_ascii_def list_all_iff, auto)
  have hn: "validate_hostname u x = Inr h" using v Inl by (simp add: validate_host_def)
  note h = validate_hostname_ascii [OF hn asc(1)]
  have nl: "newline \<notin> set h" using h(2) asc(2) lower_char_newline by (metis imageE subsetD)
  note ch = host_char_simps [OF hostname_chars [OF h(1) nl]]
  have "map lower_char (fst (partition_str ''%'' h)) = fst (partition_str ''%'' h)"
    using ch(1) ch(4) [of "CHR ''%''"] by (subst (1 2) partition_str_none) (auto intro: map_idI)
  moreover have "CHR '':'' \<notin> set h" "CHR ''['' \<notin> set h"
    using ch(4) [of "CHR '':''"] ch(4) [of "CHR ''[''"] by auto
  ultimately show ?thesis using ch(3-5) hostname_last(1) [OF h(1) nl] by (auto simp: host_ok_def)
qed

lemma partition_str_facts:
  assumes "partition_str [d] s = (a, f, b)"
  shows "d \<notin> set a" "s = a @ (if f then d # b else [])" "f \<or> b = []"
  using assms by (cases d s rule: partition_str_cases; auto)+

lemma partition_str_sets:
  assumes "partition_str [d] s = (a, f, b)"
  shows "set a \<subseteq> set s" "set b \<subseteq> set s" "a = [] \<or> hd a = hd s"
proof -
  note s = partition_str_facts(2) [OF assms]
  show "set a \<subseteq> set s" by (subst s) simp
  show "a = [] \<or> hd a = hd s" by (subst s) (cases a; simp)
  show "set b \<subseteq> set s" using partition_str_facts(3) [OF assms] by (subst s) auto
qed

lemma urlsplit_clean:
  assumes "urlsplit u v = Some r" "\<forall>c \<in> set v. 32 < code c" "netloc r \<noteq> []"
  shows "set (netloc r) \<subseteq> set v - set ''/?#''" "set (path r @ query r) \<subseteq> set v - {CHR ''#''}"
    "CHR ''?'' \<notin> set (path r)" "path r = [] \<or> hd (path r) = CHR ''/''"
proof -
  obtain sch r1 where r1: "split_scheme v = (sch, r1)" by fastforce
  obtain loc r2 where r2: "split_netloc r1 = (loc, r2)" by fastforce
  obtain r3 f frag where r3: "partition_str ''#'' r2 = (r3, f, frag)" by (cases "partition_str ''#'' r2")
  obtain pth g qry where p: "partition_str ''?'' r3 = (pth, g, qry)" by (cases "partition_str ''?'' r3")
  have r: "netloc r = loc" "path r = pth" "query r = qry"
    using assms(1) unfolding urlsplit_def Let_def clean_url [OF assms(2)]
    by (auto simp: r1 r2 r3 p split: if_splits)
  have sub1: "set r1 \<subseteq> set v"
    using r1 partition_str_facts(2) [of "CHR '':''" v]
    by (cases "partition_str '':'' v") (auto simp: split_scheme_def split: if_splits)
  have loc: "loc = takeWhile (\<lambda>c. c \<notin> set ''/?#'') (drop 2 r1)" "r2 = dropWhile (\<lambda>c. c \<notin> set ''/?#'') (drop 2 r1)"
    using r2 assms(3) r(1) by (auto simp: split_netloc_def split: if_splits)
  show "set (netloc r) \<subseteq> set v - set ''/?#''"
    using sub1 by (auto simp: r loc dest!: set_takeWhileD in_set_dropD)
  have sub2: "set r2 \<subseteq> set v" using sub1 by (auto simp: loc dest!: set_dropWhileD in_set_dropD)
  note s3 = partition_str_sets [OF r3] and sp = partition_str_sets [OF p]
  have no_hash: "CHR ''#'' \<notin> set r3" by (rule partition_str_facts(1) [OF r3])
  have no_qm: "CHR ''?'' \<notin> set pth" by (rule partition_str_facts(1) [OF p])
  have "set (pth @ qry) \<subseteq> set r3" using sp(1,2) by simp
  then show "set (path r @ query r) \<subseteq> set v - {CHR ''#''}"
    unfolding r using s3(1) sub2 no_hash by blast
  show "CHR ''?'' \<notin> set (path r)" using no_qm by (simp add: r)
  have "r2 = [] \<or> hd r2 \<in> set ''/?#''" using hd_dropWhile [of "\<lambda>c. c \<notin> set ''/?#''" "drop 2 r1"] loc(2) by blast
  moreover have "pth = [] \<or> hd pth = hd r2 \<and> hd r2 \<noteq> CHR ''?'' \<and> hd r2 \<noteq> CHR ''#'' \<and> r2 \<noteq> []"
  proof (cases pth)
    case (Cons c cs)
    then have "r3 \<noteq> []" "hd pth = hd r3" using sp(1,3) by auto
    then have "r2 \<noteq> []" "hd r3 = hd r2" using s3(1,3) by auto
    moreover have "hd pth \<in> set pth" "hd r3 \<in> set r3" using Cons \<open>r3 \<noteq> []\<close> by simp_all
    ultimately show ?thesis using no_hash no_qm \<open>hd pth = hd r3\<close> by metis
  qed simp
  ultimately show "path r = [] \<or> hd (path r) = CHR ''/''" unfolding r by auto
qed

lemma set_hostinfo:
  "set (fst (hostinfo loc)) \<subseteq> set (after_at loc)"
  "CHR '':'' \<in> set (fst (hostinfo loc)) \<Longrightarrow> CHR '']'' \<notin> set (fst (hostinfo loc))"
proof -
  obtain pre opened rest where o: "partition_str ''['' (after_at loc) = (pre, opened, rest)"
    by (cases "partition_str ''['' (after_at loc)")
  obtain h f p where h: "partition_str '']'' rest = (h, f, p)" by (cases "partition_str '']'' rest")
  obtain h' f' p' where h': "partition_str '':'' (after_at loc) = (h', f', p')"
    by (cases "partition_str '':'' (after_at loc)")
  note fo = partition_str_facts [OF o] and fh = partition_str_facts [OF h] and fh' = partition_str_facts [OF h']
  have eq: "fst (hostinfo loc) = (if opened then h else h')" by (simp add: hostinfo_def o h h' split: prod.splits)
  show "set (fst (hostinfo loc)) \<subseteq> set (after_at loc)"
    using fo(2) fh(2) fh'(2) by (auto simp: eq)
  show "CHR '':'' \<in> set (fst (hostinfo loc)) \<Longrightarrow> CHR '']'' \<notin> set (fst (hostinfo loc))"
    using fh(1) fh'(1) by (simp add: eq split: if_splits)
qed

lemma hostname_chars_from:
  assumes "hostname p = Some x" "c \<in> set x"
  shows "\<exists>d \<in> set (fst (hostinfo (netloc p))). c = d \<or> c = lower_char d"
proof -
  let ?h = "fst (hostinfo (netloc p))"
  show ?thesis
    using assms by (cases "CHR ''%''" ?h rule: partition_str_cases) (auto simp: hostname_def Let_def split: if_splits)
qed

lemma lower_char_special: "lower_char d \<in> set ''/?#@]:'' \<Longrightarrow> lower_char d = d"
proof (rule ccontr)
  assume mem: "lower_char d \<in> set ''/?#@]:''" and ne: "lower_char d \<noteq> d"
  from ne have "isupper d" unfolding lower_char_def by (metis (full_types))
  then have "97 \<le> code (lower_char d)" by (simp add: lower_char_def isupper_def)
  moreover have "code (lower_char d) < 97" using mem by auto
  ultimately show False by simp
qed

lemma lower_char_range: "32 < code d \<Longrightarrow> code d < 128 \<Longrightarrow> 32 < code (lower_char d) \<and> code (lower_char d) < 128"
  by (auto simp: lower_char_def isupper_def)

lemma hostname_of_clean:
  assumes loc: "\<forall>c \<in> set (netloc p). 32 < code c \<and> code c < 128 \<and> c \<notin> set ''/?#''"
    and x: "hostname p = Some x"
  shows "\<forall>c \<in> set x. 32 < code c \<and> code c < 128 \<and> c \<notin> set ''/?#@''"
    "CHR '':'' \<in> set x \<Longrightarrow> CHR '']'' \<notin> set x"
proof -
  let ?h = "fst (hostinfo (netloc p))"
  have h: "32 < code d \<and> code d < 128 \<and> d \<notin> set ''/?#@''" if "d \<in> set ?h" for d
  proof -
    have at: "d \<in> set (after_at (netloc p))" using set_hostinfo(1) that by blast
    then have "d \<in> set (netloc p)" "d \<noteq> CHR ''@''" using set_after_at after_at_no_at by blast+
    with bspec [OF loc this(1)] show ?thesis by auto
  qed
  have src: "c \<in> set ?h \<or> (\<exists>d \<in> set ?h. c = lower_char d)" if "c \<in> set x" for c
    using hostname_chars_from [OF x that] by blast
  show "\<forall>c \<in> set x. 32 < code c \<and> code c < 128 \<and> c \<notin> set ''/?#@''"
  proof
    fix c assume "c \<in> set x"
    from src [OF this] show "32 < code c \<and> code c < 128 \<and> c \<notin> set ''/?#@''"
    proof
      assume "\<exists>d \<in> set ?h. c = lower_char d"
      then obtain d where d: "d \<in> set ?h" "c = lower_char d" by blast
      have "c \<notin> set ''/?#@''"
      proof
        assume "c \<in> set ''/?#@''"
        then have "lower_char d = d" using lower_char_special [of d] d(2) by auto
        then show False using h [OF d(1)] d(2) \<open>c \<in> set ''/?#@''\<close> by auto
      qed
      then show ?thesis using lower_char_range [of d] h [OF d(1)] d(2) by blast
    qed (rule h)
  qed
  have colon: "c \<in> set ?h" if "c \<in> set x" "c \<in> {CHR '':'', CHR '']''}" for c
    using src [OF that(1)]
  proof
    assume "\<exists>d \<in> set ?h. c = lower_char d"
    then obtain d where d: "d \<in> set ?h" "c = lower_char d" by blast
    then have "lower_char d \<in> set ''/?#@]:''" using that(2) by auto
    from lower_char_special [OF this] d show ?thesis by simp
  qed
  show "CHR '':'' \<in> set x \<Longrightarrow> CHR '']'' \<notin> set x"
    using colon [of "CHR '':''"] colon [of "CHR '']''"] set_hostinfo(2) [of "netloc p"] by blast
qed

lemma validate_url_Inr:
  assumes "validate_url u raw = Inr w"
  obtains r x h p where "urlsplit u (strip raw) = Some r" "scheme r \<in> {''http'', ''https''}"
    "hostname r = Some x" "validate_host u x = Inr h" "\<forall>c \<in> set (strip raw). 32 < code c"
    "url_port r = Some p" "w = scheme r @ ''://'' @ bracketed h @ port_text p @ path r @
       (if query r = [] then [] else ''?'' @ query r)"
proof -
  let ?v = "strip raw"
  obtain r where r: "urlsplit u ?v = Some r" using assms by (auto simp: validate_url_def Let_def split: option.splits)
  let ?x = "case hostname r of None \<Rightarrow> [] | Some h \<Rightarrow> h"
  obtain h where h: "validate_host u ?x = Inr h"
    using assms by (auto simp: validate_url_def Let_def r bind_r_Inr split: if_splits)
  have sch: "scheme r \<in> {''http'', ''https''}"
    using assms by (auto simp: validate_url_def Let_def r split: if_splits)
  have nospace: "\<not> (list_ex isspace ?v \<or> list_ex (\<lambda>c. code c < 32) ?v)"
    using assms by (auto simp: validate_url_def Let_def r h bind_r_Inr split: if_splits)
  obtain p where p: "url_port r = Some p"
    using assms nospace by (auto simp: validate_url_def Let_def r h split: if_splits option.splits)
  have w: "w = scheme r @ ''://'' @ bracketed h @ port_text p @ path r @ (if query r = [] then [] else ''?'' @ query r)"
    using assms nospace by (auto simp: validate_url_def Let_def r h p port_text_def split: if_splits)
  have "validate_host u [] = Inl (InvalidHostname [])"
    by (simp add: validate_host_def validate_ip_def ip_address_def ipv4_address_def ipv6_address_def
        parse_v4_def parse_v6_def validate_hostname_def HOSTNAME_RE_def re_body_def strip_by_def
        lstrip_by_def rstrip_by_def startswith_def is_ascii_def)
  then obtain x where x: "hostname r = Some x" using h by (cases "hostname r") auto
  have "32 < code c" if "c \<in> set ?v" for c
  proof -
    have "\<not> isspace c" "\<not> code c < 32" using nospace that by (auto simp: list_ex_iff)
    moreover from this have "code c \<noteq> 32" by (simp add: isspace_def Let_def)
    ultimately show ?thesis by linarith
  qed
  then show thesis using that [OF r sch x _ _ p w] h x by simp
qed

lemma port_bounds: "url_port r = Some p \<Longrightarrow> port_ok p"
  by (auto simp: url_port_def port_ok_def Let_def split: if_splits)

lemma hostname_netloc: "hostname r = Some x \<Longrightarrow> netloc r \<noteq> []"
  by (auto simp: hostname_def hostinfo_def after_at_def rpartition_def Let_def split: if_splits)

lemma validated_url:
  assumes "validate_url u raw = Inr w" "is_ascii raw"
  shows "\<exists>r h. urlsplit u w = Some r \<and> hostname r = Some h \<and> validate_host u h = Inr h"
proof -
  obtain r x h p where r: "urlsplit u (strip raw) = Some r" "scheme r \<in> {''http'', ''https''}"
    and x: "hostname r = Some x" "validate_host u x = Inr h" and v: "\<forall>c \<in> set (strip raw). 32 < code c"
    and p: "url_port r = Some p"
    and w: "w = scheme r @ ''://'' @ bracketed h @ port_text p @ path r @ (if query r = [] then [] else ''?'' @ query r)"
    using assms(1) by (rule validate_url_Inr)
  note cl = urlsplit_clean [OF r(1) v hostname_netloc [OF x(1)]]
  have asc: "\<forall>c \<in> set (strip raw). code c < 128"
    using assms(2) set_strip_by [of isspace raw] by (auto simp: is_ascii_def list_all_iff)
  have "\<forall>c \<in> set (netloc r). 32 < code c \<and> code c < 128 \<and> c \<notin> set ''/?#''" using cl(1) v asc by blast
  note hc = hostname_of_clean [OF this x(1)]
  have ok: "host_ok h" by (rule validated_host_ok [OF x(2) hc])
  have pq: "\<forall>c \<in> set (path r @ query r). 32 < code c \<and> c \<noteq> CHR ''#''" using cl(2) v by blast
  have "is_ascii x" "newline \<notin> set x"
    using hc(1) bspec [OF hc(1), of newline] by (simp add: is_ascii_def list_all_iff, auto)
  then have "validate_host u h = Inr h" by (rule validate_host_stable [OF x(2)])
  with urlsplit_rebuilt [OF ok port_bounds [OF p] r(2) cl(4) pq cl(3), of u] show ?thesis
    unfolding w by blast
qed

subsection \<open>Properties\<close>

definition ascii_only :: unicode where
  "ascii_only = \<lparr>idna = (\<lambda>_. None), nfkc_ok = (\<lambda>_. False)\<rparr>"

lemma mk_target_Inr:
  "mk_target u k raw = Inr t \<longleftrightarrow>
     (\<exists>v. validator u k raw = Inr v \<and> \<not> startswith v ''-'' \<and> t = \<lparr>kind = k, val = v\<rparr>)"
  by (auto simp: mk_target_def bind_r_Inr)



text \<open>
  address and network targets are canonical. Validating the value of a target gives the
  target again, and two texts give the same address target exactly when they denote the same
  address.
\<close>

theorem ip_target_canonical:
  assumes "mk_target u k a = Inr s" "mk_target u k b = Inr t" "k \<in> {target_kind.IP, target_kind.CIDR}"
  shows "mk_target u k (val s) = Inr s \<and>
    (k = target_kind.IP \<longrightarrow> (s = t \<longleftrightarrow> ip_address (strip a) = ip_address (strip b)))"
proof (cases "k = target_kind.IP")
  case True
  have s: "bind_r (parse_ip a) (\<lambda>x. Inr (show_ip x)) = Inr (val s)"
    and t: "bind_r (parse_ip b) (\<lambda>x. Inr (show_ip x)) = Inr (val t)"
    and dash: "\<not> startswith (val s) ''-''" and kinds: "kind s = k" "kind t = k"
    using assms(1,2) True by (auto simp: mk_target_Inr validate_ip_canon)
  have "mk_target u k (val s) = Inr s"
    using ip_canon.normal_form_idem [OF s] dash True kinds
    by (auto simp: mk_target_Inr validate_ip_canon intro: target.equality)
  moreover have "s = t \<longleftrightarrow> val s = val t" using kinds by (auto intro: target.equality)
  moreover have "parse_ip a = parse_ip b \<longleftrightarrow> ip_address (strip a) = ip_address (strip b)"
    using s t by (auto simp: parse_ip_def split: option.splits)
  ultimately show ?thesis using ip_canon.normal_form_eq [OF s t] by simp
next
  case False
  then have k: "k = target_kind.CIDR" using assms(3) by simp
  have s: "bind_r (parse_cidr 16 48 a) (\<lambda>x. Inr (show_net x)) = Inr (val s)"
    and dash: "\<not> startswith (val s) ''-''" and kinds: "kind s = k"
    using assms(1) k by (auto simp: mk_target_Inr validate_cidr_canon)
  from cidr_canon.normal_form_idem [OF s] dash k kinds show ?thesis
    by (auto simp: mk_target_Inr validate_cidr_canon intro: target.equality)
qed

theorem ip_target_canonical_witness:
  "mk_target ascii_only target_kind.IP ''2001:DB8:0::1'' = Inr \<lparr>kind = target_kind.IP, val = ''2001:db8::1''\<rparr> \<and>
   mk_target ascii_only target_kind.IP ''2001:db8::1'' = Inr \<lparr>kind = target_kind.IP, val = ''2001:db8::1''\<rparr> \<and>
   ip_address (strip ''2001:DB8:0::1'') = ip_address (strip ''2001:db8::1'')"
proof -
  let ?t = "\<lparr>kind = target_kind.IP, val = ''2001:db8::1''\<rparr>"
  have 1: "mk_target ascii_only target_kind.IP ''2001:DB8:0::1'' = Inr ?t" by code_simp
  have 2: "mk_target ascii_only target_kind.IP ''2001:db8::1'' = Inr ?t" by code_simp
  from 1 2 ip_target_canonical [OF 1 2] show ?thesis by blast
qed

text \<open>
  a network target covers at most 2 to the 16 IPv4 addresses or 2 to the 80 IPv6
  addresses.
\<close>

theorem cidr_target_bounded:
  assumes "mk_target u target_kind.CIDR raw = Inr t"
  shows "\<exists>n. ip_network (val t) = Some n \<and>
    num_addresses n \<le> (if net_ver n = V4 then 2 ^ 16 else 2 ^ 80)"
proof -
  obtain n where n: "ip_network (strip raw) = Some n" "val t = show_net n"
      "\<not> prefixlen n < (if net_ver n = V4 then 16 else 48)"
    using assms by (auto simp: mk_target_Inr validate_cidr_def split: option.splits if_splits)
  have wf: "wf_net n" by (rule wf_ip_network [OF n(1)])
  have "block n \<le> (if net_ver n = V4 then 2 ^ 16 else 2 ^ 80)"
    using n(3) unfolding block_def by (cases "net_ver n") (auto intro!: power_increasing simp del: power_numeral)
  then show ?thesis
    using ip_network_show [OF wf] n(2) by (simp add: num_addresses_block [OF wf])
qed

theorem cidr_target_bounded_witness:
  "mk_target ascii_only target_kind.CIDR ''8.8.8.8/16'' = Inr \<lparr>kind = target_kind.CIDR, val = ''8.8.0.0/16''\<rparr> \<and>
   (\<exists>n. ip_network ''8.8.0.0/16'' = Some n \<and> num_addresses n \<le> (if net_ver n = V4 then 2 ^ 16 else 2 ^ 80))"
proof -
  have 1: "mk_target ascii_only target_kind.CIDR ''8.8.8.8/16'' = Inr \<lparr>kind = target_kind.CIDR, val = ''8.8.0.0/16''\<rparr>"
    by code_simp
  from 1 cidr_target_bounded [OF 1] show ?thesis by simp
qed

text \<open>
  two inputs with characters that the module promises never to pass on are accepted: an
  IPv6 scope keeps spaces and shell metacharacters, and a hostname keeps a newline that stands
  before its final dot.
\<close>

theorem target_unsafe_characters:
  "mk_target u target_kind.IP ''::1%; rm x'' = Inr \<lparr>kind = target_kind.IP, val = ''::1%; rm x''\<rparr> \<and>
   mk_target u target_kind.HOSTNAME (''a.example'' @ [newline] @ ''.'') =
     Inr \<lparr>kind = target_kind.HOSTNAME, val = ''a.example'' @ [newline]\<rparr>"
proof
  show "mk_target u target_kind.IP ''::1%; rm x'' = Inr \<lparr>kind = target_kind.IP, val = ''::1%; rm x''\<rparr>"
    by code_simp
  show "mk_target u target_kind.HOSTNAME (''a.example'' @ [newline] @ ''.'') =
     Inr \<lparr>kind = target_kind.HOSTNAME, val = ''a.example'' @ [newline]\<rparr>"
    by code_simp
qed

end
