(* ===== verification/Ports.thy ===== *)
theory Ports
  imports Prelude "HOL-Library.Product_Lexorder"
begin

text \<open>
  Explicit port sets (\<^verbatim>\<open>workers/asm_sensors/ports.py\<close>): the validation of a port
  specification, its compilation to sorted, merged ranges, membership, counting and the
  canonical text. The lemmas show that the compiled form denotes exactly the ports of the
  written ranges, is sorted with gaps between its ranges, and is what the canonical text
  compiles to again.
\<close>

datatype port_spec_error =
    InvalidPortSpecification string
  | InvalidPortRange int int

subsection \<open>Validation\<close>

text \<open>\<open>\d{1,5}\<close> and \<open>\d{1,5}(-\d{1,5})?\<close>.\<close>

definition digits_1_5 :: "string \<Rightarrow> bool" where
  "digits_1_5 w \<longleftrightarrow> all_digits w \<and> 1 \<le> length w \<and> length w \<le> 5"

definition port_part :: "string \<Rightarrow> bool" where
  "port_part w =
     (case partition_str ''-'' w of (a, found, b) \<Rightarrow> digits_1_5 a \<and> (found \<longrightarrow> digits_1_5 b))"

text \<open>
  \<open>PORT_SPEC_RE.match(s)\<close>. The \<open>$\<close> of the expression also matches before a final
  newline, so a specification with one trailing newline is accepted.
\<close>

definition PORT_SPEC_RE :: "string \<Rightarrow> bool" where
  "PORT_SPEC_RE s =
     (let body = (if s \<noteq> [] \<and> last s = newline then butlast s else s)
      in list_all port_part (split_on (CHR '','') body))"

definition range_of :: "string \<Rightarrow> (int \<times> int) option" where
  "range_of part =
     (if CHR ''-'' \<in> set part
      then (case partition_str ''-'' part of
              (a, _, b) \<Rightarrow> (case (py_int a, py_int b) of (Some x, Some y) \<Rightarrow> Some (x, y) | _ \<Rightarrow> None))
      else map_option (\<lambda>x. (x, x)) (py_int part))"

definition ranges :: "string \<Rightarrow> port_spec_error + (int \<times> int) list" where
  "ranges spec =
     (case mapM_opt range_of (split_on (CHR '','') spec) of
        None \<Rightarrow> Inl (InvalidPortSpecification spec)
      | Some rs \<Rightarrow> Inr rs)"

fun check_ranges :: "(int \<times> int) list \<Rightarrow> port_spec_error option" where
  "check_ranges [] = None"
| "check_ranges ((lo, hi) # rs) =
     (if \<not> (1 \<le> lo \<and> lo \<le> hi \<and> hi \<le> 65535) then Some (InvalidPortRange lo hi)
      else check_ranges rs)"

definition validate_port_spec :: "string \<Rightarrow> port_spec_error + string" where
  "validate_port_spec spec =
     (let s = replace_char (CHR '' '') [] spec in
      if \<not> PORT_SPEC_RE s then Inl (InvalidPortSpecification spec)
      else bind_r (ranges s) (\<lambda>rs.
        case check_ranges rs of Some e \<Rightarrow> Inl e | None \<Rightarrow> Inr s))"

subsection \<open>Compilation\<close>

text \<open>One round of the merge loop; the accumulator holds the merged ranges last first.\<close>

fun merge_step :: "(int \<times> int) list \<Rightarrow> int \<times> int \<Rightarrow> (int \<times> int) list" where
  "merge_step [] (lo, hi) = [(lo, hi)]"
| "merge_step ((a, b) # ms) (lo, hi) =
     (if lo \<le> b + 1 then (a, max b hi) # ms else (lo, hi) # (a, b) # ms)"

definition merge_ranges :: "(int \<times> int) list \<Rightarrow> (int \<times> int) list" where
  "merge_ranges rs = rev (foldl merge_step [] (sort rs))"

definition compile_spec :: "string \<Rightarrow> port_spec_error + (int \<times> int) list" where
  "compile_spec spec =
     bind_r (validate_port_spec spec) (\<lambda>s. bind_r (ranges s) (\<lambda>rs. Inr (merge_ranges rs)))"

definition in_ranges :: "int \<Rightarrow> (int \<times> int) list \<Rightarrow> bool" where
  "in_ranges port rs = list_ex (\<lambda>(lo, hi). lo \<le> port \<and> port \<le> hi) rs"

definition port_in_spec :: "int \<Rightarrow> string \<Rightarrow> port_spec_error + bool" where
  "port_in_spec port spec = bind_r (compile_spec spec) (\<lambda>rs. Inr (in_ranges port rs))"

definition show_range :: "int \<times> int \<Rightarrow> string" where
  "show_range r = (case r of (lo, hi) \<Rightarrow>
     if lo = hi then show_int lo else show_int lo @ ''-'' @ show_int hi)"

definition normalize_spec :: "string \<Rightarrow> port_spec_error + string" where
  "normalize_spec spec =
     bind_r (compile_spec spec) (\<lambda>rs. Inr (join '','' (map show_range rs)))"

definition count_ports :: "string \<Rightarrow> port_spec_error + int" where
  "count_ports spec =
     bind_r (compile_spec spec) (\<lambda>rs. Inr (sum_list (map (\<lambda>(lo, hi). hi - lo + 1) rs)))"

subsection \<open>The named port sets\<close>

definition WEB :: string where
  "WEB = ''80,443,3000,5000,8000,8008,8080,8081,8443,8888,9443''"

definition COMMON :: string where
  "COMMON =
     ''21,22,23,25,53,80,81,110,111,135,139,143,389,443,445,465,500,587,636,873,993,995,1080,1194,'' @
     ''1433,1434,1521,1723,1883,2049,2082,2083,2086,2087,2181,2222,2375,2376,2379,3000,3128,3268,3306,'' @
     ''3389,4443,4444,4786,5000,5001,5060,5061,5432,5601,5672,5900,5901,5984,5985,5986,6379,6443,7001,'' @
     ''7002,7443,8000,8008,8009,8080,8081,8088,8089,8161,8443,8500,8834,8880,8888,9000,9001,9042,9090,'' @
     ''9091,9200,9300,9418,9443,10000,10250,10443,11211,15672,27017,27018,50000,50070''"

definition EXTENDED :: string where
  "EXTENDED = ''1-1024,'' @ COMMON @ '',1025-1100,2000-2100,3000-3100,4000-4100,5000-5100,7000-7100,8000-8100,8400-8500,9000-9100''"

definition FULL :: string where
  "FULL = ''1-65535''"

definition PORT_SETS :: "(string, string) dict" where
  "PORT_SETS = [(''web'', WEB), (''common'', COMMON), (''extended'', EXTENDED), (''full'', FULL)]"

subsection \<open>What a list of ranges denotes\<close>

definition denote :: "(int \<times> int) list \<Rightarrow> int set" where
  "denote rs = (\<Union>(lo, hi) \<in> set rs. {lo..hi})"

definition separated :: "(int \<times> int) list \<Rightarrow> bool" where
  "separated rs \<longleftrightarrow>
     sorted_wrt (\<lambda>r q. snd r + 1 < fst q) rs \<and> (\<forall>r \<in> set rs. fst r \<le> snd r)"

lemma denote_Nil [simp]: "denote [] = {}"
  by (simp add: denote_def)

lemma denote_Cons [simp]: "denote (r # rs) = {fst r..snd r} \<union> denote rs"
  by (auto simp: denote_def split: prod.splits)

lemma denote_rev [simp]: "denote (rev rs) = denote rs"
  by (simp add: denote_def)

lemma denote_sort [simp]: "denote (sort rs) = denote rs"
  by (simp add: denote_def)

lemma in_ranges_denote: "in_ranges p rs \<longleftrightarrow> p \<in> denote rs"
  by (force simp: in_ranges_def denote_def list_ex_iff)

subsection \<open>The merge loop\<close>

text \<open>The loop invariant: the accumulator, read backwards, is separated and starts below \<open>lo\<close>.\<close>

definition merge_inv :: "int \<Rightarrow> (int \<times> int) list \<Rightarrow> bool" where
  "merge_inv lo ms \<longleftrightarrow> separated (rev ms) \<and> (\<forall>r \<in> set ms. fst r \<le> lo)"

lemma merge_step_inv:
  "merge_inv lo ms \<Longrightarrow> lo \<le> hi \<Longrightarrow> merge_inv lo (merge_step ms (lo, hi))"
  by (cases "(ms, (lo, hi))" rule: merge_step.cases)
    (auto simp: merge_inv_def separated_def sorted_wrt_append)

lemma merge_inv_mono: "merge_inv lo ms \<Longrightarrow> lo \<le> lo' \<Longrightarrow> merge_inv lo' ms"
  by (force simp: merge_inv_def)

lemma denote_merge_step:
  "merge_inv lo ms \<Longrightarrow> lo \<le> hi \<Longrightarrow> denote (merge_step ms (lo, hi)) = {lo..hi} \<union> denote ms"
  by (cases "(ms, (lo, hi))" rule: merge_step.cases) (auto simp: merge_inv_def separated_def)

lemma foldl_merge_step:
  assumes "sorted rs" "\<forall>r \<in> set rs. fst r \<le> snd r" "merge_inv lo ms" "\<forall>r \<in> set rs. lo \<le> fst r"
  shows "separated (rev (foldl merge_step ms rs)) \<and>
    denote (foldl merge_step ms rs) = denote ms \<union> denote rs"
  using assms
proof (induction rs arbitrary: ms lo)
  case Nil
  then show ?case by (simp add: merge_inv_def)
next
  case (Cons r rs)
  obtain a b where r: "r = (a, b)" by (cases r)
  from Cons.prems r have le: "a \<le> b" and inv: "merge_inv a ms"
    by (auto intro: merge_inv_mono)
  have "\<forall>q \<in> set rs. a \<le> fst q"
    using Cons.prems(1) r by (auto simp: less_eq_prod_def)
  then have "separated (rev (foldl merge_step (merge_step ms (a, b)) rs)) \<and>
      denote (foldl merge_step (merge_step ms (a, b)) rs) = denote (merge_step ms (a, b)) \<union> denote rs"
    using Cons.prems by (intro Cons.IH [OF _ _ merge_step_inv [OF inv le]]) auto
  then show ?case by (simp add: r denote_merge_step [OF inv le] Un_commute Un_left_commute)
qed

lemma merge_ranges_correct:
  assumes "\<forall>r \<in> set rs. fst r \<le> snd r"
  shows "separated (merge_ranges rs)" "denote (merge_ranges rs) = denote rs"
proof -
  have low: "\<exists>lo. \<forall>r \<in> set (sort rs). lo \<le> fst r"
  proof (cases "rs = []")
    case False
    then show ?thesis
      by (intro exI [of _ "Min (fst ` set rs)"]) auto
  qed simp
  then obtain lo where "\<forall>r \<in> set (sort rs). lo \<le> fst r" ..
  then have "separated (rev (foldl merge_step [] (sort rs))) \<and>
      denote (foldl merge_step [] (sort rs)) = denote [] \<union> denote (sort rs)"
    using assms by (intro foldl_merge_step [of _ lo]) (auto simp: merge_inv_def separated_def)
  then show "separated (merge_ranges rs)" "denote (merge_ranges rs) = denote rs"
    by (auto simp: merge_ranges_def)
qed

lemma separated_sorted: "separated rs \<Longrightarrow> sorted rs"
proof (induction rs)
  case (Cons r rs)
  have "r \<le> q" if "q \<in> set rs" for q
    using Cons.prems that by (cases r; cases q) (force simp: separated_def less_eq_prod_def)
  with Cons show ?case by (auto simp: separated_def)
qed simp

lemma merge_ranges_separated:
  assumes "separated rs"
  shows "merge_ranges rs = rs"
proof -
  have "foldl merge_step [] rs = rev rs" if "separated rs" for rs
    using that
  proof (induction rs rule: rev_induct)
    case (snoc r rs)
    obtain a b where r: "r = (a, b)" by (cases r)
    from snoc have IH: "foldl merge_step [] rs = rev rs"
      by (auto simp: separated_def sorted_wrt_append)
    show ?case
    proof (cases rs rule: rev_cases)
      case (snoc qs q)
      then show ?thesis
        using \<open>separated (rs @ [r])\<close> IH r
        by (cases q) (auto simp: separated_def sorted_wrt_append)
    qed (simp add: r)
  qed simp
  then show ?thesis
    using assms by (simp add: merge_ranges_def separated_sorted sort_key_id_if_sorted)
qed

lemma card_denote_separated:
  "separated rs \<Longrightarrow> sum_list (map (\<lambda>(lo, hi). hi - lo + 1) rs) = int (card (denote rs))"
proof (induction rs)
  case (Cons r rs)
  obtain lo hi where r: "r = (lo, hi)" by (cases r)
  from Cons have IH: "sum_list (map (\<lambda>(lo, hi). hi - lo + 1) rs) = int (card (denote rs))"
    and "lo \<le> hi"
    by (auto simp: separated_def r)
  have disj: "{lo..hi} \<inter> denote rs = {}"
    using Cons.prems by (fastforce simp: separated_def r denote_def)
  have "finite (denote rs)" by (auto simp: denote_def)
  with disj have "card (denote (r # rs)) = card {lo..hi} + card (denote rs)"
    by (simp add: r card_Un_disjoint)
  with IH \<open>lo \<le> hi\<close> show ?case by (simp add: r)
qed simp

subsection \<open>Specifications that validate\<close>

definition port_range :: "int \<times> int \<Rightarrow> bool" where
  "port_range r \<longleftrightarrow> 1 \<le> fst r \<and> fst r \<le> snd r \<and> snd r \<le> 65535"

lemma check_ranges_None: "check_ranges rs = None \<longleftrightarrow> (\<forall>r \<in> set rs. port_range r)"
  by (induction rs rule: check_ranges.induct) (auto simp: port_range_def)

lemma validate_port_spec_Inr:
  "validate_port_spec spec = Inr s \<longleftrightarrow>
     s = replace_char (CHR '' '') [] spec \<and> PORT_SPEC_RE s \<and>
     (\<exists>rs. ranges s = Inr rs \<and> (\<forall>r \<in> set rs. port_range r))"
  by (auto simp: validate_port_spec_def Let_def bind_r_Inr check_ranges_None [symmetric]
      split: option.splits)

lemma compile_spec_Inr:
  assumes "compile_spec spec = Inr rs"
  obtains qs where "ranges (replace_char (CHR '' '') [] spec) = Inr qs"
    "\<forall>r \<in> set qs. port_range r" "rs = merge_ranges qs"
  using assms by (auto simp: compile_spec_def bind_r_Inr validate_port_spec_Inr)

lemma compile_spec_denote:
  assumes "compile_spec spec = Inr rs" "ranges (replace_char (CHR '' '') [] spec) = Inr qs"
  shows "separated rs" "denote rs = denote qs" "denote rs \<subseteq> {1..65535}"
proof -
  obtain qs' where *: "ranges (replace_char (CHR '' '') [] spec) = Inr qs'"
      "\<forall>r \<in> set qs'. port_range r" "rs = merge_ranges qs'"
    using assms(1) by (rule compile_spec_Inr)
  then have qs: "qs' = qs" using assms(2) by simp
  have "\<forall>r \<in> set qs. fst r \<le> snd r" using * qs by (auto simp: port_range_def)
  from merge_ranges_correct [OF this] * qs
  show "separated rs" "denote rs = denote qs" by simp_all
  then show "denote rs \<subseteq> {1..65535}"
    using * qs by (fastforce simp: denote_def port_range_def)
qed

subsection \<open>Printing and parsing again\<close>

lemma show_range_chars: "port_range r \<Longrightarrow> c \<in> set (show_range r) \<Longrightarrow> isdigit c \<or> c = CHR ''-''"
  by (auto simp: show_range_def show_int_def port_range_def dest: show_nat_digit split: prod.splits if_splits)

lemma digits_no_dash: "all_digits s \<Longrightarrow> CHR ''-'' \<notin> set s"
  by (auto simp: list_all_iff isdigit_def)

lemma show_port_digits_1_5: "0 \<le> n \<Longrightarrow> n \<le> 65535 \<Longrightarrow> digits_1_5 (show_int n)"
  using length_show_nat [of "nat n" 5] by (simp add: digits_1_5_def show_int_def Suc_le_eq)

lemma py_int_show: "0 \<le> n \<Longrightarrow> py_int (show_int n) = Some n"
  by (simp add: show_int_def py_int_digits)

lemma all_digits_show_int: "0 \<le> n \<Longrightarrow> all_digits (show_int n)"
  by (simp add: show_int_def)

lemmas show_range_parts = show_port_digits_1_5 py_int_show partition_str_none partition_str_app
  digits_no_dash [OF all_digits_show_int]

lemma port_part_show_range: "port_range r \<Longrightarrow> port_part (show_range r)"
  by (cases r) (auto simp: port_part_def show_range_def port_range_def show_range_parts)

lemma range_of_show_range: "port_range r \<Longrightarrow> range_of (show_range r) = Some r"
  by (cases r) (auto simp: range_of_def show_range_def port_range_def show_range_parts)

definition show_ranges :: "(int \<times> int) list \<Rightarrow> string" where
  "show_ranges rs = join '','' (map show_range rs)"

lemma show_ranges_chars:
  assumes "\<forall>r \<in> set rs. port_range r" "c \<in> set (show_ranges rs)"
  shows "isdigit c \<or> c = CHR ''-'' \<or> c = CHR '',''"
  using assms set_join_single [of "CHR '',''" "map show_range rs"] show_range_chars
  by (fastforce simp: show_ranges_def)

lemma split_show_ranges:
  assumes "\<forall>r \<in> set rs. port_range r" "rs \<noteq> []"
  shows "split_on (CHR '','') (show_ranges rs) = map show_range rs"
proof -
  have "CHR '','' \<notin> set (show_range r)" if "r \<in> set rs" for r
    using show_range_chars [of r "CHR '',''"] that assms(1) by (auto simp: isdigit_def)
  then show ?thesis
    using assms(2) by (auto simp: show_ranges_def intro!: split_on_join)
qed

lemma replace_char_none: "d \<notin> set s \<Longrightarrow> replace_char d by s = s"
  by (induction s) (auto simp: replace_char_def)

lemma compile_show_ranges:
  assumes "\<forall>r \<in> set rs. port_range r" "rs \<noteq> []" "separated rs"
  shows "compile_spec (show_ranges rs) = Inr rs"
proof -
  let ?s = "show_ranges rs"
  have chars: "c \<notin> set ?s" if "\<not> isdigit c" "c \<noteq> CHR ''-''" "c \<noteq> CHR '',''" for c
    using show_ranges_chars [OF assms(1)] that by blast
  have sp: "replace_char (CHR '' '') [] ?s = ?s"
    by (intro replace_char_none chars) (auto simp: isdigit_def)
  have "newline \<notin> set ?s"
    by (rule chars) (auto simp: isdigit_def)
  then have nl: "(if ?s \<noteq> [] \<and> last ?s = newline then butlast ?s else ?s) = ?s"
    using last_in_set by fastforce
  have re: "PORT_SPEC_RE ?s"
    using assms by (auto simp: PORT_SPEC_RE_def Let_def nl split_show_ranges list_all_iff port_part_show_range)
  have rs: "ranges ?s = Inr rs"
    using assms mapM_opt_total [of rs "range_of \<circ> show_range" id]
    by (auto simp: ranges_def split_show_ranges mapM_opt_map range_of_show_range)
  have "check_ranges rs = None" using assms by (simp add: check_ranges_None)
  then show ?thesis
    by (simp add: compile_spec_def validate_port_spec_def sp re rs merge_ranges_separated assms(3))
qed

lemma merge_step_bounds:
  "\<forall>r \<in> set ms. port_range r \<Longrightarrow> port_range q \<Longrightarrow> \<forall>r \<in> set (merge_step ms q). port_range r"
  by (cases "(ms, q)" rule: merge_step.cases) (auto simp: port_range_def)

lemma foldl_merge_bounds:
  assumes "\<forall>r \<in> set ms. port_range r" "\<forall>r \<in> set rs. port_range r"
  shows "\<forall>r \<in> set (foldl merge_step ms rs). port_range r"
  using assms
proof (induction rs arbitrary: ms)
  case (Cons q rs)
  have "port_range q" "\<forall>r \<in> set rs. port_range r" using Cons.prems(2) by simp_all
  from Cons.IH [OF merge_step_bounds [OF Cons.prems(1) this(1)] this(2)] show ?case
    by (simp only: foldl.simps)
qed simp

lemma merge_step_nonempty [simp]: "merge_step ms q \<noteq> []"
  by (cases "(ms, q)" rule: merge_step.cases) auto

lemma foldl_merge_nonempty: "foldl merge_step ms rs = [] \<longleftrightarrow> ms = [] \<and> rs = []"
  by (induction rs arbitrary: ms) auto

lemma sort_eq_Nil: "sort xs = [] \<longleftrightarrow> xs = []"
  by (metis length_0_conv length_sort)

lemma compile_spec_wf:
  assumes "compile_spec spec = Inr rs"
  shows "\<forall>r \<in> set rs. port_range r" "rs \<noteq> []" "separated rs"
proof -
  obtain qs where *: "ranges (replace_char (CHR '' '') [] spec) = Inr qs"
      "\<forall>r \<in> set qs. port_range r" "rs = merge_ranges qs"
    using assms by (rule compile_spec_Inr)
  show "\<forall>r \<in> set rs. port_range r"
    unfolding *(3) merge_ranges_def set_rev by (rule foldl_merge_bounds) (simp_all add: *(2))
  have "qs \<noteq> []"
    using *(1) by (auto simp: ranges_def mapM_opt_Some split: option.splits)
  then show "rs \<noteq> []" by (simp add: * merge_ranges_def foldl_merge_nonempty sort_eq_Nil)
  show "separated rs" by (rule compile_spec_denote(1) [OF assms *(1)])
qed

interpretation port_canon: canonical_form compile_spec show_ranges
  by unfold_locales (rule compile_show_ranges; rule compile_spec_wf)

lemma normalize_spec_canon: "normalize_spec spec = bind_r (compile_spec spec) (\<lambda>rs. Inr (show_ranges rs))"
  by (simp add: normalize_spec_def show_ranges_def)

lemma separated_denote_eq:
  assumes "separated rs" "separated qs" "denote rs = denote qs"
  shows "rs = qs"
  using assms
proof (induction rs arbitrary: qs)
  case Nil
  then show ?case by (cases qs) (auto simp: separated_def)
next
  case (Cons r rs)
  obtain q qs' where qs: "qs = q # qs'"
    using Cons.prems by (cases qs) (auto simp: separated_def)
  have sep: "separated rs" "separated qs'" "fst r \<le> snd r" "fst q \<le> snd q"
    using Cons.prems qs by (auto simp: separated_def)
  have above: "\<forall>p \<in> denote rs. snd r + 1 < p" "\<forall>p \<in> denote qs'. snd q + 1 < p"
    using Cons.prems qs by (fastforce simp: separated_def denote_def)+
  have eq: "{fst r..snd r} \<union> denote rs = {fst q..snd q} \<union> denote qs'"
    using Cons.prems qs by simp
  have "fst r \<in> {fst q..snd q} \<union> denote qs'" "fst q \<in> {fst r..snd r} \<union> denote rs"
    using eq sep by auto
  then have fst_eq: "fst r = fst q" using above sep by fastforce
  have not_in: "snd r + 1 \<notin> {fst r..snd r} \<union> denote rs" "snd q + 1 \<notin> {fst q..snd q} \<union> denote qs'"
    using above by auto
  have snd_eq: "snd r = snd q"
  proof (rule linorder_cases [of "snd r" "snd q"])
    assume "snd r < snd q"
    then have "snd r + 1 \<in> {fst q..snd q}" using sep fst_eq by simp
    then show ?thesis using not_in(1) eq by blast
  next
    assume "snd q < snd r"
    then have "snd q + 1 \<in> {fst r..snd r}" using sep fst_eq by simp
    then show ?thesis using not_in(2) eq by blast
  qed
  have "denote rs \<inter> {fst r..snd r} = {}" "denote qs' \<inter> {fst r..snd r} = {}"
    using above snd_eq by fastforce+
  moreover have "{fst r..snd r} \<union> denote rs = {fst r..snd r} \<union> denote qs'"
    using eq by (simp only: fst_eq snd_eq)
  ultimately have "denote rs = denote qs'" by blast
  then have "rs = qs'" using Cons.IH sep by blast
  then show ?case using fst_eq snd_eq qs by (simp add: prod_eq_iff)
qed

subsection \<open>Properties\<close>

text \<open>
  C34: a port belongs to a specification exactly when one of the ranges written in it (spaces
  removed) contains the port: sorting, merging and skipping loses and adds nothing.
\<close>

theorem port_in_spec_correct:
  assumes "validate_port_spec spec = Inr s" "ranges s = Inr rs"
  shows "port_in_spec port spec = Inr (\<exists>(lo, hi) \<in> set rs. lo \<le> port \<and> port \<le> hi)"
proof -
  from assms have "compile_spec spec = Inr (merge_ranges rs)"
    by (simp add: compile_spec_def)
  moreover have "\<forall>r \<in> set rs. fst r \<le> snd r"
    using assms by (auto simp: validate_port_spec_Inr port_range_def)
  then have "in_ranges port (merge_ranges rs) = in_ranges port rs"
    by (simp only: in_ranges_denote merge_ranges_correct(2))
  ultimately show ?thesis
    by (simp only: port_in_spec_def bind_r_simps in_ranges_def list_ex_iff)
qed

theorem port_in_spec_correct_witness:
  "validate_port_spec ''80, 8000-8080,8081'' = Inr ''80,8000-8080,8081'' \<and>
   ranges ''80,8000-8080,8081'' = Inr [(80, 80), (8000, 8080), (8081, 8081)] \<and>
   port_in_spec 8081 ''80, 8000-8080,8081'' = Inr True"
proof -
  have 1: "validate_port_spec ''80, 8000-8080,8081'' = Inr ''80,8000-8080,8081''" by code_simp
  have 2: "ranges ''80,8000-8080,8081'' = Inr [(80, 80), (8000, 8080), (8081, 8081)]" by code_simp
  show ?thesis using port_in_spec_correct [OF 1 2, of 8081] by (intro conjI 1 2) simp
qed

text \<open>
  what \<open>compile_spec\<close> returns is a non-empty list of ranges within 1 to 65535, in
  ascending order, disjoint and with a gap of at least one port between neighbours.
\<close>

theorem compile_spec_canonical:
  assumes "compile_spec spec = Inr rs"
  shows "rs \<noteq> [] \<and> (\<forall>(lo, hi) \<in> set rs. 1 \<le> lo \<and> lo \<le> hi \<and> hi \<le> 65535) \<and>
    sorted_wrt (\<lambda>(_, hi) (lo, _). hi + 1 < lo) rs"
  using compile_spec_wf [OF assms]
  by (auto simp: port_range_def separated_def case_prod_unfold)

theorem compile_spec_canonical_witness:
  "compile_spec ''443,80-90,91,1-3'' = Inr [(1, 3), (80, 91), (443, 443)] \<and>
   sorted_wrt (\<lambda>(_, hi) (lo, _). hi + 1 < lo) [(1, 3), (80, 91), (443, 443 :: int)]"
proof -
  have 1: "compile_spec ''443,80-90,91,1-3'' = Inr [(1, 3), (80, 91), (443, 443)]" by code_simp
  from 1 compile_spec_canonical [OF 1] show ?thesis by blast
qed

text \<open>
  \<open>count_ports\<close> returns the number of distinct ports of the specification, however much
  its ranges overlap.
\<close>

theorem count_ports_card:
  assumes "count_ports spec = Inr n"
  shows "n = int (card {p. port_in_spec p spec = Inr True})"
proof -
  obtain rs where rs: "compile_spec spec = Inr rs" and n: "n = sum_list (map (\<lambda>(lo, hi). hi - lo + 1) rs)"
    using assms by (auto simp: count_ports_def bind_r_Inr)
  have "{p. port_in_spec p spec = Inr True} = denote rs"
    by (auto simp: port_in_spec_def rs in_ranges_denote)
  then show ?thesis
    by (simp add: n card_denote_separated [OF compile_spec_wf(3) [OF rs]])
qed

theorem count_ports_card_witness:
  "count_ports ''80-90,85-95,90'' = Inr 16 \<and>
   card {p. port_in_spec p ''80-90,85-95,90'' = Inr True} = 16"
proof -
  have 1: "count_ports ''80-90,85-95,90'' = Inr 16" by code_simp
  from 1 count_ports_card [OF 1] show ?thesis by simp
qed

text \<open>
  \<open>normalize_spec\<close> is a canonical form. Its result validates and normalises to itself, and
  two specifications have the same normal form exactly when they contain the same ports.
\<close>

theorem normalize_spec_canonical:
  assumes "normalize_spec a = Inr na" "normalize_spec b = Inr nb"
  shows "normalize_spec na = Inr na \<and>
    (na = nb \<longleftrightarrow> (\<forall>p. port_in_spec p a = port_in_spec p b))"
proof -
  note n = assms [unfolded normalize_spec_canon]
  obtain ra rb where r: "compile_spec a = Inr ra" "compile_spec b = Inr rb"
    using n by (auto simp: bind_r_Inr)
  have "na = nb \<longleftrightarrow> ra = rb"
    using port_canon.normal_form_eq [OF n] r by simp
  also have "\<dots> \<longleftrightarrow> denote ra = denote rb"
    using separated_denote_eq compile_spec_wf(3) [OF r(1)] compile_spec_wf(3) [OF r(2)] by blast
  finally show ?thesis
    using port_canon.normal_form_idem [OF n(1)]
    by (auto simp: normalize_spec_canon port_in_spec_def r in_ranges_denote)
qed

theorem normalize_spec_canonical_witness:
  "normalize_spec ''443,80-82'' = Inr ''80-82,443'' \<and>
   normalize_spec ''80, 81,82,443'' = Inr ''80-82,443'' \<and>
   normalize_spec ''80-82,443'' = Inr ''80-82,443'' \<and>
   (\<forall>p. port_in_spec p ''443,80-82'' = port_in_spec p ''80, 81,82,443'')"
proof -
  have 1: "normalize_spec ''443,80-82'' = Inr ''80-82,443''" by code_simp
  have 2: "normalize_spec ''80, 81,82,443'' = Inr ''80-82,443''" by code_simp
  from 1 2 normalize_spec_canonical [OF 1 2] show ?thesis by blast
qed

text \<open>
  a specification with a final newline validates, and the newline is kept in what
  \<open>validate_port_spec\<close> returns, because \<open>$\<close> also matches before it.
\<close>

theorem validate_port_spec_newline:
  "validate_port_spec (''80'' @ [newline]) = Inr (''80'' @ [newline])"
  by code_simp

end
