(* ===== verification/Normalization.thy ===== *)
theory Normalization
  imports Targets Ports
begin

text \<open>
  Canonical forms of asset values (\<open>backend/app/assets/normalization.py\<close>, with
  \<open>endpoint_base\<close> and the product helpers of \<open>workers/asm_sensors/adapters/httpx\<close>). The public
  suffix list (\<open>tldextract\<close>) is the parameter \<open>reg\<close>: the registrable domain of a host.
\<close>

subsection \<open>Values\<close>

definition normalize_hostname :: "unicode \<Rightarrow> string \<Rightarrow> string option" where
  "normalize_hostname u value = (case validate_hostname u value of Inl _ \<Rightarrow> None | Inr v \<Rightarrow> Some v)"

definition normalize_ip :: "string \<Rightarrow> string option" where
  "normalize_ip value = map_option show_ip (ip_address (strip value))"

definition normalize_cidr :: "string \<Rightarrow> string option" where
  "normalize_cidr value = map_option show_net (ip_network (strip value))"

text \<open>The host alternatives of the expression \<open>_PORT_RE\<close>: a bracketed or a dotted address.\<close>

definition port_re_host :: "string \<Rightarrow> bool" where
  "port_re_host h \<longleftrightarrow>
     (3 \<le> length h \<and> hd h = CHR ''['' \<and> last h = CHR '']'' \<and>
        list_all (\<lambda>c. is_hex c \<or> c = CHR '':'' \<or> c = CHR ''.'') (butlast (tl h))) \<or>
     (h \<noteq> [] \<and> list_all (\<lambda>c. isdigit c \<or> c = CHR ''.'') h)"

definition PORT_VALUE_RE :: "string \<Rightarrow> (string \<times> string \<times> string) option" where
  "PORT_VALUE_RE v =
     (case rpartition (CHR ''/'') (re_body v) of (hp, slash, proto) \<Rightarrow>
      case rpartition (CHR '':'') hp of (h, colon, p) \<Rightarrow>
        if slash \<and> colon \<and> port_re_host h \<and> digits_1_5 p \<and>
           map lower_char proto \<in> {''tcp'', ''udp''}
        then Some (h, p, proto) else None)"

abbreviation strip_brackets :: "string \<Rightarrow> string" where
  "strip_brackets s \<equiv> strip_by (\<lambda>c. c = CHR ''['' \<or> c = CHR '']'') s"

definition normalize_port :: "string \<Rightarrow> string option" where
  "normalize_port value =
     (case PORT_VALUE_RE (strip value) of
        None \<Rightarrow> None
      | Some (h, p, proto) \<Rightarrow>
          (let port = int (parse_nat p) in
           case normalize_ip (strip_brackets h) of
             None \<Rightarrow> None
           | Some ip \<Rightarrow>
               if ip = [] \<or> \<not> (1 \<le> port \<and> port \<le> 65535) then None
               else Some (bracketed ip @ '':'' @ show_int port @ ''/'' @ map lower_char proto)))"

definition parse_port_value :: "string \<Rightarrow> (string \<times> int option \<times> string) option" where
  "parse_port_value value =
     (case normalize_port value of
        None \<Rightarrow> None
      | Some nv \<Rightarrow>
          if nv = [] then None
          else (case rpartition (CHR '':'') nv of (hostpart, _, rest) \<Rightarrow>
                case partition_str ''/'' rest of (p, _, proto) \<Rightarrow>
                  Some (strip_brackets hostpart, py_int p, proto)))"

text \<open>\<open>endpoint_base\<close>: base URL, scheme, host and port of an HTTP endpoint.\<close>

definition endpoint_base :: "unicode \<Rightarrow> string \<Rightarrow> (string \<times> string \<times> string \<times> int) option" where
  "endpoint_base u url =
     (case urlsplit u url of None \<Rightarrow> None
      | Some p \<Rightarrow>
          (case url_port p of None \<Rightarrow> None
           | Some pt \<Rightarrow>
               if scheme p \<notin> {''http'', ''https''} \<or> \<not> truthy (hostname p) then None
               else
                 (let h = map lower_char (the (hostname p));
                      n = (case pt of Some k \<Rightarrow> if k = 0 then (if scheme p = ''https'' then 443 else 80) else k
                           | None \<Rightarrow> (if scheme p = ''https'' then 443 else 80));
                      dflt = (scheme p = ''https'' \<and> n = 443 \<or> scheme p = ''http'' \<and> n = 80);
                      base = scheme p @ ''://'' @ bracketed h @ (if dflt then [] else '':'' @ show_int n) in
                  Some (base, scheme p, h, n))))"

text \<open>\<open>^(?:AS)?(\d{1,10})$\<close>, case-insensitively: the digits.\<close>

definition ASN_RE :: "string \<Rightarrow> string option" where
  "ASN_RE v =
     (let b = re_body v;
          d = (if map lower_char (take 2 b) = ''as'' then drop 2 b else b) in
      if all_digits d \<and> 1 \<le> length d \<and> length d \<le> 10 then Some d else None)"

definition FP_RE :: "string \<Rightarrow> bool" where
  "FP_RE v \<longleftrightarrow> (let b = re_body v in
     8 \<le> length b \<and> length b \<le> 128 \<and> list_all (\<lambda>c. isdigit c \<or> 97 \<le> code c \<and> code c \<le> 102) b)"

definition normalize_value :: "unicode \<Rightarrow> string \<Rightarrow> string \<Rightarrow> string option" where
  "normalize_value u tv value =
     (if strip value = [] \<or> 2048 < length value then None
      else if tv \<in> {''hostname'', ''root_domain'', ''domain'', ''subdomain''} then normalize_hostname u value
      else if tv = ''ip_address'' then normalize_ip value
      else if tv = ''cidr'' then normalize_cidr value
      else if tv = ''asn'' then
        map_option (\<lambda>d. ''AS'' @ show_int (int (parse_nat d))) (ASN_RE (strip value))
      else if tv \<in> {''port'', ''service''} then normalize_port value
      else if tv = ''http_endpoint'' then map_option fst (endpoint_base u (strip value))
      else if tv = ''technology'' then
        (let v = join '' '' (split_ws (map lower_char (strip value))) in
         if v = [] then None else Some (take 128 v))
      else if tv = ''certificate'' then
        (let v = replace_char (CHR '':'') [] (map lower_char (strip value)) in
         if FP_RE v then Some v else None)
      else if tv \<in> {''cloud_resource'', ''web_application'', ''dns_record''} then
        (let v = map lower_char (strip value) in
         if v \<noteq> [] \<and> \<not> list_ex (\<lambda>c. code c < 32) v then Some (take 512 v) else None)
      else None)"

subsection \<open>Types of hostnames\<close>

definition classify_hostname :: "(string \<Rightarrow> string option) \<Rightarrow> string \<Rightarrow> string list \<Rightarrow> asset_type" where
  "classify_hostname reg h roots =
     (if h \<in> set roots then asset_type.ROOT_DOMAIN
      else if reg h = Some h then asset_type.DOMAIN
      else asset_type.SUBDOMAIN)"

text \<open>One round of the search for the most specific root domain.\<close>

definition closer_root :: "string \<Rightarrow> string option \<Rightarrow> string \<Rightarrow> string option" where
  "closer_root h best root =
     (if h \<noteq> root \<and> endswith h (''.'' @ root) \<and>
         (case best of None \<Rightarrow> True | Some b \<Rightarrow> length b < length root)
      then Some root else best)"

definition parent_domain :: "(string \<Rightarrow> string option) \<Rightarrow> string \<Rightarrow> string list \<Rightarrow> string option" where
  "parent_domain reg h roots =
     (let best = foldl (closer_root h) None roots in
      if truthy best then best
      else (case reg h of None \<Rightarrow> None | Some r \<Rightarrow> if r \<noteq> [] \<and> r \<noteq> h then Some r else None))"

text \<open>The constructors of the enumerations by value: \<open>AssetType(v)\<close>, \<open>ObservedType(v)\<close>.\<close>

definition all_asset_types :: "asset_type list" where
  "all_asset_types =
     [asset_type.ROOT_DOMAIN, asset_type.DOMAIN, asset_type.SUBDOMAIN, asset_type.IP_ADDRESS,
      asset_type.CIDR, asset_type.ASN, asset_type.DNS_RECORD, asset_type.CERTIFICATE,
      asset_type.PORT, asset_type.SERVICE, asset_type.HTTP_ENDPOINT, asset_type.WEB_APPLICATION,
      asset_type.TECHNOLOGY, asset_type.CLOUD_RESOURCE]"

definition all_observed_types :: "observed_type list" where
  "all_observed_types =
     [observed_type.HOSTNAME, observed_type.IP_ADDRESS, observed_type.CIDR, observed_type.ASN,
      observed_type.DNS_RECORD, observed_type.CERTIFICATE, observed_type.PORT, observed_type.SERVICE,
      observed_type.HTTP_ENDPOINT, observed_type.WEB_APPLICATION, observed_type.TECHNOLOGY,
      observed_type.CLOUD_RESOURCE]"

definition asset_type_of_value :: "string \<Rightarrow> asset_type option" where
  "asset_type_of_value v = find (\<lambda>t. asset_type_value t = v) all_asset_types"

definition observed_type_of_value :: "string \<Rightarrow> observed_type option" where
  "observed_type_of_value v = find (\<lambda>t. observed_type_value t = v) all_observed_types"

definition asset_type_for :: "(string \<Rightarrow> string option) \<Rightarrow> observed_type \<Rightarrow> string \<Rightarrow> string list \<Rightarrow> asset_type option" where
  "asset_type_for reg t value roots =
     (if t = observed_type.HOSTNAME then Some (classify_hostname reg value roots)
      else asset_type_of_value (observed_type_value t))"

definition HOSTNAME_ASSET_TYPES :: "asset_type list" where
  "HOSTNAME_ASSET_TYPES = [asset_type.ROOT_DOMAIN, asset_type.DOMAIN, asset_type.SUBDOMAIN]"

definition observed_type_for :: "asset_type \<Rightarrow> observed_type option" where
  "observed_type_for t =
     (if t \<in> set HOSTNAME_ASSET_TYPES then Some observed_type.HOSTNAME
      else observed_type_of_value (asset_type_value t))"

definition is_private_ip :: "string \<Rightarrow> bool" where
  "is_private_ip s =
     (case ip_address s of None \<Rightarrow> False
      | Some a \<Rightarrow> is_private a \<or> is_loopback a \<or> is_link_local a \<or> is_reserved a \<or> is_multicast a)"

subsection \<open>Product banners\<close>

text \<open>\<open>'nginx/1.25.3 (Ubuntu)'\<close> gives \<open>('nginx', '1.25.3')\<close>.\<close>

definition or_none :: "string \<Rightarrow> string option" where
  "or_none s = (if s = [] then None else Some s)"

definition split_product :: "string option \<Rightarrow> string option \<times> string option" where
  "split_product server =
     (if \<not> truthy server then (None, None)
      else
        (let first = hd (split_on (CHR '' '') (strip (the server))) in
         if CHR ''/'' \<in> set first
         then (case partition_str ''/'' first of (name, _, ver) \<Rightarrow> (or_none (map lower_char name), or_none ver))
         else (or_none (map lower_char first), None)))"

definition split_tech :: "string \<Rightarrow> string \<times> string option" where
  "split_tech entry =
     (case partition_str '':'' entry of (name, sep, ver) \<Rightarrow>
        (strip name, if sep then or_none (strip ver) else None))"

subsection \<open>Addresses\<close>

lemma normalize_ip_parse: "normalize_ip value = Some v \<longleftrightarrow> (\<exists>a. parse_ip value = Inr a \<and> v = show_ip a)"
  by (auto simp: normalize_ip_def parse_ip_def split: option.splits)

lemma normalize_ip_idem: "normalize_ip value = Some v \<Longrightarrow> normalize_ip v = Some v"
  by (auto simp: normalize_ip_parse intro: ip_canon.parse_render)

lemma normalize_cidr_idem: "normalize_cidr value = Some v \<Longrightarrow> normalize_cidr v = Some v"
  by (auto simp: normalize_cidr_def show_net_strip ip_network_show dest: wf_ip_network)

subsection \<open>Port values\<close>

lemma strip_brackets_bracketed:
  assumes "CHR ''['' \<notin> set s" "CHR '']'' \<notin> set s"
  shows "strip_brackets (bracketed s) = s"
proof -
  have "s = [] \<or> hd s \<in> set s \<and> last s \<in> set s" by (cases "s = []") simp_all
  then have s: "s = [] \<or> hd s \<notin> {CHR ''['', CHR '']''} \<and> last s \<notin> {CHR ''['', CHR '']''}"
    using assms by auto
  have "lstrip_by (\<lambda>c. c = CHR ''['' \<or> c = CHR '']'') (''['' @ s @ '']'') =
      lstrip_by (\<lambda>c. c = CHR ''['' \<or> c = CHR '']'') (s @ '']'')"
    by (simp add: lstrip_by_def)
  also have "rstrip_by (\<lambda>c. c = CHR ''['' \<or> c = CHR '']'') \<dots> = s"
  proof (cases "s = []")
    case False
    then have "lstrip_by (\<lambda>c. c = CHR ''['' \<or> c = CHR '']'') (s @ '']'') = s @ '']''"
      using s by (intro lstrip_by_id) auto
    moreover have "rstrip_by (\<lambda>c. c = CHR ''['' \<or> c = CHR '']'') (s @ '']'') =
        rstrip_by (\<lambda>c. c = CHR ''['' \<or> c = CHR '']'') s"
      by (simp add: rstrip_by_def)
    ultimately show ?thesis using s False by (simp add: rstrip_by_id)
  qed (simp add: lstrip_by_def rstrip_by_def)
  finally have "strip_brackets (''['' @ s @ '']'') = s" by (simp add: strip_by_def)
  moreover have "strip_brackets s = s" using s by (intro strip_by_id) auto
  ultimately show ?thesis by (simp add: bracketed_def)
qed

definition port_value :: "ip \<Rightarrow> int \<Rightarrow> string \<Rightarrow> string" where
  "port_value a port proto = bracketed (show_ip a) @ '':'' @ show_int port @ ''/'' @ proto"

definition wf_port_value :: "ip \<Rightarrow> int \<Rightarrow> string \<Rightarrow> bool" where
  "wf_port_value a port proto \<longleftrightarrow>
     wf_ip a \<and> ip_scope a = None \<and> 1 \<le> port \<and> port \<le> 65535 \<and> proto \<in> {''tcp'', ''udp''}"

lemma show_ip_plain_chars:
  assumes "ip_scope a = None" "c \<in> set (show_ip a)"
  shows "is_hex c \<or> c = CHR '':'' \<or> c = CHR ''.''"
  using assms show_v4_chars [of c "ip_int a"] show_v6_chars [of c "ip_int a"]
  by (auto simp: show_ip_def is_hex_def split: ipver.splits)

lemma show_ip_v4_chars: "ip_ver a = V4 \<Longrightarrow> c \<in> set (show_ip a) \<Longrightarrow> isdigit c \<or> c = CHR ''.''"
  using show_v4_chars by (simp add: show_ip_def)

lemma show_ip_nonempty: "show_ip a \<noteq> []"
  using hd_show_v6(2) by (cases "ip_ver a") (simp_all add: show_ip_def show_v4_def octets_of_def)

lemma port_re_host_bracketed:
  assumes "ip_scope a = None"
  shows "port_re_host (bracketed (show_ip a))"
proof (cases "CHR '':'' \<in> set (show_ip a)")
  case True
  then have "list_all (\<lambda>c. is_hex c \<or> c = CHR '':'' \<or> c = CHR ''.'') (show_ip a)"
    using show_ip_plain_chars [OF assms] by (simp add: list_all_iff)
  moreover have "1 \<le> length (show_ip a)" using show_ip_nonempty [of a] by (simp add: Suc_le_eq)
  ultimately show ?thesis using True by (simp add: port_re_host_def bracketed_def butlast_append)
next
  case False
  then have "ip_ver a = V4" using show_ip_v6_colon by (cases "ip_ver a") auto
  then have "list_all (\<lambda>c. isdigit c \<or> c = CHR ''.'') (show_ip a)"
    using show_ip_v4_chars by (auto simp: list_all_iff)
  then show ?thesis using False show_ip_nonempty by (simp add: port_re_host_def bracketed_def)
qed

lemma port_value_chars:
  assumes "wf_port_value a port proto" "c \<in> set (port_value a port proto)"
  shows "\<not> isspace c \<and> c \<noteq> newline"
proof -
  have "c \<in> set (show_ip a) \<or> isdigit c \<or> c \<in> set ''[]:/tcpudp''"
    using assms by (auto simp: port_value_def wf_port_value_def bracketed_def show_int_def
        dest: show_nat_digit split: if_splits)
  then have "is_hex c \<or> c \<in> set ''[]:/tcpudp.''"
  proof (elim disjE)
    assume "c \<in> set (show_ip a)"
    then show ?thesis using show_ip_plain_chars [of a c] assms(1) by (auto simp: wf_port_value_def)
  qed (simp_all add: is_hex_def, auto)
  then show ?thesis
  proof
    assume "is_hex c"
    then show ?thesis by (auto simp: is_hex_def isdigit_def isspace_def Let_def)
  qed (auto simp: isspace_def Let_def)
qed

lemma port_value_split:
  assumes "wf_port_value a port proto"
  shows "PORT_VALUE_RE (strip (port_value a port proto)) = Some (bracketed (show_ip a), show_int port, proto)"
proof -
  let ?v = "port_value a port proto"
  have "strip ?v = ?v" using port_value_chars [OF assms] by (intro strip_by_none) blast
  moreover have "re_body ?v = ?v" using port_value_chars [OF assms] by (intro re_body_no_newline) blast
  moreover have "rpartition (CHR ''/'') ?v = (bracketed (show_ip a) @ CHR '':'' # show_int port, True, proto)"
    using assms rpartition_app [of "CHR ''/''" proto "bracketed (show_ip a) @ CHR '':'' # show_int port"]
    by (auto simp: port_value_def wf_port_value_def)
  moreover have "CHR '':'' \<notin> set (show_int port)"
    using assms show_octet_chars [of port "CHR '':''"] by (auto simp: wf_port_value_def isdigit_def)
  then have "rpartition (CHR '':'') (bracketed (show_ip a) @ CHR '':'' # show_int port) =
      (bracketed (show_ip a), True, show_int port)"
    by (rule rpartition_app)
  moreover have "digits_1_5 (show_int port)"
    using assms by (intro show_port_digits_1_5) (auto simp: wf_port_value_def)
  moreover have "map lower_char proto \<in> {''tcp'', ''udp''}"
    using assms by (auto simp: wf_port_value_def lower_char_def isupper_def)
  ultimately show ?thesis
    using port_re_host_bracketed [of a] assms by (simp add: PORT_VALUE_RE_def wf_port_value_def)
qed

lemma no_brackets:
  assumes "ip_scope a = None"
  shows "CHR ''['' \<notin> set (show_ip a)" "CHR '']'' \<notin> set (show_ip a)"
  using show_ip_plain_chars [OF assms, of "CHR ''[''"] show_ip_plain_chars [OF assms, of "CHR '']''"]
  by (auto simp: is_hex_def isdigit_def)

lemma normalize_port_value:
  assumes "wf_port_value a port proto"
  shows "normalize_port (port_value a port proto) = Some (port_value a port proto)"
proof -
  have a: "ip_scope a = None" "wf_ip a" and p: "1 \<le> port" "port \<le> 65535" "proto \<in> {''tcp'', ''udp''}"
    using assms by (auto simp: wf_port_value_def)
  have "strip (show_ip a) = show_ip a"
    using show_ip_not_space [of _ a] a(1) by (intro strip_by_none) blast
  then have "normalize_ip (show_ip a) = Some (show_ip a)"
    using ip_address_show [OF a(2)] by (simp add: normalize_ip_def)
  moreover have "int (parse_nat (show_int port)) = port" using p by (simp add: show_int_def)
  moreover have "map lower_char proto = proto" using p(3) by (auto simp: lower_char_def isupper_def)
  ultimately show ?thesis
    unfolding normalize_port_def port_value_split [OF assms]
    using p show_ip_nonempty
    by (simp add: strip_brackets_bracketed no_brackets [OF a(1)] port_value_def)
qed

lemma port_re_host_no_percent: "port_re_host h \<Longrightarrow> CHR ''%'' \<notin> set h"
proof -
  assume "port_re_host h"
  then consider (br) "3 \<le> length h" "hd h = CHR ''[''" "last h = CHR '']''"
      "list_all (\<lambda>c. is_hex c \<or> c = CHR '':'' \<or> c = CHR ''.'') (butlast (tl h))"
    | (dots) "list_all (\<lambda>c. isdigit c \<or> c = CHR ''.'') h"
    by (auto simp: port_re_host_def)
  then show ?thesis
  proof cases
    case br
    then obtain t where "h = CHR ''['' # t" "t \<noteq> []" "last t = CHR '']''"
      by (cases h) (auto split: if_splits)
    then have "h = CHR ''['' # butlast (tl h) @ [CHR '']'']"
      using append_butlast_last_id [of t] by simp
    moreover have "CHR ''%'' \<notin> set (butlast (tl h))"
      using br(4) by (auto simp: list_all_iff is_hex_def isdigit_def)
    moreover have "CHR ''%'' \<notin> set (CHR ''['' # w @ [CHR '']''])" if "CHR ''%'' \<notin> set w" for w
      using that by simp
    ultimately show ?thesis by metis
  qed (auto simp: list_all_iff isdigit_def)
qed

lemma normalize_port_Some:
  assumes "normalize_port value = Some v"
  obtains a port proto where "wf_port_value a port proto" "v = port_value a port proto"
proof -
  obtain h p proto where re: "PORT_VALUE_RE (strip value) = Some (h, p, proto)"
    using assms by (auto simp: normalize_port_def split: option.splits)
  obtain a where a: "ip_address (strip (strip_brackets h)) = Some a"
      and b: "1 \<le> int (parse_nat p)" "int (parse_nat p) \<le> 65535"
      and v: "v = port_value a (int (parse_nat p)) (map lower_char proto)"
    using assms
    by (auto simp: normalize_port_def re normalize_ip_def port_value_def Let_def split: if_splits option.splits)
  have "port_re_host h" and pr: "map lower_char proto \<in> {''tcp'', ''udp''}"
    using re by (auto simp: PORT_VALUE_RE_def split: prod.splits if_splits)
  then have "CHR ''%'' \<notin> set h" by (intro port_re_host_no_percent)
  moreover have "set (strip (strip_brackets h)) \<subseteq> set h"
    using set_strip_by [of isspace "strip_brackets h"] set_strip_by [of "\<lambda>c. c = CHR ''['' \<or> c = CHR '']''" h]
    by blast
  ultimately have "CHR ''%'' \<notin> set (strip (strip_brackets h))" by blast
  then have "ip_scope a = None"
    using a by (auto simp: ip_address_def ipv4_address_def ipv6_address_def v4_def partition_str_none
        split: option.splits if_splits)
  then have "wf_port_value a (int (parse_nat p)) (map lower_char proto)"
    using wf_ip_address [OF a] b pr by (simp add: wf_port_value_def)
  with v show thesis using that by blast
qed

lemma parse_port_value_correct:
  assumes "wf_port_value a port proto" "normalize_port value = Some (port_value a port proto)"
  shows "parse_port_value value = Some (show_ip a, Some port, proto)"
proof -
  let ?v = "port_value a port proto"
  have a: "ip_scope a = None" and p: "1 \<le> port" "proto \<in> {''tcp'', ''udp''}"
    using assms(1) by (auto simp: wf_port_value_def)
  have dig: "all_digits (show_int port)" using p(1) by (simp add: show_int_def)
  have "CHR '':'' \<notin> set (show_int port @ CHR ''/'' # proto)"
    using p dig by (auto simp: list_all_iff isdigit_def)
  then have 1: "rpartition (CHR '':'') ?v = (bracketed (show_ip a), True, show_int port @ CHR ''/'' # proto)"
    using rpartition_app [of "CHR '':''" "show_int port @ CHR ''/'' # proto" "bracketed (show_ip a)"]
    by (simp add: port_value_def)
  have "CHR ''/'' \<notin> set (show_int port)" using dig by (auto simp: list_all_iff isdigit_def)
  then have 2: "partition_str ''/'' (show_int port @ CHR ''/'' # proto) = (show_int port, True, proto)"
    by (rule partition_str_app)
  have "?v \<noteq> []" by (simp add: port_value_def)
  then show ?thesis
    using p(1) by (simp add: parse_port_value_def assms(2) 1 2 strip_brackets_bracketed no_brackets [OF a]
        py_int_show)
qed

subsection \<open>Root domains\<close>

definition is_root_of :: "string \<Rightarrow> string \<Rightarrow> bool" where
  "is_root_of h r \<longleftrightarrow> h \<noteq> r \<and> endswith h (''.'' @ r)"

text \<open>Roots of a host of the same length are equal, so the longest one is unique.\<close>

lemma root_length_inj: "is_root_of h r \<Longrightarrow> is_root_of h q \<Longrightarrow> length r = length q \<Longrightarrow> r = q"
  by (auto simp: is_root_of_def endswith_iff)

definition longest :: "string \<Rightarrow> string list \<Rightarrow> string option \<Rightarrow> bool" where
  "longest h rs best \<longleftrightarrow>
     (case best of None \<Rightarrow> \<forall>r \<in> set rs. \<not> is_root_of h r
      | Some b \<Rightarrow> b \<in> set rs \<and> is_root_of h b \<and> (\<forall>r \<in> set rs. is_root_of h r \<longrightarrow> length r \<le> length b))"

lemma closer_root_alt:
  "closer_root h best r =
     (if is_root_of h r \<and> (case best of None \<Rightarrow> True | Some b \<Rightarrow> length b < length r) then Some r else best)"
  by (simp add: closer_root_def is_root_of_def)

lemma longest_closer_root: "longest h rs best \<Longrightarrow> longest h (rs @ [r]) (closer_root h best r)"
  by (cases best) (auto simp: longest_def closer_root_alt)

lemma foldl_closer_root: "longest h rs (foldl (closer_root h) None rs)"
  by (induction rs rule: rev_induct) (simp_all add: longest_closer_root, simp add: longest_def)

lemma longest_unique:
  "longest h rs x \<Longrightarrow> longest h qs y \<Longrightarrow> set rs = set qs \<Longrightarrow> x = y"
  by (cases x; cases y) (auto simp: longest_def intro!: root_length_inj le_antisym)

subsection \<open>Properties\<close>

lemma normalize_port_idem: "normalize_port value = Some v \<Longrightarrow> normalize_port v = Some v"
  by (erule normalize_port_Some) (simp add: normalize_port_value)

lemma strip_nonempty:
  "normalize_ip v = Some w \<Longrightarrow> strip v \<noteq> []" "normalize_cidr v = Some w \<Longrightarrow> strip v \<noteq> []"
  "normalize_port v = Some w \<Longrightarrow> strip v \<noteq> []"
proof -
  show "normalize_ip v = Some w \<Longrightarrow> strip v \<noteq> []"
    by (auto simp: normalize_ip_def ip_address_def ipv4_address_def ipv6_address_def parse_v4_def parse_v6_def)
  show "normalize_cidr v = Some w \<Longrightarrow> strip v \<noteq> []"
    by (auto simp: normalize_cidr_def ip_network_def net_from_string_def ipv4_address_def ipv6_address_def
        parse_v4_def parse_v6_def)
  show "normalize_port v = Some w \<Longrightarrow> strip v \<noteq> []"
    by (auto simp: normalize_port_def PORT_VALUE_RE_def re_body_def rpartition_none split: prod.splits if_splits)
qed

text \<open>
  C36: the stored value of an address, a network, a port or a service is stable: normalising it
  again gives the same value, so one asset never splits into two.
\<close>

theorem normalize_value_stable:
  assumes "normalize_value u tv value = Some v" "length v \<le> 2048"
    and "tv \<in> {''ip_address'', ''cidr'', ''port'', ''service''}"
  shows "normalize_value u tv v = Some v"
proof -
  have nv: "normalize_value u tv x =
      (if strip x = [] \<or> 2048 < length x then None
       else if tv = ''ip_address'' then normalize_ip x else if tv = ''cidr'' then normalize_cidr x
       else normalize_port x)" for x
    using assms(3) unfolding normalize_value_def by (elim insertE emptyE) simp_all
  show ?thesis
    using assms(1,2) normalize_ip_idem [of "value" v] normalize_cidr_idem [of "value" v] normalize_port_idem [of "value" v]
      strip_nonempty [of v v]
    unfolding nv by (simp split: if_splits)
qed

theorem normalize_value_stable_witness:
  "normalize_value ascii_only ''port'' ''[2001:DB8::1]:0443/TCP'' = Some ''[2001:db8::1]:443/tcp'' \<and>
   normalize_value ascii_only ''port'' ''[2001:db8::1]:443/tcp'' = Some ''[2001:db8::1]:443/tcp''"
proof -
  have 1: "normalize_value ascii_only ''port'' ''[2001:DB8::1]:0443/TCP'' = Some ''[2001:db8::1]:443/tcp''"
    by code_simp
  have 2: "length ''[2001:db8::1]:443/tcp'' \<le> 2048" by simp
  from 1 normalize_value_stable [OF 1 2] show ?thesis by simp
qed

text \<open>
  the parts of a port value can be read back: whenever a port value normalises, splitting it
  gives an address in canonical form, a port from 1 to 65535 and \<open>tcp\<close> or \<open>udp\<close>, and these
  parts make up the normalised value again.
\<close>

theorem parse_port_value_parts:
  assumes "normalize_port value = Some v"
  shows "\<exists>a port proto. parse_port_value value = Some (show_ip a, Some port, proto) \<and>
    ip_address (show_ip a) = Some a \<and> 1 \<le> port \<and> port \<le> 65535 \<and> proto \<in> {''tcp'', ''udp''} \<and>
    v = bracketed (show_ip a) @ '':'' @ show_int port @ ''/'' @ proto"
proof -
  obtain a port proto where wf: "wf_port_value a port proto" and v: "v = port_value a port proto"
    using assms by (rule normalize_port_Some)
  have "parse_port_value value = Some (show_ip a, Some port, proto)"
    using parse_port_value_correct [OF wf] assms v by simp
  then show ?thesis
    using wf v ip_address_show [of a] by (auto simp: wf_port_value_def port_value_def)
qed

theorem parse_port_value_parts_witness:
  "normalize_port ''1.2.3.4:080/UDP'' = Some ''1.2.3.4:80/udp'' \<and>
   (\<exists>a port proto. parse_port_value ''1.2.3.4:080/UDP'' = Some (show_ip a, Some port, proto) \<and>
      1 \<le> port \<and> port \<le> 65535)"
proof -
  have 1: "normalize_port ''1.2.3.4:080/UDP'' = Some ''1.2.3.4:80/udp''" by code_simp
  from 1 parse_port_value_parts [OF 1] show ?thesis by blast
qed

text \<open>
  the parent of a hostname does not depend on the order in which the set of root domains is
  iterated, and it is the longest root domain the host is strictly under, if there is one.
\<close>

theorem parent_domain_longest:
  assumes "set roots = set roots'"
  shows "parent_domain reg h roots = parent_domain reg h roots' \<and>
    (\<forall>r \<in> set roots. r \<noteq> [] \<and> is_root_of h r \<longrightarrow>
       (\<exists>p \<in> set roots. parent_domain reg h roots = Some p \<and> is_root_of h p \<and> length r \<le> length p))"
proof
  have eq: "foldl (closer_root h) None roots = foldl (closer_root h) None roots'"
    using foldl_closer_root longest_unique assms by blast
  show "parent_domain reg h roots = parent_domain reg h roots'" by (simp add: parent_domain_def eq)
  show "\<forall>r \<in> set roots. r \<noteq> [] \<and> is_root_of h r \<longrightarrow>
       (\<exists>p \<in> set roots. parent_domain reg h roots = Some p \<and> is_root_of h p \<and> length r \<le> length p)"
    using foldl_closer_root [of h roots]
    by (auto simp: parent_domain_def longest_def truthy_def split: option.splits)
qed

theorem parent_domain_longest_witness:
  "parent_domain (\<lambda>_. None) ''a.b.example.com'' [''example.com'', ''b.example.com''] =
   parent_domain (\<lambda>_. None) ''a.b.example.com'' [''b.example.com'', ''example.com''] \<and>
   parent_domain (\<lambda>_. None) ''a.b.example.com'' [''example.com'', ''b.example.com''] = Some ''b.example.com''"
proof -
  have 1: "set [''example.com'', ''b.example.com''] = set [''b.example.com'', ''example.com'']" by auto
  have 2: "parent_domain (\<lambda>_. None) ''a.b.example.com'' [''example.com'', ''b.example.com''] = Some ''b.example.com''"
    by code_simp
  from 2 parent_domain_longest [OF 1, of "\<lambda>_. None" "''a.b.example.com''"] show ?thesis by blast
qed

text \<open>
  asset types and observation types agree: every observation type has an asset type, and the
  asset type chosen for an observation leads back to its observation type.
\<close>

theorem asset_type_for_inverse:
  "\<exists>t. asset_type_for reg o' value roots = Some t \<and> observed_type_for t = Some o'"
  by (cases o') (auto simp: asset_type_for_def observed_type_for_def classify_hostname_def
      asset_type_of_value_def observed_type_of_value_def all_asset_types_def all_observed_types_def
      HOSTNAME_ASSET_TYPES_def)

end
