(* ===== verification/ScopeChecker.thy ===== *)
theory ScopeChecker
  imports Targets "HOL-Library.Char_ord" "HOL-Library.List_Lexorder"
begin

text \<open>
  Authorization scope evaluation (\<open>backend/app/scope/checker.py\<close>): the single place that decides
  whether a target may be scanned. A decision is \<^const>\<open>None\<close> where the code raises a
  \<open>ValueError\<close> (a rule or target text that does not parse).
\<close>

record scope_rule =
  rule_id :: "uuid option"
  rule_type :: scope_entry_type
  rule_value :: string
  include_subdomains :: bool
  is_exclusion :: bool
  allow_active_scanning :: bool
  verified :: bool

text \<open>The message of a decision, with what it names.\<close>

datatype reason =
    EntryForbidsActive string string
  | EntryNotVerified string
  | WithinEntry string string
  | HostnameExcluded
  | HostnameNotInScope
  | IpExcluded
  | DerivedDisabled
  | ResolvedFrom string
  | IpNotInScope
  | NotPublic string
  | NetOverlapsExcluded string
  | NetNotInScope

record decision =
  allowed :: bool
  dec_reason :: reason
  dec_status :: scope_status
  dec_rule :: "uuid option"

record checker =
  rules :: "scope_rule list"
  require_verification :: bool
  derived_ip_scanning :: bool
  allow_non_public :: bool
  nets :: "(ip_net \<times> scope_rule) list"

text \<open>\<open>__post_init__\<close>: the networks of the address rules; a value that is no network raises.\<close>

definition is_net_rule :: "scope_rule \<Rightarrow> bool" where
  "is_net_rule r \<longleftrightarrow> rule_type r \<in> {scope_entry_type.IP, scope_entry_type.CIDR}"

definition rule_net :: "scope_rule \<Rightarrow> (ip_net \<times> scope_rule) option" where
  "rule_net r = map_option (\<lambda>n. (n, r)) (ip_network (rule_value r))"

definition mk_checker :: "scope_rule list \<Rightarrow> bool \<Rightarrow> bool \<Rightarrow> bool \<Rightarrow> checker option" where
  "mk_checker rs reqv derived non_public =
     map_option (\<lambda>ns. \<lparr>rules = rs, require_verification = reqv, derived_ip_scanning = derived,
                       allow_non_public = non_public, nets = ns\<rparr>)
       (mapM_opt rule_net (filter is_net_rule rs))"

subsection \<open>Matching rules\<close>

definition root_domains :: "checker \<Rightarrow> string list" where
  "root_domains c =
     remdups (map rule_value (filter (\<lambda>r. rule_type r = scope_entry_type.DOMAIN \<and> \<not> is_exclusion r) (rules c)))"

definition domain_matches :: "string \<Rightarrow> scope_rule \<Rightarrow> bool" where
  "domain_matches h r \<longleftrightarrow>
     h = rule_value r \<or> include_subdomains r \<and> endswith h (''.'' @ rule_value r)"

text \<open>Sorted by the length of the value, longest first; the sort is stable.\<close>

definition domain_rules :: "checker \<Rightarrow> string \<Rightarrow> bool \<Rightarrow> scope_rule list" where
  "domain_rules c h exclusion =
     sort_key (\<lambda>r. - int (length (rule_value r)))
       (filter (\<lambda>r. rule_type r = scope_entry_type.DOMAIN \<and> is_exclusion r = exclusion \<and> domain_matches h r)
         (rules c))"

definition ip_rules :: "checker \<Rightarrow> string \<Rightarrow> bool \<Rightarrow> scope_rule list" where
  "ip_rules c ip exclusion =
     (case ip_address ip of
        None \<Rightarrow> []
      | Some a \<Rightarrow>
          map snd (sort_key (\<lambda>(n, r). - int (prefixlen n))
            (filter (\<lambda>(n, r). is_exclusion r = exclusion \<and> in_net a n) (nets c))))"

definition first_status :: "scope_rule list \<Rightarrow> scope_rule list \<Rightarrow> scope_status \<times> scope_rule option" where
  "first_status exc inc =
     (if exc \<noteq> [] then (scope_status.OUT_OF_SCOPE, None)
      else (case inc of [] \<Rightarrow> (scope_status.OUT_OF_SCOPE, None) | r # _ \<Rightarrow> (scope_status.IN_SCOPE, Some r)))"

definition hostname_status :: "checker \<Rightarrow> string \<Rightarrow> scope_status \<times> scope_rule option" where
  "hostname_status c h = first_status (domain_rules c h True) (domain_rules c h False)"

definition ip_status :: "checker \<Rightarrow> string \<Rightarrow> scope_status \<times> scope_rule option" where
  "ip_status c ip = first_status (ip_rules c ip True) (ip_rules c ip False)"

definition is_excluded_ip :: "checker \<Rightarrow> string \<Rightarrow> bool" where
  "is_excluded_ip c ip \<longleftrightarrow> ip_rules c ip True \<noteq> []"

subsection \<open>Decisions\<close>

definition refuse :: "reason \<Rightarrow> scope_status \<Rightarrow> uuid option \<Rightarrow> decision" where
  "refuse why st r = \<lparr>allowed = False, dec_reason = why, dec_status = st, dec_rule = r\<rparr>"

definition permit :: "reason \<Rightarrow> scope_status \<Rightarrow> uuid option \<Rightarrow> decision" where
  "permit why st r = \<lparr>allowed = True, dec_reason = why, dec_status = st, dec_rule = r\<rparr>"

definition authorize :: "checker \<Rightarrow> scope_rule \<Rightarrow> bool \<Rightarrow> string \<Rightarrow> decision" where
  "authorize c r active what =
     (if active \<and> \<not> allow_active_scanning r
      then refuse (EntryForbidsActive what (rule_value r)) scope_status.IN_SCOPE (rule_id r)
      else if active \<and> require_verification c \<and> \<not> verified r
      then refuse (EntryNotVerified (rule_value r)) scope_status.IN_SCOPE (rule_id r)
      else permit (WithinEntry what (rule_value r)) scope_status.IN_SCOPE (rule_id r))"

definition public_only :: "checker \<Rightarrow> string \<Rightarrow> bool \<Rightarrow> decision \<Rightarrow> decision option" where
  "public_only c addr active d =
     (if \<not> allowed d \<or> \<not> active \<or> allow_non_public c then Some d
      else (case ip_network addr of
              None \<Rightarrow> None
            | Some n \<Rightarrow> Some (if net_is_global n then d
                             else refuse (NotPublic addr) (dec_status d) (dec_rule d))))"

text \<open>The branch of \<open>check_host\<close> for a hostname.\<close>

definition check_name :: "checker \<Rightarrow> string \<Rightarrow> bool \<Rightarrow> decision" where
  "check_name c h active =
     (if domain_rules c h True \<noteq> [] then refuse HostnameExcluded scope_status.OUT_OF_SCOPE None
      else (case domain_rules c h False of
              [] \<Rightarrow> refuse HostnameNotInScope scope_status.OUT_OF_SCOPE None
            | r # _ \<Rightarrow> authorize c r active ''hostname''))"

text \<open>
  \<open>check_host\<close> for an address calls itself on the hostnames the address was resolved from, without
  their origins: the recursion has depth one. The parameter \<open>parent\<close> is that inner call.
\<close>

fun first_allowed :: "(string \<Rightarrow> decision option) \<Rightarrow> string list \<Rightarrow> (string \<times> decision) option option" where
  "first_allowed parent [] = Some None"
| "first_allowed parent (p # ps) =
     (case parent p of
        None \<Rightarrow> None
      | Some d \<Rightarrow> if allowed d then Some (Some (p, d)) else first_allowed parent ps)"

definition check_address :: "(string \<Rightarrow> decision option) \<Rightarrow> checker \<Rightarrow> string \<Rightarrow> bool \<Rightarrow> string list \<Rightarrow> decision option" where
  "check_address parent c h active parents =
     (if ip_rules c h True \<noteq> [] then Some (refuse IpExcluded scope_status.OUT_OF_SCOPE None)
      else (case ip_rules c h False of
              r # _ \<Rightarrow> public_only c h active (authorize c r active ''IP address'')
            | [] \<Rightarrow>
                (case first_allowed parent parents of
                   None \<Rightarrow> None
                 | Some None \<Rightarrow> Some (refuse IpNotInScope scope_status.OUT_OF_SCOPE None)
                 | Some (Some (p, d)) \<Rightarrow>
                     if active \<and> \<not> derived_ip_scanning c
                     then Some (refuse DerivedDisabled scope_status.DERIVED (dec_rule d))
                     else public_only c h active (permit (ResolvedFrom p) scope_status.DERIVED (dec_rule d)))))"

definition check_parent :: "checker \<Rightarrow> bool \<Rightarrow> string \<Rightarrow> decision option" where
  "check_parent c active h =
     (if is_ip h then check_address (\<lambda>_. None) c h active [] else Some (check_name c h active))"

text \<open>\<open>sorted(derived_from.get(host, ()))\<close>\<close>

definition parents_of :: "(string \<Rightarrow> string list) \<Rightarrow> string \<Rightarrow> string list" where
  "parents_of derived h = sort (derived h)"

definition check_host :: "checker \<Rightarrow> (string \<Rightarrow> string list) \<Rightarrow> string \<Rightarrow> bool \<Rightarrow> decision option" where
  "check_host c derived h active =
     (if is_ip h then check_address (check_parent c active) c h active (parents_of derived h)
      else Some (check_name c h active))"

definition check_network :: "checker \<Rightarrow> string \<Rightarrow> bool \<Rightarrow> decision option" where
  "check_network c v active =
     (case ip_network v of
        None \<Rightarrow> None
      | Some net \<Rightarrow>
          (case find (\<lambda>(n, r). is_exclusion r \<and> overlaps n net) (nets c) of
             Some (n, r) \<Rightarrow> Some (refuse (NetOverlapsExcluded (rule_value r)) scope_status.OUT_OF_SCOPE None)
           | None \<Rightarrow>
               (case find (\<lambda>(n, r). \<not> is_exclusion r \<and> subnet_of net n = Some True) (nets c) of
                  Some (n, r) \<Rightarrow> public_only c v active (authorize c r active ''network'')
                | None \<Rightarrow> Some (refuse NetNotInScope scope_status.OUT_OF_SCOPE None))))"

definition check :: "unicode \<Rightarrow> checker \<Rightarrow> (string \<Rightarrow> string list) \<Rightarrow> target \<Rightarrow> bool \<Rightarrow> decision option" where
  "check u c derived t active =
     (if kind t = target_kind.CIDR then check_network c (val t) active
      else (case target_host u t of Inl _ \<Rightarrow> None | Inr h \<Rightarrow> check_host c derived h active))"

subsection \<open>Which rules match\<close>

lemma set_domain_rules:
  "r \<in> set (domain_rules c h e) \<longleftrightarrow>
     r \<in> set (rules c) \<and> rule_type r = scope_entry_type.DOMAIN \<and> is_exclusion r = e \<and> domain_matches h r"
  by (auto simp: domain_rules_def)

lemma set_ip_rules:
  "r \<in> set (ip_rules c h e) \<longleftrightarrow>
     (\<exists>a n. ip_address h = Some a \<and> (n, r) \<in> set (nets c) \<and> is_exclusion r = e \<and> in_net a n)"
  by (force simp: ip_rules_def split: option.splits)

lemma sorted_head:
  assumes "sort_key f xs = y # ys" "x \<in> set xs"
  shows "y \<in> set xs" "f y \<le> f x"
proof -
  have set: "set xs = set (y # ys)" using arg_cong [OF assms(1), of set] by simp
  then show "y \<in> set xs" by simp
  have "sorted (map f (y # ys))" by (metis assms(1) sorted_sort_key)
  then show "f y \<le> f x" using assms(2) unfolding set by auto
qed

text \<open>The first rule is the most specific one.\<close>

lemma domain_rules_head:
  assumes "domain_rules c h e = r # rs"
  shows "r \<in> set (rules c)" "rule_type r = scope_entry_type.DOMAIN" "is_exclusion r = e" "domain_matches h r"
    and "r' \<in> set (rules c) \<Longrightarrow> rule_type r' = scope_entry_type.DOMAIN \<Longrightarrow> domain_matches h r' \<Longrightarrow>
         is_exclusion r' = e \<Longrightarrow> length (rule_value r') \<le> length (rule_value r)"
proof -
  have "r \<in> set (domain_rules c h e)" by (simp add: assms)
  then show "r \<in> set (rules c)" "rule_type r = scope_entry_type.DOMAIN" "is_exclusion r = e" "domain_matches h r"
    by (simp_all add: set_domain_rules)
  show "r' \<in> set (rules c) \<Longrightarrow> rule_type r' = scope_entry_type.DOMAIN \<Longrightarrow> domain_matches h r' \<Longrightarrow>
         is_exclusion r' = e \<Longrightarrow> length (rule_value r') \<le> length (rule_value r)"
    using sorted_head(2) [OF assms [unfolded domain_rules_def], of r'] by simp
qed

lemma ip_rules_head:
  assumes "ip_rules c h e = r # rs" "ip_address h = Some a"
  obtains n where "(n, r) \<in> set (nets c)" "is_exclusion r = e" "in_net a n"
    and "\<And>n' r'. (n', r') \<in> set (nets c) \<Longrightarrow> is_exclusion r' = e \<Longrightarrow> in_net a n' \<Longrightarrow> prefixlen n' \<le> prefixlen n"
proof -
  let ?f = "\<lambda>(n, r :: scope_rule). - int (prefixlen n)"
  let ?xs = "filter (\<lambda>(n, r). is_exclusion r = e \<and> in_net a n) (nets c)"
  obtain n ns where hd: "sort_key ?f ?xs = (n, r) # ns"
    using assms by (cases "sort_key ?f ?xs") (auto simp: ip_rules_def)
  then have "(n, r) \<in> set ?xs" by (metis list.set_intros(1) set_sort)
  then show ?thesis
    using that [of n] sorted_head(2) [OF hd] by fastforce
qed

text \<open>What it means for a rule to authorize a scan.\<close>

definition authorizes :: "checker \<Rightarrow> scope_rule \<Rightarrow> bool \<Rightarrow> bool" where
  "authorizes c r active \<longleftrightarrow>
     \<not> is_exclusion r \<and> (active \<longrightarrow> allow_active_scanning r \<and> (require_verification c \<longrightarrow> verified r))"

definition name_authorized :: "checker \<Rightarrow> string \<Rightarrow> bool \<Rightarrow> bool" where
  "name_authorized c h active \<longleftrightarrow>
     (\<exists>r \<in> set (rules c). rule_type r = scope_entry_type.DOMAIN \<and> domain_matches h r \<and> authorizes c r active \<and>
        (\<forall>r' \<in> set (rules c). rule_type r' = scope_entry_type.DOMAIN \<and> domain_matches h r' \<longrightarrow>
           is_exclusion r' \<or> length (rule_value r') \<le> length (rule_value r)))"

definition address_authorized :: "checker \<Rightarrow> ip \<Rightarrow> bool \<Rightarrow> bool" where
  "address_authorized c a active \<longleftrightarrow> 
     (\<exists>(n, r) \<in> set (nets c). in_net a n \<and> authorizes c r active \<and>
        (\<forall>(n', r') \<in> set (nets c). in_net a n' \<longrightarrow> is_exclusion r' \<or> prefixlen n' \<le> prefixlen n))"

definition name_excluded :: "checker \<Rightarrow> string \<Rightarrow> bool" where
  "name_excluded c h \<longleftrightarrow>
     (\<exists>r \<in> set (rules c). rule_type r = scope_entry_type.DOMAIN \<and> is_exclusion r \<and> domain_matches h r)"

definition address_excluded :: "checker \<Rightarrow> ip \<Rightarrow> bool" where
  "address_excluded c a \<longleftrightarrow> (\<exists>(n, r) \<in> set (nets c). is_exclusion r \<and> in_net a n)"

lemma allowed_authorize [simp]:
  "allowed (authorize c r active what) \<longleftrightarrow>
     (active \<longrightarrow> allow_active_scanning r \<and> (require_verification c \<longrightarrow> verified r))"
  by (auto simp: authorize_def refuse_def permit_def)

lemma allowed_refuse_permit [simp]: "\<not> allowed (refuse w st r)" "allowed (permit w st r)"
  by (simp_all add: refuse_def permit_def)

lemma public_only_Some:
  assumes "public_only c addr active d = Some d'" "allowed d'"
  shows "d' = d" "active \<Longrightarrow> \<not> allow_non_public c \<Longrightarrow> \<exists>n. ip_network addr = Some n \<and> net_is_global n"
  using assms by (auto simp: public_only_def split: if_splits option.splits)

lemma check_name_allowed:
  assumes "allowed (check_name c h active)"
  shows "\<not> name_excluded c h" "name_authorized c h active"
proof -
  obtain r rs where exc: "domain_rules c h True = []" and inc: "domain_rules c h False = r # rs"
    and r: "allowed (authorize c r active ''hostname'')"
    using assms by (auto simp: check_name_def split: if_splits list.splits)
  show "\<not> name_excluded c h"
    using exc set_domain_rules [of _ c h True] by (auto simp: name_excluded_def)
  show "name_authorized c h active"
    using r domain_rules_head [OF inc] by (auto simp: name_authorized_def authorizes_def intro!: bexI [of _ r])
qed

lemma first_allowed_Some:
  "first_allowed parent ps = Some (Some (p, d)) \<Longrightarrow> p \<in> set ps \<and> parent p = Some d \<and> allowed d"
  by (induction ps) (auto split: option.splits if_splits)

lemma check_address_allowed:
  assumes "check_address parent c h active ps = Some d" "allowed d" "ip_address h = Some a"
  shows "\<not> address_excluded c a"
    and "address_authorized c a active \<or>
      (\<exists>p d'. p \<in> set ps \<and> parent p = Some d' \<and> allowed d' \<and> (active \<longrightarrow> derived_ip_scanning c))"
    and "active \<Longrightarrow> \<not> allow_non_public c \<Longrightarrow> \<exists>n. ip_network h = Some n \<and> net_is_global n"
proof -
  have exc: "ip_rules c h True = []"
    using assms(1,2) by (auto simp: check_address_def split: if_splits)
  then show "\<not> address_excluded c a"
    using set_ip_rules [of _ c h True] assms(3) by (fastforce simp: address_excluded_def)
  show "address_authorized c a active \<or>
      (\<exists>p d'. p \<in> set ps \<and> parent p = Some d' \<and> allowed d' \<and> (active \<longrightarrow> derived_ip_scanning c))"
  proof (cases "ip_rules c h False")
    case (Cons r rs)
    then obtain n where "(n, r) \<in> set (nets c)" "\<not> is_exclusion r" "in_net a n"
      "\<And>n' r'. (n', r') \<in> set (nets c) \<Longrightarrow> is_exclusion r' = False \<Longrightarrow> in_net a n' \<Longrightarrow> prefixlen n' \<le> prefixlen n"
      using assms(3) by (elim ip_rules_head) auto
    moreover have "allowed (authorize c r active ''IP address'')"
      using assms(1,2) exc Cons public_only_Some(1) by (fastforce simp: check_address_def)
    ultimately have "address_authorized c a active"
      unfolding address_authorized_def authorizes_def by (intro bexI [of _ "(n, r)"]) auto
    then show ?thesis ..
  next
    case Nil
    then show ?thesis
      using assms(1,2) exc first_allowed_Some [of parent ps]
      by (fastforce simp: check_address_def split: option.splits if_splits)
  qed
  show "active \<Longrightarrow> \<not> allow_non_public c \<Longrightarrow> \<exists>n. ip_network h = Some n \<and> net_is_global n"
    using assms(1,2) exc public_only_Some(2)
    by (fastforce simp: check_address_def split: option.splits if_splits list.splits)
qed


lemma check_host_decision:
  assumes "check_host c derived h active = Some d" "allowed d"
  shows "ip_address h = None \<Longrightarrow> \<not> name_excluded c h \<and> name_authorized c h active"
    and "ip_address h = Some a \<Longrightarrow> \<not> address_excluded c a"
    and "ip_address h = Some a \<Longrightarrow> active \<Longrightarrow> \<not> allow_non_public c \<Longrightarrow> is_global a"
    and "ip_address h = Some a \<Longrightarrow> address_authorized c a active \<or>
      (\<exists>p d'. p \<in> set (derived h) \<and> check_parent c active p = Some d' \<and> allowed d' \<and> (active \<longrightarrow> derived_ip_scanning c))"
proof -
  show "ip_address h = None \<Longrightarrow> \<not> name_excluded c h \<and> name_authorized c h active"
    using assms check_name_allowed by (auto simp: check_host_def is_ip_def)
  assume a: "ip_address h = Some a"
  then have chk: "check_address (check_parent c active) c h active (parents_of derived h) = Some d"
    using assms(1) by (simp add: check_host_def is_ip_def)
  note * = check_address_allowed [OF chk assms(2) a]
  show "\<not> address_excluded c a" by (rule *(1))
  show "address_authorized c a active \<or>
      (\<exists>p d'. p \<in> set (derived h) \<and> check_parent c active p = Some d' \<and> allowed d' \<and> (active \<longrightarrow> derived_ip_scanning c))"
    using *(2) by (simp add: parents_of_def)
  show "active \<Longrightarrow> \<not> allow_non_public c \<Longrightarrow> is_global a"
    using *(3) ip_network_of_address [OF a] host_net_is_global [OF wf_ip_address [OF a]] by auto
qed

text \<open>The hostname (or address) an address was resolved from is itself authorized, without derivation.\<close>

definition origin_authorized :: "checker \<Rightarrow> string \<Rightarrow> bool \<Rightarrow> bool" where
  "origin_authorized c p active \<longleftrightarrow>
     (case ip_address p of
        None \<Rightarrow> \<not> name_excluded c p \<and> name_authorized c p active
      | Some a \<Rightarrow> \<not> address_excluded c a \<and> address_authorized c a active)"

lemma check_parent_allowed:
  assumes "check_parent c active p = Some d" "allowed d"
  shows "origin_authorized c p active"
proof (cases "ip_address p")
  case None
  then show ?thesis using assms check_name_allowed by (auto simp: check_parent_def is_ip_def origin_authorized_def)
next
  case (Some a)
  then have "check_address (\<lambda>_. None) c p active [] = Some d"
    using assms(1) by (simp add: check_parent_def is_ip_def)
  from check_address_allowed [OF this assms(2) Some] show ?thesis
    by (simp add: origin_authorized_def Some)
qed

lemma mapM_opt_nets:
  "mapM_opt rule_net rs = Some ns \<Longrightarrow> (n, r) \<in> set ns \<longleftrightarrow> r \<in> set rs \<and> ip_network (rule_value r) = Some n"
  by (induction rs arbitrary: ns) (auto simp: rule_net_def split: option.splits)

lemma mk_checker_nets:
  assumes "mk_checker rs reqv der np = Some c"
  shows "rules c = rs"
    and "(n, r) \<in> set (nets c) \<longleftrightarrow> r \<in> set rs \<and> is_net_rule r \<and> ip_network (rule_value r) = Some n"
  using assms mapM_opt_nets [of "filter is_net_rule rs"] by (auto simp: mk_checker_def)

lemma mk_checker_wf: "mk_checker rs reqv der np = Some c \<Longrightarrow> (n, r) \<in> set (nets c) \<Longrightarrow> wf_net n"
  using mk_checker_nets(2) wf_ip_network by blast

lemma check_network_allowed:
  assumes "check_network c v active = Some d" "allowed d" "ip_network v = Some net"
  shows "\<forall>(n, r) \<in> set (nets c). is_exclusion r \<longrightarrow> \<not> overlaps n net"
    and "\<exists>(n, r) \<in> set (nets c). authorizes c r active \<and> subnet_of net n = Some True"
proof -
  have exc: "find (\<lambda>(n, r). is_exclusion r \<and> overlaps n net) (nets c) = None"
    using assms by (auto simp: check_network_def split: option.splits)
  then show "\<forall>(n, r) \<in> set (nets c). is_exclusion r \<longrightarrow> \<not> overlaps n net"
    by (auto simp: find_None_iff)
  obtain n r where hit: "find (\<lambda>(n, r). \<not> is_exclusion r \<and> subnet_of net n = Some True) (nets c) = Some (n, r)"
    and d: "public_only c v active (authorize c r active ''network'') = Some d"
    using assms exc by (auto simp: check_network_def split: option.splits)
  have "(n, r) \<in> set (nets c)" "\<not> is_exclusion r" "subnet_of net n = Some True"
    using hit by (auto simp: find_Some_iff in_set_conv_nth intro: exI)
  moreover have "allowed (authorize c r active ''network'')"
    using public_only_Some(1) [OF d assms(2)] assms(2) by simp
  ultimately show "\<exists>(n, r) \<in> set (nets c). authorizes c r active \<and> subnet_of net n = Some True"
    unfolding authorizes_def by (intro bexI [of _ "(n, r)"]) auto
qed

subsection \<open>Properties\<close>


definition example_rules :: "scope_rule list" where
  "example_rules =
     [\<lparr>rule_id = Some 1, rule_type = scope_entry_type.DOMAIN, rule_value = ''example.com'', include_subdomains = True,
       is_exclusion = False, allow_active_scanning = True, verified = True\<rparr>,
      \<lparr>rule_id = Some 2, rule_type = scope_entry_type.CIDR, rule_value = ''192.0.0.0/16'', include_subdomains = True,
       is_exclusion = False, allow_active_scanning = True, verified = True\<rparr>,
      \<lparr>rule_id = Some 3, rule_type = scope_entry_type.IP, rule_value = ''8.8.4.4'', include_subdomains = True,
       is_exclusion = True, allow_active_scanning = True, verified = True\<rparr>]"

definition example_checker :: checker where
  "example_checker = the (mk_checker example_rules True True False)"

definition example_origins :: "string \<Rightarrow> string list" where
  "example_origins h = (if h \<in> {''8.8.8.8'', ''8.8.4.4''} then [''www.example.com''] else [])"



text \<open>
  C3: the scan authorization of a network. If a network may be scanned under the rules \<open>rs\<close>, none of
  its addresses lies in an excluded network, and one inclusion entry that permits the scan covers
  every one of its addresses.
\<close>

theorem check_network_safe:
  assumes "mk_checker rs reqv der np = Some c"
    and "kind t = target_kind.CIDR" "check u c derived t active = Some d" "allowed d"
  shows "\<exists>net. ip_network (val t) = Some net \<and>
    (\<forall>a. wf_ip a \<and> in_net a net \<longrightarrow> \<not> address_excluded c a) \<and>
    (\<exists>(n, r) \<in> set (nets c). r \<in> set rs \<and> authorizes c r active \<and>
       (\<forall>a. wf_ip a \<and> in_net a net \<longrightarrow> in_net a n))"
proof -
  have chk: "check_network c (val t) active = Some d" using assms(2,3) by (simp add: check_def)
  then obtain net where net: "ip_network (val t) = Some net"
    by (auto simp: check_network_def split: option.splits)
  note wf = wf_ip_network [OF net] mk_checker_wf [OF assms(1)]
  note * = check_network_allowed [OF chk assms(4) net]
  have "\<not> address_excluded c a" if "wf_ip a" "in_net a net" for a
    using *(1) that wf overlaps_iff by (fastforce simp: address_excluded_def)
  moreover obtain n r where nr: "(n, r) \<in> set (nets c)" "authorizes c r active" "subnet_of net n = Some True"
    using *(2) by auto
  then have "r \<in> set rs" "\<forall>a. wf_ip a \<and> in_net a net \<longrightarrow> in_net a n"
    using mk_checker_nets(2) [OF assms(1)] wf subnet_of_iff by blast+
  ultimately show ?thesis using net nr by blast
qed

theorem check_network_safe_witness:
  "mk_checker example_rules True True False = Some example_checker \<and>
   check ascii_only example_checker example_origins \<lparr>kind = target_kind.CIDR, val = ''192.0.128.0/20''\<rparr> True =
     Some (permit (WithinEntry ''network'' ''192.0.0.0/16'') scope_status.IN_SCOPE (Some 2)) \<and>
   \<not> address_excluded example_checker (v4 0xC0008001)"
proof -
  let ?t = "\<lparr>kind = target_kind.CIDR, val = ''192.0.128.0/20''\<rparr>"
  have 1: "mk_checker example_rules True True False = Some example_checker" by code_simp
  have 2: "check ascii_only example_checker example_origins ?t True =
     Some (permit (WithinEntry ''network'' ''192.0.0.0/16'') scope_status.IN_SCOPE (Some 2))" by code_simp
  have 3: "wf_ip (v4 0xC0008001)" by code_simp
  have 4: "in_net (v4 0xC0008001) net" if "ip_network ''192.0.128.0/20'' = Some net" for net
  proof -
    have "map_option (in_net (v4 0xC0008001)) (ip_network ''192.0.128.0/20'') = Some True" by code_simp
    then show ?thesis using that by simp
  qed
  show ?thesis using check_network_safe [OF 1 _ 2] 1 2 3 4 by fastforce
qed


end
