(* ===== verification/Versions.thy ===== *)
theory Versions
  imports Prelude "HOL-Library.Char_ord" "HOL-Library.List_Lexorder"
begin

text \<open>
  Version comparison for advisory ranges (\<open>backend/app/threats/versions.py\<close>): tokenising a
  version, the three-way comparison of token sequences with missing positions read as 0, and
  the OSV-style range test. The comparison is shown to be a total preorder, so ranges are
  intervals.
\<close>

subsection \<open>Parsing\<close>

datatype token = Num int | Word string

record version =
  raw :: string
  tokens :: "token list"

datatype unparseable_version = UnparseableVersion string

text \<open>\<open>_TOKEN.findall\<close>: the maximal runs of digits and of lower-case letters.\<close>

function findall_token :: "string \<Rightarrow> string list" where
  "findall_token [] = []"
| "findall_token (c # s) =
     (if isdigit c then (c # takeWhile isdigit s) # findall_token (dropWhile isdigit s)
      else if islower c then (c # takeWhile islower s) # findall_token (dropWhile islower s)
      else findall_token s)"
  by pat_completeness auto
termination
  by (relation "measure length") (auto simp: less_Suc_eq_le length_dropWhile_le)

definition MAX_TOKENS :: nat where
  "MAX_TOKENS = 12"

definition token_of :: "string \<Rightarrow> token" where
  "token_of t = (if str_isdigit t then Num (int (parse_nat t)) else Word t)"

text \<open>The normalised text: stripped, in lower case, without a leading \<open>v\<close> before a digit.\<close>

definition version_text :: "string option \<Rightarrow> string" where
  "version_text value =
     (let text = map lower_char (strip (case value of None \<Rightarrow> [] | Some v \<Rightarrow> v)) in
      if startswith text ''v'' \<and> str_isdigit (take 1 (drop 1 text)) then drop 1 text else text)"

definition parse_version :: "string option \<Rightarrow> unparseable_version + version" where
  "parse_version value =
     (let v = (case value of None \<Rightarrow> [] | Some v \<Rightarrow> v);
          text = version_text value;
          toks = findall_token (take 64 text) in
      if \<not> str_isdigit (take 1 text) \<or> toks = [] then Inl (UnparseableVersion v)
      else Inr \<lparr>raw = v, tokens = map token_of (take MAX_TOKENS toks)\<rparr>)"

subsection \<open>Comparison\<close>

text \<open>Two different tokens: numbers as numbers, words as words, a number above a word.\<close>

fun cmp_token :: "token \<Rightarrow> token \<Rightarrow> int" where
  "cmp_token (Num x) (Num y) = (if x < y then -1 else 1)"
| "cmp_token (Word x) (Word y) = (if x < y then -1 else 1)"
| "cmp_token (Num _) (Word _) = 1"
| "cmp_token (Word _) (Num _) = -1"

text \<open>The loop over the positions of both sequences; a missing position is \<open>Num 0\<close>.\<close>

fun cmp_tokens :: "token list \<Rightarrow> token list \<Rightarrow> int" where
  "cmp_tokens [] [] = 0"
| "cmp_tokens (x # a) [] = (if x = Num 0 then cmp_tokens a [] else cmp_token x (Num 0))"
| "cmp_tokens [] (y # b) = (if Num 0 = y then cmp_tokens [] b else cmp_token (Num 0) y)"
| "cmp_tokens (x # a) (y # b) = (if x = y then cmp_tokens a b else cmp_token x y)"

definition version_cmp :: "version \<Rightarrow> version \<Rightarrow> int" where
  "version_cmp v w = cmp_tokens (tokens v) (tokens w)"

definition version_eq :: "version \<Rightarrow> version \<Rightarrow> bool" where
  "version_eq v w \<longleftrightarrow> version_cmp v w = 0"

definition version_lt :: "version \<Rightarrow> version \<Rightarrow> bool" where
  "version_lt v w \<longleftrightarrow> version_cmp v w < 0"

text \<open>\<open>__le__\<close> as \<open>functools.total_ordering\<close> derives it.\<close>

definition version_le :: "version \<Rightarrow> version \<Rightarrow> bool" where
  "version_le v w \<longleftrightarrow> version_lt v w \<or> version_eq v w"

subsection \<open>Ranges\<close>

record version_range =
  introduced :: "string option"
  fixed :: "string option"
  last_affected :: "string option"

text \<open>Truth of an optional string: present and not empty.\<close>

fun given :: "string option \<Rightarrow> bool" where
  "given None = False"
| "given (Some s) = (s \<noteq> [])"

definition in_range :: "version \<Rightarrow> version_range \<Rightarrow> unparseable_version + bool" where
  "in_range v r =
     bind_r (if given (introduced r) then bind_r (parse_version (introduced r)) (\<lambda>i. Inr (version_lt v i))
             else Inr False) (\<lambda>below.
     if below then Inr False else
     bind_r (if given (fixed r) then bind_r (parse_version (fixed r)) (\<lambda>f. Inr (\<not> version_lt v f))
             else Inr False) (\<lambda>repaired.
     if repaired then Inr False else
     bind_r (if given (last_affected r) then bind_r (parse_version (last_affected r)) (\<lambda>l. Inr (version_lt l v))
             else Inr False) (\<lambda>above. Inr (\<not> above))))"

subsection \<open>The comparison is a total preorder\<close>

text \<open>The contract of a three-way comparison.\<close>

locale comparison =
  fixes compare :: "'a \<Rightarrow> 'a \<Rightarrow> int"
  assumes compare_refl: "compare x x = 0"
    and compare_anti: "compare x y < 0 \<longleftrightarrow> 0 < compare y x"
    and compare_trans: "compare x y \<le> 0 \<Longrightarrow> compare y z \<le> 0 \<Longrightarrow> compare x z \<le> 0"
begin

lemma compare_zero_sym: "compare x y = 0 \<longleftrightarrow> compare y x = 0"
  using compare_anti [of x y] compare_anti [of y x] by linarith

lemma compare_total: "compare x y \<le> 0 \<or> compare y x \<le> 0"
  using compare_anti [of x y] compare_anti [of y x] by linarith

lemma compare_not_less: "\<not> compare x y < 0 \<longleftrightarrow> compare y x \<le> 0"
  using compare_anti [of x y] by linarith

lemma compare_less_le_trans: "compare x y < 0 \<Longrightarrow> compare y z \<le> 0 \<Longrightarrow> compare x z < 0"
  using compare_trans [of y z x] compare_anti [of x z] compare_anti [of x y] by linarith

lemma compare_le_less_trans: "compare x y \<le> 0 \<Longrightarrow> compare y z < 0 \<Longrightarrow> compare x z < 0"
  using compare_trans [of z x y] compare_anti [of x z] compare_anti [of y z] by linarith

lemma compare_cong: "compare x y = 0 \<Longrightarrow> compare x z < 0 \<longleftrightarrow> compare y z < 0"
  using compare_le_less_trans [of x y z] compare_le_less_trans [of y x z] compare_zero_sym [of x y]
  by linarith

lemma compare_cong2: "compare x y = 0 \<Longrightarrow> compare z x < 0 \<longleftrightarrow> compare z y < 0"
  using compare_less_le_trans [of z x y] compare_less_le_trans [of z y x] compare_zero_sym [of x y]
  by linarith

end

text \<open>The token a sequence has at a position, past its end \<open>Num 0\<close>.\<close>

definition tok :: "token list \<Rightarrow> nat \<Rightarrow> token" where
  "tok a i = (if i < length a then a ! i else Num 0)"

lemma tok_simps [simp]:
  "tok [] i = Num 0" "tok (x # a) 0 = x" "tok (x # a) (Suc i) = tok a i"
  by (simp_all add: tok_def)

text \<open>The first position at which two sequences differ decides.\<close>

definition token_less :: "token \<Rightarrow> token \<Rightarrow> bool" where
  "token_less x y \<longleftrightarrow> x \<noteq> y \<and> cmp_token x y < 0"

lemma token_less_trans: "token_less x y \<Longrightarrow> token_less y z \<Longrightarrow> token_less x z"
  by (cases x; cases y; cases z) (auto simp: token_less_def split: if_splits)

lemma token_less_linear: "x \<noteq> y \<Longrightarrow> token_less x y \<or> token_less y x"
  by (cases x; cases y) (auto simp: token_less_def)

lemma token_less_asym: "token_less x y \<Longrightarrow> \<not> token_less y x"
  by (cases x; cases y) (auto simp: token_less_def split: if_splits)

lemma cmp_token_anti: "x \<noteq> y \<Longrightarrow> cmp_token x y < 0 \<longleftrightarrow> 0 < cmp_token y x"
  by (cases x; cases y) auto

lemma cmp_token_nonzero: "x \<noteq> y \<Longrightarrow> cmp_token x y \<noteq> 0"
  by (cases x; cases y) auto

definition first_less :: "(nat \<Rightarrow> token) \<Rightarrow> (nat \<Rightarrow> token) \<Rightarrow> bool" where
  "first_less f g \<longleftrightarrow> (\<exists>i. token_less (f i) (g i) \<and> (\<forall>j < i. f j = g j))"

lemma first_less_Suc:
  "first_less f g \<longleftrightarrow>
     token_less (f 0) (g 0) \<or> f 0 = g 0 \<and> first_less (\<lambda>i. f (Suc i)) (\<lambda>i. g (Suc i))"
  (is "_ \<longleftrightarrow> ?R")
proof
  assume "first_less f g"
  then obtain i where i: "token_less (f i) (g i)" "\<forall>j < i. f j = g j" by (auto simp: first_less_def)
  then show ?R by (cases i) (auto simp: first_less_def)
next
  assume ?R
  then show "first_less f g"
  proof
    assume "f 0 = g 0 \<and> first_less (\<lambda>i. f (Suc i)) (\<lambda>i. g (Suc i))"
    then obtain i where "f 0 = g 0" "token_less (f (Suc i)) (g (Suc i))" "\<forall>j < i. f (Suc j) = g (Suc j)"
      by (auto simp: first_less_def)
    then show ?thesis
      unfolding first_less_def by (intro exI [of _ "Suc i"]) (auto simp: less_Suc_eq_0_disj)
  qed (auto simp: first_less_def)
qed

lemma first_less_const [simp]: "\<not> first_less f f"
  using token_less_asym by (auto simp: first_less_def)

lemma first_less_trans: "first_less f g \<Longrightarrow> first_less g h \<Longrightarrow> first_less f h"
proof -
  assume "first_less f g" "first_less g h"
  then obtain i k where i: "token_less (f i) (g i)" "\<forall>j < i. f j = g j"
    and k: "token_less (g k) (h k)" "\<forall>j < k. g j = h j"
    by (auto simp: first_less_def)
  have "token_less (f (min i k)) (h (min i k)) \<and> (\<forall>j < min i k. f j = h j)"
    using i k token_less_trans by (cases i k rule: linorder_cases) auto
  then show ?thesis by (auto simp: first_less_def)
qed

lemma cmp_tokens_neg: "cmp_tokens a b < 0 \<longleftrightarrow> first_less (tok a) (tok b)"
  by (induction a b rule: cmp_tokens.induct)
    (subst first_less_Suc; auto simp: token_less_def)+

lemma cmp_tokens_anti: "cmp_tokens a b < 0 \<longleftrightarrow> 0 < cmp_tokens b a"
  by (induction a b rule: cmp_tokens.induct) (auto simp: cmp_token_anti)

lemma tok_shift: "(\<forall>i. tok (x # a) i = tok b i) \<longleftrightarrow> x = tok b 0 \<and> (\<forall>i. tok a i = tok b (Suc i))"
  by (metis tok_simps(2,3) not0_implies_Suc)

lemma cmp_tokens_zero: "cmp_tokens a b = 0 \<longleftrightarrow> (\<forall>i. tok a i = tok b i)"
proof (induction a b rule: cmp_tokens.induct)
  case (2 x a)
  show ?case unfolding tok_shift using 2 cmp_token_nonzero [of x "Num 0"] by simp
next
  case (3 y b)
  have "(\<forall>i. tok [] i = tok (y # b) i) \<longleftrightarrow> (\<forall>i. tok (y # b) i = tok [] i)" by metis
  also have "\<dots> \<longleftrightarrow> y = Num 0 \<and> (\<forall>i. tok b i = Num 0)" unfolding tok_shift by simp
  finally show ?case using 3 cmp_token_nonzero [of "Num 0" y] by (cases "Num 0 = y") auto
next
  case (4 x a y b)
  show ?case unfolding tok_shift using 4 cmp_token_nonzero [of x y] by simp
qed simp

interpretation token_comparison: comparison cmp_tokens
proof
  fix x y z :: "token list"
  show "cmp_tokens x x = 0" by (simp add: cmp_tokens_zero)
  show "cmp_tokens x y < 0 \<longleftrightarrow> 0 < cmp_tokens y x" by (rule cmp_tokens_anti)
  assume "cmp_tokens x y \<le> 0" "cmp_tokens y z \<le> 0"
  then have "(first_less (tok x) (tok y) \<or> tok x = tok y) \<and> (first_less (tok y) (tok z) \<or> tok y = tok z)"
    by (auto simp: order_le_less cmp_tokens_neg cmp_tokens_zero)
  then show "cmp_tokens x z \<le> 0"
    by (auto simp: order_le_less cmp_tokens_neg cmp_tokens_zero dest: first_less_trans)
qed

interpretation version_comparison: comparison version_cmp
  unfolding version_cmp_def
  by unfold_locales
    (rule token_comparison.compare_refl, rule token_comparison.compare_anti,
     erule (1) token_comparison.compare_trans)

lemmas version_order_defs = version_lt_def version_eq_def version_le_def

subsection \<open>Bounds of a range\<close>

text \<open>The bound of a range as a test of a version; an absent bound always passes.\<close>

definition bound_ok :: "string option \<Rightarrow> (version \<Rightarrow> bool) \<Rightarrow> bool" where
  "bound_ok b test \<longleftrightarrow> \<not> given b \<or> (\<exists>w. parse_version b = Inr w \<and> test w)"

definition range_parses :: "version_range \<Rightarrow> bool" where
  "range_parses r \<longleftrightarrow>
     (\<forall>b \<in> {introduced r, fixed r, last_affected r}. given b \<longrightarrow> (\<exists>w. parse_version b = Inr w))"

lemma in_range_bounds:
  assumes "range_parses r"
  shows "in_range v r =
    Inr (bound_ok (introduced r) (\<lambda>i. version_le i v) \<and> bound_ok (fixed r) (version_lt v) \<and>
         bound_ok (last_affected r) (version_le v))"
proof -
  have le: "version_le x y \<longleftrightarrow> \<not> version_lt y x" for x y
    using version_comparison.compare_anti [of y x] by (auto simp: version_order_defs)
  obtain i where i: "given (introduced r) \<Longrightarrow> parse_version (introduced r) = Inr i"
    using assms by (auto simp: range_parses_def)
  obtain f where f: "given (fixed r) \<Longrightarrow> parse_version (fixed r) = Inr f"
    using assms by (auto simp: range_parses_def)
  obtain l where l: "given (last_affected r) \<Longrightarrow> parse_version (last_affected r) = Inr l"
    using assms by (auto simp: range_parses_def)
  show ?thesis
    using i f l by (cases "given (introduced r)"; cases "given (fixed r)"; cases "given (last_affected r)")
      (simp_all add: in_range_def bound_ok_def le)
qed

lemma bound_ok_mono: "bound_ok b P \<Longrightarrow> (\<And>w. P w \<Longrightarrow> Q w) \<Longrightarrow> bound_ok b Q"
  by (auto simp: bound_ok_def)

lemma version_le_cmp: "version_le x y \<longleftrightarrow> version_cmp x y \<le> 0"
  by (auto simp: version_order_defs)

lemma version_le_trans: "version_le x y \<Longrightarrow> version_le y z \<Longrightarrow> version_le x z"
  by (simp add: version_le_cmp version_comparison.compare_trans [of x y z])

lemma version_le_lt_trans: "version_le x y \<Longrightarrow> version_lt y z \<Longrightarrow> version_lt x z"
  by (simp add: version_le_cmp version_lt_def version_comparison.compare_le_less_trans [of x y z])

subsection \<open>Properties\<close>

text \<open>
  the comparison of versions is a total order up to equality: exactly one of less, equal
  and greater holds, and all three relations are transitive, whatever mix of numbers, words
  and lengths the versions have.
\<close>

theorem version_order_total:
  "(version_lt x y \<and> \<not> version_eq x y \<and> \<not> version_lt y x \<or>
    \<not> version_lt x y \<and> version_eq x y \<and> \<not> version_lt y x \<or>
    \<not> version_lt x y \<and> \<not> version_eq x y \<and> version_lt y x) \<and>
   (version_eq x y \<longleftrightarrow> version_eq y x) \<and>
   (version_lt x y \<and> version_lt y z \<longrightarrow> version_lt x z) \<and>
   (version_eq x y \<and> version_eq y z \<longrightarrow> version_eq x z) \<and>
   (version_le x y \<and> version_le y z \<longrightarrow> version_le x z)"
proof -
  have anti: "version_lt x y \<longleftrightarrow> 0 < version_cmp y x" "version_lt y x \<longleftrightarrow> 0 < version_cmp x y"
    by (simp_all add: version_lt_def version_comparison.compare_anti)
  have lt: "version_lt x y \<Longrightarrow> version_lt y z \<Longrightarrow> version_lt x z"
    by (auto intro: version_le_lt_trans simp: version_le_def)
  have eq: "version_eq x y \<Longrightarrow> version_eq y z \<Longrightarrow> version_eq x z"
    by (simp add: version_eq_def version_cmp_def cmp_tokens_zero)
  show ?thesis
    using anti lt eq version_le_trans [of x y z] version_comparison.compare_zero_sym [of x y]
    by (auto simp: version_lt_def version_eq_def)
qed

theorem version_order_total_witness:
  "version_lt \<lparr>raw = ''1.0rc1'', tokens = [Num 1, Num 0, Word ''rc'', Num 1]\<rparr>
     \<lparr>raw = ''2'', tokens = [Num 2]\<rparr>"
proof -
  let ?a = "\<lparr>raw = ''1.0rc1'', tokens = [Num 1, Num 0, Word ''rc'', Num 1]\<rparr>"
  let ?b = "\<lparr>raw = ''1.0'', tokens = [Num 1, Num 0]\<rparr>" and ?c = "\<lparr>raw = ''2'', tokens = [Num 2]\<rparr>"
  have "version_lt ?a ?b \<and> version_lt ?b ?c"
    by (simp add: version_lt_def version_cmp_def)
  then show ?thesis using version_order_total [of ?a ?b ?c] by blast
qed

text \<open>
  C35: a range is an interval. Whenever the bounds of a range parse, \<open>in_range\<close> does not raise,
  a version between two affected versions is affected, and equal versions (\<open>1.0\<close> and
  \<open>1.0.0\<close>) get the same answer.
\<close>

theorem in_range_interval:
  assumes "range_parses r"
  shows "(\<exists>b. in_range v r = Inr b) \<and>
    (version_le u v \<and> version_le v w \<and> in_range u r = Inr True \<and> in_range w r = Inr True \<longrightarrow>
       in_range v r = Inr True) \<and>
    (version_eq u v \<longrightarrow> in_range u r = in_range v r)"
proof -
  have between: "in_range v' r = Inr True"
    if le: "version_le u' v'" "version_le v' w'" and in_r: "in_range u' r = Inr True" "in_range w' r = Inr True"
    for u' v' w'
  proof -
    have "bound_ok (introduced r) (\<lambda>i. version_le i v')"
      by (rule bound_ok_mono [of _ "\<lambda>i. version_le i u'"])
        (use in_r in \<open>simp_all add: in_range_bounds [OF assms] version_le_trans [OF _ le(1)]\<close>)
    moreover have "bound_ok (fixed r) (version_lt v')"
      by (rule bound_ok_mono [of _ "version_lt w'"])
        (use in_r in \<open>simp_all add: in_range_bounds [OF assms] version_le_lt_trans [OF le(2)]\<close>)
    moreover have "bound_ok (last_affected r) (version_le v')"
      by (rule bound_ok_mono [of _ "version_le w'"])
        (use in_r in \<open>simp_all add: in_range_bounds [OF assms] version_le_trans [OF le(2)]\<close>)
    ultimately show ?thesis by (simp add: in_range_bounds [OF assms])
  qed
  have "version_eq u v \<longrightarrow> in_range u r = in_range v r"
  proof
    assume "version_eq u v"
    then have "version_le u v" "version_le v u"
      using version_comparison.compare_zero_sym [of u v] by (auto simp: version_order_defs)
    then have "in_range u r = Inr True \<longleftrightarrow> in_range v r = Inr True"
      using between [of u v u] between [of v u v] by blast
    then show "in_range u r = in_range v r" by (simp add: in_range_bounds [OF assms])
  qed
  then show ?thesis using between by (auto simp: in_range_bounds [OF assms])
qed

theorem in_range_interval_witness:
  "range_parses \<lparr>introduced = Some ''2.4'', fixed = Some ''2.4.58'', last_affected = None\<rparr> \<and>
   in_range \<lparr>raw = ''2.4.0'', tokens = [Num 2, Num 4, Num 0]\<rparr>
      \<lparr>introduced = Some ''2.4'', fixed = Some ''2.4.58'', last_affected = None\<rparr> = Inr True"
proof -
  let ?r = "\<lparr>introduced = Some ''2.4'', fixed = Some ''2.4.58'', last_affected = None\<rparr>"
  let ?u = "\<lparr>raw = ''2.4'', tokens = [Num 2, Num 4]\<rparr>"
  let ?v = "\<lparr>raw = ''2.4.0'', tokens = [Num 2, Num 4, Num 0]\<rparr>"
  have p: "parse_version (Some ''2.4'') = Inr ?u"
    "parse_version (Some ''2.4.58'') = Inr \<lparr>raw = ''2.4.58'', tokens = [Num 2, Num 4, Num 58]\<rparr>"
    by code_simp+
  have r: "range_parses ?r" by (auto simp: range_parses_def p)
  have u: "in_range ?u ?r = Inr True" and "version_eq ?u ?v" by code_simp+
  then have "in_range ?u ?r = in_range ?v ?r"
    using in_range_interval [OF r, where u = ?u and v = ?v and w = ?u] by blast
  with u r show ?thesis by argo
qed

lemma cmp_tokens_append: "cmp_tokens (a @ b) a = cmp_tokens b []"
  by (induction a) simp_all

text \<open>
  whatever follows a version decides its place: a word suffix (a pre-release) is below it,
  a positive number above it, and zeros change nothing.
\<close>

theorem version_suffix:
  "version_lt (v\<lparr>tokens := tokens v @ Word w # ts\<rparr>) v \<and>
   (0 < n \<longrightarrow> version_lt v (v\<lparr>tokens := tokens v @ Num n # ts\<rparr>)) \<and>
   version_eq (v\<lparr>tokens := tokens v @ replicate k (Num 0)\<rparr>) v"
proof -
  have "cmp_tokens (replicate k (Num 0)) [] = 0" by (induction k) auto
  then show ?thesis
    by (simp add: version_lt_def version_eq_def version_cmp_def cmp_tokens_append
        token_comparison.compare_anti [of "tokens v"])
qed

theorem version_suffix_witness:
  "version_lt \<lparr>raw = [], tokens = [Num 1]\<rparr> \<lparr>raw = [], tokens = [Num 1, Num 2]\<rparr>"
  using version_suffix [where v = "\<lparr>raw = [], tokens = [Num 1]\<rparr>" and n = 2 and ts = "[]"] by simp

end
