(* ===== verification/Coordination.thy ===== *)
theory Coordination
  imports Prelude
begin

text \<open>
  Cross-process coordination of the sensor workers (\<open>workers/asm_sensors/coordination.py\<close>): the
  exclusive self-renewing lease and the first-writer-wins claim, over the in-process coordinator and
  over Redis. Times are microseconds of one clock. Redis is a parameter: a record of the commands
  the code sends, with their documented behaviour as the assumptions of the locale \<open>redis_server\<close>.
\<close>

definition seconds :: "int \<Rightarrow> time" where
  "seconds n = n * 1000000"

text \<open>The abstract methods of \<open>Coordinator\<close>; each reads the clock and updates the shared state.\<close>

record 's coordinator =
  poll_interval :: time
  claim :: "time \<Rightarrow> string \<Rightarrow> int \<Rightarrow> 's \<Rightarrow> bool \<times> 's"
  try_acquire :: "time \<Rightarrow> string \<Rightarrow> string \<Rightarrow> int \<Rightarrow> 's \<Rightarrow> bool \<times> 's"
  renew :: "time \<Rightarrow> string \<Rightarrow> string \<Rightarrow> int \<Rightarrow> 's \<Rightarrow> bool \<times> 's"
  release :: "time \<Rightarrow> string \<Rightarrow> string \<Rightarrow> 's \<Rightarrow> 's"

subsection \<open>The lease\<close>

text \<open>
  \<open>lease\<close> is a loop and a context manager that run interleaved with other jobs. A job is where it
  is in that code: polling until its deadline, or in the body with its \<open>keepalive\<close> task asleep until
  \<open>wake\<close> and the event \<open>lost\<close>. \<open>renewed\<close> is the time of the last successful acquisition or renewal;
  no guard reads it.
\<close>

datatype lease_outcome = Released | LeaseLost | LeaseUnavailable | BrokerError

datatype job =
    Idle
  | Polling (lease_name: string) (lease_ttl: int) (deadline: time) (wake: time)
  | InBody (lease_name: string) (lease_ttl: int) (wake: time) (lost: bool) (renewed: time)
  | Ended lease_outcome

record 's world =
  shared :: 's
  now :: time
  jobs :: "nat \<Rightarrow> job"

definition set_job :: "nat \<Rightarrow> job \<Rightarrow> 's world \<Rightarrow> 's world" where
  "set_job i j w = w\<lparr>jobs := (jobs w)(i := j)\<rparr>"

text \<open>Entering the context manager: the deadline is fixed, the first attempt is immediate.\<close>

definition lease_enter :: "nat \<Rightarrow> string \<Rightarrow> int \<Rightarrow> time \<Rightarrow> 's world \<Rightarrow> 's world option" where
  "lease_enter i name ttl wait w =
     (case jobs w i of Idle \<Rightarrow> Some (set_job i (Polling name ttl (now w + wait) (now w)) w) | _ \<Rightarrow> None)"

definition keepalive_sleep :: "int \<Rightarrow> time" where
  "keepalive_sleep ttl = max (seconds ttl div 3) 50000"

text \<open>One turn of the acquisition loop.\<close>

definition lease_poll :: "'s coordinator \<Rightarrow> (nat \<Rightarrow> string) \<Rightarrow> nat \<Rightarrow> 's world \<Rightarrow> 's world option" where
  "lease_poll C token i w =
     (case jobs w i of
        Polling name ttl dl wk \<Rightarrow>
          if now w < wk then None
          else (case try_acquire C (now w) name (token i) ttl (shared w) of
                  (True, s) \<Rightarrow>
                    Some (set_job i (InBody name ttl (now w + keepalive_sleep ttl) False (now w)) (w\<lparr>shared := s\<rparr>))
                | (False, s) \<Rightarrow>
                    Some (set_job i (if dl \<le> now w then Ended LeaseUnavailable
                                     else Polling name ttl dl (now w + poll_interval C)) (w\<lparr>shared := s\<rparr>)))
      | _ \<Rightarrow> None)"

text \<open>One turn of the \<open>keepalive\<close> task. An exception of the broker (\<open>error\<close>) counts as a lost lease.\<close>

definition keepalive :: "'s coordinator \<Rightarrow> (nat \<Rightarrow> string) \<Rightarrow> bool \<Rightarrow> nat \<Rightarrow> 's world \<Rightarrow> 's world option" where
  "keepalive C token error i w =
     (case jobs w i of
        InBody name ttl wk lst rn \<Rightarrow>
          if lst \<or> now w < wk then None
          else (case renew C (now w) name (token i) ttl (shared w) of
                  (held, s) \<Rightarrow>
                    if held \<and> \<not> error
                    then Some (set_job i (InBody name ttl (now w + keepalive_sleep ttl) False (now w)) (w\<lparr>shared := s\<rparr>))
                    else Some (set_job i (InBody name ttl wk True rn) (w\<lparr>shared := s\<rparr>)))
      | _ \<Rightarrow> None)"

text \<open>Leaving the block: the lease is released unless it was lost.\<close>

definition lease_exit :: "'s coordinator \<Rightarrow> (nat \<Rightarrow> string) \<Rightarrow> nat \<Rightarrow> 's world \<Rightarrow> 's world option" where
  "lease_exit C token i w =
     (case jobs w i of
        InBody name ttl wk lst rn \<Rightarrow>
          Some (if lst then set_job i (Ended LeaseLost) w
                else set_job i (Ended Released) (w\<lparr>shared := release C (now w) name (token i) (shared w)\<rparr>))
      | _ \<Rightarrow> None)"

text \<open>
  The jobs interleave; the clock advances between steps. A broker call that raises has reached the
  broker or not; an exception in an acquisition ends the job.
\<close>

inductive lease_step :: "'s coordinator \<Rightarrow> (nat \<Rightarrow> string) \<Rightarrow> 's world \<Rightarrow> 's world \<Rightarrow> bool" for C token where
  enter: "lease_enter i name ttl wait w = Some w' \<Longrightarrow> lease_step C token w w'"
| poll: "lease_poll C token i w = Some w' \<Longrightarrow> lease_step C token w w'"
| poll_error: "lease_poll C token i w = Some w' \<Longrightarrow> s \<in> {shared w, shared w'} \<Longrightarrow>
    lease_step C token w (set_job i (Ended BrokerError) (w\<lparr>shared := s\<rparr>))"
| keep: "keepalive C token False i w = Some w' \<Longrightarrow> lease_step C token w w'"
| keep_error: "keepalive C token True i w = Some w' \<Longrightarrow> s \<in> {shared w, shared w'} \<Longrightarrow>
    lease_step C token w (w'\<lparr>shared := s\<rparr>)"
| exit: "lease_exit C token i w = Some w' \<Longrightarrow> lease_step C token w w'"
| tick: "now w \<le> t \<Longrightarrow> lease_step C token w (w\<lparr>now := t\<rparr>)"

inductive lease_reach :: "'s coordinator \<Rightarrow> (nat \<Rightarrow> string) \<Rightarrow> 's world \<Rightarrow> bool" for C token where
  start: "(\<And>i. jobs w i = Idle) \<Longrightarrow> lease_reach C token w"
| step: "lease_reach C token w \<Longrightarrow> lease_step C token w w' \<Longrightarrow> lease_reach C token w'"

text \<open>A job is in the body with a lease renewed less than its time to live ago.\<close>

fun fresh_at :: "time \<Rightarrow> job \<Rightarrow> bool" where
  "fresh_at t (InBody name ttl wk lst rn) \<longleftrightarrow> t < rn + seconds ttl"
| "fresh_at t _ \<longleftrightarrow> False"

fun body_name :: "job \<Rightarrow> string option" where
  "body_name (InBody name ttl wk lst rn) = Some name"
| "body_name _ = None"

subsection \<open>The contract of a coordinator\<close>

text \<open>
  \<open>holder t s n\<close> is the token that holds the lease \<open>n\<close> at time \<open>t\<close>, if any. The laws are what the
  lease relies on: an acquisition succeeds only on a free name, a renewal only when no other token
  holds it, both last for the time to live, and a release touches the caller's own lease only.
\<close>

definition taken_until :: "(time \<Rightarrow> 's \<Rightarrow> string \<Rightarrow> string option) \<Rightarrow> time \<Rightarrow> int \<Rightarrow> string \<Rightarrow> string \<Rightarrow> 's \<Rightarrow> 's \<Rightarrow> bool" where
  "taken_until holder t ttl n k s s' \<longleftrightarrow>
     (\<forall>t'. t \<le> t' \<and> t' < t + seconds ttl \<longrightarrow> holder t' s' n = Some k) \<and>
     (\<forall>t' m. m \<noteq> n \<longrightarrow> holder t' s' m = holder t' s m)"

locale lease_laws =
  fixes C :: "'s coordinator" and holder :: "time \<Rightarrow> 's \<Rightarrow> string \<Rightarrow> string option"
  assumes acquired: "try_acquire C t n k ttl s = (True, s') \<Longrightarrow>
      holder t s n = None \<and> taken_until holder t ttl n k s s'"
    and not_acquired: "try_acquire C t n k ttl s = (False, s') \<Longrightarrow> s' = s \<and> holder t s n \<noteq> None"
    and was_renewed: "renew C t n k ttl s = (True, s') \<Longrightarrow>
      holder t s n \<in> {None, Some k} \<and> taken_until holder t ttl n k s s'"
    and not_renewed: "renew C t n k ttl s = (False, s') \<Longrightarrow> s' = s \<and> holder t s n \<noteq> Some k"
    and was_released: "t \<le> t' \<Longrightarrow>
      holder t' (release C t n k s) m = (if m = n \<and> holder t s n = Some k then None else holder t' s m)"
    and expires_only: "t \<le> t' \<Longrightarrow> holder t' s n = Some k \<Longrightarrow> holder t s n = Some k"
begin

text \<open>The lease of a fresh job is held under its own token, now and until it expires.\<close>

definition covered :: "(nat \<Rightarrow> string) \<Rightarrow> 's \<Rightarrow> time \<Rightarrow> nat \<Rightarrow> job \<Rightarrow> bool" where
  "covered token s u i j \<longleftrightarrow>
     (case j of
        InBody n ttl wk lst rn \<Rightarrow> rn \<le> u \<and> (\<forall>t'. u \<le> t' \<and> t' < rn + seconds ttl \<longrightarrow> holder t' s n = Some (token i))
      | _ \<Rightarrow> True)"

definition lease_inv :: "(nat \<Rightarrow> string) \<Rightarrow> 's world \<Rightarrow> bool" where
  "lease_inv token w \<longleftrightarrow> (\<forall>i. covered token (shared w) (now w) i (jobs w i))"

lemma covered_simps [simp]:
  "covered token s u i Idle" "covered token s u i (Polling n ttl dl wk)" "covered token s u i (Ended e)"
  by (simp_all add: covered_def)

lemma lease_inv_set_job:
  assumes "covered token s (now w) i j"
    and "\<And>i'. i' \<noteq> i \<Longrightarrow> covered token s (now w) i' (jobs w i')"
  shows "lease_inv token (set_job i j (w\<lparr>shared := s\<rparr>))"
  using assms by (simp add: lease_inv_def set_job_def)

lemma covered_taken:
  assumes taken: "taken_until holder t ttl n k s s'" and free: "holder t s n \<in> {None, Some k}"
    and tok: "inj token" "k = token i" and cov: "covered token s t i' j" "i' \<noteq> i"
  shows "covered token s' t i' j"
proof (cases j)
  case (InBody n' ttl' wk lst rn)
  show ?thesis
  proof (cases "n' = n \<and> t < rn + seconds ttl'")
    case True
    then have "holder t s n = Some (token i')" using cov InBody by (auto simp: covered_def)
    moreover have "token i' \<noteq> token i" using tok(1) cov(2) by (auto dest: injD)
    ultimately show ?thesis using free tok(2) by auto
  next
    case False
    then show ?thesis
      using cov InBody taken by (auto simp: covered_def taken_until_def)
  qed
qed (use cov in \<open>simp_all add: covered_def\<close>)

lemma covered_renewed:
  "taken_until holder t ttl n k s s' \<Longrightarrow> k = token i \<Longrightarrow> covered token s' t i (InBody n ttl wk lst t)"
  by (simp add: covered_def taken_until_def)

lemma covered_released:
  assumes "covered token s t i' j" "i' \<noteq> i" "inj token"
  shows "covered token (release C t n (token i) s) t i' j"
proof (cases j)
  case (InBody n' ttl' wk lst rn)
  have "token i' \<noteq> token i" using assms(2,3) by (auto dest: injD)
  moreover have "holder t s n' = Some (token i')" if "t \<le> t'" "t' < rn + seconds ttl'" for t'
    using assms(1) that InBody by (auto simp: covered_def)
  ultimately show ?thesis
    using assms(1) InBody by (fastforce simp: covered_def was_released)
qed (use assms in \<open>simp_all add: covered_def\<close>)

lemma lease_inv_poll:
  assumes "lease_poll C token i w = Some w'" "lease_inv token w" "inj token"
  shows "lease_inv token w'" "lease_inv token (set_job i (Ended e) (w\<lparr>shared := shared w'\<rparr>))"
proof -
  obtain n ttl dl wk where j: "jobs w i = Polling n ttl dl wk"
    using assms(1) by (auto simp: lease_poll_def split: job.splits)
  obtain ok s where a: "try_acquire C (now w) n (token i) ttl (shared w) = (ok, s)" by fastforce
  have cov: "covered token s (now w) i' (jobs w i')" if "i' \<noteq> i" for i'
  proof (cases ok)
    case True
    then show ?thesis
      using acquired a that assms(2,3) by (fastforce intro: covered_taken simp: lease_inv_def)
  next
    case False
    then show ?thesis using not_acquired a assms(2) by (fastforce simp: lease_inv_def)
  qed
  have own: "covered token s (now w) i (InBody n ttl wk' False (now w))" if ok for wk'
    using acquired a that covered_renewed by fastforce
  show "lease_inv token w'"
    using assms(1) a j own
    by (auto simp: lease_poll_def split: if_splits bool.splits intro!: lease_inv_set_job cov)
  have "shared w' = s"
    using assms(1) a j by (auto simp: lease_poll_def set_job_def split: if_splits bool.splits)
  then show "lease_inv token (set_job i (Ended e) (w\<lparr>shared := shared w'\<rparr>))"
    using cov by (auto intro!: lease_inv_set_job)
qed

lemma lease_inv_keepalive:
  assumes "keepalive C token error i w = Some w'" "lease_inv token w" "inj token"
  shows "lease_inv token w'" "error \<Longrightarrow> lease_inv token (w'\<lparr>shared := shared w\<rparr>)"
proof -
  obtain n ttl wk rn where j: "jobs w i = InBody n ttl wk False rn"
    using assms(1) by (auto simp: keepalive_def split: job.splits if_splits)
  obtain held s where r: "renew C (now w) n (token i) ttl (shared w) = (held, s)" by fastforce
  have cov: "covered token s (now w) i' (jobs w i')" if "i' \<noteq> i" for i'
  proof (cases held)
    case True
    then show ?thesis
      using was_renewed r that assms(2,3) by (fastforce intro: covered_taken simp: lease_inv_def)
  next
    case False
    then show ?thesis using not_renewed r assms(2) by (fastforce simp: lease_inv_def)
  qed
  have own: "rn \<le> now w" "\<And>t'. now w \<le> t' \<Longrightarrow> t' < rn + seconds ttl \<Longrightarrow> holder t' (shared w) n = Some (token i)"
    using assms(2) j by (auto simp: lease_inv_def covered_def dest!: spec [of _ i])
  have new: "covered token s (now w) i (InBody n ttl wk' False (now w))" if held for wk'
    using was_renewed r that covered_renewed by fastforce
  have old: "covered token s (now w) i (InBody n ttl wk True rn)"
  proof (cases held)
    case True
    then show ?thesis using new own(1) by (fastforce simp: covered_def)
  next
    case False
    then show ?thesis using not_renewed r own by (fastforce simp: covered_def)
  qed
  show "lease_inv token w'"
    using assms(1) r j new old
    by (auto simp: keepalive_def split: if_splits intro!: lease_inv_set_job cov)
  show "lease_inv token (w'\<lparr>shared := shared w\<rparr>)" if error
  proof -
    have "w'\<lparr>shared := shared w\<rparr> = set_job i (InBody n ttl wk True rn) (w\<lparr>shared := shared w\<rparr>)"
      using assms(1) r j that by (auto simp: keepalive_def set_job_def split: if_splits)
    moreover have "covered token (shared w) (now w) i (InBody n ttl wk True rn)"
      using own by (simp add: covered_def)
    ultimately show ?thesis using assms(2) by (simp add: lease_inv_def set_job_def)
  qed
qed

lemma lease_inv_exit:
  assumes "lease_exit C token i w = Some w'" "lease_inv token w" "inj token"
  shows "lease_inv token w'"
proof -
  have "lease_inv token (set_job i (Ended LeaseLost) (w\<lparr>shared := shared w\<rparr>))"
    using assms(2) by (intro lease_inv_set_job) (auto simp: lease_inv_def)
  moreover have "lease_inv token (set_job i (Ended Released) (w\<lparr>shared := release C (now w) n (token i) (shared w)\<rparr>))" for n
    using assms(2,3) by (intro lease_inv_set_job) (auto simp: lease_inv_def intro: covered_released)
  ultimately show ?thesis
    using assms(1) by (auto simp: lease_exit_def split: job.splits)
qed

lemma lease_inv_step:
  assumes "lease_step C token w w'" "lease_inv token w" "inj token"
  shows "lease_inv token w'"
  using assms
proof cases
  case (enter i name ttl wait)
  then show ?thesis
    using assms(2) by (auto simp: lease_enter_def lease_inv_def set_job_def split: job.splits)
next
  case (poll_error i w'' s)
  then show ?thesis
    using lease_inv_poll(2) [of token i w w''] assms(2,3) lease_inv_set_job [of token "shared w" w i]
    by (auto simp: lease_inv_def)
next
  case (keep_error i w'' s)
  then show ?thesis
    using lease_inv_keepalive [of token True i w w''] assms(2,3) by auto
next
  case (tick t)
  then show ?thesis
    using assms(2) by (fastforce simp: lease_inv_def covered_def split: job.splits)
qed (use lease_inv_poll(1) lease_inv_keepalive(1) lease_inv_exit in blast)+

lemma lease_inv_reach: "lease_reach C token w \<Longrightarrow> inj token \<Longrightarrow> lease_inv token w"
proof (induction rule: lease_reach.induct)
  case (start w)
  then show ?case by (simp add: lease_inv_def)
next
  case (step w w')
  then show ?case using lease_inv_step by blast
qed

lemma exclusive:
  assumes "lease_reach C token w" "inj token"
    and "body_name (jobs w i) = Some n" "body_name (jobs w i') = Some n"
    and "fresh_at (now w) (jobs w i)" "fresh_at (now w) (jobs w i')"
  shows "i = i'"
proof -
  have "holder (now w) (shared w) n = Some (token j)"
    if "body_name (jobs w j) = Some n" "fresh_at (now w) (jobs w j)" for j
    using lease_inv_reach [OF assms(1,2)] that
    by (cases "jobs w j") (auto simp: lease_inv_def covered_def dest!: spec [of _ j])
  from this [OF assms(3,5)] this [OF assms(4,6)] have "token i = token i'" by simp
  then show ?thesis using assms(2) by (auto dest: injD)
qed

end

text \<open>
  The contract of a claim: it is granted exactly when the key is not claimed, and a granted claim
  lasts for its time to live.
\<close>

fun claim_all :: "'s coordinator \<Rightarrow> (time \<times> string \<times> int) list \<Rightarrow> 's \<Rightarrow> bool list \<times> 's" where
  "claim_all C [] s = ([], s)"
| "claim_all C ((t, key, ttl) # cs) s =
     (case claim C t key ttl s of (ok, s') \<Rightarrow> case claim_all C cs s' of (oks, s'') \<Rightarrow> (ok # oks, s''))"

lemma length_claim_all [simp]: "length (fst (claim_all C cs s)) = length cs"
  by (induction C cs s rule: claim_all.induct) (auto split: prod.splits)

locale claim_laws =
  fixes C :: "'s coordinator" and claimed :: "time \<Rightarrow> 's \<Rightarrow> string \<Rightarrow> bool"
  assumes claim_iff: "claim C t k ttl s = (ok, s') \<Longrightarrow> ok = (\<not> claimed t s k)"
    and refused: "claim C t k ttl s = (False, s') \<Longrightarrow> s' = s"
    and granted: "claim C t k ttl s = (True, s') \<Longrightarrow> 1 \<le> ttl \<Longrightarrow> t \<le> t' \<Longrightarrow> claimed t' s' k \<longleftrightarrow> t' < t + seconds ttl"
    and others: "claim C t k ttl s = (ok, s') \<Longrightarrow> k' \<noteq> k \<Longrightarrow> claimed t' s' k' = claimed t' s k'"
begin

lemma claimed_stays:
  assumes "\<forall>t'. t \<le> t' \<and> t' < u \<longrightarrow> claimed t' s key"
    and "i < length cs" "cs ! i = (v, key, ttl)" "\<forall>(t', _) \<in> set cs. t \<le> t' \<and> t' < u"
  shows "\<not> fst (claim_all C cs s) ! i"
  using assms
proof (induction cs arbitrary: s i)
  case (Cons c cs)
  obtain t1 k1 ttl1 where c: "c = (t1, k1, ttl1)" by (cases c)
  obtain ok s' where r: "claim C t1 k1 ttl1 s = (ok, s')" by fastforce
  have t1: "t \<le> t1" "t1 < u" using Cons.prems(4) c by auto
  have no: "k1 = key \<Longrightarrow> \<not> ok" using claim_iff [OF r] Cons.prems(1) t1 by auto
  have "\<forall>t'. t \<le> t' \<and> t' < u \<longrightarrow> claimed t' s' key"
    using no Cons.prems(1) refused [of t1 k1 ttl1 s s'] others [OF r, of key] r by (cases "k1 = key") auto
  then show ?case
    using Cons.IH [of s'] Cons.prems(2-4) c r no by (cases i) (auto split: prod.splits)
qed simp

lemma granted_once:
  assumes "claim C t key ttl s = (True, s')" "1 \<le> ttl"
    and "i < length cs" "cs ! i = (v, key, ttl')" "\<forall>(t', _) \<in> set cs. t \<le> t' \<and> t' < t + seconds ttl"
  shows "\<not> fst (claim_all C cs s') ! i"
  using claimed_stays [of t "t + seconds ttl" s' key i cs v ttl'] granted [OF assms(1,2)] assms(3-5) by auto

end

subsection \<open>The in-process coordinator\<close>

record local_state =
  leases :: "(string, string \<times> time) dict"
  claims :: "(string, time) dict"

definition local_claim :: "time \<Rightarrow> string \<Rightarrow> int \<Rightarrow> local_state \<Rightarrow> bool \<times> local_state" where
  "local_claim t key ttl s =
     (if t < (case map_of (claims s) key of Some u \<Rightarrow> u | None \<Rightarrow> 0) then (False, s)
      else (True, s\<lparr>claims := dict_set (claims s) key (t + seconds ttl)\<rparr>))"

definition local_try_acquire :: "time \<Rightarrow> string \<Rightarrow> string \<Rightarrow> int \<Rightarrow> local_state \<Rightarrow> bool \<times> local_state" where
  "local_try_acquire t name token ttl s =
     (let take = (True, s\<lparr>leases := dict_set (leases s) name (token, t + seconds ttl)\<rparr>) in
      case map_of (leases s) name of
        Some (_, u) \<Rightarrow> if t < u then (False, s) else take
      | None \<Rightarrow> take)"

definition local_renew :: "time \<Rightarrow> string \<Rightarrow> string \<Rightarrow> int \<Rightarrow> local_state \<Rightarrow> bool \<times> local_state" where
  "local_renew t name token ttl s =
     (case map_of (leases s) name of
        Some (k, _) \<Rightarrow>
          if k = token then (True, s\<lparr>leases := dict_set (leases s) name (token, t + seconds ttl)\<rparr>) else (False, s)
      | None \<Rightarrow> (False, s))"

definition local_release :: "time \<Rightarrow> string \<Rightarrow> string \<Rightarrow> local_state \<Rightarrow> local_state" where
  "local_release t name token s =
     (case map_of (leases s) name of
        Some (k, _) \<Rightarrow> if k = token then s\<lparr>leases := dict_del (leases s) name\<rparr> else s
      | None \<Rightarrow> s)"

definition local_coordinator :: "local_state coordinator" where
  "local_coordinator = \<lparr>poll_interval = 50000, claim = local_claim, try_acquire = local_try_acquire,
     renew = local_renew, release = local_release\<rparr>"

definition local_holder :: "time \<Rightarrow> local_state \<Rightarrow> string \<Rightarrow> string option" where
  "local_holder t s n =
     (case map_of (leases s) n of Some (k, u) \<Rightarrow> if t < u then Some k else None | None \<Rightarrow> None)"

lemma local_taken:
  "taken_until local_holder t ttl n k s (s\<lparr>leases := dict_set (leases s) n (k, t + seconds ttl)\<rparr>)"
  by (auto simp: taken_until_def local_holder_def)

interpretation local_lease: lease_laws local_coordinator local_holder
proof
  fix t n k ttl s s'
  show "try_acquire local_coordinator t n k ttl s = (True, s') \<Longrightarrow>
      local_holder t s n = None \<and> taken_until local_holder t ttl n k s s'"
    using local_taken
    by (auto simp: local_coordinator_def local_try_acquire_def local_holder_def Let_def split: option.splits if_splits)
  show "try_acquire local_coordinator t n k ttl s = (False, s') \<Longrightarrow> s' = s \<and> local_holder t s n \<noteq> None"
    by (auto simp: local_coordinator_def local_try_acquire_def local_holder_def Let_def split: option.splits if_splits)
  show "renew local_coordinator t n k ttl s = (True, s') \<Longrightarrow>
      local_holder t s n \<in> {None, Some k} \<and> taken_until local_holder t ttl n k s s'"
    using local_taken
    by (auto simp: local_coordinator_def local_renew_def local_holder_def split: option.splits if_splits)
  show "renew local_coordinator t n k ttl s = (False, s') \<Longrightarrow> s' = s \<and> local_holder t s n \<noteq> Some k"
    by (auto simp: local_coordinator_def local_renew_def local_holder_def split: option.splits if_splits)
next
  fix t t' :: time and n k m :: string and s
  assume "t \<le> t'"
  then show "local_holder t' (release local_coordinator t n k s) m =
      (if m = n \<and> local_holder t s n = Some k then None else local_holder t' s m)"
    by (auto simp: local_coordinator_def local_release_def local_holder_def split: option.splits if_splits)
next
  fix t t' :: time and n k :: string and s
  show "t \<le> t' \<Longrightarrow> local_holder t' s n = Some k \<Longrightarrow> local_holder t s n = Some k"
    by (auto simp: local_holder_def split: option.splits if_splits)
qed

interpretation local_claims: claim_laws local_coordinator
  "\<lambda>t s k. t < (case map_of (claims s) k of Some u \<Rightarrow> u | None \<Rightarrow> 0)"
  by unfold_locales (auto simp: local_coordinator_def local_claim_def split: if_splits option.splits)

subsection \<open>The Redis coordinator\<close>

text \<open>
  The commands the code sends, each executed atomically by the server at a time: \<open>SET key value NX
  PX ms\<close>, \<open>SET key value NX EX s\<close>, \<open>GET\<close>, \<open>PEXPIRE\<close> and \<open>DEL\<close>.
\<close>

record 'r redis =
  set_nx_px :: "time \<Rightarrow> string \<Rightarrow> string \<Rightarrow> int \<Rightarrow> 'r \<Rightarrow> bool \<times> 'r"
  set_nx_ex :: "time \<Rightarrow> string \<Rightarrow> string \<Rightarrow> int \<Rightarrow> 'r \<Rightarrow> bool \<times> 'r"
  get :: "time \<Rightarrow> string \<Rightarrow> 'r \<Rightarrow> string option"
  pexpire :: "time \<Rightarrow> string \<Rightarrow> int \<Rightarrow> 'r \<Rightarrow> int \<times> 'r"
  del :: "time \<Rightarrow> string \<Rightarrow> 'r \<Rightarrow> int \<times> 'r"

text \<open>The Lua scripts \<open>_RENEW\<close> and \<open>_RELEASE\<close>.\<close>

definition RENEW :: "'r redis \<Rightarrow> time \<Rightarrow> string \<Rightarrow> string \<Rightarrow> int \<Rightarrow> 'r \<Rightarrow> int \<times> 'r" where
  "RENEW R t key arg ms s = (if get R t key s = Some arg then pexpire R t key ms s else (0, s))"

definition RELEASE :: "'r redis \<Rightarrow> time \<Rightarrow> string \<Rightarrow> string \<Rightarrow> 'r \<Rightarrow> int \<times> 'r" where
  "RELEASE R t key arg s = (if get R t key s = Some arg then del R t key s else (0, s))"

definition redis_claim :: "'r redis \<Rightarrow> string \<Rightarrow> time \<Rightarrow> string \<Rightarrow> int \<Rightarrow> 'r \<Rightarrow> bool \<times> 'r" where
  "redis_claim R pre t key ttl s = set_nx_ex R t (pre @ key) ''1'' (max ttl 1) s"

definition redis_try_acquire :: "'r redis \<Rightarrow> string \<Rightarrow> time \<Rightarrow> string \<Rightarrow> string \<Rightarrow> int \<Rightarrow> 'r \<Rightarrow> bool \<times> 'r" where
  "redis_try_acquire R pre t name token ttl s = set_nx_px R t (pre @ name) token (ttl * 1000) s"

definition redis_renew :: "'r redis \<Rightarrow> string \<Rightarrow> time \<Rightarrow> string \<Rightarrow> string \<Rightarrow> int \<Rightarrow> 'r \<Rightarrow> bool \<times> 'r" where
  "redis_renew R pre t name token ttl s =
     (case RENEW R t (pre @ name) token (ttl * 1000) s of (n, s') \<Rightarrow> (n \<noteq> 0, s'))"

definition redis_release :: "'r redis \<Rightarrow> string \<Rightarrow> time \<Rightarrow> string \<Rightarrow> string \<Rightarrow> 'r \<Rightarrow> 'r" where
  "redis_release R pre t name token s = snd (RELEASE R t (pre @ name) token s)"

definition redis_coordinator :: "'r redis \<Rightarrow> string \<Rightarrow> 'r coordinator" where
  "redis_coordinator R pre = \<lparr>poll_interval = seconds 2, claim = redis_claim R pre,
     try_acquire = redis_try_acquire R pre, renew = redis_renew R pre, release = redis_release R pre\<rparr>"

text \<open>The documented behaviour of the commands, by what \<open>GET\<close> answers afterwards.\<close>

definition set_until :: "'r redis \<Rightarrow> time \<Rightarrow> time \<Rightarrow> string \<Rightarrow> string \<Rightarrow> 'r \<Rightarrow> 'r \<Rightarrow> bool" where
  "set_until R t u key v s s' \<longleftrightarrow>
     (\<forall>t'. t \<le> t' \<longrightarrow> get R t' key s' = (if t' < u then Some v else None)) \<and>
     (\<forall>t' k. k \<noteq> key \<longrightarrow> get R t' k s' = get R t' k s)"

locale redis_server =
  fixes R :: "'r redis"
  assumes set_px: "set_nx_px R t key v ms s = (ok, s') \<Longrightarrow>
      ok = (get R t key s = None) \<and> (if ok then set_until R t (t + ms * 1000) key v s s' else s' = s)"
    and set_ex: "set_nx_ex R t key v secs s = (ok, s') \<Longrightarrow>
      ok = (get R t key s = None) \<and> (if ok then set_until R t (t + seconds secs) key v s s' else s' = s)"
    and expire_live: "get R t key s = Some v \<Longrightarrow>
      \<exists>s'. pexpire R t key ms s = (1, s') \<and> set_until R t (t + ms * 1000) key v s s'"
    and deleted: "get R t' k (snd (del R t key s)) = (if k = key then None else get R t' k s)"
    and only_expires: "t \<le> t' \<Longrightarrow> get R t' key s = Some v \<Longrightarrow> get R t key s = Some v"
begin

lemma set_until_taken:
  "set_until R t (t + ttl * 1000 * 1000) (pre @ n) k s s' \<Longrightarrow>
   taken_until (\<lambda>t s n. get R t (pre @ n) s) t ttl n k s s'"
  by (simp add: set_until_def taken_until_def seconds_def)

lemma renew_cases:
  assumes "redis_renew R pre t n k ttl s = (ok, s')"
  shows "ok = (get R t (pre @ n) s = Some k)"
    and "if ok then set_until R t (t + ttl * 1000 * 1000) (pre @ n) k s s' else s' = s"
proof -
  obtain s'' where "get R t (pre @ n) s = Some k \<Longrightarrow>
      pexpire R t (pre @ n) (ttl * 1000) s = (1, s'') \<and> set_until R t (t + ttl * 1000 * 1000) (pre @ n) k s s''"
    using expire_live [of t "pre @ n" s k "ttl * 1000"] by blast
  then show "ok = (get R t (pre @ n) s = Some k)"
    and "if ok then set_until R t (t + ttl * 1000 * 1000) (pre @ n) k s s' else s' = s"
    using assms by (auto simp: redis_renew_def RENEW_def split: if_splits)
qed

end

sublocale redis_server \<subseteq> lease: lease_laws "redis_coordinator R pre" "\<lambda>t s n. get R t (pre @ n) s"
  for pre
proof
  fix t n k ttl s s'
  show "try_acquire (redis_coordinator R pre) t n k ttl s = (True, s') \<Longrightarrow>
      get R t (pre @ n) s = None \<and> taken_until (\<lambda>t s n. get R t (pre @ n) s) t ttl n k s s'"
    and "try_acquire (redis_coordinator R pre) t n k ttl s = (False, s') \<Longrightarrow>
      s' = s \<and> get R t (pre @ n) s \<noteq> None"
    using set_px [of t "pre @ n" k "ttl * 1000" s] set_until_taken
    by (fastforce simp: redis_coordinator_def redis_try_acquire_def)+
  show "renew (redis_coordinator R pre) t n k ttl s = (True, s') \<Longrightarrow>
      get R t (pre @ n) s \<in> {None, Some k} \<and> taken_until (\<lambda>t s n. get R t (pre @ n) s) t ttl n k s s'"
    and "renew (redis_coordinator R pre) t n k ttl s = (False, s') \<Longrightarrow>
      s' = s \<and> get R t (pre @ n) s \<noteq> Some k"
    using renew_cases [of pre t n k ttl s] set_until_taken by (fastforce simp: redis_coordinator_def)+
next
  fix t t' :: time and n k m :: string and s
  assume "t \<le> t'"
  then show "get R t' (pre @ m) (release (redis_coordinator R pre) t n k s) =
      (if m = n \<and> get R t (pre @ n) s = Some k then None else get R t' (pre @ m) s)"
    by (simp add: redis_coordinator_def redis_release_def RELEASE_def deleted)
next
  fix t t' :: time and n k :: string and s
  show "t \<le> t' \<Longrightarrow> get R t' (pre @ n) s = Some k \<Longrightarrow> get R t (pre @ n) s = Some k"
    by (rule only_expires)
qed

sublocale redis_server \<subseteq> claim: claim_laws "redis_coordinator R pre" "\<lambda>t s k. get R t (pre @ k) s \<noteq> None"
  for pre
proof
  fix t t' :: time and k k' :: string and ttl :: int and s s' :: 'r and ok
  have c: "claim (redis_coordinator R pre) t k ttl s = set_nx_ex R t (pre @ k) ''1'' (max ttl 1) s"
    by (simp add: redis_coordinator_def redis_claim_def)
  note * = set_ex [of t "pre @ k" "''1''" "max ttl 1" s]
  show "claim (redis_coordinator R pre) t k ttl s = (ok, s') \<Longrightarrow> ok = (\<not> get R t (pre @ k) s \<noteq> None)"
    using * [of ok s'] by (simp add: c)
  show "claim (redis_coordinator R pre) t k ttl s = (False, s') \<Longrightarrow> s' = s"
    using * [of False s'] by (simp add: c)
  show "claim (redis_coordinator R pre) t k ttl s = (True, s') \<Longrightarrow> 1 \<le> ttl \<Longrightarrow> t \<le> t' \<Longrightarrow>
      get R t' (pre @ k) s' \<noteq> None \<longleftrightarrow> t' < t + seconds ttl"
    using * [of True s'] by (simp add: c set_until_def max_absorb1)
  show "claim (redis_coordinator R pre) t k ttl s = (ok, s') \<Longrightarrow> k' \<noteq> k \<Longrightarrow>
      (get R t' (pre @ k') s' \<noteq> None) = (get R t' (pre @ k') s \<noteq> None)"
    using * [of ok s'] by (simp add: c set_until_def split: if_splits)
qed

context redis_server
begin

lemmas redis_exclusive = lease.exclusive
lemmas redis_granted_once = claim.granted_once

end

text \<open>A key-value store with expiry times that behaves as documented.\<close>

type_synonym kv = "(string, string \<times> time) dict"

definition kv_get :: "time \<Rightarrow> string \<Rightarrow> kv \<Rightarrow> string option" where
  "kv_get t k s = (case map_of s k of Some (v, u) \<Rightarrow> if t < u then Some v else None | None \<Rightarrow> None)"

definition kv_set :: "time \<Rightarrow> time \<Rightarrow> string \<Rightarrow> string \<Rightarrow> kv \<Rightarrow> bool \<times> kv" where
  "kv_set t u k v s = (if kv_get t k s = None then (True, dict_set s k (v, u)) else (False, s))"

definition kv_expire :: "time \<Rightarrow> string \<Rightarrow> int \<Rightarrow> kv \<Rightarrow> int \<times> kv" where
  "kv_expire t k ms s =
     (case kv_get t k s of Some v \<Rightarrow> (1, dict_set s k (v, t + ms * 1000)) | None \<Rightarrow> (0, s))"

definition kv_redis :: "kv redis" where
  "kv_redis = \<lparr>set_nx_px = \<lambda>t k v ms. kv_set t (t + ms * 1000) k v,
     set_nx_ex = \<lambda>t k v n. kv_set t (t + seconds n) k v,
     get = kv_get, pexpire = kv_expire,
     del = \<lambda>t k s. (if kv_get t k s = None then 0 else 1, dict_del s k)\<rparr>"

lemma set_until_kv: "set_until kv_redis t u k v s (dict_set s k (v, u))"
  by (simp add: set_until_def kv_redis_def kv_get_def)

interpretation kv: redis_server kv_redis
proof
  fix t t' :: time and k key v :: string and ms :: int and s s' :: kv and ok
  show "set_nx_px kv_redis t key v ms s = (ok, s') \<Longrightarrow>
      ok = (get kv_redis t key s = None) \<and> (if ok then set_until kv_redis t (t + ms * 1000) key v s s' else s' = s)"
    and "set_nx_ex kv_redis t key v ms s = (ok, s') \<Longrightarrow>
      ok = (get kv_redis t key s = None) \<and> (if ok then set_until kv_redis t (t + seconds ms) key v s s' else s' = s)"
    using set_until_kv by (auto simp: kv_redis_def kv_set_def split: if_splits)
  show "get kv_redis t key s = Some v \<Longrightarrow>
      \<exists>s'. pexpire kv_redis t key ms s = (1, s') \<and> set_until kv_redis t (t + ms * 1000) key v s s'"
    using set_until_kv by (simp add: kv_redis_def kv_expire_def)
  show "get kv_redis t' k (snd (del kv_redis t key s)) = (if k = key then None else get kv_redis t' k s)"
    by (simp add: kv_redis_def kv_get_def)
  show "t \<le> t' \<Longrightarrow> get kv_redis t' key s = Some v \<Longrightarrow> get kv_redis t key s = Some v"
    by (auto simp: kv_redis_def kv_get_def split: option.splits if_splits)
qed

subsection \<open>Properties\<close>

text \<open>
  C10: mutual exclusion of the Redis lease. However the jobs of a pool interleave, broker failures
  included, two jobs never are in the body of a lease on the same name with both leases renewed
  within their time to live.
\<close>

theorem lease_exclusive:
  assumes "redis_server R" "inj token" "lease_reach (redis_coordinator R pre) token w"
    and "body_name (jobs w i) = Some n" "body_name (jobs w i') = Some n"
    and "fresh_at (now w) (jobs w i)" "fresh_at (now w) (jobs w i')"
  shows "i = i'"
  by (rule redis_server.redis_exclusive [OF assms(1) assms(3,2,4-7)])

definition two_jobs :: "kv world" where
  "two_jobs =
     (let C = redis_coordinator kv_redis ''asm.pool.''; w0 = \<lparr>shared = [], now = 0, jobs = \<lambda>_. Idle\<rparr>;
          w1 = the (lease_enter 0 ''zap'' 120 (seconds 3600) w0); w2 = the (lease_poll C show_nat 0 w1);
          w3 = the (lease_enter 1 ''zap'' 120 (seconds 3600) w2)
      in the (lease_poll C show_nat 1 w3))"

lemma inj_show_nat: "inj show_nat"
  by (rule inj_on_inverseI [of _ parse_nat]) simp

lemma reach_two_jobs: "lease_reach (redis_coordinator kv_redis ''asm.pool.'') show_nat two_jobs"
proof -
  let ?C = "redis_coordinator kv_redis ''asm.pool.''" and ?w0 = "\<lparr>shared = [] :: kv, now = 0, jobs = \<lambda>_. Idle\<rparr>"
  have r0: "lease_reach ?C show_nat ?w0" by (rule lease_reach.start) simp
  obtain w1 where w1: "lease_enter 0 ''zap'' 120 (seconds 3600) ?w0 = Some w1" by (simp add: lease_enter_def)
  have r1: "lease_reach ?C show_nat w1" by (rule lease_reach.step [OF r0 lease_step.enter [OF w1]])
  have "lease_poll ?C show_nat 0 w1 \<noteq> None"
    using w1 by (auto simp: lease_enter_def lease_poll_def set_job_def split: bool.splits prod.splits)
  then obtain w2 where w2: "lease_poll ?C show_nat 0 w1 = Some w2" by auto
  have r2: "lease_reach ?C show_nat w2" by (rule lease_reach.step [OF r1 lease_step.poll [OF w2]])
  have "jobs w2 1 = Idle" "now w2 = 0"
    using w1 w2 by (auto simp: lease_enter_def lease_poll_def set_job_def split: bool.splits prod.splits)
  then obtain w3 where w3: "lease_enter 1 ''zap'' 120 (seconds 3600) w2 = Some w3" by (simp add: lease_enter_def)
  have r3: "lease_reach ?C show_nat w3" by (rule lease_reach.step [OF r2 lease_step.enter [OF w3]])
  have "lease_poll ?C show_nat 1 w3 \<noteq> None"
    using w3 by (auto simp: lease_enter_def lease_poll_def set_job_def split: bool.splits prod.splits job.splits)
  then obtain w4 where w4: "lease_poll ?C show_nat 1 w3 = Some w4" by auto
  have "two_jobs = w4" by (simp only: two_jobs_def Let_def w1 w2 w3 w4 option.sel)
  then show ?thesis using lease_reach.step [OF r3 lease_step.poll [OF w4]] by simp
qed

theorem lease_exclusive_witness:
  "lease_reach (redis_coordinator kv_redis ''asm.pool.'') show_nat two_jobs \<and>
   body_name (jobs two_jobs 0) = Some ''zap'' \<and> fresh_at (now two_jobs) (jobs two_jobs 0) \<and>
   \<not> (body_name (jobs two_jobs 1) = Some ''zap'' \<and> fresh_at (now two_jobs) (jobs two_jobs 1))"
proof -
  have "body_name (jobs two_jobs 0) = Some ''zap''" "fresh_at (now two_jobs) (jobs two_jobs 0)" by code_simp+
  then show ?thesis
    using lease_exclusive [OF kv.redis_server_axioms inj_show_nat reach_two_jobs, of 0 "''zap''" 1] reach_two_jobs
    by auto
qed

text \<open>
  a claim is granted once. After a granted claim of a key, no later claim of that key is granted
  until the time to live of the first has passed, whatever other claims happen in between: a
  redelivered sensor job is recognised.
\<close>

theorem claim_granted_once:
  assumes "redis_server R" "claim (redis_coordinator R pre) t key ttl s = (True, s')" "1 \<le> ttl"
    and "i < length cs" "cs ! i = (v, key, ttl')" "\<forall>(t', _) \<in> set cs. t \<le> t' \<and> t' < t + seconds ttl"
  shows "\<not> fst (claim_all (redis_coordinator R pre) cs s') ! i"
  by (rule redis_server.redis_granted_once [OF assms])

theorem claim_granted_once_witness:
  "\<exists>s'. claim (redis_coordinator kv_redis ''p.'') 0 ''job.1'' 60 [] = (True, s') \<and>
     \<not> fst (claim_all (redis_coordinator kv_redis ''p.'') [(5, ''job.2'', 60), (7, ''job.1'', 60)] s') ! 1"
proof -
  have c: "claim (redis_coordinator kv_redis ''p.'') 0 ''job.1'' 60 [] = (True, [(''p.job.1'', ''1'', 60000000)])"
    by code_simp
  show ?thesis
    using claim_granted_once [OF kv.redis_server_axioms c, where i = 1 and
        cs = "[(5, ''job.2'', 60), (7, ''job.1'', 60)]"] c by (simp add: seconds_def)
qed

end
