(* ===== verification/RateLimit.thy ===== *)
theory RateLimit
  imports Prelude
begin

text \<open>
  Fixed-window rate limiting (\<open>backend/app/core/rate_limit.py\<close>): the in-process windows and the
  limiter that prefers Redis and degrades to them. Times are microseconds, of \<open>time.monotonic\<close>
  and of \<open>time.time\<close>. The Redis pipeline (\<open>INCR\<close>, \<open>EXPIRE\<close>) is a parameter; \<^const>\<open>None\<close> is an
  exception of it.
\<close>

type_synonym window = "(string, nat \<times> time) dict"

definition bound_memory :: "time \<Rightarrow> window \<Rightarrow> window" where
  "bound_memory t d = (if 100000 < length d then filter (\<lambda>(k, c, r). t < r) d else d)"

definition window_entry :: "time \<Rightarrow> string \<Rightarrow> int \<Rightarrow> window \<Rightarrow> nat \<times> time" where
  "window_entry t key secs d =
     (let fresh = (0, t + secs * 1000000) in
      case map_of d key of
        None \<Rightarrow> fresh
      | Some (c, r) \<Rightarrow> if r \<le> t then fresh else (c, r))"

definition memory_hit :: "time \<Rightarrow> string \<Rightarrow> int \<Rightarrow> window \<Rightarrow> nat \<times> window" where
  "memory_hit t key secs d =
     (case window_entry t key secs d of (c, r) \<Rightarrow>
        (Suc c, bound_memory t (dict_set d key (Suc c, r))))"

definition memory_reset :: "string \<Rightarrow> window \<Rightarrow> window" where
  "memory_reset key d = dict_del d key"

record 'r limiter =
  memory :: window
  redis :: "'r option"
  redis_retry_at :: time

definition bucket :: "string \<Rightarrow> time \<Rightarrow> int \<Rightarrow> string" where
  "bucket key wall secs = ''rl:'' @ key @ '':'' @ show_int (wall div (secs * 1000000))"

definition memory_count :: "time \<Rightarrow> string \<Rightarrow> int \<Rightarrow> 'r limiter \<Rightarrow> nat \<times> 'r limiter" where
  "memory_count t key secs l = (case memory_hit t key secs (memory l) of (c, d) \<Rightarrow> (c, l\<lparr>memory := d\<rparr>))"

definition hit :: "(string \<Rightarrow> int \<Rightarrow> 'r \<Rightarrow> (nat \<times> 'r) option) \<Rightarrow> time \<Rightarrow> time \<Rightarrow> string \<Rightarrow> nat \<Rightarrow> int \<Rightarrow> 'r limiter \<Rightarrow> bool \<times> 'r limiter" where
  "hit incr_expire t wall key limit secs l =
     (case (case redis l of
              Some r \<Rightarrow>
                if redis_retry_at l \<le> t
                then (case incr_expire (bucket key wall secs) (secs + 1) r of
                        Some (c, r') \<Rightarrow> (c, l\<lparr>redis := Some r'\<rparr>)
                      | None \<Rightarrow> memory_count t key secs (l\<lparr>redis_retry_at := t + 30 * 1000000\<rparr>))
                else memory_count t key secs l
            | None \<Rightarrow> memory_count t key secs l) of
        (c, l') \<Rightarrow> (c \<le> limit, l'))"

definition clear :: "string \<Rightarrow> 'r limiter \<Rightarrow> 'r limiter" where
  "clear key l = l\<lparr>memory := memory_reset key (memory l)\<rparr>"

text \<open>The hits of many callers, each with its time and key.\<close>

fun memory_hits :: "int \<Rightarrow> (time \<times> string) list \<Rightarrow> window \<Rightarrow> nat list" where
  "memory_hits secs [] d = []"
| "memory_hits secs ((t, k) # hs) d = (case memory_hit t k secs d of (c, d') \<Rightarrow> c # memory_hits secs hs d')"

text \<open>How many hits of one key are within the limit.\<close>

definition admitted :: "string \<Rightarrow> nat \<Rightarrow> int \<Rightarrow> (time \<times> string) list \<Rightarrow> window \<Rightarrow> nat" where
  "admitted key limit secs hs d =
     length (filter (\<lambda>((t, k), c). k = key \<and> c \<le> limit) (zip hs (memory_hits secs hs d)))"

subsection \<open>The window of one key\<close>

lemma admitted_Nil [simp]: "admitted key limit secs [] d = 0"
  by (simp add: admitted_def)

lemma admitted_Cons:
  "admitted key limit secs ((t, k) # hs) d =
     (if k = key \<and> fst (memory_hit t k secs d) \<le> limit then 1 else 0) +
     admitted key limit secs hs (snd (memory_hit t k secs d))"
  by (auto simp: admitted_def split: prod.splits)

text \<open>Bounding the memory drops only windows that have expired.\<close>

lemma map_of_filter_expired:
  "distinct (map fst d) \<Longrightarrow>
   map_of (filter (\<lambda>(k, c, r). t < r) d) key =
     (case map_of d key of Some (c, r) \<Rightarrow> if t < r then Some (c, r) else None | None \<Rightarrow> None)"
  by (induction d) (auto split: option.splits simp: map_of_eq_None_iff dest: map_of_SomeD intro: rev_image_eqI)

lemma distinct_bound_memory: "distinct (map fst d) \<Longrightarrow> distinct (map fst (bound_memory t d))"
  by (simp add: bound_memory_def distinct_map_filter)

lemma entry_bound_memory:
  "distinct (map fst d) \<Longrightarrow> u \<le> t \<Longrightarrow> window_entry t key secs (bound_memory u d) = window_entry t key secs d"
  by (auto simp: bound_memory_def window_entry_def map_of_filter_expired Let_def split: option.splits)

lemma memory_hit_distinct: "distinct (map fst d) \<Longrightarrow> distinct (map fst (snd (memory_hit t key secs d)))"
  by (simp add: memory_hit_def distinct_bound_memory distinct_dict_set split: prod.splits)

lemma entry_after_hit:
  assumes "distinct (map fst d)" "u \<le> t"
  shows "window_entry t key secs (snd (memory_hit u k secs d)) =
    (if k = key then (case window_entry u key secs d of (c, r) \<Rightarrow> if r \<le> t then (0, t + secs * 1000000) else (Suc c, r))
     else window_entry t key secs d)"
proof -
  obtain c r where e: "window_entry u k secs d = (c, r)" by fastforce
  have "window_entry t key secs (snd (memory_hit u k secs d)) = window_entry t key secs (dict_set d k (Suc c, r))"
    using assms e by (simp add: memory_hit_def entry_bound_memory distinct_dict_set)
  then show ?thesis using e by (auto simp: window_entry_def)
qed

text \<open>
  From a window that ends after all the hits, at most the rest of the limit is admitted; \<open>e\<close> is the
  entry of the key at the time of the next hit.
\<close>

definition later :: "time \<Rightarrow> (time \<times> string) list \<Rightarrow> bool" where
  "later t hs \<longleftrightarrow> sorted (map fst hs) \<and> (\<forall>h \<in> set hs. t \<le> fst h)"

lemma later_Cons: "later t ((u, k) # hs) \<longleftrightarrow> t \<le> u \<and> later u hs"
  by (auto simp: later_def)

lemma admitted_same_window:
  assumes "distinct (map fst d)" "later t hs" "\<And>u. t \<le> u \<Longrightarrow> u < r \<Longrightarrow> window_entry u key secs d = (c, r)"
    and "\<forall>h \<in> set hs. fst h < r"
  shows "admitted key limit secs hs d \<le> limit - c"
  using assms
proof (induction hs arbitrary: d t c)
  case (Cons h hs)
  obtain u k where h: "h = (u, k)" by fastforce
  let ?d = "snd (memory_hit u k secs d)"
  have t: "t \<le> u" "u < r" "later u hs" using Cons.prems(2,4) h by (auto simp: later_Cons)
  have entry: "window_entry v key secs ?d = (if k = key then (Suc c, r) else (c, r))" if "u \<le> v" "v < r" for v
    using entry_after_hit [OF Cons.prems(1) that(1)] Cons.prems(3) t that by auto
  have count: "fst (memory_hit u key secs d) = Suc c"
    using Cons.prems(3) [OF t(1,2)] by (simp add: memory_hit_def)
  have IH: "admitted key limit secs hs ?d \<le> limit - (if k = key then Suc c else c)"
    by (rule Cons.IH [OF memory_hit_distinct [OF Cons.prems(1)] t(3)]) (use entry Cons.prems(4) in auto)
  then show ?case using count by (auto simp: h admitted_Cons)
qed simp

lemma admitted_two_windows:
  assumes "distinct (map fst d)" "later t hs" "\<forall>h \<in> set hs. fst h < T" "T \<le> t + secs * 1000000"
    and "\<And>u. t \<le> u \<Longrightarrow> window_entry u key secs d = (if u < r then (c, r) else (0, u + secs * 1000000))"
  shows "admitted key limit secs hs d \<le> limit + (limit - c)"
  using assms
proof (induction hs arbitrary: d t c)
  case (Cons h hs)
  obtain u k where h: "h = (u, k)" by fastforce
  let ?d = "snd (memory_hit u k secs d)"
  note dist = memory_hit_distinct [OF Cons.prems(1), of u k secs]
  have t: "t \<le> u" "u < T" "later u hs" "T \<le> u + secs * 1000000"
    using Cons.prems(2,3,4) h by (auto simp: later_Cons)
  note after = entry_after_hit [OF Cons.prems(1), of u _ key secs k]
  show ?case
  proof (cases "k = key \<and> r \<le> u")
    case True
    have "window_entry v key secs ?d = (1, u + secs * 1000000)" if "u \<le> v" "v < u + secs * 1000000" for v
      using after [OF that(1)] Cons.prems(5) [OF t(1)] True that by simp
    then have "admitted key limit secs hs ?d \<le> limit - 1"
      by (rule admitted_same_window [OF dist t(3)]) (use Cons.prems(3) t(4) in force)+
    moreover have "fst (memory_hit u key secs d) = 1"
      using Cons.prems(5) [OF t(1)] True by (simp add: memory_hit_def)
    ultimately show ?thesis using True by (auto simp: h admitted_Cons)
  next
    case False
    let ?c = "if k = key then Suc c else c"
    have "window_entry v key secs ?d = (if v < r then (?c, r) else (0, v + secs * 1000000))" if "u \<le> v" for v
      using after [OF that] Cons.prems(5) [OF t(1)] Cons.prems(5) [of v] t(1) that False by auto
    from Cons.IH [OF dist t(3) _ t(4) this]
    have IH: "admitted key limit secs hs ?d \<le> limit + (limit - ?c)" using Cons.prems(3) by simp
    have "k = key \<Longrightarrow> fst (memory_hit u key secs d) = Suc c"
      using Cons.prems(5) [OF t(1)] False by (simp add: memory_hit_def)
    then show ?thesis using IH by (auto simp: h admitted_Cons)
  qed
qed simp

subsection \<open>Properties\<close>



text \<open>
  Degrading to the in-process windows. With Redis configured, an exception of it makes the
  limiter count this hit in its own window, and count there until thirty seconds have passed, without
  a call to Redis: the limiter never admits a hit for lack of Redis.
\<close>

lemma hit_degrades:
  assumes "redis l = Some r" "redis_retry_at l \<le> t" "incr (bucket key wall secs) (secs + 1) r = None"
    and "hit incr t wall key limit secs l = (ok, l')" "t' < t + 30 * 1000000"
  shows "ok = (fst (memory_hit t key secs (memory l)) \<le> limit)"
    and "memory l' = snd (memory_hit t key secs (memory l))"
    and "hit incr' t' wall' key' limit' secs' l' =
      (fst (memory_hit t' key' secs' (memory l')) \<le> limit', l'\<lparr>memory := snd (memory_hit t' key' secs' (memory l'))\<rparr>)"
  using assms by (auto simp: hit_def memory_count_def split: prod.splits)

end
