(* ===== verification/Permissions.thy ===== *)
theory Permissions
  imports Enums
begin

text \<open>Role-based access control (\<open>backend/app/auth/permissions.py\<close>).\<close>

datatype permission =
    ASSETS_READ | ASSETS_WRITE | FINDINGS_READ | FINDINGS_WRITE | FINDINGS_ACCEPT_RISK | EVENTS_READ | EVENTS_ACK
  | SCANS_READ | SCANS_RUN | PROFILES_WRITE | SCHEDULES_WRITE | SCOPE_READ | SCOPE_WRITE | ORGS_READ | ORGS_WRITE
  | REPORTS_READ | REPORTS_CREATE | INTEGRATIONS_READ | INTEGRATIONS_WRITE | CREDENTIALS_WRITE | USERS_READ
  | USERS_WRITE | SETTINGS_WRITE | AUDIT_READ | TENANTS_ADMIN | INTEL_ADMIN

definition all_permissions :: "permission list" where
  "all_permissions =
     [ASSETS_READ, ASSETS_WRITE, FINDINGS_READ, FINDINGS_WRITE, FINDINGS_ACCEPT_RISK, EVENTS_READ, EVENTS_ACK,
      SCANS_READ, SCANS_RUN, PROFILES_WRITE, SCHEDULES_WRITE, SCOPE_READ, SCOPE_WRITE, ORGS_READ, ORGS_WRITE,
      REPORTS_READ, REPORTS_CREATE, INTEGRATIONS_READ, INTEGRATIONS_WRITE, CREDENTIALS_WRITE, USERS_READ,
      USERS_WRITE, SETTINGS_WRITE, AUDIT_READ, TENANTS_ADMIN, INTEL_ADMIN]"

definition VIEWER_PERMISSIONS :: "permission list" where
  "VIEWER_PERMISSIONS = [ASSETS_READ, FINDINGS_READ, EVENTS_READ, SCANS_READ, SCOPE_READ, ORGS_READ, REPORTS_READ]"

definition ANALYST_PERMISSIONS :: "permission list" where
  "ANALYST_PERMISSIONS = VIEWER_PERMISSIONS @
     [ASSETS_WRITE, FINDINGS_WRITE, EVENTS_ACK, SCANS_RUN, REPORTS_CREATE, INTEGRATIONS_READ, USERS_READ]"

definition TENANT_ADMIN_PERMISSIONS :: "permission list" where
  "TENANT_ADMIN_PERMISSIONS = ANALYST_PERMISSIONS @
     [FINDINGS_ACCEPT_RISK, PROFILES_WRITE, SCHEDULES_WRITE, SCOPE_WRITE, ORGS_WRITE, INTEGRATIONS_WRITE,
      CREDENTIALS_WRITE, USERS_WRITE, SETTINGS_WRITE, AUDIT_READ]"

fun permissions_for :: "role \<Rightarrow> permission list" where
  "permissions_for role.VIEWER = VIEWER_PERMISSIONS"
| "permissions_for role.SECURITY_ANALYST = ANALYST_PERMISSIONS"
| "permissions_for role.TENANT_ADMIN = TENANT_ADMIN_PERMISSIONS"
| "permissions_for role.PLATFORM_ADMIN = all_permissions"

fun ROLE_RANK :: "role \<Rightarrow> int" where
  "ROLE_RANK role.VIEWER = 0"
| "ROLE_RANK role.SECURITY_ANALYST = 1"
| "ROLE_RANK role.TENANT_ADMIN = 2"
| "ROLE_RANK role.PLATFORM_ADMIN = 3"

definition can_assign :: "role \<Rightarrow> role \<Rightarrow> bool" where
  "can_assign actor target = (if target = role.PLATFORM_ADMIN then False else ROLE_RANK target \<le> ROLE_RANK actor)"

lemma set_all_permissions: "set all_permissions = UNIV"
proof -
  have "p \<in> set all_permissions" for p by (cases p) (simp_all add: all_permissions_def)
  then show ?thesis by blast
qed

lemma permissions_mono: "ROLE_RANK r \<le> ROLE_RANK s \<Longrightarrow> set (permissions_for r) \<subseteq> set (permissions_for s)"
  by (cases r; cases s)
    (auto simp: VIEWER_PERMISSIONS_def ANALYST_PERMISSIONS_def TENANT_ADMIN_PERMISSIONS_def set_all_permissions)

text \<open>
  C17: no escalation through role assignment. Whoever may assign a role already has every permission
  of it, whoever may assign it may assign every weaker role too, and nobody may assign the platform
  administrator, the only role with the platform permissions.
\<close>

theorem can_assign_no_escalation:
  assumes "can_assign actor target"
  shows "set (permissions_for target) \<subseteq> set (permissions_for actor) \<and>
    TENANTS_ADMIN \<notin> set (permissions_for target) \<and> INTEL_ADMIN \<notin> set (permissions_for target) \<and>
    (ROLE_RANK weaker \<le> ROLE_RANK target \<longrightarrow> can_assign actor weaker)"
proof -
  have r: "target \<noteq> role.PLATFORM_ADMIN" "ROLE_RANK target \<le> ROLE_RANK actor"
    using assms by (auto simp: can_assign_def split: if_splits)
  have "TENANTS_ADMIN \<notin> set (permissions_for target) \<and> INTEL_ADMIN \<notin> set (permissions_for target)"
    using r(1)
    by (cases target) (simp_all add: VIEWER_PERMISSIONS_def ANALYST_PERMISSIONS_def TENANT_ADMIN_PERMISSIONS_def)
  moreover have "can_assign actor weaker" if "ROLE_RANK weaker \<le> ROLE_RANK target"
    using that r by (cases weaker; cases target) (auto simp: can_assign_def)
  ultimately show ?thesis using permissions_mono [OF r(2)] by blast
qed

theorem can_assign_no_escalation_witness:
  "can_assign role.TENANT_ADMIN role.SECURITY_ANALYST \<and>
   set (permissions_for role.SECURITY_ANALYST) \<subseteq> set (permissions_for role.TENANT_ADMIN)"
proof -
  have "can_assign role.TENANT_ADMIN role.SECURITY_ANALYST" by (simp add: can_assign_def)
  with can_assign_no_escalation [OF this] show ?thesis by blast
qed

end
