(* ===== verification/Core.thy ===== *)
theory Core
  imports Prelude
begin

text \<open>
  What every service shares: the exceptions of \<open>backend/app/core/errors.py\<close>, the request context
  of \<open>backend/app/core/context.py\<close>, and how a table and a transaction appear in the model. A table is the
  list of its rows in the order they were inserted. A service function takes the committed database
  and gives the committed database afterwards with its result: changes that are not committed when
  an exception leaves the function are rolled back.
\<close>

datatype app_error =
    NotFound string
  | Forbidden string string
  | Unauthorized string
  | Conflict string
  | ValidationFailed string
  | QuotaExceeded string
  | RateLimited string
  | ScopeViolation string

fun status_code :: "app_error \<Rightarrow> int" where
  "status_code (NotFound _) = 404"
| "status_code (Forbidden _ _) = 403"
| "status_code (Unauthorized _) = 401"
| "status_code (Conflict _) = 409"
| "status_code (ValidationFailed _) = 422"
| "status_code (QuotaExceeded _) = 429"
| "status_code (RateLimited _) = 429"
| "status_code (ScopeViolation _) = 422"

text \<open>\<open>Forbidden\<close> with its default code; the other codes are those of the class.\<close>

definition forbidden :: "string \<Rightarrow> app_error" where
  "forbidden msg = Forbidden msg ''forbidden''"

fun error_code :: "app_error \<Rightarrow> string" where
  "error_code (NotFound _) = ''not_found''"
| "error_code (Forbidden _ c) = c"
| "error_code (Unauthorized _) = ''unauthorized''"
| "error_code (Conflict _) = ''conflict''"
| "error_code (ValidationFailed _) = ''validation_failed''"
| "error_code (QuotaExceeded _) = ''quota_exceeded''"
| "error_code (RateLimited _) = ''rate_limited''"
| "error_code (ScopeViolation _) = ''out_of_scope''"

record request_context =
  request_id :: string
  ctx_ip :: "string option"
  ctx_user_agent :: "string option"
  ctx_user_id :: "uuid option"
  ctx_actor :: "string option"
  ctx_tenant_id :: "uuid option"

definition no_context :: request_context where
  "no_context = \<lparr>request_id = [], ctx_ip = None, ctx_user_agent = None, ctx_user_id = None, ctx_actor = None,
     ctx_tenant_id = None\<rparr>"

definition minutes :: "int \<Rightarrow> time" where
  "minutes n = n * 60000000"

definition days :: "int \<Rightarrow> time" where
  "days n = n * 86400000000"

subsection \<open>Tables\<close>

definition update_where :: "('a \<Rightarrow> bool) \<Rightarrow> ('a \<Rightarrow> 'a) \<Rightarrow> 'a list \<Rightarrow> 'a list" where
  "update_where P f xs = map (\<lambda>x. if P x then f x else x) xs"

lemma length_update_where [simp]: "length (update_where P f xs) = length xs"
  by (simp add: update_where_def)

lemma set_update_where: "set (update_where P f xs) = (\<lambda>x. if P x then f x else x) ` set xs"
  by (simp add: update_where_def)

lemma update_where_nth: "i < length xs \<Longrightarrow> update_where P f xs ! i = (if P (xs ! i) then f (xs ! i) else xs ! i)"
  by (simp add: update_where_def)

lemma map_update_where: "(\<And>x. P x \<Longrightarrow> g (f x) = g x) \<Longrightarrow> map g (update_where P f xs) = map g xs"
  by (simp add: update_where_def)

lemma find_update_where_other:
  "(\<And>x. P x \<Longrightarrow> \<not> Q x \<and> \<not> Q (f x)) \<Longrightarrow> find Q (update_where P f xs) = find Q xs"
  by (induction xs) (auto simp: update_where_def)

lemma find_update_where_same:
  assumes "\<And>x. P x \<Longrightarrow> Q (f x) = Q x" "\<And>x. Q x \<Longrightarrow> P x"
  shows "find Q (update_where P f xs) = map_option f (find Q xs)"
proof (induction xs)
  case (Cons x xs)
  have "Q (if P x then f x else x) = Q x" using assms(1) [of x] by simp
  then show ?case using Cons assms(2) [of x] by (cases "Q x") (simp_all add: update_where_def)
qed (simp add: update_where_def)

lemma find_Some_D: "find P xs = Some x \<Longrightarrow> x \<in> set xs \<and> P x"
  by (auto simp: find_Some_iff)

lemma find_unique:
  assumes "x \<in> set xs" "P x" "\<And>y. y \<in> set xs \<Longrightarrow> P y \<Longrightarrow> y = x"
  shows "find P xs = Some x"
proof (cases "find P xs")
  case None
  then show ?thesis using assms(1,2) by (auto simp: find_None_iff)
next
  case (Some y)
  then show ?thesis using assms(3) find_Some_D [OF Some] by simp
qed

text \<open>Writing back changed rows one by one changes exactly those rows.\<close>

lemma update_where_key:
  assumes "distinct (map k T)" "r \<in> set T"
  shows "update_where (\<lambda>x. k x = k r) (\<lambda>_. v) T = map (\<lambda>x. if x = r then v else x) T"
  using assms by (auto simp: update_where_def distinct_map inj_on_def)

lemma foldl_write:
  assumes "distinct (map k T)" "set rows \<subseteq> set T" "distinct rows" "\<And>r. k (h r) = k r"
  shows "foldl (\<lambda>T r. update_where (\<lambda>x. k x = k r) (\<lambda>_. h r) T) T rows = map (\<lambda>x. if x \<in> set rows then h x else x) T"
  using assms(1-3)
proof (induction rows arbitrary: T)
  case (Cons r rows)
  let ?T = "map (\<lambda>x. if x = r then h r else x) T"
  have T: "update_where (\<lambda>x. k x = k r) (\<lambda>_. h r) T = ?T" using Cons.prems by (intro update_where_key) auto
  have "map k ?T = map k T" using assms(4) by simp
  then have d: "distinct (map k ?T)" using Cons.prems(1) by (simp only:)
  have sub: "set rows \<subseteq> set ?T"
  proof
    fix x assume "x \<in> set rows"
    then have "x \<in> set T" "x \<noteq> r" using Cons.prems by auto
    then show "x \<in> set ?T" by force
  qed
  have "h r \<notin> set rows"
  proof
    assume h: "h r \<in> set rows"
    then have "h r \<in> set T" "r \<in> set T" "k (h r) = k r" using Cons.prems assms(4) by auto
    then have "h r = r" using Cons.prems(1) by (auto simp: distinct_map inj_on_def)
    then show False using h Cons.prems(3) by simp
  qed
  then have "map (\<lambda>x. if x \<in> set rows then h x else x) ?T = map (\<lambda>x. if x \<in> set (r # rows) then h x else x) T"
    by auto
  then show ?case using Cons.IH [OF d sub] Cons.prems(3) T by simp
qed simp

end
