(* ===== verification/Json.thy ===== *)
theory Json
  imports Prelude "HOL-Library.Char_ord" "HOL-Library.List_Lexorder"
begin

text \<open>
  The parts of the standard library that the audit log and the job protocol write text with: \<open>json.dumps\<close> with
  sorted keys and compact separators, \<open>str\<close> of a UUID and \<open>isoformat\<close> of a UTC time, and the
  redaction of secrets (\<open>redact\<close> of \<open>backend/app/core/logging.py\<close>).
\<close>

subsection \<open>JSON values\<close>

text \<open>A number with a fraction is kept as the text that \<open>repr\<close> gives it.\<close>

datatype json =
    JNull
  | JBool bool
  | JInt int
  | JFloat string
  | JStr string
  | JList "json list"
  | JObj "(string, json) dict"

text \<open>
  Reading a value as the code does: \<open>d.get(k)\<close>, the truth value, a text, a list of texts. A value of
  another type than the code expects reads as missing.
\<close>

type_synonym attrs = "(string, json) dict"

definition jget :: "attrs \<Rightarrow> string \<Rightarrow> json" where
  "jget d k = (case map_of d k of Some v \<Rightarrow> v | None \<Rightarrow> JNull)"

fun jtruthy :: "json \<Rightarrow> bool" where
  "jtruthy JNull \<longleftrightarrow> False"
| "jtruthy (JBool b) \<longleftrightarrow> b"
| "jtruthy (JInt i) \<longleftrightarrow> i \<noteq> 0"
| "jtruthy (JFloat r) \<longleftrightarrow> r \<notin> {''0.0'', ''-0.0''}"
| "jtruthy (JStr s) \<longleftrightarrow> s \<noteq> []"
| "jtruthy (JList xs) \<longleftrightarrow> xs \<noteq> []"
| "jtruthy (JObj d) \<longleftrightarrow> d \<noteq> []"

fun jstr :: "json \<Rightarrow> string option" where
  "jstr (JStr s) = Some s"
| "jstr _ = None"

fun jlist :: "json \<Rightarrow> json list" where
  "jlist (JList xs) = xs"
| "jlist _ = []"

fun jobj :: "json \<Rightarrow> attrs" where
  "jobj (JObj d) = d"
| "jobj _ = []"

definition jstrs :: "json \<Rightarrow> string list" where
  "jstrs v = List.map_filter jstr (jlist v)"

fun jint :: "json \<Rightarrow> int option" where
  "jint (JInt i) = Some i"
| "jint _ = None"

definition jor :: "json \<Rightarrow> json \<Rightarrow> json" where
  "jor a b = (if jtruthy a then a else b)"

subsection \<open>Writing JSON\<close>

text \<open>The code points of a UTF-8 text.\<close>

definition continuation :: "nat \<Rightarrow> string \<Rightarrow> nat \<Rightarrow> nat" where
  "continuation k cs n = foldl (\<lambda>acc c. acc * 64 + code c mod 64) n (take k cs)"

definition utf8_point :: "nat \<Rightarrow> string \<Rightarrow> nat \<times> nat" where
  "utf8_point n cs =
     (if n < 0x80 then (n, 0)
      else if n < 0xE0 then (continuation 1 cs (n mod 0x20), 1)
      else if n < 0xF0 then (continuation 2 cs (n mod 0x10), 2)
      else (continuation 3 cs (n mod 0x08), 3))"

fun utf8_points :: "string \<Rightarrow> nat list" where
  "utf8_points [] = []"
| "utf8_points (c # cs) = fst (utf8_point (code c) cs) # utf8_points (drop (snd (utf8_point (code c) cs)) cs)"

definition hex4 :: "nat \<Rightarrow> string" where
  "hex4 n = (let h = show_hex n in replicate (4 - length h) (CHR ''0'') @ h)"

definition json_escape :: "nat \<Rightarrow> string" where
  "json_escape n =
     (if n = 0x22 then [CHR 0x5C, CHR 0x22]
      else if n = 0x5C then [CHR 0x5C, CHR 0x5C]
      else if n = 0x0A then [CHR 0x5C, CHR ''n'']
      else if n = 0x0D then [CHR 0x5C, CHR ''r'']
      else if n = 0x09 then [CHR 0x5C, CHR ''t'']
      else if n = 0x0C then [CHR 0x5C, CHR ''f'']
      else if n = 0x08 then [CHR 0x5C, CHR ''b'']
      else if 0x20 \<le> n \<and> n \<le> 0x7E then [char_of n]
      else if n < 0x10000 then [CHR 0x5C, CHR ''u''] @ hex4 n
      else (let m = n - 0x10000 in
            [CHR 0x5C, CHR ''u''] @ hex4 (0xD800 + m div 0x400) @
            [CHR 0x5C, CHR ''u''] @ hex4 (0xDC00 + m mod 0x400)))"

definition json_string :: "string \<Rightarrow> string" where
  "json_string s = [CHR 0x22] @ concat (map json_escape (utf8_points s)) @ [CHR 0x22]"

fun dumps :: "json \<Rightarrow> string" where
  "dumps JNull = ''null''"
| "dumps (JBool b) = (if b then ''true'' else ''false'')"
| "dumps (JInt i) = show_int i"
| "dumps (JFloat r) = r"
| "dumps (JStr s) = json_string s"
| "dumps (JList xs) = ''['' @ join '','' (map dumps xs) @ '']''"
| "dumps (JObj kvs) =
     ''{'' @ join '','' (map (\<lambda>(k, t). json_string k @ '':'' @ t) (sort_key fst (map (\<lambda>(k, v). (k, dumps v)) kvs))) @ ''}''"

text \<open>Writing with sorted keys and reading back: the same value with the keys in order.\<close>

text \<open>
  \<open>str(v)\<close> as an f-string fills it in. The code only formats texts, numbers, booleans and \<open>None\<close>; a
  list or an object is written here as its JSON text.
\<close>

fun jtext :: "json \<Rightarrow> string" where
  "jtext JNull = ''None''"
| "jtext (JBool b) = (if b then ''True'' else ''False'')"
| "jtext (JInt i) = show_int i"
| "jtext (JFloat r) = r"
| "jtext (JStr s) = s"
| "jtext v = dumps v"

fun sort_keys :: "json \<Rightarrow> json" where
  "sort_keys (JList xs) = JList (map sort_keys xs)"
| "sort_keys (JObj kvs) = JObj (sort_key fst (map (\<lambda>(k, v). (k, sort_keys v)) kvs))"
| "sort_keys v = v"

subsection \<open>Identifiers and times as text\<close>

definition pad0 :: "nat \<Rightarrow> string \<Rightarrow> string" where
  "pad0 n s = replicate (n - length s) (CHR ''0'') @ s"

definition uuid_str :: "uuid \<Rightarrow> string" where
  "uuid_str u =
     (let h = pad0 32 (show_hex u) in
      take 8 h @ ''-'' @ take 4 (drop 8 h) @ ''-'' @ take 4 (drop 12 h) @ ''-'' @ take 4 (drop 16 h) @ ''-'' @ drop 20 h)"

text \<open>Year, month and day of a number of days since 1970-01-01, in the Gregorian calendar.\<close>

definition civil_from_days :: "int \<Rightarrow> int \<times> int \<times> int" where
  "civil_from_days days =
     (let z = days + 719468;
          era = z div 146097;
          doe = z mod 146097;
          yoe = (doe - doe div 1460 + doe div 36524 - doe div 146096) div 365;
          doy = doe - (365 * yoe + yoe div 4 - yoe div 100);
          mp = (5 * doy + 2) div 153;
          d = doy - (153 * mp + 2) div 5 + 1;
          m = (if mp < 10 then mp + 3 else mp - 9)
      in (yoe + era * 400 + (if m \<le> 2 then 1 else 0), m, d))"

definition pad_int :: "nat \<Rightarrow> int \<Rightarrow> string" where
  "pad_int n i = pad0 n (show_nat (nat i))"

definition isoformat :: "time \<Rightarrow> string" where
  "isoformat t =
     (let days = t div 86400000000; us = t mod 86400000000; secs = us div 1000000; frac = us mod 1000000 in
      case civil_from_days days of (y, m, d) \<Rightarrow>
        pad_int 4 y @ ''-'' @ pad_int 2 m @ ''-'' @ pad_int 2 d @ ''T'' @
        pad_int 2 (secs div 3600) @ '':'' @ pad_int 2 (secs div 60 mod 60) @ '':'' @ pad_int 2 (secs mod 60) @
        (if frac = 0 then [] else ''.'' @ pad_int 6 frac) @ ''+00:00'')"

subsection \<open>Redaction of secrets\<close>

definition SENSITIVE_KEYS :: "string \<Rightarrow> bool" where
  "SENSITIVE_KEYS k \<longleftrightarrow>
     list_ex (contains (lower k))
       [''password'', ''secret'', ''token'', ''authorization'', ''apikey'', ''api_key'', ''api-key'',
        ''cookie'', ''credential'']"

text \<open>
  The first match of a pattern at the start of a text, as the lengths of the part that is kept and
  of the part that is masked. The classes that follow each other are disjoint, so the greedy match
  is the only one.
\<close>

definition bearer_char :: "char \<Rightarrow> bool" where
  "bearer_char c \<longleftrightarrow> islower c \<or> isupper c \<or> isdigit c \<or> c \<in> set ''-._~+/''"

definition match_BEARER :: "string \<Rightarrow> (nat \<times> nat) option" where
  "match_BEARER s =
     (if \<not> startswith (lower s) ''bearer'' then None
      else (let r = drop 6 s; ws = takeWhile isspace r; r' = drop (length ws) r;
                tok = takeWhile bearer_char r'; eqs = takeWhile ((=) (CHR ''='')) (drop (length tok) r')
            in if ws = [] \<or> tok = [] then None else Some (6 + length ws, length tok + length eqs)))"

definition kv_word :: "string \<Rightarrow> nat option" where
  "kv_word s =
     map_option length (find (startswith (lower s)) [''password'', ''secret'', ''token'', ''api_key'', ''api-key'', ''apikey''])"

definition match_KV :: "string \<Rightarrow> (nat \<times> nat) option" where
  "match_KV s =
     (case kv_word s of
        None \<Rightarrow> None
      | Some n \<Rightarrow>
          (let r = drop n s; ws = takeWhile isspace r; r1 = drop (length ws) r in
           if r1 = [] \<or> hd r1 \<notin> set ''=:'' then None
           else (let ws' = takeWhile isspace (tl r1);
                     v = takeWhile (\<lambda>c. \<not> isspace c \<and> c \<notin> set '',;&'') (drop (length ws') (tl r1))
                 in if v = [] then None else Some (n + length ws + 1 + length ws', length v))))"

text \<open>\<open>Pattern.sub\<close>: every match, from the left, without overlap.\<close>

function sub_masked :: "(string \<Rightarrow> (nat \<times> nat) option) \<Rightarrow> string \<Rightarrow> string" where
  "sub_masked m [] = []"
| "sub_masked m (c # cs) =
     (case m (c # cs) of
        Some (keep, drp) \<Rightarrow>
          (if keep + drp = 0 then c # sub_masked m cs
           else take keep (c # cs) @ ''***'' @ sub_masked m (drop (keep + drp) (c # cs)))
      | None \<Rightarrow> c # sub_masked m cs)"
  by pat_completeness auto
termination
  by (relation "measure (\<lambda>(m, s). length s)") auto

definition redact_text :: "string \<Rightarrow> string" where
  "redact_text s = sub_masked match_KV (sub_masked match_BEARER s)"

fun redact :: "json \<Rightarrow> json" where
  "redact (JObj kvs) = JObj (map (\<lambda>(k, v). (k, if SENSITIVE_KEYS k then JStr ''***'' else redact v)) kvs)"
| "redact (JList xs) = JList (map redact xs)"
| "redact (JStr s) = JStr (redact_text s)"
| "redact v = v"

text \<open>No value under a sensitive key is left, at any depth.\<close>

fun masked :: "json \<Rightarrow> bool" where
  "masked (JObj kvs) = list_all (\<lambda>(k, v). (SENSITIVE_KEYS k \<longrightarrow> v = JStr ''***'') \<and> masked v) kvs"
| "masked (JList xs) = list_all masked xs"
| "masked v = True"

lemma masked_redact: "masked (redact v)"
  by (induction v rule: redact.induct) (auto simp: list_all_iff)

lemma masked_sort_keys: "masked v \<Longrightarrow> masked (sort_keys v)"
  by (induction v rule: sort_keys.induct) (auto simp: list_all_iff)

end
