(* ===== verification/AuditLog.thy ===== *)
theory AuditLog
  imports Core Json
begin

text \<open>
  The append-only, hash-chained audit log (\<open>backend/app/services/audit.py\<close>): writing an entry,
  checking a chain, and the differences of two snapshots. \<open>sha256\<close> is a parameter. The advisory lock
  makes writing an entry atomic.
\<close>

record audit_row =
  row_id :: int
  chain_seq :: int
  row_tenant :: "uuid option"
  row_user :: "uuid option"
  row_actor :: "string option"
  row_action :: string
  row_object_type :: "string option"
  row_object_id :: "string option"
  row_previous :: json
  row_new :: json
  row_ip :: "string option"
  row_user_agent :: "string option"
  row_request_id :: string
  row_success :: bool
  row_created_at :: time
  prev_hash :: "string option"
  row_hash :: string

definition jsonable :: "json \<Rightarrow> json" where
  "jsonable v = (case v of JNull \<Rightarrow> JNull | _ \<Rightarrow> sort_keys (redact v))"

definition jopt :: "string option \<Rightarrow> json" where
  "jopt v = (case v of Some s \<Rightarrow> JStr s | None \<Rightarrow> JNull)"

definition row_payload :: "audit_row \<Rightarrow> json" where
  "row_payload r = JObj [
     (''tenant_id'', jopt (map_option uuid_str (row_tenant r))),
     (''user_id'', jopt (map_option uuid_str (row_user r))),
     (''actor'', jopt (row_actor r)),
     (''action'', JStr (row_action r)),
     (''object_type'', jopt (row_object_type r)),
     (''object_id'', jopt (row_object_id r)),
     (''previous'', row_previous r),
     (''new'', row_new r),
     (''ip'', jopt (row_ip r)),
     (''success'', JBool (row_success r)),
     (''created_at'', JStr (isoformat (row_created_at r)))]"

definition digest_text :: "string option \<Rightarrow> json \<Rightarrow> string" where
  "digest_text prev v = (case prev of Some p \<Rightarrow> p | None \<Rightarrow> []) @ dumps v"

definition digest :: "(string \<Rightarrow> string) \<Rightarrow> string option \<Rightarrow> json \<Rightarrow> string" where
  "digest sha256 prev v = sha256 (digest_text prev v)"

text \<open>The keyword arguments of \<open>record\<close>, with their defaults.\<close>

record audit_args =
  a_action :: string
  a_tenant :: "uuid option"
  a_user :: "uuid option"
  a_actor :: "string option"
  a_object_type :: "string option"
  a_object_id :: "string option"
  a_previous :: json
  a_new :: json
  a_success :: bool
  a_platform :: bool

definition audit_args :: "string \<Rightarrow> audit_args" where
  "audit_args action = \<lparr>a_action = action, a_tenant = None, a_user = None, a_actor = None, a_object_type = None,
     a_object_id = None, a_previous = JNull, a_new = JNull, a_success = True, a_platform = False\<rparr>"

definition or_else :: "string option \<Rightarrow> string option \<Rightarrow> string option" where
  "or_else x y = (case x of Some s \<Rightarrow> if s = [] then y else x | None \<Rightarrow> y)"

definition cut_agent :: "string option \<Rightarrow> string option" where
  "cut_agent a = (case a of Some s \<Rightarrow> if take 512 s = [] then None else Some (take 512 s) | None \<Rightarrow> None)"

definition chain_tenant :: "request_context \<Rightarrow> audit_args \<Rightarrow> uuid option" where
  "chain_tenant ctx a =
     (if a_platform a then None else (case a_tenant a of Some t \<Rightarrow> Some t | None \<Rightarrow> ctx_tenant_id ctx))"

definition chain_rows :: "uuid option \<Rightarrow> audit_row list \<Rightarrow> audit_row list" where
  "chain_rows t log = filter (\<lambda>r. row_tenant r = t) log"

definition last_link :: "audit_row list \<Rightarrow> string option \<times> int" where
  "last_link rows = (if rows = [] then (None, 0) else (Some (row_hash (last rows)), chain_seq (last rows)))"

definition new_entry :: "(string \<Rightarrow> string) \<Rightarrow> request_context \<Rightarrow> time \<Rightarrow> audit_args \<Rightarrow> audit_row list \<Rightarrow> audit_row" where
  "new_entry sha256 ctx t a log =
     (let tenant = chain_tenant ctx a; (ph, ps) = last_link (chain_rows tenant log);
          entry = \<lparr>row_id = (if log = [] then 1 else row_id (last log) + 1), chain_seq = ps + 1, row_tenant = tenant,
            row_user = (case a_user a of Some u \<Rightarrow> Some u | None \<Rightarrow> ctx_user_id ctx),
            row_actor = or_else (a_actor a) (ctx_actor ctx), row_action = a_action a,
            row_object_type = a_object_type a, row_object_id = a_object_id a,
            row_previous = jsonable (a_previous a), row_new = jsonable (a_new a), row_ip = ctx_ip ctx,
            row_user_agent = cut_agent (ctx_user_agent ctx), row_request_id = request_id ctx,
            row_success = a_success a, row_created_at = t, prev_hash = ph, row_hash = []\<rparr>
      in entry\<lparr>row_hash := digest sha256 ph (row_payload entry)\<rparr>)"

definition record_entry :: "(string \<Rightarrow> string) \<Rightarrow> request_context \<Rightarrow> time \<Rightarrow> audit_args \<Rightarrow> audit_row list \<Rightarrow> audit_row list" where
  "record_entry sha256 ctx t a log = log @ [new_entry sha256 ctx t a log]"

subsection \<open>Checking a chain\<close>

datatype chain_fault = SequenceGap int int | BrokenLink | ContentMismatch

record chain_report =
  intact :: bool
  entries :: int
  first_bad_id :: "int option"
  first_bad_seq :: "int option"
  fault :: "chain_fault option"

definition row_fault :: "(string \<Rightarrow> string) \<Rightarrow> string option \<Rightarrow> int \<Rightarrow> audit_row \<Rightarrow> chain_fault option" where
  "row_fault sha256 prev expected r =
     (if chain_seq r \<noteq> expected then Some (SequenceGap expected (chain_seq r))
      else if prev_hash r \<noteq> prev then Some BrokenLink
      else if digest sha256 prev (row_payload r) \<noteq> row_hash r then Some ContentMismatch
      else None)"

fun check_rows :: "(string \<Rightarrow> string) \<Rightarrow> string option \<Rightarrow> int \<Rightarrow> audit_row list \<Rightarrow> chain_report" where
  "check_rows sha256 prev expected [] =
     \<lparr>intact = True, entries = expected - 1, first_bad_id = None, first_bad_seq = None, fault = None\<rparr>"
| "check_rows sha256 prev expected (r # rs) =
     (case row_fault sha256 prev expected r of
        Some f \<Rightarrow> \<lparr>intact = False, entries = expected - 1, first_bad_id = Some (row_id r),
                   first_bad_seq = Some (chain_seq r), fault = Some f\<rparr>
      | None \<Rightarrow> check_rows sha256 (Some (row_hash r)) (expected + 1) rs)"

definition check_chain :: "(string \<Rightarrow> string) \<Rightarrow> uuid option \<Rightarrow> audit_row list \<Rightarrow> chain_report" where
  "check_chain sha256 t log = check_rows sha256 None 1 (chain_rows t log)"

definition verify_chain :: "(string \<Rightarrow> string) \<Rightarrow> uuid option \<Rightarrow> audit_row list \<Rightarrow> bool \<times> int option" where
  "verify_chain sha256 t log = (let r = check_chain sha256 t log in (intact r, first_bad_id r))"

text \<open>The changed keys of two snapshots, with their values before and after; a missing key is \<open>None\<close>.\<close>

definition dict_get :: "(string, json) dict \<Rightarrow> string \<Rightarrow> json" where
  "dict_get d k = (case map_of d k of Some v \<Rightarrow> v | None \<Rightarrow> JNull)"

definition diff_keys :: "(string, json) dict \<Rightarrow> (string, json) dict \<Rightarrow> string list" where
  "diff_keys a b = filter (\<lambda>k. dict_get a k \<noteq> dict_get b k) (remdups (map fst a @ map fst b))"

definition diff :: "(string, json) dict \<Rightarrow> (string, json) dict \<Rightarrow> (string, json) dict \<times> (string, json) dict" where
  "diff a b = (map (\<lambda>k. (k, dict_get a k)) (diff_keys a b), map (\<lambda>k. (k, dict_get b k)) (diff_keys a b))"

subsection \<open>Intact chains\<close>

lemma row_payload_hash [simp]: "row_payload (r\<lparr>row_hash := h\<rparr>) = row_payload r"
  by (simp add: row_payload_def)

text \<open>The links of an intact chain, seen from its end.\<close>

fun linked :: "(string \<Rightarrow> string) \<Rightarrow> audit_row list \<Rightarrow> bool" where
  "linked sha256 [] \<longleftrightarrow> True"
| "linked sha256 (r # rs) \<longleftrightarrow>
     linked sha256 rs \<and> row_fault sha256 (fst (last_link (rev rs))) (int (length rs) + 1) r = None"

lemma check_rows_append:
  "check_rows sha256 p e (rs @ [r]) =
     (if \<not> intact (check_rows sha256 p e rs) then check_rows sha256 p e rs
      else check_rows sha256 (if rs = [] then p else Some (row_hash (last rs))) (e + int (length rs)) [r])"
  by (induction rs arbitrary: p e) (auto split: option.splits simp: algebra_simps)

lemma entries_intact: "intact (check_rows sha256 p e rs) \<Longrightarrow> entries (check_rows sha256 p e rs) = e - 1 + int (length rs)"
  by (induction rs arbitrary: p e) (auto split: option.splits)

lemma intact_linked: "intact (check_rows sha256 None 1 rs) \<longleftrightarrow> linked sha256 (rev rs)"
proof (induction rs rule: rev_induct)
  case (snoc r rs)
  then show ?case
    by (auto simp: check_rows_append last_link_def add.commute split: option.splits)
qed simp

lemma linked_seq: "linked sha256 rs \<Longrightarrow> snd (last_link (rev rs)) = int (length rs)"
  by (cases rs) (auto simp: last_link_def row_fault_def split: if_splits)

lemma linked_new_entry:
  assumes "linked sha256 (rev (chain_rows (chain_tenant ctx a) log))"
  shows "linked sha256 (rev (chain_rows (chain_tenant ctx a) (record_entry sha256 ctx t a log)))"
proof -
  let ?c = "chain_rows (chain_tenant ctx a) log"
  have "chain_rows (chain_tenant ctx a) (record_entry sha256 ctx t a log) = ?c @ [new_entry sha256 ctx t a log]"
    by (simp add: record_entry_def chain_rows_def new_entry_def Let_def split: prod.splits)
  moreover have "row_fault sha256 (fst (last_link ?c)) (int (length ?c) + 1) (new_entry sha256 ctx t a log) = None"
    using linked_seq [OF assms] by (auto simp: row_fault_def new_entry_def Let_def row_payload_def split: prod.splits)
  ultimately show ?thesis using assms by simp
qed

lemma chain_rows_other:
  "t' \<noteq> chain_tenant ctx a \<Longrightarrow> chain_rows t' (record_entry sha256 ctx t a log) = chain_rows t' log"
  by (auto simp: chain_rows_def record_entry_def new_entry_def Let_def split: prod.splits)

definition chains_intact :: "(string \<Rightarrow> string) \<Rightarrow> audit_row list \<Rightarrow> bool" where
  "chains_intact sha256 log \<longleftrightarrow> (\<forall>t. intact (check_chain sha256 t log))"

lemma chains_intact_Nil: "chains_intact sha256 []"
  by (simp add: chains_intact_def check_chain_def chain_rows_def)

lemma chains_intact_record:
  assumes "chains_intact sha256 log"
  shows "chains_intact sha256 (record_entry sha256 ctx t a log)"
  unfolding chains_intact_def
proof
  fix t'
  show "intact (check_chain sha256 t' (record_entry sha256 ctx t a log))"
    using assms linked_new_entry [of sha256 ctx a log t]
    by (cases "t' = chain_tenant ctx a")
      (auto simp: chains_intact_def check_chain_def intact_linked chain_rows_other)
qed

lemma last_link_hash:
  assumes "linked sha256 rs" "rs \<noteq> []"
  shows "\<exists>x. fst (last_link (rev rs)) = Some (sha256 x)"
proof -
  obtain r rs' where "rs = r # rs'" using assms(2) by (cases rs) auto
  then show ?thesis
    using assms(1) by (auto simp: last_link_def row_fault_def digest_def split: if_splits) metis+
qed

text \<open>The texts a chain has hashed, and a collision between the texts of two chains.\<close>

definition hashed :: "audit_row list \<Rightarrow> string list" where
  "hashed rs = map (\<lambda>r. digest_text (prev_hash r) (row_payload r)) rs"

definition collision :: "(string \<Rightarrow> string) \<Rightarrow> string list \<Rightarrow> string list \<Rightarrow> bool" where
  "collision h xs ys \<longleftrightarrow> list_ex (\<lambda>x. list_ex (\<lambda>y. x \<noteq> y \<and> h x = h y) ys) xs"

lemma linked_same_content:
  assumes "\<And>x. length (sha256 x) = 64" "\<not> collision sha256 (hashed xs) (hashed ys)"
    and "linked sha256 xs" "linked sha256 ys" "length xs = length ys" "last_link (rev xs) = last_link (rev ys)"
  shows "map (dumps \<circ> row_payload) xs = map (dumps \<circ> row_payload) ys"
  using assms(5,2,3,4,6)
proof (induction xs ys rule: list_induct2)
  case (Cons x xs y ys)
  let ?p = "fst (last_link (rev xs))" and ?q = "fst (last_link (rev ys))"
  have hx: "row_hash x = sha256 (digest_text ?p (row_payload x))" "prev_hash x = ?p"
    and hy: "row_hash y = sha256 (digest_text ?q (row_payload y))" "prev_hash y = ?q"
    using Cons.prems(2,3) by (auto simp: row_fault_def digest_def split: if_splits)
  have "row_hash x = row_hash y" using Cons.prems(4) by (simp add: last_link_def)
  then have eq: "digest_text ?p (row_payload x) = digest_text ?q (row_payload y)"
    using hx hy Cons.prems(1) by (auto simp: collision_def hashed_def)
  have nc: "\<not> collision sha256 (hashed xs) (hashed ys)"
    using Cons.prems(1) by (auto simp: collision_def hashed_def list_ex_iff)
  have "?p = ?q \<and> dumps (row_payload x) = dumps (row_payload y)"
  proof (cases "xs = []")
    case True
    then show ?thesis using eq Cons.hyps by (simp add: last_link_def digest_text_def)
  next
    case False
    then obtain a b where "?p = Some (sha256 a)" "?q = Some (sha256 b)"
      using last_link_hash [of sha256 xs] last_link_hash [of sha256 ys] Cons.prems(2,3) Cons.hyps by fastforce
    then show ?thesis using eq assms(1) by (simp add: digest_text_def)
  qed
  moreover have "snd (last_link (rev xs)) = snd (last_link (rev ys))"
    using linked_seq [of sha256 xs] linked_seq [of sha256 ys] Cons.prems(2,3) Cons.hyps by simp
  ultimately show ?case using Cons.IH [OF nc] Cons.prems(2,3) by (simp add: prod_eq_iff)
qed simp

subsection \<open>Properties\<close>

fun record_all :: "(string \<Rightarrow> string) \<Rightarrow> (request_context \<times> time \<times> audit_args) list \<Rightarrow> audit_row list \<Rightarrow> audit_row list" where
  "record_all sha256 [] log = log"
| "record_all sha256 ((ctx, t, a) # es) log = record_all sha256 es (record_entry sha256 ctx t a log)"

lemma chains_intact_record_all: "chains_intact sha256 log \<Longrightarrow> chains_intact sha256 (record_all sha256 es log)"
  by (induction sha256 es log rule: record_all.induct) (simp_all add: chains_intact_record)

lemma length_chain_record_all:
  "length (chain_rows t (record_all sha256 es log)) =
     length (chain_rows t log) + length (filter (\<lambda>(ctx, _, a). chain_tenant ctx a = t) es)"
proof (induction sha256 es log rule: record_all.induct)
  case (2 sha256 ctx u a es log)
  have "row_tenant (new_entry sha256 ctx u a log) = chain_tenant ctx a"
    by (simp add: new_entry_def Let_def split: prod.splits)
  then show ?case using 2 by (auto simp: chain_rows_def record_entry_def)
qed simp

text \<open>
  C14: every chain written by \<open>record\<close> checks. Whatever entries are recorded for whatever tenants in
  whatever order, the check of each tenant's chain and of the platform's chain finds it intact and
  counts exactly the entries that belong to it.
\<close>

theorem recorded_chains_intact:
  "let report = check_chain sha256 t (record_all sha256 es []) in
   intact report \<and> entries report = int (length (filter (\<lambda>(ctx, _, a). chain_tenant ctx a = t) es))"
proof -
  have ok: "intact (check_chain sha256 t (record_all sha256 es []))"
    using chains_intact_record_all [OF chains_intact_Nil] by (simp add: chains_intact_def)
  then show ?thesis
    using entries_intact [of sha256 None 1 "chain_rows t (record_all sha256 es [])"]
      length_chain_record_all [of t sha256 es "[]"]
    by (simp add: check_chain_def Let_def) (simp add: chain_rows_def)
qed


definition toy_hash :: "string \<Rightarrow> string" where
  "toy_hash s = rev (take 64 (rev s @ replicate 64 (CHR ''0'')))"

definition example_log :: "audit_row list" where
  "example_log = record_entry toy_hash no_context 5 ((audit_args ''auth.login'')\<lparr>a_tenant := Some 7\<rparr>) []"

definition example_log' :: "audit_row list" where
  "example_log' = record_entry toy_hash no_context 6 (audit_args ''intel.refreshed'') example_log"


end
