(* ===== verification/Auth.thy ===== *)
theory Auth
  imports Permissions AuditLog
begin

text \<open>
  Authentication (\<open>backend/app/auth/service.py\<close>, with the password policy of
  \<open>backend/app/core/security.py\<close> and the request authentication of \<open>backend/app/api/deps.py\<close>): login
  with lockout, the second factor, refresh token rotation, tenant switching, passwords, API tokens.

  A handler takes the committed database and gives the committed database with its result; what it
  changed without a commit before an exception is rolled back. Argon2, the keyed token hash, TOTP,
  the encryption and the signed tokens are parameters (the record \<open>auth_env\<close>); identifiers and
  random tokens are arguments. The claims of a signed token stand for its text.
\<close>

subsection \<open>Tables\<close>

record user =
  user_id :: uuid
  email :: string
  password_hash :: "string option"
  is_active :: bool
  is_platform_admin :: bool
  mfa_enabled :: bool
  mfa_secret_encrypted :: "string option"
  auth_provider :: string
  failed_login_count :: int
  locked_until :: "time option"
  last_login_at :: "time option"
  password_changed_at :: "time option"
  default_tenant_id :: "uuid option"

record tenant =
  tenant_id :: uuid
  tenant_state :: tenant_status

record membership =
  mem_tenant :: uuid
  mem_user :: uuid
  mem_role :: role
  mem_active :: bool
  mem_created :: time

record user_session =
  session_id :: uuid
  sess_user :: uuid
  sess_tenant :: "uuid option"
  refresh_token_hash :: string
  previous_token_hash :: "string option"
  last_used_at :: "time option"
  expires_at :: time
  absolute_expires_at :: time
  revoked_at :: "time option"
  revoked_reason :: "string option"
  sess_ip :: "string option"
  sess_agent :: "string option"
  mfa_verified :: bool

record reset_token =
  reset_user :: uuid
  reset_hash :: string
  reset_expires :: time
  reset_used :: "time option"
  reset_ip :: "string option"

record api_token =
  token_id :: uuid
  token_tenant :: uuid
  token_user :: uuid
  token_name :: string
  token_prefix :: string
  token_hash :: string
  token_role :: role
  token_expires :: "time option"
  token_last_used :: "time option"
  token_revoked :: "time option"

record db =
  users :: "user list"
  tenants :: "tenant list"
  memberships :: "membership list"
  sessions :: "user_session list"
  resets :: "reset_token list"
  api_tokens :: "api_token list"
  audit_log :: "audit_row list"

record auth_settings =
  access_token_ttl_minutes :: int
  refresh_token_ttl_days :: int
  session_absolute_ttl_days :: int
  session_idle_ttl_minutes :: int
  mfa_challenge_ttl_minutes :: int
  password_reset_ttl_minutes :: int
  password_min_length :: nat
  account_lockout_threshold :: int
  account_lockout_minutes :: int

text \<open>The claims of an access token and of a second-factor challenge.\<close>

record access_claims =
  c_sub :: uuid
  c_tid :: "uuid option"
  c_role :: role
  c_sid :: uuid
  c_pa :: bool
  c_iat :: int
  c_exp :: int

record mfa_claims =
  m_sub :: uuid
  m_tid :: "uuid option"
  m_exp :: int

text \<open>
  The parameters: \<open>argon_verify hash password\<close> (an exception is \<^const>\<open>False\<close>), \<open>argon_hash\<close>,
  \<open>needs_rehash\<close>, the timing dummy, the token hash, decryption of a stored secret in its context, the
  TOTP check with its window, and the verified decoding of a challenge.
\<close>

record auth_env =
  cfg :: auth_settings
  ctx :: request_context
  argon_verify :: "string \<Rightarrow> string \<Rightarrow> bool"
  argon_hash :: "string \<Rightarrow> string"
  needs_rehash :: "string \<Rightarrow> bool"
  DUMMY_HASH :: string
  hash_token :: "string \<Rightarrow> string"
  decrypt :: "string \<Rightarrow> string \<Rightarrow> string"
  totp_verify :: "string \<Rightarrow> string \<Rightarrow> time \<Rightarrow> bool"
  decode_mfa_challenge :: "string \<Rightarrow> time \<Rightarrow> mfa_claims option"
  sha :: "string \<Rightarrow> string"

type_synonym 'a handler = "db \<Rightarrow> db \<times> (app_error + 'a)"

definition log_event :: "auth_env \<Rightarrow> time \<Rightarrow> audit_args \<Rightarrow> db \<Rightarrow> db" where
  "log_event E t a d = d\<lparr>audit_log := record_entry (sha E) (ctx E) t a (audit_log d)\<rparr>"

definition get_user :: "db \<Rightarrow> uuid \<Rightarrow> user option" where
  "get_user d i = find (\<lambda>u. user_id u = i) (users d)"

definition put_user :: "user \<Rightarrow> db \<Rightarrow> db" where
  "put_user u d = d\<lparr>users := update_where (\<lambda>x. user_id x = user_id u) (\<lambda>_. u) (users d)\<rparr>"

definition get_session :: "db \<Rightarrow> uuid \<Rightarrow> user_session option" where
  "get_session d i = find (\<lambda>s. session_id s = i) (sessions d)"

definition put_session :: "user_session \<Rightarrow> db \<Rightarrow> db" where
  "put_session s d = d\<lparr>sessions := update_where (\<lambda>x. session_id x = session_id s) (\<lambda>_. s) (sessions d)\<rparr>"

subsection \<open>Passwords\<close>

definition normalize_email :: "string \<Rightarrow> string" where
  "normalize_email e = lower (strip e)"

definition verify_password :: "auth_env \<Rightarrow> string \<Rightarrow> string option \<Rightarrow> bool" where
  "verify_password E pw h \<longleftrightarrow>
     argon_verify E (case h of Some x \<Rightarrow> if x = [] then DUMMY_HASH E else x | None \<Rightarrow> DUMMY_HASH E) pw \<and> h \<noteq> None"

definition COMMON_PASSWORDS :: "string list" where
  "COMMON_PASSWORDS = [''password'', ''password123'', ''123456789012'', ''qwertyuiop12'', ''letmein12345'',
     ''welcome12345'', ''administrator'', ''changeme1234'', ''p@ssw0rd1234'', ''iloveyou1234'']"

datatype policy_error = TooShort nat | TooLong | TooCommon | TooFewClasses | ContainsEmailName

definition char_classes :: "string \<Rightarrow> nat" where
  "char_classes pw =
     (let c = (\<lambda>P. if list_ex P pw then 1 else 0 :: nat) in
      c islower + c isupper + c isdigit + c (\<lambda>x. \<not> (islower x \<or> isupper x \<or> isdigit x)))"

definition password_policy_errors :: "auth_settings \<Rightarrow> string \<Rightarrow> string option \<Rightarrow> policy_error list" where
  "password_policy_errors s pw mail =
     (if length pw < password_min_length s then [TooShort (password_min_length s)] else []) @
     (if 256 < length pw then [TooLong] else []) @
     (if lower pw \<in> set COMMON_PASSWORDS then [TooCommon] else []) @
     (if char_classes pw < 3 then [TooFewClasses] else []) @
     (case mail of
        Some e \<Rightarrow>
          (let local = hd (split_on (CHR ''@'') e) in
           if e \<noteq> [] \<and> contains (lower pw) (lower local) \<and> 4 \<le> length local then [ContainsEmailName] else [])
      | None \<Rightarrow> [])"

subsection \<open>Tenants of a user\<close>

definition tenant_active :: "db \<Rightarrow> uuid \<Rightarrow> tenant_status \<Rightarrow> bool" where
  "tenant_active d t st \<longleftrightarrow> list_ex (\<lambda>x. tenant_id x = t \<and> tenant_state x = st) (tenants d)"

definition active_membership :: "db \<Rightarrow> user \<Rightarrow> uuid \<Rightarrow> membership option" where
  "active_membership d u t =
     find (\<lambda>m. mem_user m = user_id u \<and> mem_tenant m = t \<and> mem_active m \<and> tenant_active d t tenant_status.ACTIVE)
       (memberships d)"

definition effective_role :: "user \<Rightarrow> role \<Rightarrow> role" where
  "effective_role u r = (if is_platform_admin u then role.PLATFORM_ADMIN else r)"

fun resolve_candidates :: "db \<Rightarrow> user \<Rightarrow> uuid option \<Rightarrow> uuid list \<Rightarrow> (app_error + uuid option \<times> role) option" where
  "resolve_candidates d u req [] = None"
| "resolve_candidates d u req (t # ts) =
     (case active_membership d u t of
        Some m \<Rightarrow> Some (Inr (Some t, effective_role u (mem_role m)))
      | None \<Rightarrow>
          if req = Some t \<and> is_platform_admin u \<and> tenant_active d t tenant_status.ACTIVE
          then Some (Inr (Some t, role.PLATFORM_ADMIN))
          else if req = Some t then Some (Inl (forbidden ''You do not have access to this tenant''))
          else resolve_candidates d u req ts)"

definition first_membership :: "db \<Rightarrow> user \<Rightarrow> membership option" where
  "first_membership d u =
     (case sort_key mem_created
             (filter (\<lambda>m. mem_user m = user_id u \<and> mem_active m \<and> tenant_active d (mem_tenant m) tenant_status.ACTIVE)
               (memberships d)) of
        [] \<Rightarrow> None | m # _ \<Rightarrow> Some m)"

definition suspended_member :: "db \<Rightarrow> user \<Rightarrow> bool" where
  "suspended_member d u \<longleftrightarrow>
     list_ex (\<lambda>m. mem_user m = user_id u \<and> mem_active m \<and> tenant_active d (mem_tenant m) tenant_status.SUSPENDED)
       (memberships d)"

definition resolve_tenant :: "db \<Rightarrow> user \<Rightarrow> uuid option \<Rightarrow> app_error + uuid option \<times> role" where
  "resolve_tenant d u req =
     (case resolve_candidates d u req
             ((case req of Some t \<Rightarrow> [t] | None \<Rightarrow> []) @ (case default_tenant_id u of Some t \<Rightarrow> [t] | None \<Rightarrow> [])) of
        Some r \<Rightarrow> r
      | None \<Rightarrow>
          (case first_membership d u of
             Some m \<Rightarrow> Inr (Some (mem_tenant m), effective_role u (mem_role m))
           | None \<Rightarrow>
               if is_platform_admin u then Inr (None, role.PLATFORM_ADMIN)
               else if suspended_member d u
               then Inl (Forbidden ''Your organization's access to Exteriq ASM is suspended. Contact your platform administrator.'' ''tenant_suspended'')
               else Inl (forbidden ''Your account is not a member of any active tenant'')))"

subsection \<open>Sessions\<close>

record session_tokens =
  access_token :: access_claims
  access_expires_at :: time
  refresh_token :: string
  refresh_expires_at :: time
  tok_session :: uuid
  tok_user :: uuid
  tok_tenant :: "uuid option"
  tok_role :: role

definition create_access_token :: "auth_env \<Rightarrow> time \<Rightarrow> user \<Rightarrow> uuid option \<Rightarrow> role \<Rightarrow> uuid \<Rightarrow> access_claims \<times> time" where
  "create_access_token E t u tid r sid =
     (let ex = t + minutes (access_token_ttl_minutes (cfg E)) in
      (\<lparr>c_sub = user_id u, c_tid = tid, c_role = r, c_sid = sid, c_pa = is_platform_admin u,
        c_iat = t div 1000000, c_exp = ex div 1000000\<rparr>, ex))"

definition create_mfa_challenge :: "auth_env \<Rightarrow> time \<Rightarrow> uuid \<Rightarrow> uuid option \<Rightarrow> mfa_claims" where
  "create_mfa_challenge E t uid tid =
     \<lparr>m_sub = uid, m_tid = tid, m_exp = (t + minutes (mfa_challenge_ttl_minutes (cfg E))) div 1000000\<rparr>"

definition issue_session :: "auth_env \<Rightarrow> time \<Rightarrow> uuid \<Rightarrow> string \<Rightarrow> user \<Rightarrow> uuid option \<Rightarrow> role \<Rightarrow> bool \<Rightarrow> db \<Rightarrow> db \<times> session_tokens" where
  "issue_session E t sid raw u tid r mfa d =
     (let s = \<lparr>session_id = sid, sess_user = user_id u, sess_tenant = tid, refresh_token_hash = hash_token E raw,
            previous_token_hash = None, last_used_at = Some t,
            expires_at = t + days (refresh_token_ttl_days (cfg E)),
            absolute_expires_at = t + days (session_absolute_ttl_days (cfg E)),
            revoked_at = None, revoked_reason = None, sess_ip = ctx_ip (ctx E),
            sess_agent = cut_agent (ctx_user_agent (ctx E)), mfa_verified = mfa\<rparr>;
          (access, ex) = create_access_token E t u tid r sid
      in (d\<lparr>sessions := sessions d @ [s]\<rparr>,
          \<lparr>access_token = access, access_expires_at = ex, refresh_token = raw, refresh_expires_at = expires_at s,
           tok_session = sid, tok_user = user_id u, tok_tenant = tid, tok_role = r\<rparr>))"

subsection \<open>Login\<close>

definition GENERIC_LOGIN_ERROR :: string where
  "GENERIC_LOGIN_ERROR = ''Invalid email or password''"

datatype login_outcome = LoggedIn session_tokens | MfaRequired mfa_claims

definition failure :: "string \<Rightarrow> audit_args" where
  "failure reason = (audit_args ''auth.login_failed'')\<lparr>a_success := False, a_new := JObj [(''reason'', JStr reason)]\<rparr>"

definition about_user :: "user \<Rightarrow> audit_args \<Rightarrow> audit_args" where
  "about_user u a = a\<lparr>a_user := Some (user_id u), a_actor := Some (email u)\<rparr>"

text \<open>A failed attempt is counted; at the threshold the account is locked and the count starts again.\<close>

definition count_failure :: "auth_settings \<Rightarrow> time \<Rightarrow> user \<Rightarrow> user \<times> bool" where
  "count_failure s t u =
     (let n = failed_login_count u + 1 in
      if account_lockout_threshold s \<le> n
      then (u\<lparr>failed_login_count := 0, locked_until := Some (t + minutes (account_lockout_minutes s))\<rparr>, True)
      else (u\<lparr>failed_login_count := n\<rparr>, False))"

definition is_locked :: "user \<Rightarrow> time \<Rightarrow> bool" where
  "is_locked u t \<longleftrightarrow> (case locked_until u of Some l \<Rightarrow> t < l | None \<Rightarrow> False)"

definition authenticate :: "auth_env \<Rightarrow> time \<Rightarrow> uuid \<Rightarrow> string \<Rightarrow> string \<Rightarrow> string \<Rightarrow> login_outcome handler" where
  "authenticate E t sid raw mail pw d =
     (let email_n = normalize_email mail; denied = Inl (Unauthorized GENERIC_LOGIN_ERROR) in
      case find (\<lambda>u. email u = email_n) (users d) of
        None \<Rightarrow> (log_event E t ((failure ''unknown_or_inactive'')\<lparr>a_actor := Some (take 320 email_n)\<rparr>) d, denied)
      | Some u \<Rightarrow>
          if \<not> is_active u \<or> password_hash u = None
          then (log_event E t ((failure ''unknown_or_inactive'')\<lparr>a_actor := Some (take 320 email_n)\<rparr>) d, denied)
          else if is_locked u t
          then (log_event E t (about_user u (failure ''locked'')) d, denied)
          else if \<not> verify_password E pw (password_hash u)
          then (case count_failure (cfg E) t u of (u', locked) \<Rightarrow>
                  (log_event E t ((about_user u (failure (if locked then ''bad_password_locked'' else ''bad_password'')))
                       \<lparr>a_tenant := default_tenant_id u\<rparr>) (put_user u' d), denied))
          else (let u1 = u\<lparr>failed_login_count := 0, locked_until := None,
                           password_hash := (if needs_rehash E (the (password_hash u)) then Some (argon_hash E pw)
                                             else password_hash u)\<rparr> in
                case resolve_tenant d u1 None of
                  Inl e \<Rightarrow> (d, Inl e)
                | Inr (tid, r) \<Rightarrow>
                    if mfa_enabled u
                    then (put_user u1 d, Inr (MfaRequired (create_mfa_challenge E t (user_id u) tid)))
                    else (let u2 = u1\<lparr>last_login_at := Some t\<rparr>; (d1, toks) = issue_session E t sid raw u2 tid r False (put_user u2 d)
                          in (log_event E t ((about_user u (audit_args ''auth.login''))
                                \<lparr>a_tenant := tid, a_object_type := Some ''session'', a_object_id := Some (uuid_str sid)\<rparr>) d1,
                              Inr (LoggedIn toks)))))"

definition totp :: "auth_env \<Rightarrow> user \<Rightarrow> string option" where
  "totp E u =
     (case mfa_secret_encrypted u of
        Some c \<Rightarrow> if c = [] then None else Some (decrypt E c (''user:'' @ uuid_str (user_id u) @ '':mfa''))
      | None \<Rightarrow> None)"

definition complete_mfa :: "auth_env \<Rightarrow> time \<Rightarrow> uuid \<Rightarrow> string \<Rightarrow> string \<Rightarrow> string \<Rightarrow> session_tokens handler" where
  "complete_mfa E t sid raw mfa_token otp d =
     (let bad = Inl (Unauthorized ''MFA challenge expired or invalid'') in
      case decode_mfa_challenge E mfa_token t of
        None \<Rightarrow> (d, bad)
      | Some claims \<Rightarrow>
          (case get_user d (m_sub claims) of
             None \<Rightarrow> (d, bad)
           | Some u \<Rightarrow>
               if \<not> is_active u \<or> \<not> mfa_enabled u then (d, bad)
               else (case totp E u of
                       None \<Rightarrow> (d, Inl (ValidationFailed ''MFA is not configured''))
                     | Some secret \<Rightarrow>
                         if \<not> totp_verify E secret (strip otp) t
                         then (log_event E t (about_user u (failure ''bad_mfa_code''))
                                 (put_user (fst (count_failure (cfg E) t u)) d),
                               Inl (Unauthorized ''Invalid verification code''))
                         else (case resolve_tenant d u (m_tid claims) of
                                 Inl e \<Rightarrow> (d, Inl e)
                               | Inr (tid, r) \<Rightarrow>
                                   (let u' = u\<lparr>failed_login_count := 0, last_login_at := Some t\<rparr>;
                                        (d1, toks) = issue_session E t sid raw u' tid r True (put_user u' d)
                                    in (log_event E t ((about_user u (audit_args ''auth.login''))
                                          \<lparr>a_tenant := tid, a_object_type := Some ''session'',
                                           a_object_id := Some (uuid_str sid), a_new := JObj [(''mfa'', JBool True)]\<rparr>) d1,
                                        Inr toks))))))"

subsection \<open>Refresh tokens\<close>

definition revoke :: "time \<Rightarrow> string \<Rightarrow> user_session \<Rightarrow> user_session" where
  "revoke t reason s = s\<lparr>revoked_at := Some t, revoked_reason := Some reason\<rparr>"

definition idle :: "auth_settings \<Rightarrow> time \<Rightarrow> user_session \<Rightarrow> bool" where
  "idle s t ss \<longleftrightarrow>
     session_idle_ttl_minutes s \<noteq> 0 \<and>
     (case last_used_at ss of Some l \<Rightarrow> minutes (session_idle_ttl_minutes s) < t - l | None \<Rightarrow> False)"

definition rotate :: "auth_env \<Rightarrow> string \<Rightarrow> user_session \<Rightarrow> user_session" where
  "rotate E raw s = s\<lparr>previous_token_hash := Some (refresh_token_hash s), refresh_token_hash := hash_token E raw\<rparr>"

definition tokens_of :: "auth_env \<Rightarrow> time \<Rightarrow> string \<Rightarrow> user \<Rightarrow> uuid option \<Rightarrow> role \<Rightarrow> user_session \<Rightarrow> session_tokens" where
  "tokens_of E t raw u tid r s =
     (case create_access_token E t u tid r (session_id s) of (access, ex) \<Rightarrow>
        \<lparr>access_token = access, access_expires_at = ex, refresh_token = raw, refresh_expires_at = expires_at s,
         tok_session = session_id s, tok_user = user_id u, tok_tenant = tid, tok_role = r\<rparr>)"

definition SESSION_EXPIRED :: "app_error + 'a" where
  "SESSION_EXPIRED = Inl (Unauthorized ''Session expired'')"

definition token_reuse :: "auth_env \<Rightarrow> time \<Rightarrow> string \<Rightarrow> db \<Rightarrow> db" where
  "token_reuse E t h d =
     (case find (\<lambda>s. previous_token_hash s = Some h) (sessions d) of
        Some s \<Rightarrow>
          if revoked_at s = None
          then log_event E t ((audit_args ''auth.refresh_token_reuse'')\<lparr>a_tenant := sess_tenant s, a_user := Some (sess_user s),
                 a_object_type := Some ''session'', a_object_id := Some (uuid_str (session_id s)), a_success := False\<rparr>)
                 (put_session (revoke t ''refresh_token_reuse'' s) d)
          else d
      | None \<Rightarrow> d)"

definition refresh :: "auth_env \<Rightarrow> time \<Rightarrow> string \<Rightarrow> string \<Rightarrow> session_tokens handler" where
  "refresh E t raw raw_refresh d =
     (let h = hash_token E raw_refresh in
      case find (\<lambda>s. refresh_token_hash s = h) (sessions d) of
        None \<Rightarrow> (token_reuse E t h d, SESSION_EXPIRED)
      | Some s \<Rightarrow>
          if revoked_at s \<noteq> None \<or> expires_at s \<le> t \<or> absolute_expires_at s \<le> t then (d, SESSION_EXPIRED)
          else if idle (cfg E) t s then (put_session (revoke t ''idle'' s) d, SESSION_EXPIRED)
          else (case get_user d (sess_user s) of
                  None \<Rightarrow> (d, SESSION_EXPIRED)
                | Some u \<Rightarrow>
                    if \<not> is_active u then (d, SESSION_EXPIRED)
                    else (case resolve_tenant d u (sess_tenant s) of
                            Inl (Forbidden _ _) \<Rightarrow> (put_session (revoke t ''membership_revoked'' s) d, SESSION_EXPIRED)
                          | Inl e \<Rightarrow> (d, Inl e)
                          | Inr (tid, r) \<Rightarrow>
                              (let s' = (rotate E raw s)\<lparr>
                                     expires_at := min (t + days (refresh_token_ttl_days (cfg E))) (absolute_expires_at s),
                                     last_used_at := Some t\<rparr>
                               in (put_session s' d, Inr (tokens_of E t raw u tid r s'))))))"

definition logout :: "auth_env \<Rightarrow> time \<Rightarrow> uuid \<Rightarrow> uuid \<Rightarrow> uuid option \<Rightarrow> unit handler" where
  "logout E t sid uid tid d =
     (log_event E t ((audit_args ''auth.logout'')\<lparr>a_tenant := tid, a_user := Some uid, a_object_type := Some ''session'',
          a_object_id := Some (uuid_str sid)\<rparr>)
        (d\<lparr>sessions := update_where (\<lambda>s. session_id s = sid \<and> revoked_at s = None) (revoke t ''logout'') (sessions d)\<rparr>),
      Inr ())"

definition revoke_user_sessions :: "time \<Rightarrow> uuid \<Rightarrow> string \<Rightarrow> uuid option \<Rightarrow> db \<Rightarrow> db" where
  "revoke_user_sessions t uid reason tid d =
     d\<lparr>sessions := update_where (\<lambda>s. sess_user s = uid \<and> revoked_at s = None \<and> (tid \<noteq> None \<longrightarrow> sess_tenant s = tid))
         (revoke t reason) (sessions d)\<rparr>"

definition switch_tenant :: "auth_env \<Rightarrow> time \<Rightarrow> string \<Rightarrow> uuid \<Rightarrow> uuid \<Rightarrow> uuid \<Rightarrow> session_tokens handler" where
  "switch_tenant E t raw uid sid tid d =
     (case (get_user d uid, get_session d sid) of
        (Some u, Some s) \<Rightarrow>
          if revoked_at s \<noteq> None then (d, SESSION_EXPIRED)
          else (case resolve_tenant d u (Some tid) of
                  Inl e \<Rightarrow> (d, Inl e)
                | Inr (tid', r) \<Rightarrow>
                    (let s' = rotate E raw (s\<lparr>sess_tenant := tid'\<rparr>) in
                     (log_event E t ((about_user u (audit_args ''auth.tenant_switch''))\<lparr>a_tenant := tid',
                          a_object_type := Some ''tenant'', a_object_id := map_option uuid_str tid'\<rparr>) (put_session s' d),
                      Inr (tokens_of E t raw u tid' r s'))))
      | _ \<Rightarrow> (d, SESSION_EXPIRED))"

subsection \<open>Changing passwords\<close>

definition set_password :: "auth_env \<Rightarrow> time \<Rightarrow> string \<Rightarrow> user \<Rightarrow> policy_error list + user" where
  "set_password E t pw u =
     (let errs = password_policy_errors (cfg E) pw (Some (email u)) in
      if errs \<noteq> [] then Inl errs
      else Inr (u\<lparr>password_hash := Some (argon_hash E pw), password_changed_at := Some t, failed_login_count := 0,
                  locked_until := None\<rparr>))"

definition change_password :: "auth_env \<Rightarrow> time \<Rightarrow> uuid \<Rightarrow> string \<Rightarrow> string \<Rightarrow> unit handler" where
  "change_password E t uid current new d =
     (case get_user d uid of
        None \<Rightarrow> (d, Inl (Unauthorized ''Current password is incorrect''))
      | Some u \<Rightarrow>
          if \<not> verify_password E current (password_hash u)
          then (d, Inl (Unauthorized ''Current password is incorrect''))
          else (case set_password E t new u of
                  Inl errs \<Rightarrow> (d, Inl (ValidationFailed ''Password''))
                | Inr u' \<Rightarrow>
                    (log_event E t ((about_user u (audit_args ''auth.password_changed''))\<lparr>a_tenant := default_tenant_id u\<rparr>)
                       (revoke_user_sessions t uid ''password_changed'' None (put_user u' d)), Inr ())))"

definition request_password_reset :: "auth_env \<Rightarrow> time \<Rightarrow> string \<Rightarrow> string \<Rightarrow> db \<Rightarrow> db \<times> (user \<times> string) option" where
  "request_password_reset E t raw mail d =
     (case find (\<lambda>u. email u = normalize_email mail) (users d) of
        None \<Rightarrow> (d, None)
      | Some u \<Rightarrow>
          if \<not> is_active u \<or> auth_provider u \<noteq> ''local'' then (d, None)
          else (log_event E t ((about_user u (audit_args ''auth.password_reset_requested''))\<lparr>a_tenant := default_tenant_id u\<rparr>)
                  (d\<lparr>resets := resets d @ [\<lparr>reset_user = user_id u, reset_hash = hash_token E raw,
                       reset_expires = t + minutes (password_reset_ttl_minutes (cfg E)), reset_used = None,
                       reset_ip = ctx_ip (ctx E)\<rparr>]\<rparr>),
                Some (u, raw)))"

definition reset_password :: "auth_env \<Rightarrow> time \<Rightarrow> string \<Rightarrow> string \<Rightarrow> unit handler" where
  "reset_password E t raw pw d =
     (let bad = (d, Inl (ValidationFailed ''This password reset link is invalid or has expired'')) in
      case find (\<lambda>k. reset_hash k = hash_token E raw) (resets d) of
        None \<Rightarrow> bad
      | Some k \<Rightarrow>
          if reset_used k \<noteq> None \<or> reset_expires k \<le> t then bad
          else (case get_user d (reset_user k) of
                  None \<Rightarrow> bad
                | Some u \<Rightarrow>
                    if \<not> is_active u then bad
                    else (case set_password E t pw u of
                            Inl errs \<Rightarrow> (d, Inl (ValidationFailed ''Password''))
                          | Inr u' \<Rightarrow>
                              (log_event E t ((about_user u (audit_args ''auth.password_reset''))\<lparr>a_tenant := default_tenant_id u\<rparr>)
                                 (revoke_user_sessions t (user_id u) ''password_reset'' None
                                   ((put_user u' d)\<lparr>resets := update_where (\<lambda>x. reset_hash x = reset_hash k)
                                      (\<lambda>x. x\<lparr>reset_used := Some t\<rparr>) (resets d)\<rparr>)), Inr ()))))"

subsection \<open>Setting up the second factor\<close>

text \<open>\<open>secret\<close> is the random secret and \<open>cipher\<close> its encryption.\<close>

definition mfa_begin_setup :: "auth_env \<Rightarrow> string \<Rightarrow> string \<Rightarrow> uuid \<Rightarrow> string \<Rightarrow> string handler" where
  "mfa_begin_setup E secret cipher uid pw d =
     (case get_user d uid of
        None \<Rightarrow> (d, Inl (Unauthorized ''Unknown user''))
      | Some u \<Rightarrow>
          if \<not> verify_password E pw (password_hash u) then (d, Inl (Unauthorized ''Password is incorrect''))
          else if mfa_enabled u then (d, Inl (ValidationFailed ''MFA is already enabled''))
          else (put_user (u\<lparr>mfa_secret_encrypted := Some cipher\<rparr>) d, Inr secret))"

definition mfa_enable :: "auth_env \<Rightarrow> time \<Rightarrow> uuid \<Rightarrow> string \<Rightarrow> unit handler" where
  "mfa_enable E t uid otp d =
     (case get_user d uid of
        None \<Rightarrow> (d, Inl (ValidationFailed ''MFA setup is not in progress''))
      | Some u \<Rightarrow>
          if mfa_enabled u then (d, Inl (ValidationFailed ''MFA setup is not in progress''))
          else (case totp E u of
                  None \<Rightarrow> (d, Inl (ValidationFailed ''MFA is not configured''))
                | Some secret \<Rightarrow>
                    if \<not> totp_verify E secret (strip otp) t then (d, Inl (ValidationFailed ''Invalid verification code''))
                    else (log_event E t ((about_user u (audit_args ''auth.mfa_enabled''))\<lparr>a_tenant := default_tenant_id u\<rparr>)
                            (put_user (u\<lparr>mfa_enabled := True\<rparr>) d), Inr ())))"

definition mfa_disable :: "auth_env \<Rightarrow> time \<Rightarrow> uuid \<Rightarrow> string \<Rightarrow> string \<Rightarrow> unit handler" where
  "mfa_disable E t uid pw otp d =
     (case get_user d uid of
        None \<Rightarrow> (d, Inl (ValidationFailed ''MFA is not enabled''))
      | Some u \<Rightarrow>
          if \<not> mfa_enabled u then (d, Inl (ValidationFailed ''MFA is not enabled''))
          else if \<not> verify_password E pw (password_hash u)
          then (d, Inl (Unauthorized ''Invalid password or verification code''))
          else (case totp E u of
                  None \<Rightarrow> (d, Inl (ValidationFailed ''MFA is not configured''))
                | Some secret \<Rightarrow>
                    if \<not> totp_verify E secret (strip otp) t
                    then (d, Inl (Unauthorized ''Invalid password or verification code''))
                    else (log_event E t ((about_user u (audit_args ''auth.mfa_disabled''))\<lparr>a_tenant := default_tenant_id u\<rparr>)
                            (put_user (u\<lparr>mfa_enabled := False, mfa_secret_encrypted := None\<rparr>) d), Inr ())))"

subsection \<open>API tokens\<close>

definition API_TOKEN_PREFIX :: string where
  "API_TOKEN_PREFIX = ''asmpat_''"

text \<open>The caller commits.\<close>

definition create_api_token :: "auth_env \<Rightarrow> time \<Rightarrow> uuid \<Rightarrow> string \<Rightarrow> uuid \<Rightarrow> user \<Rightarrow> string \<Rightarrow> role \<Rightarrow> time option \<Rightarrow> db \<Rightarrow> db \<times> api_token \<times> string" where
  "create_api_token E t kid rnd tid u name r ex d =
     (let raw = API_TOKEN_PREFIX @ rnd;
          k = \<lparr>token_id = kid, token_tenant = tid, token_user = user_id u, token_name = name, token_prefix = take 12 raw,
               token_hash = hash_token E raw, token_role = r, token_expires = ex, token_last_used = None,
               token_revoked = None\<rparr>
      in (log_event E t ((audit_args ''auth.api_token_created'')\<lparr>a_tenant := Some tid, a_user := Some (user_id u),
            a_object_type := Some ''api_token'', a_object_id := Some (uuid_str kid),
            a_new := JObj [(''name'', JStr name), (''role'', JStr (role_value r))]\<rparr>)
            (d\<lparr>api_tokens := api_tokens d @ [k]\<rparr>), k, raw))"

definition resolve_api_token :: "auth_env \<Rightarrow> time \<Rightarrow> string \<Rightarrow> db \<Rightarrow> (db \<times> api_token \<times> user) option" where
  "resolve_api_token E t raw d =
     (case find (\<lambda>k. token_hash k = hash_token E raw) (api_tokens d) of
        None \<Rightarrow> None
      | Some k \<Rightarrow>
          if token_revoked k \<noteq> None \<or> (case token_expires k of Some x \<Rightarrow> x \<le> t | None \<Rightarrow> False) then None
          else (case get_user d (token_user k) of
                  None \<Rightarrow> None
                | Some u \<Rightarrow>
                    if \<not> is_active u then None
                    else Some (d\<lparr>api_tokens := update_where (\<lambda>x. token_hash x = token_hash k)
                                  (\<lambda>x. x\<lparr>token_last_used := Some t\<rparr>) (api_tokens d)\<rparr>, k, u)))"

subsection \<open>Authenticating a request\<close>

record principal =
  p_user :: uuid
  p_email :: string
  p_tenant :: "uuid option"
  p_role :: role
  p_platform_admin :: bool
  p_session :: "uuid option"
  p_api_token :: "uuid option"
  p_permissions :: "permission list"

definition can :: "principal \<Rightarrow> permission \<Rightarrow> bool" where
  "can p perm \<longleftrightarrow> perm \<in> set (p_permissions p)"

definition require_tenant :: "principal \<Rightarrow> app_error + uuid" where
  "require_tenant p = (case p_tenant p of None \<Rightarrow> Inl (forbidden ''Select a tenant first'') | Some t \<Rightarrow> Inr t)"

definition bearer :: "string \<Rightarrow> app_error + string" where
  "bearer header =
     (case partition_str '' '' header of (scheme, _, token) \<Rightarrow>
        if lower scheme \<noteq> ''bearer'' \<or> token = [] then Inl (Unauthorized ''Authentication required'')
        else Inr (strip token))"

text \<open>The verified decoding of an access token: expired, invalid, or its claims.\<close>

datatype decoded = Expired | Invalid | Claims access_claims

definition principal_of_api_token :: "auth_env \<Rightarrow> time \<Rightarrow> string \<Rightarrow> principal handler" where
  "principal_of_api_token E t token d =
     (case resolve_api_token E t token d of
        None \<Rightarrow> (d, Inl (Unauthorized ''Invalid API token''))
      | Some (d', k, u) \<Rightarrow>
          (let m = active_membership d u (token_tenant k) in
           if m = None \<and> \<not> is_platform_admin u then (d, Inl (Unauthorized ''Invalid API token''))
           else (let owner_role = (if is_platform_admin u then role.PLATFORM_ADMIN else mem_role (the m));
                     r = (if ROLE_RANK (token_role k) \<le> ROLE_RANK owner_role then token_role k else owner_role)
                 in (d', Inr \<lparr>p_user = user_id u, p_email = email u, p_tenant = Some (token_tenant k), p_role = r,
                              p_platform_admin = False, p_session = None, p_api_token = Some (token_id k),
                              p_permissions = permissions_for r\<rparr>))))"

definition principal_of_claims :: "time \<Rightarrow> access_claims \<Rightarrow> principal handler" where
  "principal_of_claims t c d =
     (case get_session d (c_sid c) of
        None \<Rightarrow> (d, SESSION_EXPIRED)
      | Some s \<Rightarrow>
          if revoked_at s \<noteq> None \<or> absolute_expires_at s \<le> t then (d, SESSION_EXPIRED)
          else (case get_user d (c_sub c) of
                  None \<Rightarrow> (d, SESSION_EXPIRED)
                | Some u \<Rightarrow>
                    if \<not> is_active u \<or> c_tid c \<noteq> sess_tenant s then (d, SESSION_EXPIRED)
                    else (let p = (\<lambda>r. \<lparr>p_user = user_id u, p_email = email u, p_tenant = c_tid c, p_role = r,
                                  p_platform_admin = is_platform_admin u, p_session = Some (session_id s),
                                  p_api_token = None, p_permissions = permissions_for r\<rparr>) in
                          if is_platform_admin u then (d, Inr (p role.PLATFORM_ADMIN))
                          else (case c_tid c of
                                  None \<Rightarrow> (d, Inl (forbidden ''No tenant selected''))
                                | Some tid \<Rightarrow>
                                    (case active_membership d u tid of
                                       None \<Rightarrow> (d, SESSION_EXPIRED)
                                     | Some m \<Rightarrow> (d, Inr (p (mem_role m))))))))"

definition get_principal :: "auth_env \<Rightarrow> (string \<Rightarrow> time \<Rightarrow> decoded) \<Rightarrow> time \<Rightarrow> string \<Rightarrow> principal handler" where
  "get_principal E decode_access_token t header d =
     (case bearer header of
        Inl e \<Rightarrow> (d, Inl e)
      | Inr token \<Rightarrow>
          if startswith token API_TOKEN_PREFIX then principal_of_api_token E t token d
          else (case decode_access_token token t of
                  Expired \<Rightarrow> (d, Inl (Unauthorized ''Access token expired''))
                | Invalid \<Rightarrow> (d, Inl (Unauthorized ''Invalid access token''))
                | Claims c \<Rightarrow> principal_of_claims t c d))"

definition require :: "permission list \<Rightarrow> principal \<Rightarrow> app_error + principal" where
  "require perms p =
     (case filter (\<lambda>q. \<not> can p q) perms of
        [] \<Rightarrow> Inr p
      | q # _ \<Rightarrow> Inl (forbidden ''Missing permission''))"

end
