(* ===== verification/AuthSafety.thy ===== *)
theory AuthSafety
  imports Auth
begin

text \<open>
  Properties of the authentication service over its runs: every handler changes the session table
  in one of four ways, so a revoked session stays revoked, no session outlives its absolute expiry,
  and the audit chains stay intact.
\<close>

subsection \<open>What a handler does to sessions and to the audit log\<close>

definition session_core :: "user_session \<Rightarrow> uuid \<times> uuid \<times> time" where
  "session_core s = (session_id s, sess_user s, absolute_expires_at s)"

datatype session_effect =
    Same
  | Added user_session
  | Changed user_session user_session
  | RevokedWhere "user_session \<Rightarrow> bool" time string

fun apply_effect :: "session_effect \<Rightarrow> user_session list \<Rightarrow> user_session list" where
  "apply_effect Same ss = ss"
| "apply_effect (Added s) ss = ss @ [s]"
| "apply_effect (Changed s s') ss = update_where (\<lambda>x. session_id x = session_id s') (\<lambda>_. s') ss"
| "apply_effect (RevokedWhere P t why) ss = update_where (\<lambda>s. P s \<and> revoked_at s = None) (revoke t why) ss"

fun legal_effect :: "auth_settings \<Rightarrow> user_session list \<Rightarrow> session_effect \<Rightarrow> bool" where
  "legal_effect c ss Same \<longleftrightarrow> True"
| "legal_effect c ss (Added s) \<longleftrightarrow> (\<exists>t. expires_at s = t + days (refresh_token_ttl_days c) \<and>
     absolute_expires_at s = t + days (session_absolute_ttl_days c))"
| "legal_effect c ss (Changed s s') \<longleftrightarrow> s \<in> set ss \<and> revoked_at s = None \<and> session_core s' = session_core s \<and>
     (expires_at s' = expires_at s \<or> expires_at s' \<le> absolute_expires_at s)"
| "legal_effect c ss (RevokedWhere P t why) \<longleftrightarrow> True"

definition effect :: "auth_env \<Rightarrow> db \<Rightarrow> db \<Rightarrow> bool" where
  "effect E d d' \<longleftrightarrow>
     (\<exists>e. legal_effect (cfg E) (sessions d) e \<and> sessions d' = apply_effect e (sessions d)) \<and>
     (audit_log d' = audit_log d \<or> (\<exists>t a. audit_log d' = record_entry (sha E) (ctx E) t a (audit_log d)))"

lemma effect_refl [simp]: "effect E d d"
  by (auto simp: effect_def intro: exI [of _ Same])

lemma effect_sessions:
  assumes "legal_effect (cfg E) (sessions d) e" "sessions d' = apply_effect e (sessions d)"
    and "audit_log d' = audit_log d \<or> (\<exists>t a. audit_log d' = record_entry (sha E) (ctx E) t a (audit_log d))"
  shows "effect E d d'"
  using assms by (auto simp: effect_def)

lemma effect_log_event: "audit_log d' = audit_log d \<Longrightarrow> effect E d d' \<Longrightarrow> effect E d (log_event E t a d')"
  by (auto simp: effect_def log_event_def)

lemma put_user_fields [simp]:
  "sessions (put_user u d) = sessions d" "audit_log (put_user u d) = audit_log d"
  "resets (put_user u d) = resets d" "api_tokens (put_user u d) = api_tokens d"
  "tenants (put_user u d) = tenants d" "memberships (put_user u d) = memberships d"
  by (simp_all add: put_user_def)

lemma put_session_fields [simp]:
  "users (put_session s d) = users d" "audit_log (put_session s d) = audit_log d"
  "resets (put_session s d) = resets d" "tenants (put_session s d) = tenants d" "memberships (put_session s d) = memberships d"
  by (simp_all add: put_session_def)

lemma log_event_fields [simp]:
  "sessions (log_event E t a d) = sessions d" "users (log_event E t a d) = users d"
  "resets (log_event E t a d) = resets d" "tenants (log_event E t a d) = tenants d"
  "memberships (log_event E t a d) = memberships d"
  by (simp_all add: log_event_def)

lemma effect_put_user [simp]: "effect E d (put_user u d)"
  by (auto simp: effect_def intro: exI [of _ Same])

lemma effect_update_resets [simp]: "effect E d (d\<lparr>resets := rs\<rparr>)" "effect E d (d\<lparr>api_tokens := ks\<rparr>)"
  by (auto simp: effect_def intro: exI [of _ Same])

lemma effect_put_session:
  assumes "s \<in> set (sessions d)" "revoked_at s = None" "session_core s' = session_core s"
    and "expires_at s' = expires_at s \<or> expires_at s' \<le> absolute_expires_at s"
  shows "effect E d (put_session s' d)"
  by (rule effect_sessions [of _ _ "Changed s s'"]) (use assms in \<open>simp_all add: put_session_def\<close>)

lemma effect_revoke:
  "effect E d (d\<lparr>sessions := update_where (\<lambda>s. P s \<and> revoked_at s = None) (revoke t why) (sessions d)\<rparr>)"
  by (rule effect_sessions [of _ _ "RevokedWhere P t why"]) simp_all

lemma core_revoke [simp]:
  "session_core (revoke t why s) = session_core s" "expires_at (revoke t why s) = expires_at s"
  by (simp_all add: session_core_def revoke_def)

lemma core_rotate [simp]:
  "session_core (rotate E raw s) = session_core s" "expires_at (rotate E raw s) = expires_at s"
  "absolute_expires_at (rotate E raw s) = absolute_expires_at s"
  by (simp_all add: session_core_def rotate_def)

lemma core_update [simp]:
  "session_core (s\<lparr>last_used_at := l, expires_at := x\<rparr>) = session_core s"
  "session_core (s\<lparr>expires_at := x, last_used_at := l\<rparr>) = session_core s"
  "session_core (s\<lparr>sess_tenant := tid\<rparr>) = session_core s"
  by (simp_all add: session_core_def)

lemma effect_issue_session:
  assumes "issue_session E t sid raw u tid r mfa d1 = (d', toks)" "sessions d1 = sessions d" "audit_log d1 = audit_log d"
  shows "effect E d d'" "audit_log d' = audit_log d"
proof -
  from assms obtain s where s: "sessions d' = sessions d @ [s]"
      "expires_at s = t + days (refresh_token_ttl_days (cfg E))"
      "absolute_expires_at s = t + days (session_absolute_ttl_days (cfg E))"
    by (auto simp: issue_session_def Let_def split: prod.splits)
  show log: "audit_log d' = audit_log d"
    using assms by (auto simp: issue_session_def Let_def split: prod.splits)
  show "effect E d d'"
    by (rule effect_sessions [of _ _ "Added s"]) (use s log in auto)
qed

lemma effect_authenticate: "authenticate E t sid raw mail pw d = (d', r) \<Longrightarrow> effect E d d'"
  by (auto simp: authenticate_def Let_def dest: effect_issue_session
      split: option.splits if_splits prod.splits sum.splits intro!: effect_log_event)

lemma effect_complete_mfa: "complete_mfa E t sid raw tok otp d = (d', r) \<Longrightarrow> effect E d d'"
  by (auto simp: complete_mfa_def Let_def dest: effect_issue_session
      split: option.splits if_splits prod.splits sum.splits intro!: effect_log_event)

lemma effect_refresh: "refresh E t raw raw0 d = (d', r) \<Longrightarrow> effect E d d'"
  by (auto simp: refresh_def token_reuse_def Let_def dest!: find_Some_D
      split: option.splits if_splits prod.splits sum.splits app_error.splits intro!: effect_log_event effect_put_session)

lemma effect_logout: "logout E t sid uid tid d = (d', r) \<Longrightarrow> effect E d d'"
  using effect_revoke [of E d "\<lambda>s. session_id s = sid" t "''logout''"]
  by (auto simp: logout_def intro!: effect_log_event)

lemma effect_switch_tenant: "switch_tenant E t raw uid sid tid d = (d', r) \<Longrightarrow> effect E d d'"
  by (auto simp: switch_tenant_def get_session_def Let_def dest!: find_Some_D
      split: option.splits if_splits prod.splits sum.splits intro!: effect_log_event effect_put_session)

lemma revoke_user_sessions_fields [simp]:
  "audit_log (revoke_user_sessions t uid why tid d) = audit_log d" "users (revoke_user_sessions t uid why tid d) = users d"
  "resets (revoke_user_sessions t uid why tid d) = resets d"
  by (simp_all add: revoke_user_sessions_def)

lemma effect_revoked_sessions:
  assumes "sessions d1 = sessions d" "audit_log d1 = audit_log d"
  shows "effect E d (revoke_user_sessions t uid why tid d1)"
  by (rule effect_sessions
      [of _ _ "RevokedWhere (\<lambda>s. sess_user s = uid \<and> (tid \<noteq> None \<longrightarrow> sess_tenant s = tid)) t why"])
    (use assms in \<open>auto simp: revoke_user_sessions_def update_where_def\<close>)

lemma effect_change_password: "change_password E t uid cur new d = (d', r) \<Longrightarrow> effect E d d'"
  by (auto simp: change_password_def split: option.splits if_splits sum.splits
      intro!: effect_log_event effect_revoked_sessions)

lemma effect_request_password_reset: "request_password_reset E t raw mail d = (d', r) \<Longrightarrow> effect E d d'"
  by (auto simp: request_password_reset_def split: option.splits if_splits intro!: effect_log_event)

lemma effect_reset_password: "reset_password E t raw pw d = (d', r) \<Longrightarrow> effect E d d'"
  by (auto simp: reset_password_def Let_def split: option.splits if_splits sum.splits
      intro!: effect_log_event effect_revoked_sessions)

lemma effect_mfa:
  "mfa_begin_setup E secret cipher uid pw d = (d', r) \<Longrightarrow> effect E d d'"
  "mfa_enable E t uid otp d = (d', r') \<Longrightarrow> effect E d d'"
  "mfa_disable E t uid pw otp d = (d', r'') \<Longrightarrow> effect E d d'"
  by (auto simp: mfa_begin_setup_def mfa_enable_def mfa_disable_def split: option.splits if_splits
      intro!: effect_log_event)

lemma effect_api_tokens:
  "create_api_token E t kid rnd tid u name ro ex d = (d', r) \<Longrightarrow> effect E d d'"
  "get_principal E decode t header d = (d', r') \<Longrightarrow> effect E d d'"
  by (auto simp: create_api_token_def get_principal_def principal_of_api_token_def principal_of_claims_def
      resolve_api_token_def Let_def split: option.splits if_splits sum.splits decoded.splits intro!: effect_log_event)

subsection \<open>Runs\<close>

text \<open>
  One request, with its own context and time. The identifier of a new session and the hash of a new
  refresh token are new: the table has a unique constraint on both.
\<close>

definition unique_sessions :: "db \<Rightarrow> bool" where
  "unique_sessions d \<longleftrightarrow> distinct (map session_id (sessions d)) \<and> distinct (map refresh_token_hash (sessions d))"

inductive auth_step :: "auth_env \<Rightarrow> db \<Rightarrow> db \<Rightarrow> bool" where
  authenticate: "authenticate E t sid raw mail pw d = (d', r) \<Longrightarrow> unique_sessions d' \<Longrightarrow> auth_step E d d'"
| complete_mfa: "complete_mfa E t sid raw tok otp d = (d', r') \<Longrightarrow> unique_sessions d' \<Longrightarrow> auth_step E d d'"
| refresh: "refresh E t raw raw0 d = (d', r') \<Longrightarrow> unique_sessions d' \<Longrightarrow> auth_step E d d'"
| logout: "logout E t sid uid tid d = (d', ru) \<Longrightarrow> auth_step E d d'"
| switch_tenant: "switch_tenant E t raw uid sid ti d = (d', r') \<Longrightarrow> unique_sessions d' \<Longrightarrow> auth_step E d d'"
| change_password: "change_password E t uid cur new d = (d', ru) \<Longrightarrow> auth_step E d d'"
| request_reset: "request_password_reset E t raw mail d = (d', ro) \<Longrightarrow> auth_step E d d'"
| reset_password: "reset_password E t raw pw d = (d', ru) \<Longrightarrow> auth_step E d d'"
| mfa_begin_setup: "mfa_begin_setup E secret cipher uid pw d = (d', rs) \<Longrightarrow> auth_step E d d'"
| mfa_enable: "mfa_enable E t uid otp d = (d', ru) \<Longrightarrow> auth_step E d d'"
| mfa_disable: "mfa_disable E t uid pw otp d = (d', ru) \<Longrightarrow> auth_step E d d'"
| create_api_token: "create_api_token E t kid rnd ti u name rl ex d = (d', k) \<Longrightarrow> auth_step E d d'"
| get_principal: "get_principal E decode t header d = (d', rp) \<Longrightarrow> auth_step E d d'"

inductive auth_run :: "auth_settings \<Rightarrow> (string \<Rightarrow> string) \<Rightarrow> db \<Rightarrow> db \<Rightarrow> bool" for c h where
  none: "auth_run c h d d"
| step: "auth_run c h d d1 \<Longrightarrow> cfg E = c \<Longrightarrow> sha E = h \<Longrightarrow> auth_step E d1 d2 \<Longrightarrow> auth_run c h d d2"

lemma auth_step_effect: "auth_step E d d' \<Longrightarrow> effect E d d'"
  by (induction rule: auth_step.induct)
    (auto intro: effect_authenticate effect_complete_mfa effect_refresh effect_logout effect_switch_tenant
      effect_change_password effect_request_password_reset effect_reset_password effect_mfa effect_api_tokens)

lemma unique_sessions_revoke:
  "unique_sessions d \<Longrightarrow> sessions d' = update_where P (revoke t why) (sessions d) \<Longrightarrow> unique_sessions d'"
  by (simp add: unique_sessions_def map_update_where revoke_def)

lemma unique_sessions_same: "unique_sessions d \<Longrightarrow> sessions d' = sessions d \<Longrightarrow> unique_sessions d'"
  by (simp add: unique_sessions_def)

lemma unique_sessions_api_tokens [simp]: "unique_sessions (d\<lparr>api_tokens := ks\<rparr>) = unique_sessions d"
  by (simp add: unique_sessions_def)

lemma unique_sessions_step: "auth_step E d d' \<Longrightarrow> unique_sessions d \<Longrightarrow> unique_sessions d'"
proof (induction rule: auth_step.induct)
  case (logout E t sid uid tid d d' ru)
  then show ?case by (auto simp: logout_def intro: unique_sessions_revoke)
next
  case (change_password E t uid cur new d d' ru)
  then show ?case
    by (auto simp: change_password_def revoke_user_sessions_def split: option.splits if_splits sum.splits
        intro: unique_sessions_revoke)
next
  case (reset_password E t raw pw d d' ru)
  then show ?case
    by (auto simp: reset_password_def revoke_user_sessions_def Let_def split: option.splits if_splits sum.splits
        intro: unique_sessions_revoke)
qed (auto simp: request_password_reset_def mfa_begin_setup_def mfa_enable_def mfa_disable_def create_api_token_def
    get_principal_def principal_of_api_token_def principal_of_claims_def resolve_api_token_def Let_def
    split: option.splits if_splits sum.splits decoded.splits intro: unique_sessions_same)

subsection \<open>The invariant\<close>

definition auth_inv :: "(string \<Rightarrow> string) \<Rightarrow> db \<Rightarrow> bool" where
  "auth_inv h d \<longleftrightarrow> unique_sessions d \<and> chains_intact h (audit_log d) \<and>
     (\<forall>s \<in> set (sessions d). expires_at s \<le> absolute_expires_at s)"

text \<open>A session keeps its owner and its absolute expiry; a revoked session does not change any more.\<close>

definition evolves :: "db \<Rightarrow> db \<Rightarrow> bool" where
  "evolves d d' \<longleftrightarrow>
     (\<forall>s \<in> set (sessions d). \<exists>s' \<in> set (sessions d').
        session_core s' = session_core s \<and> (revoked_at s \<noteq> None \<longrightarrow> s' = s))"

lemma evolves_refl: "evolves d d"
  by (auto simp: evolves_def)

lemma evolves_trans:
  assumes "evolves d d1" "evolves d1 d2"
  shows "evolves d d2"
  unfolding evolves_def
proof
  fix s
  assume "s \<in> set (sessions d)"
  then obtain s1 where s1: "s1 \<in> set (sessions d1)" "session_core s1 = session_core s" "revoked_at s \<noteq> None \<longrightarrow> s1 = s"
    using assms(1) unfolding evolves_def by blast
  then obtain s2 where "s2 \<in> set (sessions d2)" "session_core s2 = session_core s1" "revoked_at s1 \<noteq> None \<longrightarrow> s2 = s1"
    using assms(2) unfolding evolves_def by blast
  then show "\<exists>s2 \<in> set (sessions d2). session_core s2 = session_core s \<and> (revoked_at s \<noteq> None \<longrightarrow> s2 = s)"
    using s1 by auto
qed

lemma same_id: "unique_sessions d \<Longrightarrow> s \<in> set (sessions d) \<Longrightarrow> s' \<in> set (sessions d) \<Longrightarrow>
  session_id s = session_id s' \<Longrightarrow> s = s'"
  by (auto simp: unique_sessions_def distinct_map dest: inj_onD)

lemma same_hash: "unique_sessions d \<Longrightarrow> s \<in> set (sessions d) \<Longrightarrow> s' \<in> set (sessions d) \<Longrightarrow>
  refresh_token_hash s = refresh_token_hash s' \<Longrightarrow> s = s'"
  by (auto simp: unique_sessions_def distinct_map dest: inj_onD)

lemma effect_evolves:
  assumes "legal_effect c (sessions d) e" "sessions d' = apply_effect e (sessions d)" "unique_sessions d"
  shows "evolves d d'"
  unfolding evolves_def
proof
  fix s
  assume s: "s \<in> set (sessions d)"
  show "\<exists>s' \<in> set (sessions d'). session_core s' = session_core s \<and> (revoked_at s \<noteq> None \<longrightarrow> s' = s)"
  proof (cases e)
    case (Changed s0 s1)
    show ?thesis
    proof (cases "session_id s = session_id s1")
      case True
      then have "s = s0" using same_id [OF assms(3) s] assms(1) Changed by (auto simp: session_core_def)
      then show ?thesis using assms(1,2) s Changed True by (auto simp: set_update_where intro!: bexI [of _ s1])
    next
      case False
      then show ?thesis using assms(2) s Changed by (auto simp: set_update_where intro!: bexI [of _ s])
    qed
  next
    case (RevokedWhere P t why)
    then have "(if P s \<and> revoked_at s = None then revoke t why s else s) \<in> set (sessions d')"
      using assms(2) s by (simp only: apply_effect.simps set_update_where) (rule imageI)
    then show ?thesis by (rule rev_bexI) auto
  qed (use assms(2) s in auto)
qed

lemma effect_expiry:
  assumes "legal_effect c (sessions d) e" "sessions d' = apply_effect e (sessions d)"
    and "refresh_token_ttl_days c \<le> session_absolute_ttl_days c"
    and "\<forall>s \<in> set (sessions d). expires_at s \<le> absolute_expires_at s"
  shows "\<forall>s \<in> set (sessions d'). expires_at s \<le> absolute_expires_at s"
  using assms by (cases e) (auto simp: set_update_where days_def session_core_def revoke_def)

lemma auth_step_inv:
  assumes "auth_step E d d'" "auth_inv (sha E) d"
    and "refresh_token_ttl_days (cfg E) \<le> session_absolute_ttl_days (cfg E)"
  shows "auth_inv (sha E) d'" "evolves d d'"
proof -
  obtain e where e: "legal_effect (cfg E) (sessions d) e" "sessions d' = apply_effect e (sessions d)"
    and log: "audit_log d' = audit_log d \<or> (\<exists>t a. audit_log d' = record_entry (sha E) (ctx E) t a (audit_log d))"
    using auth_step_effect [OF assms(1)] by (auto simp: effect_def)
  show "evolves d d'" using effect_evolves [OF e] assms(2) by (simp add: auth_inv_def)
  show "auth_inv (sha E) d'"
    using effect_expiry [OF e assms(3)] unique_sessions_step [OF assms(1)] assms(2) log chains_intact_record
    by (auto simp: auth_inv_def)
qed

lemma auth_run_inv:
  assumes "auth_run c h d d'" "auth_inv h d" "refresh_token_ttl_days c \<le> session_absolute_ttl_days c"
  shows "auth_inv h d' \<and> evolves d d'"
  using assms
proof (induction rule: auth_run.induct)
  case (none d)
  then show ?case by (simp add: evolves_refl)
next
  case (step d d1 E d2)
  then show ?case using auth_step_inv [of E d1 d2] evolves_trans [of d d1 d2] by auto
qed

lemma get_session_unique:
  "unique_sessions d \<Longrightarrow> s \<in> set (sessions d) \<Longrightarrow> get_session d (session_id s) = Some s"
  unfolding get_session_def by (rule find_unique) (auto dest: same_id)

lemma unique_sessions_put:
  assumes "unique_sessions d" "s \<in> set (sessions d)" "sessions d' = sessions (put_session s' d)"
    and "session_id s' = session_id s" "refresh_token_hash s' = refresh_token_hash s"
  shows "unique_sessions d'"
proof -
  have "map session_id (sessions d') = map session_id (sessions d)"
    "map refresh_token_hash (sessions d') = map refresh_token_hash (sessions d)"
    using assms by (auto simp: put_session_def update_where_def dest: same_id [OF assms(1,2) _ sym])
  then show ?thesis using assms(1) by (simp add: unique_sessions_def)
qed

lemma find_refresh_unique:
  assumes "unique_sessions d" "s \<in> set (sessions d)"
  shows "find (\<lambda>x. refresh_token_hash x = refresh_token_hash s) (sessions d) = Some s"
  by (rule find_unique) (use assms in \<open>auto simp: unique_sessions_def distinct_map dest: inj_onD\<close>)

lemma revoked_final:
  assumes "auth_inv h d" "refresh_token_ttl_days c \<le> session_absolute_ttl_days c" "auth_run c h d d'"
    and "s \<in> set (sessions d)" "revoked_at s \<noteq> None"
  shows "get_session d' (session_id s) = Some s"
  using auth_run_inv [OF assms(3,1,2)] assms(4,5) get_session_unique [of d' s]
  by (auto simp: auth_inv_def evolves_def)

lemma refresh_success:
  assumes "refresh E t raw raw0 d = (d1, Inr toks)"
  shows "\<exists>s. find (\<lambda>s. refresh_token_hash s = hash_token E raw0) (sessions d) = Some s \<and> revoked_at s = None \<and>
    t < expires_at s \<and> t < absolute_expires_at s \<and> tok_session toks = session_id s \<and>
    d1 = put_session ((rotate E raw s)\<lparr>expires_at := min (t + days (refresh_token_ttl_days (cfg E))) (absolute_expires_at s),
           last_used_at := Some t\<rparr>) d"
proof (cases "find (\<lambda>s. refresh_token_hash s = hash_token E raw0) (sessions d)")
  case None
  then show ?thesis using assms by (simp add: refresh_def SESSION_EXPIRED_def)
next
  case (Some s)
  then show ?thesis
    using assms
    by (auto simp: refresh_def SESSION_EXPIRED_def Let_def tokens_of_def rotate_def
        split: option.splits if_splits sum.splits app_error.splits prod.splits)
qed

text \<open>A session that is revoked passes no request and no refresh.\<close>

lemma revoked_refused:
  assumes "unique_sessions d" "get_session d sid = Some s" "revoked_at s \<noteq> None"
  shows "c_sid c = sid \<Longrightarrow> principal_of_claims t c d = (d, SESSION_EXPIRED)"
    and "refresh E t raw raw0 d = (d', Inr toks) \<Longrightarrow> tok_session toks \<noteq> sid"
proof -
  show "c_sid c = sid \<Longrightarrow> principal_of_claims t c d = (d, SESSION_EXPIRED)"
    using assms by (simp add: principal_of_claims_def)
  assume "refresh E t raw raw0 d = (d', Inr toks)"
  then obtain s' where s': "s' \<in> set (sessions d)" "revoked_at s' = None" "tok_session toks = session_id s'"
    using refresh_success by (blast dest: find_Some_D)
  then show "tok_session toks \<noteq> sid"
    using assms get_session_unique [OF assms(1) s'(1)] by auto
qed

subsection \<open>Properties\<close>

text \<open>
  C11: signing out is final. After the logout of a session, in every later state of the service no
  access token of that session is accepted and no refresh issues tokens for it, whatever requests
  were served in between.
\<close>

theorem logout_final:
  assumes "auth_inv h d" "cfg E = c" "sha E = h" "refresh_token_ttl_days c \<le> session_absolute_ttl_days c"
    and "get_session d sid \<noteq> None" "logout E t sid uid tid d = (d1, r)" "auth_run c h d1 d2"
  shows "(c_sid claims = sid \<longrightarrow> snd (principal_of_claims t' claims d2) = SESSION_EXPIRED) \<and>
    (refresh E' t' raw raw0 d2 = (d3, Inr toks) \<longrightarrow> tok_session toks \<noteq> sid)"
proof -
  obtain s where s: "s \<in> set (sessions d)" "session_id s = sid"
    using assms(5) by (auto simp: get_session_def dest: find_Some_D)
  have inv1: "auth_inv h d1"
    using auth_step_inv(1) [OF auth_step.logout [OF assms(6)]] assms(1-4) by simp
  define s1 where "s1 = (if revoked_at s = None then revoke t ''logout'' s else s)"
  have "s1 \<in> set (sessions d1)"
    using assms(6) s by (auto simp: logout_def set_update_where s1_def image_iff)
  moreover have "revoked_at s1 \<noteq> None" "session_id s1 = sid"
    using s(2) by (auto simp: s1_def revoke_def)
  ultimately have "get_session d2 sid = Some s1" "revoked_at s1 \<noteq> None"
    using revoked_final [OF inv1 assms(4,7)] by auto
  moreover have "unique_sessions d2"
    using auth_run_inv [OF assms(7) inv1 assms(4)] by (simp add: auth_inv_def)
  ultimately show ?thesis using revoked_refused by auto
qed

text \<open>A deployment with one tenant, one member and one session, for the examples.\<close>

definition example_env :: auth_env where
  "example_env = \<lparr>cfg = \<lparr>access_token_ttl_minutes = 15, refresh_token_ttl_days = 7, session_absolute_ttl_days = 30,
       session_idle_ttl_minutes = 30, mfa_challenge_ttl_minutes = 5, password_reset_ttl_minutes = 30,
       password_min_length = 12, account_lockout_threshold = 5, account_lockout_minutes = 15\<rparr>,
     ctx = no_context, argon_verify = (\<lambda>h pw. h = pw), argon_hash = (\<lambda>pw. pw), needs_rehash = (\<lambda>_. False),
     DUMMY_HASH = ''!'', hash_token = (\<lambda>x. x), decrypt = (\<lambda>c _. c), totp_verify = (\<lambda>s c _. s = c),
     decode_mfa_challenge = (\<lambda>tok t. if tok = ''challenge'' then Some \<lparr>m_sub = 2, m_tid = Some 3, m_exp = 0\<rparr> else None),
     sha = (\<lambda>x. x)\<rparr>"

definition example_user :: user where
  "example_user = \<lparr>user_id = 2, email = ''a@example.com'', password_hash = Some ''pw'', is_active = True,
     is_platform_admin = False, mfa_enabled = False, mfa_secret_encrypted = None, auth_provider = ''local'',
     failed_login_count = 0, locked_until = None, last_login_at = None, password_changed_at = None,
     default_tenant_id = Some 3\<rparr>"

definition example_db :: "user \<Rightarrow> db" where
  "example_db u = \<lparr>users = [u], tenants = [\<lparr>tenant_id = 3, tenant_state = tenant_status.ACTIVE\<rparr>],
     memberships = [\<lparr>mem_tenant = 3, mem_user = 2, mem_role = role.SECURITY_ANALYST, mem_active = True, mem_created = 0\<rparr>],
     sessions = [], resets = [], api_tokens = [], audit_log = []\<rparr>"

definition signed_in :: db where
  "signed_in = (example_db example_user)\<lparr>sessions := [\<lparr>session_id = 9, sess_user = 2, sess_tenant = Some 3,
     refresh_token_hash = ''r0'', previous_token_hash = None, last_used_at = Some 0, expires_at = days 7,
     absolute_expires_at = days 30, revoked_at = None, revoked_reason = None, sess_ip = None, sess_agent = None,
     mfa_verified = False\<rparr>]\<rparr>"

lemma signed_in_inv: "auth_inv (sha example_env) signed_in"
  by (simp add: auth_inv_def unique_sessions_def signed_in_def example_db_def chains_intact_Nil days_def)

theorem logout_final_witness:
  "get_session signed_in 9 \<noteq> None \<and>
   snd (principal_of_claims 6 \<lparr>c_sub = 2, c_tid = Some 3, c_role = role.SECURITY_ANALYST, c_sid = 9, c_pa = False,
     c_iat = 0, c_exp = 900\<rparr> (fst (logout example_env 5 9 2 None signed_in))) = SESSION_EXPIRED"
proof -
  have g: "get_session signed_in 9 \<noteq> None" by (simp add: get_session_def signed_in_def example_db_def)
  obtain d1 r where d1: "logout example_env 5 9 2 None signed_in = (d1, r)" by fastforce
  have c: "refresh_token_ttl_days (cfg example_env) \<le> session_absolute_ttl_days (cfg example_env)"
    by (simp add: example_env_def)
  show ?thesis
    using logout_final [OF signed_in_inv refl refl c g d1 auth_run.none, where t' = 6 and
        claims = "\<lparr>c_sub = 2, c_tid = Some 3, c_role = role.SECURITY_ANALYST, c_sid = 9, c_pa = False,
          c_iat = 0, c_exp = 900\<rparr>"] g d1
    by simp
qed


definition refreshed :: "db \<times> (app_error + session_tokens)" where
  "refreshed = refresh example_env 60 ''r1'' ''r0'' signed_in"

lemma refreshed_eq:
  "\<exists>toks. refreshed = (fst refreshed, Inr toks) \<and> tok_session toks = 9 \<and> unique_sessions (fst refreshed)"
  by (simp add: refreshed_def refresh_def signed_in_def example_db_def example_env_def idle_def minutes_def days_def
      get_user_def example_user_def resolve_tenant_def active_membership_def tenant_active_def effective_role_def
      tokens_of_def create_access_token_def Let_def put_session_def rotate_def unique_sessions_def update_where_def)


definition compared :: "db \<Rightarrow> string \<Rightarrow> time \<Rightarrow> bool" where
  "compared d mail t \<longleftrightarrow>
     (case find (\<lambda>u. email u = normalize_email mail) (users d) of
        Some u \<Rightarrow> is_active u \<and> password_hash u \<noteq> None \<and> \<not> is_locked u t
      | None \<Rightarrow> False)"

fun guesses :: "auth_env \<Rightarrow> string \<Rightarrow> (time \<times> string) list \<Rightarrow> db \<Rightarrow> int" where
  "guesses E mail [] d = 0"
| "guesses E mail ((t, pw) # as) d =
     (if compared d mail t then 1 else 0) + guesses E mail as (fst (authenticate E t 0 [] mail pw d))"

definition wf_users :: "db \<Rightarrow> bool" where
  "wf_users d \<longleftrightarrow> distinct (map user_id (users d)) \<and> distinct (map email (users d))"

lemma same_email: "wf_users d \<Longrightarrow> x \<in> set (users d) \<Longrightarrow> y \<in> set (users d) \<Longrightarrow> email x = email y \<Longrightarrow> x = y"
  by (auto simp: wf_users_def distinct_map dest: inj_onD)

lemma find_put_user:
  assumes "wf_users d" "find (\<lambda>u. email u = e) (users d) = Some u" "user_id u' = user_id u" "email u' = email u"
  shows "find (\<lambda>u. email u = e) (users (put_user u' d)) = Some u'" "wf_users (put_user u' d)"
proof -
  have u: "u \<in> set (users d)" "email u = e" using find_Some_D [OF assms(2)] by auto
  have one: "x = u" if "x \<in> set (users d)" "user_id x = user_id u" for x
    using assms(1) that u(1) by (auto simp: wf_users_def distinct_map dest: inj_onD)
  have same: "map user_id (users (put_user u' d)) = map user_id (users d)"
    "map email (users (put_user u' d)) = map email (users d)"
    using assms(3,4) one by (auto simp: put_user_def update_where_def)
  then show wf: "wf_users (put_user u' d)" using assms(1) by (simp add: wf_users_def)
  have "u' \<in> set (users (put_user u' d))"
    using u(1) assms(3) by (force simp: put_user_def set_update_where)
  then show "find (\<lambda>u. email u = e) (users (put_user u' d)) = Some u'"
    using u(2) assms(4) by (intro find_unique) (auto intro: same_email [OF wf])
qed

text \<open>A wrong password changes at most the counter and the lock of its account.\<close>

lemma authenticate_wrong:
  assumes "wf_users d" "find (\<lambda>u. email u = normalize_email mail) (users d) = Some u"
    and "\<not> verify_password E pw (password_hash u)"
    and d': "d' = fst (authenticate E t sid raw mail pw d)"
    and u': "u' = (if compared d mail t then fst (count_failure (cfg E) t u) else u)"
  shows "wf_users d'" "find (\<lambda>u. email u = normalize_email mail) (users d') = Some u'"
proof -
  have c: "compared d mail t \<longleftrightarrow> is_active u \<and> password_hash u \<noteq> None \<and> \<not> is_locked u t"
    using assms(2) by (simp add: compared_def)
  have "users d' = (if compared d mail t then users (put_user u' d) else users d)"
    using assms(2,3) c by (auto simp: d' u' authenticate_def Let_def split: prod.splits)
  moreover have "user_id u' = user_id u" "email u' = email u"
    by (simp_all add: u' count_failure_def Let_def)
  ultimately show "wf_users d'" "find (\<lambda>u. email u = normalize_email mail) (users d') = Some u'"
    using find_put_user [OF assms(1,2), of u'] assms(1,2) by (auto simp: wf_users_def u' split: if_splits)
qed

lemma guesses_bound:
  assumes "wf_users d" "find (\<lambda>u. email u = normalize_email mail) (users d) = Some u"
    and "\<forall>(t, pw) \<in> set as. \<not> verify_password E pw (password_hash u)"
    and "sorted (map fst as)" "\<forall>(t, pw) \<in> set as. T \<le> t + minutes (account_lockout_minutes (cfg E)) \<and> t < T"
    and "1 \<le> account_lockout_threshold (cfg E)" "0 \<le> failed_login_count u"
  shows "guesses E mail as d \<le>
    (case locked_until u of
       Some l \<Rightarrow> if T \<le> l then 0 else max 1 (account_lockout_threshold (cfg E) - failed_login_count u)
     | None \<Rightarrow> max 1 (account_lockout_threshold (cfg E) - failed_login_count u))"
  using assms
proof (induction as arbitrary: d u)
  case (Cons a as)
  obtain t pw where a: "a = (t, pw)" by fastforce
  let ?d = "fst (authenticate E t 0 [] mail pw d)"
  let ?u = "if compared d mail t then fst (count_failure (cfg E) t u) else u"
  have wrong: "\<not> verify_password E pw (password_hash u)" using Cons.prems(3) a by auto
  note nxt = authenticate_wrong [OF Cons.prems(1,2) wrong refl refl, where t = t and sid = 0 and raw = "[]"]
  have same: "password_hash ?u = password_hash u" "0 \<le> failed_login_count ?u"
    using Cons.prems(7) by (simp_all add: count_failure_def Let_def)
  have IH: "guesses E mail as ?d \<le>
      (case locked_until ?u of
         Some l \<Rightarrow> if T \<le> l then 0 else max 1 (account_lockout_threshold (cfg E) - failed_login_count ?u)
       | None \<Rightarrow> max 1 (account_lockout_threshold (cfg E) - failed_login_count ?u))"
    by (rule Cons.IH [OF nxt]) (use Cons.prems(3-6) same in auto)
  have t: "T \<le> t + minutes (account_lockout_minutes (cfg E))" "t < T" using Cons.prems(5) a by auto
  have locked: "compared d mail t \<Longrightarrow> \<not> is_locked u t" using Cons.prems(2) by (simp add: compared_def)
  show ?case
    using IH t locked Cons.prems(6,7)
    by (auto simp: a count_failure_def is_locked_def Let_def max_def split: option.splits if_splits)
qed (auto split: option.splits)



definition mfa_user :: "int \<Rightarrow> time option \<Rightarrow> user" where
  "mfa_user n l = example_user\<lparr>mfa_enabled := True, mfa_secret_encrypted := Some ''123456'',
     failed_login_count := n, locked_until := l\<rparr>"

lemma example_texts: "normalize_email ''a@example.com'' = ''a@example.com''" "strip ''123456'' = ''123456''"
  by code_simp+

lemma login_clears_count:
  "fst (authenticate example_env t sid raw ''a@example.com'' ''pw'' (example_db (mfa_user n None))) =
     example_db (mfa_user 0 None)"
  by (simp add: authenticate_def example_db_def mfa_user_def example_user_def example_env_def example_texts
      verify_password_def is_locked_def resolve_tenant_def active_membership_def tenant_active_def
      effective_role_def put_user_def update_where_def)


definition sound_principal :: "db \<Rightarrow> principal \<Rightarrow> bool" where
  "sound_principal d p \<longleftrightarrow> (\<exists>u. get_user d (p_user p) = Some u \<and> is_active u \<and> p_permissions p = permissions_for (p_role p) \<and>
    (p_platform_admin p \<longrightarrow> is_platform_admin u \<and> p_api_token p = None) \<and>
    (is_platform_admin u \<or>
     (\<exists>tid m. p_tenant p = Some tid \<and> m \<in> set (memberships d) \<and> mem_user m = p_user p \<and> mem_tenant m = tid \<and>
        mem_active m \<and> tenant_active d tid tenant_status.ACTIVE \<and>
        set (p_permissions p) \<subseteq> set (permissions_for (mem_role m)))))"

lemma get_user_id: "get_user d i = Some u \<Longrightarrow> user_id u = i"
  by (auto simp: get_user_def dest: find_Some_D)

lemma active_membershipD:
  "active_membership d u tid = Some m \<Longrightarrow> m \<in> set (memberships d) \<and> mem_user m = user_id u \<and>
     mem_tenant m = tid \<and> mem_active m \<and> tenant_active d tid tenant_status.ACTIVE"
  by (auto simp: active_membership_def dest: find_Some_D)

lemma sound_principalI:
  assumes "get_user d i = Some u" "is_active u" "p_user p = user_id u" "p_permissions p = permissions_for (p_role p)"
    and "p_platform_admin p \<longrightarrow> is_platform_admin u \<and> p_api_token p = None"
    and "is_platform_admin u \<or> (\<exists>tid m. p_tenant p = Some tid \<and> active_membership d u tid = Some m \<and>
        ROLE_RANK (p_role p) \<le> ROLE_RANK (mem_role m))"
  shows "sound_principal d p"
  unfolding sound_principal_def
  using assms get_user_id [OF assms(1)] permissions_mono active_membershipD [of d u]
  by (intro exI [of _ u]) (auto, blast)

lemma principal_sound_api:
  assumes "principal_of_api_token E t token d = (d', Inr p)"
  shows "sound_principal d p"
proof -
  obtain d1 k u where r: "resolve_api_token E t token d = Some (d1, k, u)"
    using assms by (auto simp: principal_of_api_token_def split: option.splits)
  then obtain i where u: "get_user d i = Some u" "is_active u"
    by (auto simp: resolve_api_token_def split: option.splits if_splits)
  show ?thesis
    by (rule sound_principalI [OF u])
      (use assms r in \<open>auto simp: principal_of_api_token_def Let_def split: if_splits\<close>)
qed

lemma principal_sound_claims:
  assumes "principal_of_claims t c d = (d', Inr p)"
  shows "sound_principal d p"
proof -
  obtain u where u: "get_user d (c_sub c) = Some u" "is_active u"
    using assms by (auto simp: principal_of_claims_def SESSION_EXPIRED_def split: option.splits if_splits)
  have "is_platform_admin u \<or> (\<exists>tid m. p_tenant p = Some tid \<and> active_membership d u tid = Some m \<and>
      ROLE_RANK (p_role p) \<le> ROLE_RANK (mem_role m))"
    using assms u
    by (auto simp: principal_of_claims_def SESSION_EXPIRED_def Let_def split: option.splits if_splits; metis order_refl)
  then show ?thesis
    by (intro sound_principalI [OF u])
      (use assms u in \<open>auto simp: principal_of_claims_def SESSION_EXPIRED_def Let_def split: option.splits if_splits\<close>)
qed

text \<open>
  C12: what an authenticated request may do. A principal is an active user, its permissions are those
  of its role, and unless the user is a platform administrator it has a tenant in which the user is
  currently an active member of an active tenant with a role that has all those permissions. The role of an API
  token never exceeds that of its owner.
\<close>

theorem principal_sound:
  assumes "get_principal E decode t header d = (d', Inr p)"
  shows "\<exists>u. get_user d (p_user p) = Some u \<and> is_active u \<and> p_permissions p = permissions_for (p_role p) \<and>
    (p_platform_admin p \<longrightarrow> is_platform_admin u \<and> p_api_token p = None) \<and>
    (is_platform_admin u \<or>
     (\<exists>tid m. p_tenant p = Some tid \<and> m \<in> set (memberships d) \<and> mem_user m = p_user p \<and> mem_tenant m = tid \<and>
        mem_active m \<and> tenant_active d tid tenant_status.ACTIVE \<and>
        set (p_permissions p) \<subseteq> set (permissions_for (mem_role m))))"
  using principal_sound_api [of E t _ d d' p] principal_sound_claims [of t _ d d' p] assms
  by (auto simp: get_principal_def sound_principal_def split: sum.splits if_splits decoded.splits)

theorem principal_sound_witness:
  "\<exists>d' p. get_principal example_env (\<lambda>_ _. Claims \<lparr>c_sub = 2, c_tid = Some 3, c_role = role.TENANT_ADMIN, c_sid = 9,
       c_pa = True, c_iat = 0, c_exp = 900\<rparr>) 5 ''Bearer x'' signed_in = (d', Inr p) \<and>
     p_role p = role.SECURITY_ANALYST \<and> p_permissions p = permissions_for (p_role p)"
proof -
  let ?dec = "\<lambda>_ _. Claims \<lparr>c_sub = 2, c_tid = Some 3, c_role = role.TENANT_ADMIN, c_sid = 9, c_pa = True, c_iat = 0, c_exp = 900\<rparr>"
  have b: "bearer ''Bearer x'' = Inr ''x''" by code_simp
  have "\<not> startswith ''x'' API_TOKEN_PREFIX" by code_simp
  then have "\<exists>d' p. get_principal example_env ?dec 5 ''Bearer x'' signed_in = (d', Inr p) \<and> p_role p = role.SECURITY_ANALYST"
    by (simp add: get_principal_def b principal_of_claims_def get_session_def signed_in_def example_db_def get_user_def
        example_user_def active_membership_def tenant_active_def days_def)
  then obtain d' p where p: "get_principal example_env ?dec 5 ''Bearer x'' signed_in = (d', Inr p)" "p_role p = role.SECURITY_ANALYST"
    by blast
  with principal_sound [OF p(1)] show ?thesis by blast
qed

end
