(* ===== verification/Cloud.thy ===== *)
theory Cloud
  imports Targets
begin

text \<open>
  Cloud, CDN and SaaS hosting recognised from hostnames and autonomous systems
  (\<open>backend/app/assets/cloud.py\<close>). A pattern is a predicate on the hostname. Every pattern ends
  with \<open>$\<close>, which also matches before a final newline (\<^const>\<open>re_body\<close>).
\<close>

record cloud_match =
  provider :: string
  service :: string
  cloud_kind :: string
  resource :: string

definition has_suffix :: "string list \<Rightarrow> string \<Rightarrow> bool" where
  "has_suffix ss h \<longleftrightarrow> list_ex (endswith (re_body h)) ss"

definition region_char :: "char \<Rightarrow> bool" where
  "region_char c \<longleftrightarrow> islower c \<or> isdigit c \<or> c = CHR ''-''"

text \<open>The part of a hostname before \<open>.amazonaws.com\<close>, if it has that suffix.\<close>

definition aws_stem :: "string \<Rightarrow> string option" where
  "aws_stem h =
     (let b = re_body h; s = ''.amazonaws.com'' in
      if endswith b s then Some (take (length b - length s) b) else None)"

definition sep_region :: "string \<Rightarrow> bool" where
  "sep_region t \<longleftrightarrow> t \<noteq> [] \<and> hd t \<in> set ''.-'' \<and> tl t \<noteq> [] \<and> list_all region_char (tl t)"

definition s3_website :: "string \<Rightarrow> bool" where
  "s3_website h \<longleftrightarrow>
     (case aws_stem h of
        None \<Rightarrow> False
      | Some r \<Rightarrow>
          list_ex (\<lambda>t. (startswith t ''.s3.website'' \<or> startswith t ''.s3-website'') \<and> sep_region (drop 11 t)) (suffixes r))"

definition s3_bucket :: "string \<Rightarrow> bool" where
  "s3_bucket h \<longleftrightarrow>
     (case aws_stem h of
        None \<Rightarrow> False
      | Some r \<Rightarrow>
          list_ex (\<lambda>t. startswith t ''s3'' \<and> (drop 2 t = [] \<or> sep_region (drop 2 t)) \<and> (t = r \<or> endswith r (CHR ''.'' # t)))
            (suffixes r))"

definition api_gateway :: "string \<Rightarrow> bool" where
  "api_gateway h \<longleftrightarrow>
     (case aws_stem h of
        None \<Rightarrow> False
      | Some r \<Rightarrow>
          list_ex (\<lambda>t. startswith t ''.execute-api.'' \<and> drop 13 t \<noteq> [] \<and> list_all region_char (drop 13 t)) (suffixes r))"

definition PATTERNS :: "((string \<Rightarrow> bool) \<times> string \<times> string \<times> string) list" where
  "PATTERNS = [
      (s3_website, ''aws'', ''s3_website'', ''cloud''),
      (s3_bucket, ''aws'', ''s3'', ''cloud''),
      (has_suffix [''.cloudfront.net''], ''aws'', ''cloudfront'', ''cdn''),
      (has_suffix [''.elb.amazonaws.com''], ''aws'', ''elastic_load_balancer'', ''cloud''),
      (api_gateway, ''aws'', ''api_gateway'', ''cloud''),
      (has_suffix [''.elasticbeanstalk.com''], ''aws'', ''elastic_beanstalk'', ''paas''),
      (has_suffix [''.awsapprunner.com''], ''aws'', ''app_runner'', ''paas''),
      (has_suffix [''.amplifyapp.com''], ''aws'', ''amplify'', ''paas''),
      (has_suffix [''.amazonaws.com''], ''aws'', ''aws'', ''cloud''),
      (has_suffix [''.azurewebsites.net''], ''azure'', ''app_service'', ''paas''),
      (has_suffix [''.blob.core.windows.net''], ''azure'', ''blob_storage'', ''cloud''),
      (has_suffix [''.file.core.windows.net'', ''.queue.core.windows.net'', ''.table.core.windows.net''], ''azure'', ''storage'', ''cloud''),
      (has_suffix [''.database.windows.net''], ''azure'', ''sql_database'', ''cloud''),
      (has_suffix [''.cloudapp.azure.com'', ''.cloudapp.net''], ''azure'', ''virtual_machine'', ''cloud''),
      (has_suffix [''.azureedge.net''], ''azure'', ''cdn'', ''cdn''),
      (has_suffix [''.azurefd.net''], ''azure'', ''front_door'', ''cdn''),
      (has_suffix [''.trafficmanager.net''], ''azure'', ''traffic_manager'', ''cloud''),
      (has_suffix [''.azurestaticapps.net''], ''azure'', ''static_web_apps'', ''paas''),
      (has_suffix [''.azure-api.net''], ''azure'', ''api_management'', ''cloud''),
      (has_suffix [''.storage.googleapis.com''], ''gcp'', ''cloud_storage'', ''cloud''),
      (has_suffix [''.appspot.com''], ''gcp'', ''app_engine'', ''paas''),
      (has_suffix [''.run.app''], ''gcp'', ''cloud_run'', ''paas''),
      (has_suffix [''.cloudfunctions.net''], ''gcp'', ''cloud_functions'', ''paas''),
      (has_suffix [''.firebaseapp.com'', ''.web.app''], ''gcp'', ''firebase_hosting'', ''paas''),
      (has_suffix [''.oraclecloud.com''], ''oci'', ''oracle_cloud'', ''cloud''),
      (has_suffix [''.oci.customer-oci.com''], ''oci'', ''oracle_cloud'', ''cloud''),
      (has_suffix [''.herokuapp.com''], ''heroku'', ''app'', ''paas''),
      (has_suffix [''.github.io''], ''github'', ''pages'', ''paas''),
      (has_suffix [''.netlify.app'', ''.netlify.com''], ''netlify'', ''site'', ''paas''),
      (has_suffix [''.vercel.app''], ''vercel'', ''app'', ''paas''),
      (has_suffix [''.pages.dev''], ''cloudflare'', ''pages'', ''paas''),
      (has_suffix [''.workers.dev''], ''cloudflare'', ''workers'', ''paas''),
      (has_suffix [''.cdn.cloudflare.net''], ''cloudflare'', ''cdn'', ''cdn''),
      (has_suffix [''.akamaiedge.net'', ''.akamaized.net'', ''.edgekey.net'', ''.edgesuite.net'', ''.akamaihd.net''], ''akamai'', ''cdn'', ''cdn''),
      (has_suffix [''.fastly.net''], ''fastly'', ''cdn'', ''cdn''),
      (has_suffix [''.b-cdn.net''], ''bunny'', ''cdn'', ''cdn''),
      (has_suffix [''.myshopify.com''], ''shopify'', ''store'', ''saas''),
      (has_suffix [''.zendesk.com''], ''zendesk'', ''helpdesk'', ''saas''),
      (has_suffix [''.freshdesk.com''], ''freshworks'', ''helpdesk'', ''saas''),
      (has_suffix [''.wpengine.com''], ''wpengine'', ''wordpress'', ''saas''),
      (has_suffix [''.hubspotpagebuilder.com'', ''.hubspotpagebuilder.net'', ''.hubspot.com'', ''.hubspot.net''], ''hubspot'', ''cms'', ''saas''),
      (has_suffix [''.salesforce-sites.com'', ''.salesforce.com'', ''.force.com''], ''salesforce'', ''sites'', ''saas''),
      (has_suffix [''.sharepoint.com''], ''microsoft'', ''sharepoint'', ''saas'')]"

definition ASN_PROVIDERS :: "(int, string \<times> string) dict" where
  "ASN_PROVIDERS = [
      (16509, ''aws'', ''cloud''), (14618, ''aws'', ''cloud''), (8987, ''aws'', ''cloud''),
      (15169, ''gcp'', ''cloud''), (396982, ''gcp'', ''cloud''), (19527, ''gcp'', ''cloud''),
      (8075, ''azure'', ''cloud''), (8068, ''azure'', ''cloud''), (31898, ''oci'', ''cloud''),
      (13335, ''cloudflare'', ''cdn''), (209242, ''cloudflare'', ''cdn''), (20940, ''akamai'', ''cdn''),
      (16625, ''akamai'', ''cdn''), (63949, ''akamai'', ''cloud''), (54113, ''fastly'', ''cdn''),
      (14061, ''digitalocean'', ''cloud''), (24940, ''hetzner'', ''cloud''), (16276, ''ovh'', ''cloud''),
      (20473, ''vultr'', ''cloud''), (36351, ''ibm'', ''cloud''), (25019, ''stc'', ''isp''),
      (39891, ''stc'', ''isp''), (35819, ''mobily'', ''isp''), (43766, ''zain-sa'', ''isp'')]"

definition CDN_PROVIDERS :: "string list" where
  "CDN_PROVIDERS = [''cloudflare'', ''akamai'', ''fastly'', ''bunny'']"

definition match_hostname :: "string \<Rightarrow> cloud_match option" where
  "match_hostname h =
     map_option (\<lambda>(_, p, s, k). \<lparr>provider = p, service = s, cloud_kind = k, resource = h\<rparr>)
       (find (\<lambda>(pat, _). pat h) PATTERNS)"

text \<open>The text of the number: an \<open>int\<close> and a \<open>str\<close> are both converted with \<open>str\<close> first.\<close>

definition provider_for_asn :: "string option \<Rightarrow> (string \<times> string) option" where
  "provider_for_asn asn =
     (case asn of
        None \<Rightarrow> None
      | Some a \<Rightarrow>
          (let u = map upper_char a; n = (if startswith u ''AS'' then drop 2 u else u) in
           case py_int n of None \<Rightarrow> None | Some i \<Rightarrow> map_of ASN_PROVIDERS i))"

definition resource_value :: "cloud_match \<Rightarrow> string" where
  "resource_value m = provider m @ '':'' @ service m @ '':'' @ resource m"

lemma match_hostname_resource: "match_hostname h = Some m \<Longrightarrow> resource m = h"
  by (auto simp: match_hostname_def)

end
