(* ===== verification/Knowledge.thy ===== *)
theory Knowledge
  imports Enums Json
begin

text \<open>
  The security knowledge of the platform (\<open>backend/app/changes/knowledge.py\<close>): ports and their
  severity, names of administrative interfaces, markers of login pages.
\<close>

definition RISKY_PORTS :: "(int, string \<times> severity) dict" where
  "RISKY_PORTS = [
      (21, ''FTP'', severity.MEDIUM), (23, ''Telnet'', severity.HIGH), (69, ''TFTP'', severity.HIGH),
      (111, ''RPCbind'', severity.MEDIUM), (135, ''Microsoft RPC'', severity.HIGH),
      (139, ''NetBIOS'', severity.HIGH), (161, ''SNMP'', severity.MEDIUM), (389, ''LDAP'', severity.MEDIUM),
      (445, ''SMB'', severity.HIGH), (873, ''rsync'', severity.MEDIUM),
      (1433, ''Microsoft SQL Server'', severity.HIGH), (1521, ''Oracle Database'', severity.HIGH),
      (1883, ''MQTT'', severity.MEDIUM), (2049, ''NFS'', severity.HIGH),
      (2375, ''Docker API (unencrypted)'', severity.CRITICAL), (2379, ''etcd'', severity.HIGH),
      (3268, ''LDAP Global Catalog'', severity.MEDIUM), (3306, ''MySQL'', severity.HIGH),
      (3389, ''Remote Desktop (RDP)'', severity.HIGH), (4786, ''Cisco Smart Install'', severity.HIGH),
      (5432, ''PostgreSQL'', severity.HIGH), (5601, ''Kibana'', severity.MEDIUM),
      (5672, ''AMQP'', severity.MEDIUM), (5900, ''VNC'', severity.HIGH), (5901, ''VNC'', severity.HIGH),
      (5984, ''CouchDB'', severity.HIGH), (5985, ''WinRM'', severity.HIGH),
      (5986, ''WinRM (TLS)'', severity.HIGH), (6379, ''Redis'', severity.HIGH),
      (6443, ''Kubernetes API'', severity.MEDIUM), (8161, ''ActiveMQ console'', severity.MEDIUM),
      (9042, ''Cassandra'', severity.HIGH), (9200, ''Elasticsearch'', severity.HIGH),
      (9300, ''Elasticsearch transport'', severity.HIGH), (10250, ''Kubelet API'', severity.HIGH),
      (11211, ''Memcached'', severity.HIGH), (15672, ''RabbitMQ management'', severity.MEDIUM),
      (27017, ''MongoDB'', severity.HIGH), (27018, ''MongoDB'', severity.HIGH),
      (50070, ''Hadoop NameNode'', severity.HIGH)]"

definition WEB_PORTS :: "int list" where
  "WEB_PORTS = [80, 81, 443, 591, 3000, 5000, 8000, 8008, 8080, 8081, 8443, 8888, 9443]"

definition WELL_KNOWN_SERVICES :: "(int, string) dict" where
  "WELL_KNOWN_SERVICES = [
      (22, ''ssh''), (25, ''smtp''), (53, ''dns''), (80, ''http''), (110, ''pop3''), (143, ''imap''),
      (443, ''https''), (465, ''smtps''), (587, ''submission''), (636, ''ldaps''), (993, ''imaps''),
      (995, ''pop3s''), (1194, ''openvpn''), (1723, ''pptp''), (500, ''isakmp''), (5060, ''sip''),
      (5061, ''sips''), (8080, ''http-alt''), (8443, ''https-alt'')]"

definition MANAGEMENT_INTERFACES :: "(string, string) dict" where
  "MANAGEMENT_INTERFACES = [
      (''jenkins'', ''Jenkins''), (''grafana'', ''Grafana''), (''kibana'', ''Kibana''),
      (''phpmyadmin'', ''phpMyAdmin''), (''cpanel'', ''cPanel''), (''webmin'', ''Webmin''),
      (''plesk'', ''Plesk''), (''vcenter'', ''VMware vCenter''), (''vmware esxi'', ''VMware ESXi''),
      (''fortigate'', ''FortiGate''), (''fortinet'', ''Fortinet''), (''fortiweb'', ''FortiWeb''),
      (''citrix'', ''Citrix''), (''netscaler'', ''Citrix NetScaler''), (''pulse secure'', ''Pulse Secure''),
      (''ivanti'', ''Ivanti''), (''globalprotect'', ''GlobalProtect''), (''palo alto'', ''Palo Alto''),
      (''sonicwall'', ''SonicWall''), (''cisco asa'', ''Cisco ASA''), (''big-ip'', ''F5 BIG-IP''),
      (''outlook web app'', ''Outlook Web App''), (''microsoft exchange'', ''Microsoft Exchange''),
      (''gitlab'', ''GitLab''), (''portainer'', ''Portainer''), (''rabbitmq'', ''RabbitMQ''),
      (''tomcat'', ''Apache Tomcat''), (''weblogic'', ''Oracle WebLogic''), (''jboss'', ''JBoss''),
      (''adminer'', ''Adminer''), (''solr'', ''Apache Solr''), (''zabbix'', ''Zabbix''),
      (''nagios'', ''Nagios''), (''pgadmin'', ''pgAdmin''), (''mongo express'', ''Mongo Express''),
      (''argocd'', ''Argo CD''), (''kubernetes dashboard'', ''Kubernetes Dashboard''),
      (''traefik'', ''Traefik dashboard''), (''splunk'', ''Splunk''), (''sophos'', ''Sophos''),
      (''checkpoint'', ''Check Point''), (''mikrotik'', ''MikroTik''), (''routeros'', ''MikroTik RouterOS''),
      (''ilo'', ''HPE iLO''), (''idrac'', ''Dell iDRAC''), (''synology'', ''Synology DSM''),
      (''qnap'', ''QNAP''), (''wordpress login'', ''WordPress login''), (''wp-admin'', ''WordPress admin'')]"

definition API_DOC_TECH :: "string list" where
  "API_DOC_TECH = [''swagger'', ''swagger-ui'', ''redoc'', ''graphql'', ''graphiql'', ''openapi'']"

definition LOGIN_MARKERS :: "string list" where
  "LOGIN_MARKERS = [
      ''login'', ''log in'', ''sign in'', ''signin'', ''sso'', ''authentication'',
      [CHR 0xD8, CHR 0xAA, CHR 0xD8, CHR 0xB3, CHR 0xD8, CHR 0xAC, CHR 0xD9, CHR 0x8A, CHR 0xD9, CHR 0x84, CHR 0x20, CHR 0xD8, CHR 0xA7, CHR 0xD9, CHR 0x84, CHR 0xD8, CHR 0xAF, CHR 0xD8, CHR 0xAE, CHR 0xD9, CHR 0x88, CHR 0xD9, CHR 0x84],
      [CHR 0xD8, CHR 0xAF, CHR 0xD8, CHR 0xAE, CHR 0xD9, CHR 0x88, CHR 0xD9, CHR 0x84]]"

definition management_interface :: "string option list \<Rightarrow> string option" where
  "management_interface texts =
     (let blob = join '' '' (map (lower \<circ> the) (filter (\<lambda>t. t \<noteq> None \<and> t \<noteq> Some []) texts)) in
      if blob = [] then None
      else map_option snd (find (\<lambda>(needle, _). contains blob needle) MANAGEMENT_INTERFACES))"

definition looks_like_login :: "string option \<Rightarrow> bool" where
  "looks_like_login title \<longleftrightarrow>
     list_ex (contains (lower (case title of Some t \<Rightarrow> t | None \<Rightarrow> []))) LOGIN_MARKERS"

definition port_exposure_severity :: "int \<Rightarrow> severity" where
  "port_exposure_severity port =
     (case map_of RISKY_PORTS port of
        Some (_, sev) \<Rightarrow> sev
      | None \<Rightarrow> if port \<in> set WEB_PORTS then severity.LOW else severity.MEDIUM)"

definition service_label :: "int \<Rightarrow> string option" where
  "service_label port =
     (case map_of RISKY_PORTS port of Some (label, _) \<Rightarrow> Some label | None \<Rightarrow> map_of WELL_KNOWN_SERVICES port)"

text \<open>No port has two entries, so the order of the tables does not matter.\<close>

lemma tables_distinct: "distinct (map fst RISKY_PORTS)" "distinct (map fst WELL_KNOWN_SERVICES)" "distinct WEB_PORTS"
  by code_simp+

end
