(* ===== verification/Detector.thy ===== *)
theory Detector
  imports Knowledge Normalization Complex_Main
begin

text \<open>
  Change detection (\<open>backend/app/changes/detector.py\<close>): what changed between the previous state and a
  new observation, as event drafts. \<^const>\<open>None\<close> around a result is an exception (a port value that does
  not parse, a risk level that does not exist).
\<close>

record event_draft =
  ev_type :: event_type
  ev_severity :: severity
  ev_title :: string
  ev_summary :: "string option"
  ev_previous :: json
  ev_new :: json
  ev_details :: json

definition draft :: "event_type \<Rightarrow> severity \<Rightarrow> string \<Rightarrow> event_draft" where
  "draft ty sev title = \<lparr>ev_type = ty, ev_severity = sev, ev_title = title, ev_summary = None,
     ev_previous = JNull, ev_new = JNull, ev_details = JObj []\<rparr>"

text \<open>The arrow of the titles, between two spaces.\<close>

definition arrow :: string where
  "arrow = [CHR '' '', CHR 0xE2, CHR 0x86, CHR 0x92, CHR '' '']"

definition port_parts :: "string \<Rightarrow> (string \<times> int \<times> string) option" where
  "port_parts value =
     (case rpartition (CHR '':'') value of (hostpart, _, rest) \<Rightarrow>
        case partition_str ''/'' rest of (p, _, proto) \<Rightarrow>
          map_option (\<lambda>n. (strip_brackets hostpart, n, if proto = [] then ''tcp'' else proto)) (py_int p))"

text \<open>\<open>{k: attrs.get(k) for k in keys if attrs.get(k)}\<close>, and the same with \<open>is not None\<close>.\<close>

definition pick :: "attrs \<Rightarrow> string list \<Rightarrow> json" where
  "pick d ks = JObj (map (\<lambda>k. (k, jget d k)) (filter (\<lambda>k. jtruthy (jget d k)) ks))"

definition pick_set :: "attrs \<Rightarrow> string list \<Rightarrow> json" where
  "pick_set d ks = JObj (map (\<lambda>k. (k, jget d k)) (filter (\<lambda>k. jget d k \<noteq> JNull) ks))"

definition opt_str :: "string option \<Rightarrow> json" where
  "opt_str v = (case v of Some s \<Rightarrow> JStr s | None \<Rightarrow> JNull)"

text \<open>\<open>f" ({label})" if label else ""\<close>\<close>

definition in_parens :: "string option \<Rightarrow> string" where
  "in_parens v = (case v of Some s \<Rightarrow> if s = [] then [] else '' ('' @ s @ '')'' | None \<Rightarrow> [])"

definition value_or :: "string option \<Rightarrow> string \<Rightarrow> string" where
  "value_or v d = (case v of Some s \<Rightarrow> if s = [] then d else s | None \<Rightarrow> d)"

subsection \<open>New assets\<close>

definition new_port :: "string \<Rightarrow> event_draft option" where
  "new_port value =
     map_option (\<lambda>(ip, p, proto).
       (draft event_type.PORT_OPENED (port_exposure_severity p)
          (''New externally exposed service: '' @ show_int p @ ''/'' @ proto @ '' on '' @ ip @ in_parens (service_label p)))
       \<lparr>ev_new := JObj [(''ip'', JStr ip), (''port'', JInt p), (''protocol'', JStr proto),
          (''service'', opt_str (service_label p))]\<rparr>) (port_parts value)"

definition new_service :: "string \<Rightarrow> attrs \<Rightarrow> event_draft option" where
  "new_service value a =
     map_option (\<lambda>(ip, p, proto).
       (draft event_type.SERVICE_DETECTED severity.LOW
          (''Service identified on '' @ ip @ '':'' @ show_int p @ ''/'' @ proto @ '': '' @
           jtext (jor (jget a ''name'') (JStr ''unknown'')) @
           in_parens (Some (join '' '' (map jtext (filter jtruthy [jget a ''product'', jget a ''version'']))))))
       \<lparr>ev_new := pick a [''name'', ''product'', ''version'']\<rparr>) (port_parts value)"

definition mgmt_details :: "string option \<Rightarrow> json" where
  "mgmt_details mgmt = (case mgmt of Some m \<Rightarrow> JObj [(''management_interface'', JStr m)] | None \<Rightarrow> JObj [])"

definition new_endpoint :: "string \<Rightarrow> attrs \<Rightarrow> event_draft" where
  "new_endpoint value a =
     (let mgmt = management_interface [jstr (jget a ''title''), Some (join '' '' (jstrs (jget a ''technologies'')))] in
      (draft event_type.ASSET_EXPOSED (if mgmt \<noteq> None then severity.HIGH else severity.MEDIUM)
         (''New web service exposed: '' @ value @ in_parens mgmt))
      \<lparr>ev_new := pick_set a [''status_code'', ''title'', ''webserver''], ev_details := mgmt_details mgmt\<rparr>)"

definition new_named :: "event_type \<Rightarrow> severity \<Rightarrow> string \<Rightarrow> string \<Rightarrow> event_draft" where
  "new_named ty sev text value = (draft ty sev (text @ value))\<lparr>ev_new := JObj [(''value'', JStr value)]\<rparr>"

definition new_asset :: "asset_type \<Rightarrow> string \<Rightarrow> attrs \<Rightarrow> approval_status \<Rightarrow> event_draft option option" where
  "new_asset ty value a approval =
     (let unverified = approval \<in> {approval_status.UNVERIFIED, approval_status.UNKNOWN} in
      case ty of
        asset_type.SUBDOMAIN \<Rightarrow>
          Some (Some ((new_named event_type.NEW_SUBDOMAIN (if unverified then severity.MEDIUM else severity.LOW)
                         ''New subdomain discovered: '' value)
            \<lparr>ev_summary := (if unverified
               then Some ''A previously unknown subdomain was discovered. Ownership is unverified until reviewed.''
               else None)\<rparr>))
      | asset_type.DOMAIN \<Rightarrow> Some (Some (new_named event_type.NEW_ASSET severity.MEDIUM ''New related domain: '' value))
      | asset_type.IP_ADDRESS \<Rightarrow> Some (Some (new_named event_type.NEW_ASSET severity.LOW ''New IP address: '' value))
      | asset_type.PORT \<Rightarrow> map_option Some (new_port value)
      | asset_type.SERVICE \<Rightarrow> map_option Some (new_service value a)
      | asset_type.HTTP_ENDPOINT \<Rightarrow> Some (Some (new_endpoint value a))
      | asset_type.CERTIFICATE \<Rightarrow>
          Some (Some ((draft event_type.NEW_ASSET severity.INFO
                         (''New TLS certificate observed: '' @ jtext (jor (jget a ''subject_cn'') (JStr (take 16 value)))))
            \<lparr>ev_new := pick a [''subject_cn'', ''issuer_cn'', ''not_after'']\<rparr>))
      | asset_type.CLOUD_RESOURCE \<Rightarrow> Some (Some (new_named event_type.NEW_ASSET severity.MEDIUM ''New cloud resource: '' value))
      | asset_type.ASN \<Rightarrow> Some (Some (new_named event_type.NEW_ASSET severity.INFO ''New network: '' value))
      | asset_type.CIDR \<Rightarrow> Some (Some (new_named event_type.NEW_ASSET severity.INFO ''New network: '' value))
      | _ \<Rightarrow> Some None)"

subsection \<open>Attribute changes\<close>

definition sorted_set :: "string list \<Rightarrow> string list" where
  "sorted_set xs = sort (remdups xs)"

definition ips :: "attrs \<Rightarrow> string list" where
  "ips dns = sorted_set (jstrs (jget dns ''a'') @ jstrs (jget dns ''aaaa''))"

definition jtexts :: "string list \<Rightarrow> json" where
  "jtexts xs = JList (map JStr xs)"

definition ip_change :: "string \<Rightarrow> attrs \<Rightarrow> attrs \<Rightarrow> event_draft list" where
  "ip_change value old_dns new_dns =
     (let old_ips = ips old_dns; new_ips = ips new_dns;
          shown = (\<lambda>xs. value_or (Some (join '', '' xs)) ''none'') in
      if old_ips = new_ips then []
      else [(draft event_type.IP_CHANGED severity.MEDIUM (''IP address changed for '' @ value))
        \<lparr>ev_summary := Some (shown old_ips @ arrow @ shown new_ips),
         ev_previous := JObj [(''ips'', jtexts old_ips)], ev_new := JObj [(''ips'', jtexts new_ips)],
         ev_details := JObj [(''added'', jtexts (filter (\<lambda>x. x \<notin> set old_ips) new_ips)),
                             (''removed'', jtexts (filter (\<lambda>x. x \<notin> set new_ips) old_ips))]\<rparr>])"

definition dns_changed :: "attrs \<Rightarrow> attrs \<Rightarrow> (string \<times> string list \<times> string list) list" where
  "dns_changed old_dns new_dns =
     List.map_filter (\<lambda>k.
         let b = sort (jstrs (jget old_dns k)); a = sort (jstrs (jget new_dns k)) in
         if b = a then None else Some (k, b, a))
       (filter (\<lambda>k. k \<notin> {''a'', ''aaaa''}) (sorted_set (map fst old_dns @ map fst new_dns)))"

definition dns_change :: "string \<Rightarrow> attrs \<Rightarrow> attrs \<Rightarrow> event_draft list" where
  "dns_change value old_dns new_dns =
     (let changed = dns_changed old_dns new_dns in
      if changed = [] then []
      else [(draft event_type.DNS_CHANGED severity.LOW (''DNS records changed for '' @ value))
        \<lparr>ev_summary := Some (join '', '' (map (\<lambda>(k, _). map upper_char k @ '' record'') changed) @ '' changed''),
         ev_previous := JObj (map (\<lambda>(k, b, _). (k, jtexts b)) changed),
         ev_new := JObj (map (\<lambda>(k, _, a). (k, jtexts a)) changed)\<rparr>])"

definition service_change :: "string \<Rightarrow> attrs \<Rightarrow> attrs \<Rightarrow> event_draft list" where
  "service_change value old new =
     (let bp = jget old ''product''; bv = jget old ''version''; ap = jget new ''product''; av = jget new ''version'' in
      if jtruthy bp \<and> jtruthy ap \<and> (bp, bv) \<noteq> (ap, av)
      then [(draft event_type.SERVICE_CHANGED severity.MEDIUM
               (if bp = ap
                then ''Service version changed on '' @ value @ '': '' @ jtext bp @ '' '' @ jtext (jor bv (JStr ''?'')) @
                     arrow @ jtext (jor av (JStr ''?''))
                else ''Service changed on '' @ value @ '': '' @ jtext bp @ arrow @ jtext ap))
        \<lparr>ev_previous := JObj [(''product'', bp), (''version'', bv)],
         ev_new := JObj [(''product'', ap), (''version'', av)]\<rparr>]
      else [])"

definition hosting_change :: "string \<Rightarrow> attrs \<Rightarrow> attrs \<Rightarrow> event_draft list" where
  "hosting_change value old new =
     (let oa = jget old ''asn''; na = jget new ''asn'';
          network = (\<lambda>d. jtext (jget d ''asn'') @ '' ('' @ jtext (jor (jget d ''as_name'') (JStr ''?'')) @ '')'') in
      if jtruthy oa \<and> jtruthy na \<and> oa \<noteq> na
      then [(draft event_type.HOSTING_CHANGED severity.MEDIUM (value @ '' moved to a different network''))
        \<lparr>ev_summary := Some (network old @ arrow @ network new),
         ev_previous := JObj [(''asn'', oa), (''as_name'', jget old ''as_name'')],
         ev_new := JObj [(''asn'', na), (''as_name'', jget new ''as_name'')]\<rparr>]
      else [])"

definition tls_change :: "string \<Rightarrow> attrs \<Rightarrow> attrs \<Rightarrow> event_draft list" where
  "tls_change value old new =
     (let ov = jget old ''tls_version''; nv = jget new ''tls_version'' in
      if jtruthy ov \<and> jtruthy nv \<and> ov \<noteq> nv
      then [(draft event_type.SERVICE_CHANGED severity.LOW (''TLS protocol changed on '' @ value))
        \<lparr>ev_previous := JObj [(''tls_version'', ov)], ev_new := JObj [(''tls_version'', nv)]\<rparr>]
      else [])"

definition attribute_changes :: "asset_type \<Rightarrow> string \<Rightarrow> attrs \<Rightarrow> attrs \<Rightarrow> event_draft list" where
  "attribute_changes ty value old new =
     (if ty \<in> {asset_type.ROOT_DOMAIN, asset_type.DOMAIN, asset_type.SUBDOMAIN}
      then (if jget old ''dns'' \<noteq> JNull \<and> jget new ''dns'' \<noteq> JNull
            then ip_change value (jobj (jget old ''dns'')) (jobj (jget new ''dns'')) @
                 dns_change value (jobj (jget old ''dns'')) (jobj (jget new ''dns''))
            else [])
      else if ty = asset_type.SERVICE then service_change value old new
      else if ty = asset_type.IP_ADDRESS then hosting_change value old new
      else if ty = asset_type.HTTP_ENDPOINT then tls_change value old new
      else [])"

subsection \<open>Disappearing and coming back\<close>

definition capitalize :: "string \<Rightarrow> string" where
  "capitalize s = (case s of [] \<Rightarrow> [] | c # cs \<Rightarrow> upper_char c # map lower_char cs)"

definition state_change :: "string \<Rightarrow> string \<Rightarrow> event_draft \<Rightarrow> event_draft" where
  "state_change a b d = d\<lparr>ev_previous := JObj [(''state'', JStr a)], ev_new := JObj [(''state'', JStr b)]\<rparr>"

definition disappeared :: "asset_type \<Rightarrow> string \<Rightarrow> attrs \<Rightarrow> event_draft option" where
  "disappeared ty value meta =
     (if ty = asset_type.PORT
      then map_option (\<lambda>(ip, p, proto). state_change ''open'' ''closed''
             (draft event_type.PORT_CLOSED severity.LOW (''Port closed: '' @ show_int p @ ''/'' @ proto @ '' on '' @ ip)))
             (port_parts value)
      else if ty \<in> {asset_type.SUBDOMAIN, asset_type.ROOT_DOMAIN, asset_type.DOMAIN}
      then Some ((draft event_type.ASSET_DISAPPEARED severity.LOW (value @ '' no longer resolves''))
             \<lparr>ev_previous := JObj [(''dns'', jget meta ''dns'')], ev_new := JObj [(''resolves'', JBool False)]\<rparr>)
      else if ty = asset_type.HTTP_ENDPOINT
      then Some ((draft event_type.ASSET_DISAPPEARED severity.LOW (''Web service no longer reachable: '' @ value))
             \<lparr>ev_previous := JObj [(''status_code'', jget meta ''status_code'')], ev_new := JObj [(''reachable'', JBool False)]\<rparr>)
      else Some (draft event_type.ASSET_DISAPPEARED severity.INFO
             (capitalize (replace_char (CHR ''_'') '' '' (asset_type_value ty)) @ '' no longer observed: '' @ value)))"

definition reappeared :: "asset_type \<Rightarrow> string \<Rightarrow> event_draft option" where
  "reappeared ty value =
     (if ty = asset_type.PORT
      then map_option (\<lambda>(ip, p, proto). state_change ''closed'' ''open''
             (draft event_type.PORT_OPENED (port_exposure_severity p)
                (''Port re-opened: '' @ show_int p @ ''/'' @ proto @ '' on '' @ ip))) (port_parts value)
      else Some (draft event_type.ASSET_REAPPEARED severity.LOW (''Asset observed again: '' @ value)))"

subsection \<open>Technologies and certificates of an endpoint\<close>

definition technology_added :: "string \<Rightarrow> string \<Rightarrow> string option \<Rightarrow> event_draft" where
  "technology_added endpoint tech_name version =
     (let mgmt = management_interface [Some tech_name]; api_docs = lower tech_name \<in> set API_DOC_TECH;
          label = (case version of Some v \<Rightarrow> if v = [] then tech_name else tech_name @ '' '' @ v | None \<Rightarrow> tech_name) in
      (draft event_type.TECHNOLOGY_DETECTED (if mgmt \<noteq> None \<or> api_docs then severity.MEDIUM else severity.LOW)
         (''Technology detected on '' @ endpoint @ '': '' @ label))
      \<lparr>ev_new := JObj [(''technology'', JStr tech_name), (''version'', opt_str version)], ev_details := mgmt_details mgmt\<rparr>)"

definition technology_version_changed :: "string \<Rightarrow> string \<Rightarrow> string option \<Rightarrow> string option \<Rightarrow> event_draft" where
  "technology_version_changed endpoint tech_name old new =
     (draft event_type.TECHNOLOGY_CHANGED severity.LOW
        (tech_name @ '' version changed on '' @ endpoint @ '': '' @ value_or old ''?'' @ arrow @ value_or new ''?''))
     \<lparr>ev_previous := JObj [(''version'', opt_str old)], ev_new := JObj [(''version'', opt_str new)]\<rparr>"

definition technology_removed :: "string \<Rightarrow> string \<Rightarrow> event_draft" where
  "technology_removed endpoint tech_name =
     (draft event_type.TECHNOLOGY_REMOVED severity.INFO (''Technology no longer detected on '' @ endpoint @ '': '' @ tech_name))
     \<lparr>ev_previous := JObj [(''technology'', JStr tech_name)]\<rparr>"

definition cert_keys :: "attrs \<Rightarrow> json" where
  "cert_keys c = JObj (map (\<lambda>k. (k, jget c k)) [''fingerprint'', ''subject_cn'', ''issuer_cn'', ''not_after''])"

definition certificate_changed :: "string \<Rightarrow> attrs \<Rightarrow> attrs \<Rightarrow> event_draft" where
  "certificate_changed endpoint old_cert new_cert =
     (let issuer_changed = (jget old_cert ''issuer_cn'' \<noteq> jget new_cert ''issuer_cn'') in
      (draft event_type.CERTIFICATE_CHANGED (if issuer_changed then severity.MEDIUM else severity.LOW)
         (''TLS certificate changed on '' @ endpoint))
      \<lparr>ev_summary := Some (if issuer_changed then ''Issuer changed'' else ''Certificate renewed or replaced''),
       ev_previous := cert_keys old_cert, ev_new := cert_keys new_cert\<rparr>)"

subsection \<open>Risk\<close>

definition RISK_EVENT_DELTA :: int where
  "RISK_EVENT_DELTA = 10"

definition LEVELS :: "string list" where
  "LEVELS = [''info'', ''low'', ''medium'', ''high'', ''critical'']"

text \<open>\<open>list.index\<close>\<close>

definition index_of :: "'a list \<Rightarrow> 'a \<Rightarrow> nat option" where
  "index_of xs x = (if x \<in> set xs then Some (length (takeWhile (\<lambda>y. y \<noteq> x) xs)) else None)"

text \<open>
  A contribution to a risk score: key, label, points. The code stores it as a dictionary with these
  three keys.
\<close>

type_synonym factor = "string \<times> string \<times> rat"

definition top_factors :: "factor list \<Rightarrow> factor list" where
  "top_factors factors = take 3 (sort_key (\<lambda>(_, _, p). - \<bar>p\<bar>) factors)"

definition scored :: "int \<Rightarrow> string \<Rightarrow> json" where
  "scored score level = JObj [(''score'', JInt score), (''level'', JStr level)]"

definition risk_changed ::
  "string \<Rightarrow> int \<Rightarrow> int \<Rightarrow> string \<Rightarrow> string \<Rightarrow> factor list \<Rightarrow> event_draft option option" where
  "risk_changed value old_score new_score old_level new_level factors =
     (case (index_of LEVELS new_level, index_of LEVELS old_level) of
        (Some n, Some m) \<Rightarrow>
          (if new_score - old_score \<ge> RISK_EVENT_DELTA \<or> n > m
           then (let top = top_factors factors in
                 Some (Some ((draft event_type.RISK_INCREASED
                     (if new_level \<in> {''high'', ''critical''} then severity.HIGH else severity.MEDIUM)
                     (''Risk score increased for '' @ value @ '': '' @ show_int old_score @ arrow @ show_int new_score))
                   \<lparr>ev_summary := (if top = [] then None else Some (join '', '' (map (\<lambda>(_, label, _). label) top))),
                    ev_previous := scored old_score old_level, ev_new := scored new_score new_level\<rparr>)))
           else if n < m
           then Some (Some ((draft event_type.RISK_DECREASED severity.INFO
                     (''Risk score decreased for '' @ value @ '': '' @ show_int old_score @ arrow @ show_int new_score))
                   \<lparr>ev_previous := scored old_score old_level, ev_new := scored new_score new_level\<rparr>))
           else Some None)
      | _ \<Rightarrow> None)"

subsection \<open>Certificates that expire\<close>

definition EXPIRY_THRESHOLDS :: "int list" where
  "EXPIRY_THRESHOLDS = [30, 14, 7, 1]"

definition certificate_expiry :: "string \<Rightarrow> string option \<Rightarrow> int \<Rightarrow> int list \<Rightarrow> (event_draft \<times> int) option" where
  "certificate_expiry value subject days_left already =
     (let name = value_or subject (take 16 value); left = JObj [(''days_left'', JInt days_left)] in
      if days_left < 0
      then (if -1 \<in> set already then None
            else Some ((draft event_type.CERTIFICATE_EXPIRED severity.HIGH (''TLS certificate expired: '' @ name))\<lparr>ev_new := left\<rparr>, -1))
      else (let crossed = filter (\<lambda>t. days_left \<le> t \<and> t \<notin> set already) EXPIRY_THRESHOLDS in
            if crossed = [] then None
            else (let t = foldl min (hd crossed) (tl crossed) in
                  Some ((draft event_type.CERTIFICATE_EXPIRING (if t \<le> 7 then severity.HIGH else severity.MEDIUM)
                     (''TLS certificate for '' @ name @ '' expires in '' @ show_int days_left @ '' day(s)''))\<lparr>ev_new := left\<rparr>, t))))"

subsection \<open>Properties\<close>

text \<open>Observing the same attributes again is no change.\<close>

lemma dns_changed_same: "dns_changed d d = []"
  by (simp add: dns_changed_def List.map_filter_def)

lemma attribute_changes_same: "attribute_changes ty value a a = []"
  by (simp add: attribute_changes_def ip_change_def dns_change_def dns_changed_same service_change_def
      hosting_change_def tls_change_def Let_def)

text \<open>The addresses of a change of address: what was added and removed turns the old set into the new one.\<close>

lemma set_ips: "set (ips d) = set (jstrs (jget d ''a'')) \<union> set (jstrs (jget d ''aaaa''))"
  by (simp add: ips_def sorted_set_def)

lemma ip_change_complete:
  assumes "ip_change value old new = [e]"
  obtains added removed where "ev_details e = JObj [(''added'', jtexts added), (''removed'', jtexts removed)]"
    "set (ips new) = set (ips old) - set removed \<union> set added" "set added \<inter> set (ips old) = {}" "set removed \<subseteq> set (ips old)"
    "added \<noteq> [] \<or> removed \<noteq> []"
proof -
  let ?added = "filter (\<lambda>x. x \<notin> set (ips old)) (ips new)" and ?removed = "filter (\<lambda>x. x \<notin> set (ips new)) (ips old)"
  have neq: "ips old \<noteq> ips new" and
    d: "ev_details e = JObj [(''added'', jtexts ?added), (''removed'', jtexts ?removed)]"
    using assms by (auto simp: ip_change_def Let_def split: if_splits)
  have "set (ips old) \<noteq> set (ips new)"
    using neq by (auto simp: ips_def sorted_set_def intro: sorted_distinct_set_unique)
  then have "?added \<noteq> [] \<or> ?removed \<noteq> []" by (auto simp: filter_empty_conv)
  then show thesis using that [OF d] by auto
qed

text \<open>An expiry alert is for a threshold that was crossed and not yet alerted, the tightest of those.\<close>

lemma foldl_min: "foldl min (x :: int) xs = Min (set (x # xs))"
proof (induction xs arbitrary: x)
  case (Cons y ys)
  then show ?case by (cases "ys = []") (simp_all add: min.assoc Min_insert)
qed simp

lemma certificate_expiry_sound:
  assumes "certificate_expiry value subject days_left already = Some (e, t)"
  shows "t \<notin> set already \<and>
    (if days_left < 0 then t = -1 \<and> ev_type e = event_type.CERTIFICATE_EXPIRED
     else t \<in> set EXPIRY_THRESHOLDS \<and> days_left \<le> t \<and> ev_type e = event_type.CERTIFICATE_EXPIRING \<and>
       (\<forall>t' \<in> set EXPIRY_THRESHOLDS. days_left \<le> t' \<and> t' \<notin> set already \<longrightarrow> t \<le> t'))"
proof (cases "days_left < 0")
  case True
  then show ?thesis using assms by (auto simp: certificate_expiry_def draft_def split: if_splits)
next
  case False
  let ?crossed = "filter (\<lambda>t. days_left \<le> t \<and> t \<notin> set already) EXPIRY_THRESHOLDS"
  have ne: "?crossed \<noteq> []" and t: "t = foldl min (hd ?crossed) (tl ?crossed)" and e: "ev_type e = event_type.CERTIFICATE_EXPIRING"
    using assms False by (auto simp: certificate_expiry_def Let_def draft_def split: if_splits)
  obtain x xs where xs: "?crossed = x # xs" using ne by (cases ?crossed) auto
  have "t = Min (set ?crossed)" unfolding t xs list.sel foldl_min ..
  then have "t \<in> set ?crossed" and m: "t' \<in> set ?crossed \<Longrightarrow> t \<le> t'" for t'
    using Min_in [of "set ?crossed"] Min_le [of "set ?crossed" t'] xs by simp_all
  then show ?thesis using False e m by auto
qed

lemma certificate_expiry_none:
  "certificate_expiry value subject days_left already = None \<longleftrightarrow>
   (if days_left < 0 then -1 \<in> set already else \<forall>t \<in> set EXPIRY_THRESHOLDS. days_left \<le> t \<longrightarrow> t \<in> set already)"
  by (auto simp: certificate_expiry_def Let_def filter_empty_conv split: if_splits)

end
