(* ===== verification/Inventory.thy ===== *)
theory Inventory
  imports AuditLog Detector
begin

text \<open>
  The rows of the inventory (\<open>backend/app/models/assets.py\<close>, \<open>findings.py\<close>, \<open>events.py\<close> and \<open>intel.py\<close>) and the
  part of the database the ingestion, the findings and the housekeeping work on. Scores are
  rationals. \<open>next_id\<close> stands for \<open>uuid4\<close>: an identifier no row has yet.
\<close>

record asset =
  as_id :: uuid
  as_tenant :: uuid
  as_org :: uuid
  as_type :: asset_type
  as_value :: string
  as_norm :: string
  as_status :: asset_status
  as_scope :: scope_status
  as_first_seen :: time
  as_last_seen :: time
  as_discovered_at :: time
  as_last_scanned_at :: "time option"
  as_inactive_since :: "time option"
  as_missed :: int
  as_source :: "string option"
  as_sources :: "string list"
  as_method :: "string option"
  as_confidence :: int
  as_owner :: "string option"
  as_business_unit :: "string option"
  as_criticality :: criticality
  as_approval :: approval_status
  as_tags :: "string list"
  as_notes :: "string option"
  as_risk_score :: int
  as_risk_level :: risk_level
  as_risk_factors :: "factor list"
  as_open_findings :: int
  as_meta :: attrs

record relationship =
  rl_id :: uuid
  rl_tenant :: uuid
  rl_org :: uuid
  rl_source_asset :: uuid
  rl_target_asset :: uuid
  rl_type :: relation_type
  rl_active :: bool
  rl_missed :: int
  rl_first_seen :: time
  rl_last_seen :: time
  rl_source :: "string option"
  rl_attributes :: attrs

record observation_row =
  ob_tenant :: uuid
  ob_asset :: uuid
  ob_scan :: "uuid option"
  ob_stage :: "uuid option"
  ob_source :: string
  ob_observed_at :: time
  ob_data :: attrs

record finding =
  fi_id :: uuid
  fi_tenant :: uuid
  fi_org :: uuid
  fi_asset :: uuid
  fi_fingerprint :: string
  fi_source :: string
  fi_rule :: string
  fi_title :: string
  fi_description :: "string option"
  fi_category :: finding_category
  fi_severity :: severity
  fi_location :: "string option"
  fi_cve :: "string list"
  fi_cwe :: "string list"
  fi_cvss_score :: "rat option"
  fi_cvss_vector :: "string option"
  fi_epss_score :: "rat option"
  fi_epss_percentile :: "rat option"
  fi_kev :: bool
  fi_kev_due :: "time option"
  fi_exploit :: bool
  fi_evidence :: attrs
  fi_remediation :: "string option"
  fi_references :: "string list"
  fi_confidence :: int
  fi_unverified :: bool
  fi_first_seen :: time
  fi_last_seen :: time
  fi_resolved_at :: "time option"
  fi_last_scan :: "uuid option"
  fi_occurrences :: int
  fi_missed :: int
  fi_status :: finding_status
  fi_false_positive :: bool
  fi_accepted_until :: "time option"
  fi_assigned_to :: "uuid option"
  fi_notes :: "string option"
  fi_tags :: "string list"
  fi_risk_score :: int
  fi_risk_level :: risk_level
  fi_risk_factors :: "factor list"

record activity =
  ac_tenant :: uuid
  ac_finding :: uuid
  ac_user :: "uuid option"
  ac_type :: string
  ac_previous :: json
  ac_new :: json
  ac_comment :: "string option"
  ac_scan :: "uuid option"

record asset_event =
  ae_tenant :: uuid
  ae_org :: "uuid option"
  ae_asset :: "uuid option"
  ae_asset_type :: "asset_type option"
  ae_asset_value :: "string option"
  ae_finding :: "uuid option"
  ae_scan :: "uuid option"
  ae_type :: event_type
  ae_severity :: severity
  ae_title :: string
  ae_summary :: "string option"
  ae_previous :: json
  ae_new :: json
  ae_details :: json
  ae_occurred_at :: time
  ae_baseline :: bool

text \<open>Dates are the times of their midnight.\<close>

record vuln_intel =
  vi_cve :: string
  vi_description :: "string option"
  vi_cvss_score :: "rat option"
  vi_cvss_vector :: "string option"
  vi_cvss_version :: "string option"
  vi_epss_score :: "rat option"
  vi_epss_percentile :: "rat option"
  vi_epss_date :: "time option"
  vi_kev :: bool
  vi_kev_added :: "time option"
  vi_kev_due :: "time option"
  vi_kev_ransomware :: bool
  vi_kev_vendor :: "string option"
  vi_kev_product :: "string option"
  vi_exploit :: bool

record inventory =
  assets :: "asset list"
  relationships :: "relationship list"
  observation_rows :: "observation_row list"
  findings :: "finding list"
  activities :: "activity list"
  asset_events :: "asset_event list"
  intel :: "vuln_intel list"
  trail :: "audit_row list"
  next_id :: uuid

definition get_asset :: "inventory \<Rightarrow> uuid \<Rightarrow> asset option" where
  "get_asset db i = find (\<lambda>a. as_id a = i) (assets db)"

definition put_asset :: "asset \<Rightarrow> inventory \<Rightarrow> inventory" where
  "put_asset a db = db\<lparr>assets := update_where (\<lambda>x. as_id x = as_id a) (\<lambda>_. a) (assets db)\<rparr>"

definition add_asset :: "asset \<Rightarrow> inventory \<Rightarrow> inventory" where
  "add_asset a db = db\<lparr>assets := assets db @ [a], next_id := next_id db + 1\<rparr>"

definition put_rel :: "relationship \<Rightarrow> inventory \<Rightarrow> inventory" where
  "put_rel r db = db\<lparr>relationships := update_where (\<lambda>x. rl_id x = rl_id r) (\<lambda>_. r) (relationships db)\<rparr>"

definition add_rel :: "relationship \<Rightarrow> inventory \<Rightarrow> inventory" where
  "add_rel r db = db\<lparr>relationships := relationships db @ [r], next_id := next_id db + 1\<rparr>"

definition get_finding :: "inventory \<Rightarrow> uuid \<Rightarrow> finding option" where
  "get_finding db i = find (\<lambda>f. fi_id f = i) (findings db)"

definition put_finding :: "finding \<Rightarrow> inventory \<Rightarrow> inventory" where
  "put_finding f db = db\<lparr>findings := update_where (\<lambda>x. fi_id x = fi_id f) (\<lambda>_. f) (findings db)\<rparr>"

definition add_finding :: "finding \<Rightarrow> inventory \<Rightarrow> inventory" where
  "add_finding f db = db\<lparr>findings := findings db @ [f], next_id := next_id db + 1\<rparr>"

definition add_event :: "asset_event \<Rightarrow> inventory \<Rightarrow> inventory" where
  "add_event e db = db\<lparr>asset_events := asset_events db @ [e]\<rparr>"

text \<open>The row of an event about an asset (or about none).\<close>

definition event_row :: "uuid \<Rightarrow> uuid option \<Rightarrow> asset option \<Rightarrow> uuid option \<Rightarrow> uuid option \<Rightarrow> bool \<Rightarrow> time \<Rightarrow> event_draft \<Rightarrow> asset_event" where
  "event_row tenant org a finding scan baseline now d =
     \<lparr>ae_tenant = tenant, ae_org = org, ae_asset = map_option as_id a, ae_asset_type = map_option as_type a,
      ae_asset_value = map_option as_value a, ae_finding = finding, ae_scan = scan, ae_type = ev_type d,
      ae_severity = ev_severity d, ae_title = ev_title d, ae_summary = ev_summary d, ae_previous = ev_previous d,
      ae_new = ev_new d, ae_details = ev_details d, ae_occurred_at = now, ae_baseline = baseline\<rparr>"

subsection \<open>Constraints of the schema\<close>

text \<open>
  Primary keys are unique, an asset is unique in its organization by type and value, and a finding
  in its tenant by fingerprint.
\<close>

definition asset_key :: "asset \<Rightarrow> uuid \<times> uuid \<times> asset_type \<times> string" where
  "asset_key a = (as_tenant a, as_org a, as_type a, as_norm a)"

definition ids_fresh :: "inventory \<Rightarrow> bool" where
  "ids_fresh db \<longleftrightarrow> (\<forall>a \<in> set (assets db). as_id a < next_id db) \<and> (\<forall>f \<in> set (findings db). fi_id f < next_id db)"

definition keys_unique :: "inventory \<Rightarrow> bool" where
  "keys_unique db \<longleftrightarrow> distinct (map as_id (assets db)) \<and> distinct (map fi_id (findings db)) \<and>
     distinct (map asset_key (assets db)) \<and> distinct (map (\<lambda>f. (fi_tenant f, fi_fingerprint f)) (findings db))"

end
