(* ===== verification/Observations.thy ===== *)
theory Observations
  imports Enums Json Complex_Main
begin

text \<open>
  The observations a sensor reports (\<open>workers/asm_sensors/observations.py\<close>): assets, relations and
  findings, and the coverage of a run. Scores are rationals.
\<close>

record asset_ref =
  ref_type :: observed_type
  ref_value :: string

record asset_obs =
  obs_type :: observed_type
  obs_value :: string
  obs_attributes :: attrs
  obs_confidence :: int

record relation_obs =
  rel_source :: asset_ref
  rel_target :: asset_ref
  rel_relation :: relation_type
  rel_attributes :: attrs

record finding_obs =
  fo_asset :: asset_ref
  fo_rule_id :: string
  fo_title :: string
  fo_description :: "string option"
  fo_severity :: severity
  fo_category :: finding_category
  fo_cve :: "string list"
  fo_cwe :: "string list"
  fo_cvss_score :: "rat option"
  fo_cvss_vector :: "string option"
  fo_epss_score :: "rat option"
  fo_references :: "string list"
  fo_remediation :: "string option"
  fo_evidence :: attrs
  fo_tags :: "string list"
  fo_location :: "string option"
  fo_confidence :: int

datatype observation =
    AssetObs asset_obs
  | RelationObs relation_obs
  | FindingObs finding_obs

record liveness_coverage =
  live_type :: observed_type
  live_values :: "string list"

record relation_coverage =
  cov_parent_type :: observed_type
  cov_parents :: "string list"
  cov_relation :: relation_type
  cov_child_type :: observed_type
  cov_constraints :: attrs

record finding_coverage =
  fc_assets :: "asset_ref list"
  fc_severities :: "severity list option"
  fc_include_tags :: "string list option"
  fc_exclude_tags :: "string list option"
  fc_rule_ids :: "string list option"

datatype coverage =
    LivenessCov liveness_coverage
  | RelationCov relation_coverage
  | FindingCov finding_coverage

text \<open>What the platform reads of a sensor result.\<close>

record sensor_result =
  res_historical :: bool
  res_observations :: "observation list"
  res_coverage :: "coverage list"

text \<open>A finding observation with the defaults of its optional fields.\<close>

definition mk_finding_obs :: "asset_ref \<Rightarrow> string \<Rightarrow> string \<Rightarrow> finding_obs" where
  "mk_finding_obs a rule title = \<lparr>fo_asset = a, fo_rule_id = rule, fo_title = title, fo_description = None,
     fo_severity = severity.INFO, fo_category = finding_category.VULNERABILITY, fo_cve = [], fo_cwe = [],
     fo_cvss_score = None, fo_cvss_vector = None, fo_epss_score = None, fo_references = [], fo_remediation = None,
     fo_evidence = [], fo_tags = [], fo_location = None, fo_confidence = 90\<rparr>"

end
