(* ===== verification/IsoTime.thy ===== *)
theory IsoTime
  imports Json
begin

text \<open>
  \<open>datetime.fromisoformat\<close> of the standard library, which the detection rules and the housekeeping read
  the dates of certificates with. A time without an offset is kept apart from one with an offset,
  as in Python.
\<close>

definition two :: "nat \<Rightarrow> nat \<Rightarrow> string \<Rightarrow> int option" where
  "two i n s = (let t = take n (drop i s) in if length t = n \<and> n > 0 \<and> all_digits t then Some (int (parse_nat t)) else None)"

definition char_at :: "nat \<Rightarrow> string \<Rightarrow> char option" where
  "char_at i s = (if i < length s then Some (s ! i) else None)"

definition days_from_civil :: "int \<Rightarrow> int \<Rightarrow> int \<Rightarrow> int" where
  "days_from_civil y0 m d =
     (let y = (if m \<le> 2 then y0 - 1 else y0); era = y div 400; yoe = y mod 400;
          doy = (153 * (if m > 2 then m - 3 else m + 9) + 2) div 5 + d - 1;
          doe = yoe * 365 + yoe div 4 - yoe div 100 + doy
      in era * 146097 + doe - 719468)"

definition is_leap :: "int \<Rightarrow> bool" where
  "is_leap y \<longleftrightarrow> y mod 4 = 0 \<and> (y mod 100 \<noteq> 0 \<or> y mod 400 = 0)"

definition days_in_month :: "int \<Rightarrow> int \<Rightarrow> int" where
  "days_in_month y m = (if m = 2 then (if is_leap y then 29 else 28) else if m \<in> {4, 6, 9, 11} then 30 else 31)"

definition civil_date :: "int \<Rightarrow> int \<Rightarrow> int \<Rightarrow> int option" where
  "civil_date y m d =
     (if 1 \<le> y \<and> y \<le> 9999 \<and> 1 \<le> m \<and> m \<le> 12 \<and> 1 \<le> d \<and> d \<le> days_in_month y m then Some (days_from_civil y m d) else None)"

text \<open>The week date: weeks start on Monday, and week 1 is the one with the first Thursday. Day 0 is a Thursday.\<close>

definition weekday :: "int \<Rightarrow> int" where
  "weekday days = (days + 3) mod 7"

definition week_date :: "int \<Rightarrow> int \<Rightarrow> int \<Rightarrow> int option" where
  "week_date y w d =
     (let first = days_from_civil y 1 1; wd = weekday first;
          week1 = first - wd + (if wd > 3 then 7 else 0);
          long = wd = 3 \<or> (wd = 2 \<and> is_leap y) in
      if 1 \<le> y \<and> y \<le> 9999 \<and> 0 < w \<and> (w < 53 \<or> w = 53 \<and> long) \<and> 0 < d \<and> d < 8
      then Some (week1 + (w - 1) * 7 + (d - 1)) else None)"

definition find_separator :: "string \<Rightarrow> nat option" where
  "find_separator s =
     (if length s = 7 then Some 7
      else if char_at 4 s = Some (CHR ''-'')
      then (if char_at 5 s = Some (CHR ''W'')
            then (if char_at 8 s = Some (CHR ''-'')
                  then (if length s = 9 then None
                        else if length s > 10 \<and> isdigit (s ! 10) then Some 8 else Some 10)
                  else Some 8)
            else Some 10)
      else if char_at 4 s = Some (CHR ''W'')
      then (let idx = 7 + length (takeWhile isdigit (drop 7 s)) in
            Some (if idx < 9 then idx else if even idx then 7 else 8))
      else Some 8)"

definition parse_date :: "string \<Rightarrow> int option" where
  "parse_date s =
     (let sep = (char_at 4 s = Some (CHR ''-'')); p = (if sep then 5 else 4 :: nat);
          dash = (\<lambda>i. char_at i s = Some (CHR ''-'')) in
      case two 0 4 s of None \<Rightarrow> None
      | Some y \<Rightarrow>
          if char_at p s = Some (CHR ''W'')
          then (case two (p + 1) 2 s of None \<Rightarrow> None
                | Some w \<Rightarrow>
                    if length s \<le> p + 3 then week_date y w 1
                    else if dash (p + 3) \<noteq> sep then None
                    else Option.bind (two (if sep then p + 4 else p + 3) 1 s) (week_date y w))
          else (case two p 2 s of None \<Rightarrow> None
                | Some m \<Rightarrow>
                    if dash (p + 2) \<noteq> sep then None
                    else Option.bind (two (if sep then p + 3 else p + 2) 2 s) (civil_date y m)))"

text \<open>The fraction: at most six digits count, and further ones must be digits.\<close>

definition parse_fraction :: "string \<Rightarrow> int option" where
  "parse_fraction s =
     (if s = [] then Some 0
      else if hd s \<notin> {CHR ''.'', CHR '',''} then None
      else (let ds = tl s; n = min 6 (length ds) in
            if ds \<noteq> [] \<and> all_digits ds then Some (int (parse_nat (take n ds)) * 10 ^ (6 - n)) else None))"

definition clock :: "int \<Rightarrow> int \<Rightarrow> int \<Rightarrow> int \<Rightarrow> time" where
  "clock h m s us = ((h * 60 + m) * 60 + s) * 1000000 + us"

definition parse_clock :: "string \<Rightarrow> (int \<times> int \<times> int \<times> int) option" where
  "parse_clock s =
     (let sep = (char_at 2 s = Some (CHR '':'')); w = (if sep then 1 else 0 :: nat) in
      case two 0 2 s of None \<Rightarrow> None
      | Some h \<Rightarrow>
          if length s = 2 then Some (h, 0, 0, 0)
          else case two (2 + w) 2 s of None \<Rightarrow> None
          | Some m \<Rightarrow>
              if length s = 4 + w then Some (h, m, 0, 0)
              else if sep \<and> char_at 5 s \<noteq> Some (CHR '':'') then None
              else case two (4 + 2 * w) 2 s of None \<Rightarrow> None
              | Some sec \<Rightarrow> map_option (\<lambda>us. (h, m, sec, us)) (parse_fraction (drop (6 + 2 * w) s)))"

definition zone_start :: "string \<Rightarrow> nat option" where
  "zone_start s =
     (case List.map_filter (\<lambda>c. if c \<in> set s then Some (length (takeWhile (\<lambda>x. x \<noteq> c) s)) else None)
             [CHR ''-'', CHR ''+'', CHR ''Z''] of [] \<Rightarrow> None | i # _ \<Rightarrow> Some i)"

definition parse_zone :: "nat \<Rightarrow> string \<Rightarrow> time option option" where
  "parse_zone i s =
     (let z = drop (Suc i) s in
      if z = [] \<and> s ! i = CHR ''Z'' then Some (Some 0)
      else if length z \<in> {0, 1, 3} then None
      else case parse_clock z of None \<Rightarrow> None
      | Some (h, m, sec, us) \<Rightarrow>
          (let off = clock h m sec us in
           if off < clock 24 0 0 0 then Some (Some (if s ! i = CHR ''-'' then - off else off)) else None))"

definition parse_time :: "string \<Rightarrow> (time \<times> time option) option" where
  "parse_time s =
     (let body = (case zone_start s of Some i \<Rightarrow> take i s | None \<Rightarrow> s) in
      case parse_clock body of None \<Rightarrow> None
      | Some (h, m, sec, us) \<Rightarrow>
          if length s < 2 \<or> h > 23 \<or> m > 59 \<or> sec > 59 then None
          else map_option (\<lambda>z. (clock h m sec us, z)) (case zone_start s of Some i \<Rightarrow> parse_zone i s | None \<Rightarrow> Some None))"

text \<open>Local time and offset. The separator is one character, of several bytes if it is not ASCII.\<close>

definition fromisoformat :: "string \<Rightarrow> (time \<times> time option) option" where
  "fromisoformat s =
     (if length s < 7 then None
      else case find_separator s of None \<Rightarrow> None
      | Some i \<Rightarrow>
          case parse_date (take i s) of None \<Rightarrow> None
          | Some days \<Rightarrow>
              (let rest = dropWhile (\<lambda>c. 128 \<le> code c \<and> code c < 192) (drop (Suc i) s) in
               map_option (\<lambda>(t, z). (days * 86400000000 + t, z)) (if length s \<le> i then Some (0, None) else parse_time rest)))"

text \<open>\<open>dt if dt.tzinfo else dt.replace(tzinfo=UTC)\<close>, as a time.\<close>

definition as_utc :: "time \<times> time option \<Rightarrow> time" where
  "as_utc dt = (case snd dt of Some z \<Rightarrow> fst dt - z | None \<Rightarrow> fst dt)"

text \<open>\<open>timedelta.days\<close>\<close>

definition delta_days :: "time \<Rightarrow> int" where
  "delta_days d = d div 86400000000"

end
