(* ===== verification/Settings.thy ===== *)
theory Settings
  imports Json
begin

text \<open>
  Settings of tenants and organizations (\<open>backend/app/tenants/settings.py\<close>): stored JSON merged over the
  defaults. \<^const>\<open>None\<close> is an exception (a stored value of the wrong shape).
\<close>

definition ints :: "(string \<times> int) list \<Rightarrow> json" where
  "ints kvs = JObj (map (\<lambda>(k, i). (k, JInt i)) kvs)"

definition DEFAULT_TENANT_SETTINGS :: attrs where
  "DEFAULT_TENANT_SETTINGS = [
     (''inactivity'', ints [(''default'', 3), (''subdomain'', 3), (''root_domain'', 3), (''domain'', 3), (''port'', 2),
        (''service'', 2), (''http_endpoint'', 2), (''relation'', 2), (''finding'', 2), (''max_age_days'', 30)]),
     (''risk'', JObj [
        (''severity_points'', ints [(''critical'', 55), (''high'', 40), (''medium'', 25), (''low'', 10), (''info'', 2)]),
        (''kev_points'', JInt 20), (''epss_max_points'', JInt 18), (''exploit_points'', JInt 8),
        (''exposure_points'', JInt 5), (''management_interface_points'', JInt 10), (''auth_exposure_points'', JInt 4),
        (''risky_port_points'', JInt 6),
        (''criticality_points'', ints [(''low'', 0), (''medium'', 4), (''high'', 9), (''critical'', 14)]),
        (''shadow_it_points'', JInt 5), (''unauthorized_points'', JInt 10), (''new_asset_points'', JInt 3),
        (''new_asset_days'', JInt 7), (''age_points_per_30_days'', JInt 2), (''age_max_points'', JInt 8),
        (''levels'', ints [(''critical'', 80), (''high'', 60), (''medium'', 35), (''low'', 15)])]),
     (''scanning'', JObj [(''require_scope_verification'', JBool False)]),
     (''screenshots'', JObj [(''enabled'', JBool False), (''cadence'', JStr ''manual'')]),
     (''detection_rules'', JObj [(''risky_ports'', JBool True), (''management_interfaces'', JBool True),
        (''certificates'', JBool True), (''weak_tls'', JBool True), (''api_documentation'', JBool True),
        (''certificate_expiry_days'', JInt 30)])]"

definition DEFAULT_ORG_SETTINGS :: attrs where
  "DEFAULT_ORG_SETTINGS = [(''derived_ip_scanning'', JBool True), (''skip_cdn_ips'', JBool True)]"

fun deep_merge :: "attrs \<Rightarrow> attrs \<Rightarrow> attrs" where
  "deep_merge base [] = base"
| "deep_merge base ((k, JObj d) # rest) =
     deep_merge (dict_set base k (case map_of base k of Some (JObj b) \<Rightarrow> JObj (deep_merge b d) | _ \<Rightarrow> JObj d)) rest"
| "deep_merge base ((k, v) # rest) = deep_merge (dict_set base k v) rest"

text \<open>The platform can require verified scope for every tenant.\<close>

definition tenant_settings :: "bool \<Rightarrow> attrs \<Rightarrow> attrs option" where
  "tenant_settings require_scope_verification stored =
     (let out = deep_merge DEFAULT_TENANT_SETTINGS stored in
      if \<not> require_scope_verification then Some out
      else case jget out ''scanning'' of
        JObj s \<Rightarrow> Some (dict_set out ''scanning'' (JObj (dict_set s ''require_scope_verification'' (JBool True))))
      | _ \<Rightarrow> None)"

definition org_settings :: "attrs \<Rightarrow> attrs" where
  "org_settings stored = deep_merge DEFAULT_ORG_SETTINGS stored"

text \<open>
  \<open>int(v)\<close> of a stored value. A number with a fraction is cut at its point; one that \<open>repr\<close> writes with
  an exponent does not occur in settings.
\<close>

fun json_int :: "json \<Rightarrow> int option" where
  "json_int (JInt i) = Some i"
| "json_int (JBool b) = Some (if b then 1 else 0)"
| "json_int (JStr s) = py_int s"
| "json_int (JFloat r) = py_int (fst (partition_str ''.'' r))"
| "json_int _ = None"

definition get_or :: "attrs \<Rightarrow> string \<Rightarrow> json \<Rightarrow> json" where
  "get_or d k v = (case map_of d k of Some x \<Rightarrow> x | None \<Rightarrow> v)"

definition inactivity_threshold :: "attrs \<Rightarrow> string \<Rightarrow> int option" where
  "inactivity_threshold settings key =
     (case get_or settings ''inactivity'' (JObj []) of
        JObj rules \<Rightarrow> map_option (max 1) (json_int (get_or rules key (get_or rules ''default'' (JInt 3))))
      | _ \<Rightarrow> None)"

subsection \<open>Properties\<close>

text \<open>A stored value wins, and an object that is stored for a default object is merged with it.\<close>

definition merged :: "json option \<Rightarrow> json \<Rightarrow> json" where
  "merged b v = (case (b, v) of (Some (JObj b'), JObj d) \<Rightarrow> JObj (deep_merge b' d) | _ \<Rightarrow> v)"

lemma deep_merge_Cons: "deep_merge base ((k, v) # rest) = deep_merge (dict_set base k (merged (map_of base k) v)) rest"
  by (cases v) (simp_all add: merged_def split: option.split json.split)

lemma deep_merge_lookup:
  "distinct (map fst d) \<Longrightarrow>
   map_of (deep_merge base d) k =
     (case map_of d k of None \<Rightarrow> map_of base k | Some v \<Rightarrow> Some (merged (map_of base k) v))"
proof (induction d arbitrary: base)
  case (Cons kv d)
  obtain k' v where kv: "kv = (k', v)" by (cases kv)
  have "k = k' \<Longrightarrow> map_of d k = None" using Cons.prems by (simp add: kv map_of_eq_None_iff)
  with Cons show ?case by (simp add: kv deep_merge_Cons split: option.split)
qed simp

lemma inactivity_threshold_pos: "inactivity_threshold s k = Some n \<Longrightarrow> 1 \<le> n"
  by (auto simp: inactivity_threshold_def split: json.splits)

text \<open>With nothing stored the defaults apply, and the platform can only tighten them.\<close>

lemma default_thresholds:
  "inactivity_threshold DEFAULT_TENANT_SETTINGS ''port'' = Some 2"
  "inactivity_threshold DEFAULT_TENANT_SETTINGS ''certificate'' = Some 3"
  by code_simp+

lemma tenant_settings_required:
  assumes "tenant_settings True stored = Some out"
  shows "jget (jobj (jget out ''scanning'')) ''require_scope_verification'' = JBool True"
  using assms by (auto simp: tenant_settings_def Let_def jget_def split: json.splits option.splits)

end
