(* ===== verification/Rules.thy ===== *)
theory Rules
  imports Inventory Observations IsoTime Settings
begin

text \<open>
  The built-in detection rules (\<open>backend/app/findings/rules.py\<close>), evaluated on the inventory. \<open>cfg\<close> is the
  section \<open>detection_rules\<close> of the tenant settings. \<^const>\<open>None\<close> is an exception (a setting or a status code
  that is no number). Rows come in the order of the tables, which the queries leave open.
\<close>

definition SOURCE :: string where
  "SOURCE = ''asm-rules''"

definition REMOTE_ACCESS :: "string list" where
  "REMOTE_ACCESS = [''FortiGate'', ''Fortinet'', ''Pulse Secure'', ''Ivanti'', ''GlobalProtect'', ''Citrix'', ''Citrix NetScaler'',
     ''SonicWall'', ''Cisco ASA'', ''F5 BIG-IP'', ''Palo Alto'', ''Check Point'']"

definition SERVICE_REMEDIATION :: "string \<Rightarrow> string" where
  "SERVICE_REMEDIATION label = ''Restrict '' @ label @ '' to trusted networks (VPN, allow-listing or a bastion host). Database, '' @
     ''remote-administration and cluster-management services should never be reachable from the public internet.''"

lemma observed_type_for_total: "observed_type_for t \<noteq> None"
  by (cases t; hypsubst; code_simp)

definition ref :: "asset \<Rightarrow> asset_ref" where
  "ref a = \<lparr>ref_type = the (observed_type_for (as_type a)), ref_value = as_norm a\<rparr>"

definition parse_dt :: "json \<Rightarrow> (time \<times> time option) option" where
  "parse_dt v = (if jtruthy v then fromisoformat (replace_char (CHR ''Z'') ''+00:00'' (jtext v)) else None)"

definition count_dots :: "string \<Rightarrow> nat" where
  "count_dots s = length (filter (\<lambda>c. c = CHR ''.'') s)"

definition name_matches :: "string \<Rightarrow> string \<Rightarrow> bool" where
  "name_matches host name \<longleftrightarrow>
     (let n = rstrip_by (\<lambda>c. c = CHR ''.'') (lower name) in
      n = host \<or> (startswith n ''*.'' \<and> endswith host (tl n) \<and> count_dots host = count_dots n))"

definition host_matches :: "string \<Rightarrow> string list \<Rightarrow> bool" where
  "host_matches host names \<longleftrightarrow> list_ex (name_matches host) names"

subsection \<open>Ports\<close>

definition evaluate_port :: "asset \<Rightarrow> attrs \<Rightarrow> finding_obs list" where
  "evaluate_port a cfg =
     (if \<not> jtruthy (jget cfg ''risky_ports'') then []
      else case parse_port_value (as_norm a) of
        Some (ip, Some p, proto) \<Rightarrow>
          (case map_of RISKY_PORTS p of
             None \<Rightarrow> []
           | Some (label, sev) \<Rightarrow>
               (let served = show_int p @ ''/'' @ proto in
                [(mk_finding_obs (ref a) (''exposed-service:'' @ served) (label @ '' exposed to the internet''))
                 \<lparr>fo_severity := sev, fo_category := finding_category.SERVICE_EXPOSURE,
                  fo_description := Some (label @ '' ('' @ served @ '') is reachable from the public internet on '' @ ip @ ''.''),
                  fo_remediation := Some (SERVICE_REMEDIATION label),
                  fo_evidence := [(''ip'', JStr ip), (''port'', JInt p), (''protocol'', JStr proto)],
                  fo_tags := [''exposed-service''], fo_confidence := 85\<rparr>]))
      | _ \<Rightarrow> [])"

subsection \<open>Web endpoints\<close>

definition endpoint_techs :: "asset \<Rightarrow> string list" where
  "endpoint_techs a = jstrs (jget (as_meta a) ''technologies'')"

definition rule_management :: "asset \<Rightarrow> finding_obs list" where
  "rule_management a =
     (case management_interface [jstr (jget (as_meta a) ''title''), Some (join '' '' (endpoint_techs a))] of
        None \<Rightarrow> []
      | Some mgmt \<Rightarrow>
          (let remote = mgmt \<in> set REMOTE_ACCESS in
           [(mk_finding_obs (ref a) (''management-interface:'' @ replace_char (CHR '' '') ''-'' (lower mgmt))
               ((if remote then ''Remote-access gateway'' else ''Administrative interface'') @ '' exposed: '' @ mgmt))
            \<lparr>fo_severity := (if remote then severity.MEDIUM else severity.HIGH), fo_category := finding_category.EXPOSURE,
             fo_description := Some (''The '' @ mgmt @ '' '' @ (if remote then ''login portal'' else ''administration interface'') @
               '' is reachable from the internet at '' @ as_norm a @ ''.''),
             fo_remediation := Some (''Restrict access to administrative interfaces with network controls, require MFA and '' @
               ''keep the product patched; remote-access gateways are frequent initial-access targets.''),
             fo_evidence := [(''title'', jget (as_meta a) ''title''), (''technologies'', jget (as_meta a) ''technologies'')],
             fo_tags := [''panel'', ''management''], fo_confidence := 75\<rparr>]))"

definition rule_api_docs :: "asset \<Rightarrow> finding_obs list" where
  "rule_api_docs a =
     (if list_ex (\<lambda>t. lower t \<in> set API_DOC_TECH) (endpoint_techs a)
      then [(mk_finding_obs (ref a) ''api-documentation-exposed'' ''API documentation publicly exposed'')
        \<lparr>fo_severity := severity.LOW, fo_category := finding_category.EXPOSURE,
         fo_description := Some ''Interactive API documentation reveals endpoints and parameters to attackers.'',
         fo_remediation := Some ''Remove public API documentation from production or require authentication.'',
         fo_evidence := [(''technologies'', jget (as_meta a) ''technologies'')],
         fo_tags := [''exposure'', ''api''], fo_confidence := 80\<rparr>]
      else [])"

definition rule_weak_tls :: "asset \<Rightarrow> finding_obs list" where
  "rule_weak_tls a =
     (let v = jget (as_meta a) ''tls_version'' in
      if lower (jtext (jor v (JStr []))) \<in> {''tls10'', ''tls11'', ''ssl30'', ''ssl3''}
      then [(mk_finding_obs (ref a) ''weak-tls-protocol'' (''Deprecated TLS protocol negotiated ('' @ jtext v @ '')''))
        \<lparr>fo_severity := severity.MEDIUM, fo_category := finding_category.CERTIFICATE,
         fo_description := Some ''The service negotiates a deprecated TLS version (TLS 1.0/1.1 or SSL).'',
         fo_remediation := Some ''Disable TLS 1.0/1.1 and SSL; support TLS 1.2 and 1.3 only.'',
         fo_evidence := [(''tls_version'', v), (''cipher'', jget (as_meta a) ''tls_cipher'')],
         fo_tags := [''tls''], fo_confidence := 90\<rparr>]
      else [])"

definition rule_cleartext_login :: "asset \<Rightarrow> finding_obs list option" where
  "rule_cleartext_login a =
     (if jget (as_meta a) ''scheme'' = JStr ''http'' \<and> looks_like_login (jstr (jget (as_meta a) ''title''))
      then map_option (\<lambda>code. if code < 300
             then [(mk_finding_obs (ref a) ''cleartext-login'' ''Login page served over unencrypted HTTP'')
               \<lparr>fo_severity := severity.MEDIUM, fo_category := finding_category.MISCONFIGURATION,
                fo_description := Some ''Credentials submitted to this page may be intercepted.'',
                fo_remediation := Some ''Serve the application exclusively over HTTPS and redirect HTTP to HTTPS (with HSTS).'',
                fo_evidence := [(''title'', jget (as_meta a) ''title'')], fo_tags := [''auth''], fo_confidence := 70\<rparr>]
             else []) (json_int (jor (jget (as_meta a) ''status_code'') (JInt 0)))
      else Some [])"

definition date_text :: "time \<Rightarrow> string" where
  "date_text t = (case civil_from_days (t div 86400000000) of (y, m, d) \<Rightarrow> pad_int 4 y @ ''-'' @ pad_int 2 m @ ''-'' @ pad_int 2 d)"

definition rule_expiry :: "asset \<Rightarrow> asset \<Rightarrow> attrs \<Rightarrow> time \<Rightarrow> finding_obs list option" where
  "rule_expiry a cert cfg now =
     (let cm = as_meta cert; subject = jtext (jor (jget cm ''subject_cn'') (JStr (take 16 (as_norm cert)))) in
      case parse_dt (jget cm ''not_after'') of
        None \<Rightarrow> Some []
      | Some not_after \<Rightarrow>
          (let left = delta_days (as_utc not_after - now) in
           if left < 0
           then Some [(mk_finding_obs (ref a) ''certificate-expired'' (''Expired TLS certificate ('' @ subject @ '')''))
             \<lparr>fo_severity := severity.HIGH, fo_category := finding_category.CERTIFICATE,
              fo_description := Some (''The certificate expired on '' @ date_text (fst not_after) @ ''.''),
              fo_remediation := Some ''Renew the certificate and automate renewal (e.g. ACME).'',
              fo_evidence := [(''not_after'', jget cm ''not_after''), (''fingerprint'', JStr (as_norm cert))],
              fo_tags := [''certificate''], fo_confidence := 95\<rparr>]
           else map_option (\<lambda>limit. if left \<le> limit
             then [(mk_finding_obs (ref a) ''certificate-expiring'' (''TLS certificate expires in '' @ show_int left @ '' day(s)''))
               \<lparr>fo_severity := (if left \<le> 7 then severity.MEDIUM else severity.LOW), fo_category := finding_category.CERTIFICATE,
                fo_description := Some (''The certificate for '' @ subject @ '' expires on '' @ date_text (fst not_after) @ ''.''),
                fo_remediation := Some ''Renew the certificate before expiry and automate renewal.'',
                fo_evidence := [(''not_after'', jget cm ''not_after''), (''days_left'', JInt left)],
                fo_tags := [''certificate''], fo_confidence := 95\<rparr>]
             else []) (json_int (get_or cfg ''certificate_expiry_days'' (JInt 30)))))"

definition rule_self_signed :: "asset \<Rightarrow> asset \<Rightarrow> finding_obs list" where
  "rule_self_signed a cert =
     (let cm = as_meta cert in
      if jtruthy (jget cm ''self_signed'')
      then [(mk_finding_obs (ref a) ''certificate-self-signed'' ''Self-signed TLS certificate'')
        \<lparr>fo_severity := severity.MEDIUM, fo_category := finding_category.CERTIFICATE,
         fo_description := Some ''Clients cannot authenticate this service; users are trained to click through warnings.'',
         fo_remediation := Some ''Install a certificate issued by a publicly trusted CA.'',
         fo_evidence := [(''issuer'', jget cm ''issuer_cn''),
           (''subject'', jor (jget cm ''subject_cn'') (JStr (take 16 (as_norm cert))))],
         fo_tags := [''certificate''], fo_confidence := 90\<rparr>]
      else [])"

definition cert_names :: "asset \<Rightarrow> string list" where
  "cert_names cert = jstrs (jget (as_meta cert) ''sans'') @
     (case jstr (jget (as_meta cert) ''subject_cn'') of Some cn \<Rightarrow> if cn = [] then [] else [cn] | None \<Rightarrow> [])"

definition rule_hostname :: "asset \<Rightarrow> asset \<Rightarrow> finding_obs list" where
  "rule_hostname a cert =
     (let host = (case jstr (jget (as_meta a) ''host'') of Some h \<Rightarrow> lower h | None \<Rightarrow> []); names = cert_names cert in
      if host \<noteq> [] \<and> names \<noteq> [] \<and> \<not> str_isdigit (replace_char (CHR ''.'') [] host) \<and> \<not> host_matches host names
      then [(mk_finding_obs (ref a) ''certificate-hostname-mismatch'' ''TLS certificate does not match hostname'')
        \<lparr>fo_severity := severity.MEDIUM, fo_category := finding_category.CERTIFICATE,
         fo_description := Some (''The certificate presented by '' @ host @ '' is valid for '' @ join '', '' (take 5 names) @ ''.''),
         fo_remediation := Some ''Serve a certificate whose subject alternative names include this hostname.'',
         fo_evidence := [(''host'', JStr host), (''names'', jtexts (take 20 names))],
         fo_tags := [''certificate''], fo_confidence := 80\<rparr>]
      else [])"

definition evaluate_endpoint :: "asset \<Rightarrow> asset option \<Rightarrow> attrs \<Rightarrow> time \<Rightarrow> finding_obs list option" where
  "evaluate_endpoint a cert cfg now =
     (let on = (\<lambda>k xs. if jtruthy (jget cfg k) then xs else []) in
      case rule_cleartext_login a of None \<Rightarrow> None
      | Some login \<Rightarrow>
          map_option (\<lambda>certs. on ''management_interfaces'' (rule_management a) @ on ''api_documentation'' (rule_api_docs a) @
               on ''weak_tls'' (rule_weak_tls a) @ login @ certs)
            (case cert of
               Some c \<Rightarrow> if jtruthy (jget cfg ''certificates'')
                 then map_option (\<lambda>ex. ex @ rule_self_signed a c @ rule_hostname a c) (rule_expiry a c cfg now)
                 else Some []
             | None \<Rightarrow> Some []))"

subsection \<open>All assets\<close>

definition evaluated_assets :: "inventory \<Rightarrow> uuid set \<Rightarrow> asset list" where
  "evaluated_assets db ids = filter (\<lambda>a. as_id a \<in> ids \<and> as_scope a \<noteq> scope_status.OUT_OF_SCOPE \<and>
     as_type a \<in> {asset_type.PORT, asset_type.HTTP_ENDPOINT}) (assets db)"

definition certs_of :: "inventory \<Rightarrow> uuid list \<Rightarrow> (uuid, asset) dict" where
  "certs_of db endpoint_ids = foldl (\<lambda>d r. case get_asset db (rl_target_asset r) of Some c \<Rightarrow> dict_set d (rl_source_asset r) c | None \<Rightarrow> d) []
     (filter (\<lambda>r. rl_source_asset r \<in> set endpoint_ids \<and> rl_type r = relation_type.PRESENTS_CERTIFICATE \<and> rl_active r)
        (relationships db))"

definition evaluate_asset :: "(uuid, asset) dict \<Rightarrow> attrs \<Rightarrow> time \<Rightarrow> asset \<Rightarrow> finding_obs list option" where
  "evaluate_asset certs cfg now a =
     (if as_status a \<noteq> asset_status.ACTIVE then Some []
      else if as_type a = asset_type.PORT then Some (evaluate_port a cfg)
      else evaluate_endpoint a (map_of certs (as_id a)) cfg now)"

definition evaluate :: "inventory \<Rightarrow> uuid list \<Rightarrow> attrs \<Rightarrow> time \<Rightarrow> sensor_result option" where
  "evaluate db asset_ids cfg now =
     (let rows = evaluated_assets db (set asset_ids);
          certs = certs_of db (map as_id (filter (\<lambda>a. as_type a = asset_type.HTTP_ENDPOINT) rows)) in
      map_option (\<lambda>obs. \<lparr>res_historical = False, res_observations = map FindingObs (concat obs),
          res_coverage = (if rows = [] then []
            else [FindingCov \<lparr>fc_assets = map ref rows, fc_severities = None, fc_include_tags = None, fc_exclude_tags = None, fc_rule_ids = None\<rparr>])\<rparr>)
        (mapM_opt (evaluate_asset certs cfg now) rows))"

subsection \<open>Properties\<close>

text \<open>A wildcard name stands for exactly one further label.\<close>

lemma count_dots_app: "count_dots (a @ b) = count_dots a + count_dots b"
  by (simp add: count_dots_def)

lemma count_dots_0: "count_dots l = 0 \<longleftrightarrow> CHR ''.'' \<notin> set l"
  by (induction l) (auto simp: count_dots_def)

lemma wildcard_matches:
  assumes "lower d = d" "d \<noteq> []" "last d \<noteq> CHR ''.''"
  shows "name_matches host (''*.'' @ d) \<longleftrightarrow> host = ''*.'' @ d \<or> (\<exists>l. CHR ''.'' \<notin> set l \<and> host = l @ ''.'' @ d)"
proof -
  have r: "rstrip_by (\<lambda>c. c = CHR ''.'') (''*.'' @ d) = ''*.'' @ d"
    using assms(2,3) by (cases d rule: rev_cases) (auto simp: rstrip_by_def)
  have n: "count_dots (''*.'' @ d) = Suc (count_dots d)" "count_dots (''.'' @ d) = Suc (count_dots d)"
    by (simp_all add: count_dots_def)
  have c: "count_dots (l @ ''.'' @ d) = count_dots (''*.'' @ d) \<longleftrightarrow> CHR ''.'' \<notin> set l" for l
    using count_dots_app [of l "''.'' @ d"] n by (simp add: count_dots_0)
  have l: "lower (''*.'' @ d) = ''*.'' @ d" using assms(1) by (simp add: lower_char_def isupper_def)
  have "name_matches host (''*.'' @ d) \<longleftrightarrow>
      host = ''*.'' @ d \<or> (endswith host (''.'' @ d) \<and> count_dots host = count_dots (''*.'' @ d))"
    unfolding name_matches_def l r Let_def by (auto simp: startswith_def)
  also have "\<dots> \<longleftrightarrow> host = ''*.'' @ d \<or> (\<exists>l. host = l @ ''.'' @ d \<and> count_dots host = count_dots (''*.'' @ d))"
    unfolding endswith_iff by blast
  also have "\<dots> \<longleftrightarrow> host = ''*.'' @ d \<or> (\<exists>l. CHR ''.'' \<notin> set l \<and> host = l @ ''.'' @ d)"
    using c by metis
  finally show ?thesis .
qed

text \<open>Every rule reports about the asset it was given.\<close>

lemmas rule_defs = rule_management_def rule_api_docs_def rule_weak_tls_def rule_cleartext_login_def rule_expiry_def
  rule_self_signed_def rule_hostname_def

lemma fo_asset_mk [simp]: "fo_asset (mk_finding_obs a r t) = a"
  by (simp add: mk_finding_obs_def)

lemma evaluate_port_asset: "o1 \<in> set (evaluate_port a cfg) \<Longrightarrow> fo_asset o1 = ref a"
  by (auto simp: evaluate_port_def Let_def split: if_splits option.splits prod.splits)

lemma rules_asset:
  "o1 \<in> set (rule_management a) \<Longrightarrow> fo_asset o1 = ref a"
  "o1 \<in> set (rule_api_docs a) \<Longrightarrow> fo_asset o1 = ref a"
  "o1 \<in> set (rule_weak_tls a) \<Longrightarrow> fo_asset o1 = ref a"
  "rule_cleartext_login a = Some os \<Longrightarrow> o1 \<in> set os \<Longrightarrow> fo_asset o1 = ref a"
  "rule_expiry a c cfg now = Some os \<Longrightarrow> o1 \<in> set os \<Longrightarrow> fo_asset o1 = ref a"
  "o1 \<in> set (rule_self_signed a c) \<Longrightarrow> fo_asset o1 = ref a"
  "o1 \<in> set (rule_hostname a c) \<Longrightarrow> fo_asset o1 = ref a"
  by (auto simp: rule_defs Let_def split: if_splits option.splits)

lemma evaluate_endpoint_asset: "evaluate_endpoint a cert cfg now = Some os \<Longrightarrow> o1 \<in> set os \<Longrightarrow> fo_asset o1 = ref a"
  by (auto simp: evaluate_endpoint_def Let_def dest: rules_asset split: if_splits option.splits)

lemma mapM_opt_member: "mapM_opt f xs = Some ys \<Longrightarrow> y \<in> set ys \<Longrightarrow> \<exists>x \<in> set xs. f x = Some y"
  by (induction xs arbitrary: ys) (auto split: option.splits)

lemma evaluate_sound:
  assumes "evaluate db ids cfg now = Some r" "FindingObs o1 \<in> set (res_observations r)"
  shows "\<exists>a \<in> set (assets db). as_id a \<in> set ids \<and> as_status a = asset_status.ACTIVE \<and>
    as_scope a \<noteq> scope_status.OUT_OF_SCOPE \<and> fo_asset o1 = ref a \<and>
    (\<exists>c. res_coverage r = [FindingCov c] \<and> ref a \<in> set (fc_assets c))"
proof -
  let ?rows = "evaluated_assets db (set ids)"
  obtain certs os where os: "mapM_opt (evaluate_asset certs cfg now) ?rows = Some os"
      and r: "res_observations r = map FindingObs (concat os)"
      and c: "res_coverage r = (if ?rows = [] then []
            else [FindingCov \<lparr>fc_assets = map ref ?rows, fc_severities = None, fc_include_tags = None, fc_exclude_tags = None, fc_rule_ids = None\<rparr>])"
    using assms(1) by (auto simp: evaluate_def Let_def)
  then obtain xs where xs: "xs \<in> set os" "o1 \<in> set xs" using assms(2) by auto
  then obtain a where a: "a \<in> set ?rows" "evaluate_asset certs cfg now a = Some xs" using mapM_opt_member [OF os] by blast
  then have "fo_asset o1 = ref a \<and> as_status a = asset_status.ACTIVE"
    using xs(2) by (auto simp: evaluate_asset_def evaluate_port_asset evaluate_endpoint_asset split: if_splits)
  moreover have "a \<in> set (assets db) \<and> as_id a \<in> set ids \<and> as_scope a \<noteq> scope_status.OUT_OF_SCOPE"
    using a(1) by (simp add: evaluated_assets_def)
  moreover have "\<exists>cov. res_coverage r = [FindingCov cov] \<and> ref a \<in> set (fc_assets cov)"
  proof -
    have "?rows \<noteq> []" using a(1) by auto
    then show ?thesis using a(1) by (simp add: c)
  qed
  ultimately show ?thesis by blast
qed

end
