(* ===== verification/Findings.thy ===== *)
theory Findings
  imports Inventory Observations
begin

text \<open>
  The lifecycle of findings (\<open>backend/app/findings/service.py\<close>): recording an observed issue once,
  counting the scans that covered it without seeing it, resolving and re-opening it, and the
  workflow of the analysts. \<open>sha256\<close> and the Unicode tables are parameters. Times at midnight of a due
  date come with the vulnerability intelligence.
\<close>

subsection \<open>Identity of a finding\<close>

definition norm_location :: "unicode \<Rightarrow> string option \<Rightarrow> string" where
  "norm_location u location =
     (case location of None \<Rightarrow> []
      | Some l \<Rightarrow>
          if l = [] then []
          else (let loc = strip l in
            case urlsplit u loc of None \<Rightarrow> lower loc
            | Some p \<Rightarrow>
                if scheme p \<notin> {''http'', ''https''} then lower loc
                else (case url_port p of None \<Rightarrow> lower loc
                  | Some pt \<Rightarrow>
                      scheme p @ ''://'' @ (case hostname p of Some h \<Rightarrow> lower h | None \<Rightarrow> []) @
                      (case pt of Some k \<Rightarrow> if k = 0 then [] else '':'' @ show_int k | None \<Rightarrow> []) @
                      (if path p = [] then ''/'' else path p))))"

definition fingerprint_text :: "unicode \<Rightarrow> uuid \<Rightarrow> uuid \<Rightarrow> string \<Rightarrow> string \<Rightarrow> string option \<Rightarrow> string" where
  "fingerprint_text u tenant a source rule location =
     join ''|'' [uuid_str tenant, uuid_str a, source, rule, norm_location u location]"

definition fingerprint :: "unicode \<Rightarrow> (string \<Rightarrow> string) \<Rightarrow> uuid \<Rightarrow> uuid \<Rightarrow> string \<Rightarrow> string \<Rightarrow> string option \<Rightarrow> string" where
  "fingerprint u sha256 tenant a source rule location = sha256 (fingerprint_text u tenant a source rule location)"

subsection \<open>Vulnerability intelligence\<close>

definition enrich_row :: "finding \<Rightarrow> vuln_intel \<Rightarrow> finding" where
  "enrich_row f r =
     (let f1 = (if vi_kev r then f\<lparr>fi_kev := True, fi_kev_due := (case vi_kev_due r of Some d \<Rightarrow> Some d | None \<Rightarrow> fi_kev_due f)\<rparr> else f);
          f2 = (case vi_epss_score r of
                  Some e \<Rightarrow> if (case fi_epss_score f1 of Some s \<Rightarrow> s | None \<Rightarrow> 0) < e
                            then f1\<lparr>fi_epss_score := Some e, fi_epss_percentile := vi_epss_percentile r\<rparr> else f1
                | None \<Rightarrow> f1);
          f3 = (if vi_cvss_score r \<noteq> None \<and> fi_cvss_score f2 = None
                then f2\<lparr>fi_cvss_score := vi_cvss_score r, fi_cvss_vector := vi_cvss_vector r\<rparr> else f2)
      in if vi_exploit r then f3\<lparr>fi_exploit := True\<rparr> else f3)"

definition enrich_from_intel :: "vuln_intel list \<Rightarrow> finding \<Rightarrow> finding" where
  "enrich_from_intel rows f =
     (if fi_cve f = [] then f
      else let g = foldl enrich_row f (filter (\<lambda>r. vi_cve r \<in> set (fi_cve f)) rows) in
           if fi_kev g then g\<lparr>fi_exploit := True\<rparr> else g)"

subsection \<open>Recording an observation\<close>

definition add_activity :: "activity \<Rightarrow> inventory \<Rightarrow> inventory" where
  "add_activity a db = db\<lparr>activities := activities db @ [a]\<rparr>"

definition mk_activity :: "finding \<Rightarrow> string \<Rightarrow> activity" where
  "mk_activity f what = \<lparr>ac_tenant = fi_tenant f, ac_finding = fi_id f, ac_user = None, ac_type = what,
     ac_previous = JNull, ac_new = JNull, ac_comment = None, ac_scan = None\<rparr>"

definition status_json :: "finding_status \<Rightarrow> json" where
  "status_json s = JObj [(''status'', JStr (finding_status_value s))]"

definition id_details :: "finding \<Rightarrow> (string \<times> json) list" where
  "id_details f = [(''finding_id'', JStr (uuid_str (fi_id f)))]"

definition new_finding ::
  "uuid \<Rightarrow> uuid \<Rightarrow> uuid \<Rightarrow> asset \<Rightarrow> finding_obs \<Rightarrow> string \<Rightarrow> string \<Rightarrow> time \<Rightarrow> uuid option \<Rightarrow> bool \<Rightarrow> finding" where
  "new_finding i tenant org a obs source fp now scan unverified =
     \<lparr>fi_id = i, fi_tenant = tenant, fi_org = org, fi_asset = as_id a, fi_fingerprint = fp, fi_source = source,
      fi_rule = fo_rule_id obs, fi_title = fo_title obs, fi_description = fo_description obs, fi_category = fo_category obs,
      fi_severity = fo_severity obs, fi_location = or_else (fo_location obs) None, fi_cve = fo_cve obs, fi_cwe = fo_cwe obs,
      fi_cvss_score = fo_cvss_score obs, fi_cvss_vector = fo_cvss_vector obs, fi_epss_score = fo_epss_score obs,
      fi_epss_percentile = None, fi_kev = False, fi_kev_due = None, fi_exploit = False, fi_evidence = fo_evidence obs,
      fi_remediation = fo_remediation obs, fi_references = fo_references obs, fi_confidence = fo_confidence obs,
      fi_unverified = unverified, fi_first_seen = now, fi_last_seen = now, fi_resolved_at = None, fi_last_scan = scan,
      fi_occurrences = 1, fi_missed = 0, fi_status = finding_status.NEW, fi_false_positive = False,
      fi_accepted_until = None, fi_assigned_to = None, fi_notes = None, fi_tags = take 20 (sorted_set (fo_tags obs)),
      fi_risk_score = 0, fi_risk_level = risk_level.INFO, fi_risk_factors = []\<rparr>"

definition detected_event :: "asset \<Rightarrow> finding_obs \<Rightarrow> finding \<Rightarrow> event_draft" where
  "detected_event a obs f =
     (draft event_type.VULNERABILITY_DETECTED (fi_severity f) (fi_title f @ '' on '' @ as_value a))
     \<lparr>ev_summary := (case fi_description f of Some d \<Rightarrow> if d = [] then None else Some (take 500 d) | None \<Rightarrow> None),
      ev_new := JObj [(''severity'', JStr (severity_value (fi_severity f))), (''cve'', jtexts (fi_cve f)), (''rule'', JStr (fo_rule_id obs))],
      ev_details := JObj (id_details f @ [(''category'', JStr (finding_category_value (fi_category f)))])\<rparr>"

definition observe_again :: "finding_obs \<Rightarrow> time \<Rightarrow> uuid option \<Rightarrow> bool \<Rightarrow> finding \<Rightarrow> finding" where
  "observe_again obs now scan unverified f =
     f\<lparr>fi_unverified := fi_unverified f \<and> unverified, fi_last_seen := now, fi_last_scan := scan,
       fi_occurrences := fi_occurrences f + 1, fi_missed := 0, fi_title := fo_title obs, fi_severity := fo_severity obs,
       fi_evidence := (if fo_evidence obs = [] then fi_evidence f else fo_evidence obs),
       fi_description := or_else (fo_description obs) (fi_description f),
       fi_remediation := or_else (fo_remediation obs) (fi_remediation f),
       fi_cve := (if fo_cve obs = [] then fi_cve f else sorted_set (fi_cve f @ fo_cve obs)),
       fi_cvss_score := (if fo_cvss_score obs = None then fi_cvss_score f else fo_cvss_score obs),
       fi_cvss_vector := (if fo_cvss_score obs = None then fi_cvss_vector f else or_else (fo_cvss_vector obs) (fi_cvss_vector f))\<rparr>"

definition reopened_event :: "asset \<Rightarrow> finding \<Rightarrow> event_draft" where
  "reopened_event a f =
     (draft event_type.VULNERABILITY_REOPENED (fi_severity f)
        (''Previously remediated issue is back: '' @ fi_title f @ '' on '' @ as_value a))
     \<lparr>ev_previous := status_json finding_status.REMEDIATED, ev_new := status_json finding_status.REOPENED,
      ev_details := JObj (id_details f)\<rparr>"

definition find_fingerprint :: "inventory \<Rightarrow> uuid \<Rightarrow> string \<Rightarrow> finding option" where
  "find_fingerprint db tenant fp = find (\<lambda>f. fi_tenant f = tenant \<and> fi_fingerprint f = fp) (findings db)"

definition insert_observation ::
  "uuid \<Rightarrow> uuid \<Rightarrow> asset \<Rightarrow> finding_obs \<Rightarrow> string \<Rightarrow> string \<Rightarrow> time \<Rightarrow> uuid option \<Rightarrow> bool \<Rightarrow> inventory \<Rightarrow> inventory \<times> finding \<times> event_draft option" where
  "insert_observation tenant org a obs source fp now scan unverified db =
     (let f = enrich_from_intel (intel db) (new_finding (next_id db) tenant org a obs source fp now scan unverified);
          act = (mk_activity f ''detected'')\<lparr>ac_new := JObj [(''severity'', JStr (severity_value (fi_severity f)))], ac_scan := scan\<rparr>
      in (add_activity act (add_finding f db), f, if unverified then None else Some (detected_event a obs f)))"

definition update_observation ::
  "asset \<Rightarrow> finding_obs \<Rightarrow> time \<Rightarrow> uuid option \<Rightarrow> bool \<Rightarrow> finding \<Rightarrow> inventory \<Rightarrow> inventory \<times> finding \<times> event_draft option" where
  "update_observation a obs now scan unverified f0 db =
     (let f = enrich_from_intel (intel db) (observe_again obs now scan unverified f0) in
      if fi_status f = finding_status.REMEDIATED
      then (let g = f\<lparr>fi_status := finding_status.REOPENED, fi_resolved_at := None\<rparr>;
                act = (mk_activity g ''reopened'')\<lparr>ac_previous := status_json finding_status.REMEDIATED,
                         ac_new := status_json finding_status.REOPENED, ac_scan := scan\<rparr>
            in (add_activity act (put_finding g db), g, Some (reopened_event a g)))
      else (put_finding f db, f, None))"

definition upsert_observation ::
  "unicode \<Rightarrow> (string \<Rightarrow> string) \<Rightarrow> uuid \<Rightarrow> uuid \<Rightarrow> asset \<Rightarrow> finding_obs \<Rightarrow> string \<Rightarrow> time \<Rightarrow> uuid option \<Rightarrow> bool \<Rightarrow>
   inventory \<Rightarrow> inventory \<times> finding \<times> event_draft option" where
  "upsert_observation u sha256 tenant org a obs source now scan unverified db =
     (let fp = fingerprint u sha256 tenant (as_id a) source (fo_rule_id obs) (fo_location obs) in
      case find_fingerprint db tenant fp of
        None \<Rightarrow> insert_observation tenant org a obs source fp now scan unverified db
      | Some f \<Rightarrow> update_observation a obs now scan unverified f db)"

subsection \<open>Resolving what is no longer seen\<close>

definition matches_filter :: "finding \<Rightarrow> finding_coverage \<Rightarrow> bool" where
  "matches_filter f cov \<longleftrightarrow>
     (case fc_severities cov of Some ss \<Rightarrow> fi_severity f \<in> set ss | None \<Rightarrow> True) \<and>
     (case fc_include_tags cov of Some ts \<Rightarrow> ts = [] \<or> set (fi_tags f) \<inter> set ts \<noteq> {} | None \<Rightarrow> True) \<and>
     (case fc_exclude_tags cov of Some ts \<Rightarrow> ts = [] \<or> set (fi_tags f) \<inter> set ts = {} | None \<Rightarrow> True) \<and>
     (case fc_rule_ids cov of Some rs \<Rightarrow> rs = [] \<or> hd (split_on (CHR '':'') (fi_rule f)) \<in> set rs | None \<Rightarrow> True)"

definition is_open :: "finding \<Rightarrow> bool" where
  "is_open f \<longleftrightarrow> fi_status f \<in> set OPEN_FINDING_STATES"

definition resolve :: "string \<Rightarrow> string \<Rightarrow> time \<Rightarrow> uuid option \<Rightarrow> finding \<Rightarrow> inventory \<Rightarrow> inventory \<times> (finding \<times> event_draft)" where
  "resolve lead comment now scan f db =
     (let g = f\<lparr>fi_status := finding_status.REMEDIATED, fi_resolved_at := Some now\<rparr>;
          act = (mk_activity g ''resolved'')\<lparr>ac_previous := status_json (fi_status f), ac_new := status_json finding_status.REMEDIATED,
                   ac_comment := Some comment, ac_scan := scan\<rparr>;
          ev = (draft event_type.VULNERABILITY_RESOLVED severity.INFO (lead @ fi_title g))
                 \<lparr>ev_previous := status_json (fi_status f), ev_new := status_json finding_status.REMEDIATED, ev_details := JObj (id_details g)\<rparr>
      in (add_activity act (put_finding g db), g, ev))"

definition NOT_DETECTED_COMMENT :: string where
  "NOT_DETECTED_COMMENT = ''Automatically resolved: no longer detected by a scan that covered this asset.''"

definition ASSET_GONE_COMMENT :: string where
  "ASSET_GONE_COMMENT = ''Automatically resolved: the affected asset is no longer observed.''"

definition miss :: "int \<Rightarrow> time \<Rightarrow> uuid option \<Rightarrow> finding \<Rightarrow> inventory \<Rightarrow> inventory \<times> (finding \<times> event_draft) list" where
  "miss threshold now scan f db =
     (let g = f\<lparr>fi_missed := fi_missed f + 1\<rparr> in
      if fi_missed g < threshold then (put_finding g db, [])
      else case resolve ''Resolved: '' NOT_DETECTED_COMMENT now scan g db of (db', ch) \<Rightarrow> (db', [ch]))"

text \<open>A loop over rows that threads the database and collects the changes.\<close>

fun collect :: "('r \<Rightarrow> 'd \<Rightarrow> 'd \<times> 'c list) \<Rightarrow> 'r list \<Rightarrow> 'd \<Rightarrow> 'd \<times> 'c list" where
  "collect f [] db = (db, [])"
| "collect f (r # rs) db = (case f r db of (db', cs) \<Rightarrow> case collect f rs db' of (db'', cs') \<Rightarrow> (db'', cs @ cs'))"

definition resolve_unobserved ::
  "uuid \<Rightarrow> uuid set \<Rightarrow> string \<Rightarrow> finding_coverage option \<Rightarrow> uuid set \<Rightarrow> int \<Rightarrow> time \<Rightarrow> uuid option \<Rightarrow> inventory \<Rightarrow>
   inventory \<times> (finding \<times> event_draft) list" where
  "resolve_unobserved tenant asset_ids source cov observed_ids threshold now scan db =
     (let rows = filter (\<lambda>f. fi_tenant f = tenant \<and> fi_asset f \<in> asset_ids \<and> fi_source f = source \<and> is_open f) (findings db) in
      collect (miss threshold now scan)
        (filter (\<lambda>f. \<not> (fi_id f \<in> observed_ids \<or> (case cov of Some c \<Rightarrow> \<not> matches_filter f c | None \<Rightarrow> False))) rows) db)"

definition resolve_for_inactive_asset ::
  "uuid \<Rightarrow> time \<Rightarrow> uuid option \<Rightarrow> inventory \<Rightarrow> inventory \<times> (finding \<times> event_draft) list" where
  "resolve_for_inactive_asset a now scan db =
     collect (\<lambda>f db. case resolve ''Resolved (asset gone): '' ASSET_GONE_COMMENT now scan f db of (db', ch) \<Rightarrow> (db', [ch]))
       (filter (\<lambda>f. fi_asset f = a \<and> is_open f) (findings db)) db"

subsection \<open>The workflow of the analysts\<close>

fun ALLOWED_TRANSITIONS :: "finding_status \<Rightarrow> finding_status list" where
  "ALLOWED_TRANSITIONS finding_status.NEW =
     [finding_status.INVESTIGATING, finding_status.ACCEPTED_RISK, finding_status.FALSE_POSITIVE, finding_status.REMEDIATED]"
| "ALLOWED_TRANSITIONS finding_status.INVESTIGATING =
     [finding_status.NEW, finding_status.ACCEPTED_RISK, finding_status.FALSE_POSITIVE, finding_status.REMEDIATED]"
| "ALLOWED_TRANSITIONS finding_status.REOPENED =
     [finding_status.INVESTIGATING, finding_status.ACCEPTED_RISK, finding_status.FALSE_POSITIVE, finding_status.REMEDIATED]"
| "ALLOWED_TRANSITIONS finding_status.ACCEPTED_RISK = [finding_status.REOPENED, finding_status.INVESTIGATING]"
| "ALLOWED_TRANSITIONS finding_status.FALSE_POSITIVE = [finding_status.REOPENED, finding_status.INVESTIGATING]"
| "ALLOWED_TRANSITIONS finding_status.REMEDIATED = [finding_status.REOPENED]"

text \<open>
  The changes of a request: \<^const>\<open>None\<close> for a key that is absent (or \<open>None\<close>, for the status, the tags, the
  comment and the date, which the code treats alike).
\<close>

record finding_changes =
  ch_status :: "finding_status option"
  ch_assigned_to :: "uuid option option"
  ch_tags :: "string list option"
  ch_notes :: "string option option"
  ch_comment :: "string option"
  ch_accepted_until :: "time option"

definition datetime_str :: "time \<Rightarrow> string" where
  "datetime_str t = (let s = isoformat t in take 10 s @ '' '' @ drop 11 s)"

definition snapshot :: "finding \<Rightarrow> attrs" where
  "snapshot f = [(''status'', JStr (finding_status_value (fi_status f))),
     (''assigned_to'', opt_str (map_option uuid_str (fi_assigned_to f))), (''tags'', jtexts (fi_tags f)),
     (''notes'', opt_str (fi_notes f)), (''accepted_until'', opt_str (map_option datetime_str (fi_accepted_until f)))]"

definition no_text :: "string option \<Rightarrow> bool" where
  "no_text c \<longleftrightarrow> c = None \<or> c = Some []"

definition check_transition :: "bool \<Rightarrow> string option \<Rightarrow> finding_status \<Rightarrow> finding_status \<Rightarrow> app_error option" where
  "check_transition can_accept_risk comment old new =
     (if new \<notin> set (ALLOWED_TRANSITIONS old)
      then Some (ValidationFailed (''Cannot move a finding from '' @ finding_status_value old @ '' to '' @ finding_status_value new))
      else if new = finding_status.ACCEPTED_RISK \<and> \<not> can_accept_risk
      then Some (forbidden ''Accepting risk requires the tenant administrator role'')
      else if new = finding_status.ACCEPTED_RISK \<and> no_text comment
      then Some (ValidationFailed ''A justification comment is required to accept risk'')
      else None)"

definition set_status :: "time \<Rightarrow> time option \<Rightarrow> finding_status \<Rightarrow> finding \<Rightarrow> finding" where
  "set_status now until new f =
     f\<lparr>fi_accepted_until := (if new = finding_status.ACCEPTED_RISK then until else fi_accepted_until f),
       fi_false_positive := (new = finding_status.FALSE_POSITIVE),
       fi_resolved_at := (if new = finding_status.REMEDIATED then Some now
                          else if new = finding_status.REOPENED then None else fi_resolved_at f),
       fi_status := new\<rparr>"

definition status_activity :: "uuid \<Rightarrow> string option \<Rightarrow> finding \<Rightarrow> finding_status \<Rightarrow> activity" where
  "status_activity user comment f new = (mk_activity f ''status'')\<lparr>ac_user := Some user, ac_previous := status_json (fi_status f),
     ac_new := status_json new, ac_comment := comment\<rparr>"

text \<open>The steps of \<open>update_finding\<close>: each gives the finding and the activities it adds.\<close>

definition apply_status ::
  "time \<Rightarrow> uuid \<Rightarrow> bool \<Rightarrow> finding_changes \<Rightarrow> finding \<Rightarrow> app_error + finding \<times> activity list \<times> string option" where
  "apply_status now user can_accept_risk ch f =
     (case ch_status ch of
        None \<Rightarrow> Inr (f, [], ch_comment ch)
      | Some new \<Rightarrow>
          if new = fi_status f then Inr (f, [], ch_comment ch)
          else case check_transition can_accept_risk (ch_comment ch) (fi_status f) new of
            Some e \<Rightarrow> Inl e
          | None \<Rightarrow> Inr (set_status now (ch_accepted_until ch) new f, [status_activity user (ch_comment ch) f new], None))"

definition apply_assignee :: "uuid \<Rightarrow> finding_changes \<Rightarrow> finding \<Rightarrow> finding \<times> activity list" where
  "apply_assignee user ch f =
     (case ch_assigned_to ch of
        None \<Rightarrow> (f, [])
      | Some who \<Rightarrow>
          if who = fi_assigned_to f then (f, [])
          else (f\<lparr>fi_assigned_to := who\<rparr>, [(mk_activity f ''assignment'')\<lparr>ac_user := Some user,
                  ac_previous := JObj [(''assigned_to'', opt_str (map_option uuid_str (fi_assigned_to f)))],
                  ac_new := JObj [(''assigned_to'', opt_str (map_option uuid_str who))]\<rparr>]))"

definition clean_tags :: "string list \<Rightarrow> string list" where
  "clean_tags ts = take 30 (sorted_set (map (\<lambda>t. take 64 (lower (strip t))) (filter (\<lambda>t. strip t \<noteq> []) ts)))"

definition apply_tags :: "uuid \<Rightarrow> finding_changes \<Rightarrow> finding \<Rightarrow> finding \<times> activity list" where
  "apply_tags user ch f =
     (case ch_tags ch of
        None \<Rightarrow> (f, [])
      | Some ts \<Rightarrow>
          if clean_tags ts = sort (fi_tags f) then (f, [])
          else (f\<lparr>fi_tags := clean_tags ts\<rparr>, [(mk_activity f ''tags'')\<lparr>ac_user := Some user,
                  ac_previous := JObj [(''tags'', jtexts (fi_tags f))], ac_new := JObj [(''tags'', jtexts (clean_tags ts))]\<rparr>]))"

definition comment_activity :: "uuid \<Rightarrow> string option \<Rightarrow> finding \<Rightarrow> activity list" where
  "comment_activity user comment f =
     (if no_text comment then [] else [(mk_activity f ''comment'')\<lparr>ac_user := Some user, ac_comment := comment\<rparr>])"

definition audit_update :: "(string \<Rightarrow> string) \<Rightarrow> request_context \<Rightarrow> time \<Rightarrow> finding \<Rightarrow> finding \<Rightarrow> inventory \<Rightarrow> inventory" where
  "audit_update sha256 ctx now f g db =
     (case diff (snapshot f) (snapshot g) of (prev, new) \<Rightarrow>
        if prev = [] \<and> new = [] then db
        else db\<lparr>trail := record_entry sha256 ctx now
          ((audit_args (if fi_status g = finding_status.ACCEPTED_RISK \<and> fi_status f \<noteq> finding_status.ACCEPTED_RISK
                        then ''finding.risk_accepted'' else ''finding.updated''))
           \<lparr>a_tenant := Some (fi_tenant g), a_object_type := Some ''finding'', a_object_id := Some (uuid_str (fi_id g)),
            a_previous := JObj prev, a_new := JObj new\<rparr>) (trail db)\<rparr>)"

definition update_finding ::
  "(string \<Rightarrow> string) \<Rightarrow> request_context \<Rightarrow> time \<Rightarrow> uuid \<Rightarrow> finding_changes \<Rightarrow> uuid \<Rightarrow> bool \<Rightarrow> inventory \<Rightarrow> inventory \<times> (app_error + finding)" where
  "update_finding sha256 ctx now i ch user can_accept_risk db =
     (case get_finding db i of
        None \<Rightarrow> (db, Inl (NotFound ''Finding not found''))
      | Some f \<Rightarrow>
          (case apply_status now user can_accept_risk ch f of
             Inl e \<Rightarrow> (db, Inl e)
           | Inr (f1, acts1, comment) \<Rightarrow>
               (case apply_assignee user ch f1 of (f2, acts2) \<Rightarrow>
                case apply_tags user ch f2 of (f3, acts3) \<Rightarrow>
                let g = (case ch_notes ch of Some n \<Rightarrow> f3\<lparr>fi_notes := n\<rparr> | None \<Rightarrow> f3);
                    db1 = (put_finding g db)\<lparr>activities := activities db @ acts1 @ acts2 @ acts3 @ comment_activity user comment g\<rparr>
                in (audit_update sha256 ctx now f g db1, Inr g))))"

definition add_comment :: "uuid \<Rightarrow> uuid \<Rightarrow> string \<Rightarrow> inventory \<Rightarrow> inventory \<times> (app_error + activity)" where
  "add_comment i user comment db =
     (case get_finding db i of
        None \<Rightarrow> (db, Inl (NotFound ''Finding not found''))
      | Some f \<Rightarrow> (let act = (mk_activity f ''comment'')\<lparr>ac_user := Some user, ac_comment := Some comment\<rparr> in (add_activity act db, Inr act)))"

end
