(* ===== verification/Maintenance.thy ===== *)
theory Maintenance
  imports Findings IsoTime Settings
begin

text \<open>
  Periodic housekeeping (\<open>backend/app/services/maintenance.py\<close>): assets that were not seen for long,
  certificates that expire, accepted risks whose time is over. A session of a tenant sees the rows of
  that tenant only. \<^const>\<open>None\<close> is an exception (settings of the wrong shape).
\<close>

definition NO_AGE_OUT :: "asset_type list" where
  "NO_AGE_OUT = [asset_type.ROOT_DOMAIN, asset_type.TECHNOLOGY, asset_type.ASN, asset_type.CIDR]"

definition maintenance_event :: "asset \<Rightarrow> event_draft \<Rightarrow> time \<Rightarrow> inventory \<Rightarrow> inventory" where
  "maintenance_event a d now db = add_event (event_row (as_tenant a) (Some (as_org a)) (Some a) None None False now d) db"

subsection \<open>Assets that were not seen for long\<close>

text \<open>A comparison with \<open>NULL\<close> is not true, so an asset without a source stays.\<close>

definition aged :: "uuid \<Rightarrow> time \<Rightarrow> asset \<Rightarrow> bool" where
  "aged tenant cutoff a \<longleftrightarrow> as_tenant a = tenant \<and> as_status a = asset_status.ACTIVE \<and> as_last_seen a < cutoff \<and>
     as_type a \<notin> set NO_AGE_OUT \<and> (case as_source a of Some s \<Rightarrow> s \<noteq> ''scope'' | None \<Rightarrow> False)"

definition age_out :: "int \<Rightarrow> time \<Rightarrow> asset \<Rightarrow> inventory \<Rightarrow> inventory" where
  "age_out n now a db =
     (let b = a\<lparr>as_status := asset_status.INACTIVE, as_inactive_since := Some now\<rparr>; db1 = put_asset b db in
      if as_type b \<in> {asset_type.CERTIFICATE, asset_type.DNS_RECORD} then db1
      else maintenance_event b ((draft event_type.ASSET_DISAPPEARED severity.INFO
             (as_value b @ '' not observed for '' @ show_int n @ '' days''))
             \<lparr>ev_new := JObj [(''last_seen'', JStr (isoformat (as_last_seen b)))]\<rparr>) now db1)"

definition age_out_assets :: "uuid \<Rightarrow> attrs \<Rightarrow> time \<Rightarrow> inventory \<Rightarrow> (inventory \<times> int) option" where
  "age_out_assets tenant settings now db =
     (case jget settings ''inactivity'' of
        JObj rules \<Rightarrow>
          map_option (\<lambda>n. let rows = filter (aged tenant (now - Core.days n)) (assets db) in
              (foldl (\<lambda>db a. age_out n now a db) db rows, int (length rows)))
            (json_int (get_or rules ''max_age_days'' (JInt 30)))
      | _ \<Rightarrow> None)"

subsection \<open>Certificates that expire\<close>

definition expiry_alerts :: "asset \<Rightarrow> int list" where
  "expiry_alerts a = List.map_filter jint (jlist (jget (as_meta a) ''expiry_alerts''))"

definition expiry_of :: "asset \<Rightarrow> time option" where
  "expiry_of a =
     (let na = jget (as_meta a) ''not_after'' in
      if jtruthy na then map_option as_utc (fromisoformat (replace_char (CHR ''Z'') ''+00:00'' (jtext na))) else None)"

definition certificate_alert :: "time \<Rightarrow> asset \<Rightarrow> (event_draft \<times> int) option" where
  "certificate_alert now a =
     (case expiry_of a of
        None \<Rightarrow> None
      | Some e \<Rightarrow> certificate_expiry (as_value a) (jstr (jget (as_meta a) ''subject_cn'')) (delta_days (e - now)) (expiry_alerts a))"

definition note_alert :: "int \<Rightarrow> asset \<Rightarrow> asset" where
  "note_alert t a = a\<lparr>as_meta := dict_set (as_meta a) ''expiry_alerts'' (JList (map JInt (sort (remdups (t # expiry_alerts a)))))\<rparr>"

definition alert_certificate :: "time \<Rightarrow> inventory \<times> int \<Rightarrow> asset \<Rightarrow> inventory \<times> int" where
  "alert_certificate now acc a =
     (case certificate_alert now a of
        None \<Rightarrow> acc
      | Some (d, t) \<Rightarrow> (put_asset (note_alert t a) (maintenance_event a d now (fst acc)), snd acc + 1))"

definition certificate_alerts :: "uuid \<Rightarrow> time \<Rightarrow> inventory \<Rightarrow> inventory \<times> int" where
  "certificate_alerts tenant now db =
     foldl (alert_certificate now) (db, 0)
       (filter (\<lambda>a. as_tenant a = tenant \<and> as_type a = asset_type.CERTIFICATE \<and> as_status a = asset_status.ACTIVE) (assets db))"

subsection \<open>Accepted risks whose time is over\<close>

definition acceptance_over :: "uuid \<Rightarrow> time \<Rightarrow> finding \<Rightarrow> bool" where
  "acceptance_over tenant now f \<longleftrightarrow> fi_tenant f = tenant \<and> fi_status f = finding_status.ACCEPTED_RISK \<and>
     (case fi_accepted_until f of Some t \<Rightarrow> t < now | None \<Rightarrow> False)"

definition expire_acceptance :: "time \<Rightarrow> finding \<Rightarrow> inventory \<Rightarrow> inventory" where
  "expire_acceptance now f db =
     (let act = (mk_activity f ''reopened'')\<lparr>ac_previous := status_json finding_status.ACCEPTED_RISK,
            ac_new := status_json finding_status.REOPENED, ac_comment := Some ''Risk acceptance expired.''\<rparr>;
          g = f\<lparr>fi_status := finding_status.REOPENED, fi_accepted_until := None\<rparr>;
          ev = (event_row (fi_tenant g) (Some (fi_org g)) None (Some (fi_id g)) None False now
             (draft event_type.VULNERABILITY_REOPENED (fi_severity g) (''Risk acceptance expired: '' @ fi_title g)))
             \<lparr>ae_asset := Some (fi_asset g)\<rparr>
      in add_event ev (put_finding g (add_activity act db)))"

definition expire_risk_acceptance :: "uuid \<Rightarrow> time \<Rightarrow> inventory \<Rightarrow> inventory \<times> int" where
  "expire_risk_acceptance tenant now db =
     (let rows = filter (acceptance_over tenant now) (findings db) in
      (foldl (\<lambda>db f. expire_acceptance now f db) db rows, int (length rows)))"

subsection \<open>All active tenants\<close>

record maintenance_stats =
  aged_out :: int
  alerts :: int
  acceptance_expired :: int

definition maintain_tenant ::
  "bool \<Rightarrow> time \<Rightarrow> uuid \<times> attrs \<Rightarrow> inventory \<times> maintenance_stats \<Rightarrow> (inventory \<times> maintenance_stats) option" where
  "maintain_tenant require_verification now tenant acc =
     (case tenant_settings require_verification (snd tenant) of None \<Rightarrow> None
      | Some settings \<Rightarrow>
          (case age_out_assets (fst tenant) settings now (fst acc) of None \<Rightarrow> None
           | Some (db1, n) \<Rightarrow>
               (case certificate_alerts (fst tenant) now db1 of (db2, k) \<Rightarrow>
                case expire_risk_acceptance (fst tenant) now db2 of (db3, m) \<Rightarrow>
                  Some (db3, \<lparr>aged_out = aged_out (snd acc) + n, alerts = alerts (snd acc) + k,
                    acceptance_expired = acceptance_expired (snd acc) + m\<rparr>))))"

text \<open>Each tenant is committed on its own; an exception leaves those before it committed.\<close>

fun run_tenants :: "bool \<Rightarrow> time \<Rightarrow> (uuid \<times> attrs) list \<Rightarrow> inventory \<times> maintenance_stats \<Rightarrow> inventory \<times> maintenance_stats option" where
  "run_tenants rv now [] acc = (fst acc, Some (snd acc))"
| "run_tenants rv now (t # ts) acc =
     (case maintain_tenant rv now t acc of None \<Rightarrow> (fst acc, None) | Some acc' \<Rightarrow> run_tenants rv now ts acc')"

definition run_tenant_maintenance :: "bool \<Rightarrow> (uuid \<times> tenant_status \<times> attrs) list \<Rightarrow> time \<Rightarrow> inventory \<Rightarrow> inventory \<times> maintenance_stats option" where
  "run_tenant_maintenance rv tenants now db =
     run_tenants rv now (map (\<lambda>(t, _, s). (t, s)) (filter (\<lambda>(_, st, _). st = tenant_status.ACTIVE) tenants))
       (db, \<lparr>aged_out = 0, alerts = 0, acceptance_expired = 0\<rparr>)"

end
