(* ===== verification/IngestScope.thy ===== *)
theory IngestScope
  imports ScopeChecker Cloud Findings Settings "HOL-Library.Monad_Syntax"
begin

text \<open>
  The state of the ingestion engine and the first half of its work
  (\<open>Ingestor\<close> of \<open>backend/app/assets/ingest.py\<close>): the canonical key of what was observed, events, loading of known assets,
  and the decision which observed things belong to the organization. An asset object of the code is
  the row with its identifier. \<^const>\<open>None\<close> is an exception, which rolls the transaction back. Sets are lists
  in the order of insertion, where the code leaves the order open.
\<close>

type_synonym akey = "asset_type \<times> string"
type_synonym arel = "akey \<times> relation_type \<times> akey \<times> attrs"

definition CONTEXT_TYPES :: "asset_type list" where
  "CONTEXT_TYPES = [asset_type.TECHNOLOGY, asset_type.CERTIFICATE, asset_type.ASN, asset_type.CIDR, asset_type.CLOUD_RESOURCE,
     asset_type.DNS_RECORD, asset_type.WEB_APPLICATION]"

definition APPROVED_BY_DEFAULT :: "asset_type list" where
  "APPROVED_BY_DEFAULT = [asset_type.TECHNOLOGY, asset_type.CERTIFICATE, asset_type.ASN, asset_type.DNS_RECORD]"

fun OWNED_CHILDREN :: "asset_type \<Rightarrow> (relation_type \<times> asset_type) list" where
  "OWNED_CHILDREN asset_type.SUBDOMAIN = [(relation_type.SERVES, asset_type.HTTP_ENDPOINT)]"
| "OWNED_CHILDREN asset_type.ROOT_DOMAIN = [(relation_type.SERVES, asset_type.HTTP_ENDPOINT)]"
| "OWNED_CHILDREN asset_type.DOMAIN = [(relation_type.SERVES, asset_type.HTTP_ENDPOINT)]"
| "OWNED_CHILDREN asset_type.IP_ADDRESS = [(relation_type.HAS_PORT, asset_type.PORT), (relation_type.SERVES, asset_type.HTTP_ENDPOINT)]"
| "OWNED_CHILDREN asset_type.PORT = [(relation_type.RUNS_SERVICE, asset_type.SERVICE)]"
| "OWNED_CHILDREN _ = []"

definition LIVENESS_TYPES :: "asset_type list" where
  "LIVENESS_TYPES = [asset_type.PORT, asset_type.SERVICE, asset_type.HTTP_ENDPOINT]"

fun RANK :: "scope_status \<Rightarrow> nat" where
  "RANK scope_status.OUT_OF_SCOPE = 0"
| "RANK scope_status.DERIVED = 1"
| "RANK scope_status.IN_SCOPE = 2"

text \<open>
  The context of a run, with the parameters of the model: the Unicode tables, SHA-256, and the
  registered domain of a hostname (the public suffix list).
\<close>

record ingest_context =
  ix_tenant :: uuid
  ix_org :: uuid
  ix_source :: string
  ix_checker :: checker
  ix_now :: time
  ix_settings :: attrs
  ix_method :: "string option"
  ix_scan :: "uuid option"
  ix_stage :: "uuid option"
  ix_baseline :: bool
  ix_historical :: bool
  ix_unicode :: unicode
  ix_sha256 :: "string \<Rightarrow> string"
  ix_registered :: "string \<Rightarrow> string option"

record ingestor =
  ig_db :: inventory
  ig_assets :: "(akey, uuid) dict"
  ig_observed :: "akey list"
  ig_new :: "akey list"
  ig_status :: "(akey, scope_status option) dict"
  ig_rels :: "(uuid \<times> uuid \<times> relation_type) list"
  ig_deactivated :: "uuid list"
  ig_stats :: "(string, int) dict"
  ig_touched :: "uuid list"
  ig_events :: "asset_event list"

definition mk_ingestor :: "inventory \<Rightarrow> ingestor" where
  "mk_ingestor db = \<lparr>ig_db = db, ig_assets = [], ig_observed = [], ig_new = [], ig_status = [], ig_rels = [], ig_deactivated = [],
     ig_stats = [], ig_touched = [], ig_events = []\<rparr>"

definition roots :: "ingest_context \<Rightarrow> string list" where
  "roots cx = root_domains (ix_checker cx)"

text \<open>A loop whose body may raise.\<close>

fun for_each :: "('a \<Rightarrow> 's \<Rightarrow> 's option) \<Rightarrow> 'a list \<Rightarrow> 's \<Rightarrow> 's option" where
  "for_each f [] s = Some s"
| "for_each f (x # xs) s = do { s' \<leftarrow> f x s; for_each f xs s' }"

subsection \<open>Utilities\<close>

definition bump :: "string \<Rightarrow> ingestor \<Rightarrow> ingestor" where
  "bump k st = st\<lparr>ig_stats := dict_set (ig_stats st) k ((case map_of (ig_stats st) k of Some n \<Rightarrow> n | None \<Rightarrow> 0) + 1)\<rparr>"

definition insert_last :: "'a \<Rightarrow> 'a list \<Rightarrow> 'a list" where
  "insert_last x xs = (if x \<in> set xs then xs else xs @ [x])"

definition touch :: "uuid \<Rightarrow> ingestor \<Rightarrow> ingestor" where
  "touch i st = st\<lparr>ig_touched := insert_last i (ig_touched st)\<rparr>"

definition mapdb :: "(inventory \<Rightarrow> inventory) \<Rightarrow> ingestor \<Rightarrow> ingestor" where
  "mapdb f st = st\<lparr>ig_db := f (ig_db st)\<rparr>"

definition akey :: "ingest_context \<Rightarrow> observed_type \<Rightarrow> string \<Rightarrow> akey option" where
  "akey cx t value =
     (case normalize_value (ix_unicode cx) (observed_type_value t) value of
        None \<Rightarrow> None
      | Some n \<Rightarrow> map_option (\<lambda>ty. (ty, n)) (asset_type_for (ix_registered cx) t n (roots cx)))"

definition emit :: "ingest_context \<Rightarrow> asset option \<Rightarrow> uuid option \<Rightarrow> event_draft \<Rightarrow> ingestor \<Rightarrow> ingestor" where
  "emit cx a finding d st =
     (if (case a of Some x \<Rightarrow> as_scope x = scope_status.OUT_OF_SCOPE | None \<Rightarrow> False) then st
      else (let ev = (event_row (ix_tenant cx) (Some (ix_org cx)) a finding (ix_scan cx) (ix_baseline cx) (ix_now cx) d)
                       \<lparr>ae_title := take 512 (ev_title d)\<rparr>
            in bump ''events'' (st\<lparr>ig_db := add_event ev (ig_db st), ig_events := ig_events st @ [ev]\<rparr>)))"

definition load_rows :: "asset list \<Rightarrow> (akey, uuid) dict \<Rightarrow> (akey, uuid) dict" where
  "load_rows rows d = foldl (\<lambda>d a. dict_set d (as_type a, as_norm a) (as_id a)) d rows"

definition load :: "ingest_context \<Rightarrow> akey list \<Rightarrow> ingestor \<Rightarrow> ingestor" where
  "load cx ks st =
     (let missing = filter (\<lambda>k. map_of (ig_assets st) k = None) ks in
      st\<lparr>ig_assets := load_rows (filter (\<lambda>a. as_org a = ix_org cx \<and> (as_type a, as_norm a) \<in> set missing) (assets (ig_db st)))
           (ig_assets st)\<rparr>)"

definition asset_at :: "ingestor \<Rightarrow> akey \<Rightarrow> asset option" where
  "asset_at st k = Option.bind (map_of (ig_assets st) k) (get_asset (ig_db st))"

definition find_hostname :: "ingest_context \<Rightarrow> string \<Rightarrow> ingestor \<Rightarrow> ingestor \<times> asset option" where
  "find_hostname cx value st =
     (case List.map_filter (\<lambda>t. asset_at st (t, value)) HOSTNAME_ASSET_TYPES of
        a # _ \<Rightarrow> (st, Some a)
      | [] \<Rightarrow>
          (case find (\<lambda>a. as_org a = ix_org cx \<and> as_norm a = value \<and> as_type a \<in> set HOSTNAME_ASSET_TYPES) (assets (ig_db st)) of
             None \<Rightarrow> (st, None)
           | Some a \<Rightarrow> (st\<lparr>ig_assets := dict_set (ig_assets st) (as_type a, as_norm a) (as_id a)\<rparr>, Some a)))"

definition existing_status :: "ingestor \<Rightarrow> akey \<Rightarrow> scope_status option" where
  "existing_status st k = map_option as_scope (asset_at st k)"

text \<open>\<open>self.status.get(key)\<close>, and setting it.\<close>

definition status_at :: "ingestor \<Rightarrow> akey \<Rightarrow> scope_status option" where
  "status_at st k = (case map_of (ig_status st) k of Some s \<Rightarrow> s | None \<Rightarrow> None)"

definition put_status :: "akey \<Rightarrow> scope_status option \<Rightarrow> ingestor \<Rightarrow> ingestor" where
  "put_status k s st = st\<lparr>ig_status := dict_set (ig_status st) k s\<rparr>"

subsection \<open>Which observed things belong to the organization\<close>

definition known_scope :: "scope_status option \<Rightarrow> bool" where
  "known_scope s \<longleftrightarrow> s \<noteq> None \<and> s \<noteq> Some scope_status.OUT_OF_SCOPE"

definition ingest_ip_status :: "ingest_context \<Rightarrow> ingestor \<Rightarrow> string \<Rightarrow> scope_status" where
  "ingest_ip_status cx st ip =
     (let k = (asset_type.IP_ADDRESS, ip) in
      case status_at st k of
        Some s \<Rightarrow> s
      | None \<Rightarrow>
          (let s = fst (ip_status (ix_checker cx) ip) in
           if s = scope_status.OUT_OF_SCOPE \<and> \<not> is_excluded_ip (ix_checker cx) ip \<and> known_scope (existing_status st k)
           then the (existing_status st k) else s))"

definition host_status :: "ingest_context \<Rightarrow> ingestor \<Rightarrow> string \<Rightarrow> scope_status" where
  "host_status cx st host =
     (if truthy (normalize_value (ix_unicode cx) (observed_type_value observed_type.IP_ADDRESS) host)
      then ingest_ip_status cx st host else fst (hostname_status (ix_checker cx) host))"

definition endpoint_host :: "ingest_context \<Rightarrow> string \<Rightarrow> string option" where
  "endpoint_host cx url = Option.bind (urlsplit (ix_unicode cx) url) hostname"

definition cidr_status :: "ingest_context \<Rightarrow> string \<Rightarrow> scope_status option" where
  "cidr_status cx v =
     (case mk_target (ix_unicode cx) target_kind.CIDR v of
        Inl _ \<Rightarrow> None
      | Inr t \<Rightarrow>
          (case check (ix_unicode cx) (ix_checker cx) (\<lambda>_. []) t False of
             Some d \<Rightarrow> if allowed d then Some scope_status.IN_SCOPE else None
           | None \<Rightarrow> None))"

definition own_status :: "ingest_context \<Rightarrow> akey \<Rightarrow> ingestor \<Rightarrow> ingestor" where
  "own_status cx k st =
     (case k of (t, v) \<Rightarrow>
        put_status k
          (if t \<in> set HOSTNAME_ASSET_TYPES then Some (fst (hostname_status (ix_checker cx) v))
           else if t = asset_type.IP_ADDRESS then Some (ingest_ip_status cx st v)
           else if t = asset_type.CIDR then cidr_status cx v
           else None) st)"

text \<open>An address that an in-scope name resolves to, or that hosts an in-scope site, is derived.\<close>

definition derive_status :: "ingest_context \<Rightarrow> arel \<Rightarrow> ingestor \<Rightarrow> ingestor" where
  "derive_status cx r st =
     (case r of (src, rel, dst, _) \<Rightarrow>
        if fst dst = asset_type.IP_ADDRESS \<and> status_at st dst = Some scope_status.OUT_OF_SCOPE \<and>
           \<not> is_excluded_ip (ix_checker cx) (snd dst)
        then (if rel = relation_type.RESOLVES_TO \<and> status_at st src = Some scope_status.IN_SCOPE
              then put_status dst (Some scope_status.DERIVED) st
              else if rel = relation_type.HOSTED_ON \<and> fst src = asset_type.HTTP_ENDPOINT
              then (case endpoint_host cx (snd src) of
                      Some h \<Rightarrow> if h \<noteq> [] \<and> host_status cx st h = scope_status.IN_SCOPE
                                then put_status dst (Some scope_status.DERIVED) st else st
                    | None \<Rightarrow> st)
              else st)
        else st)"

definition inherit_status :: "ingest_context \<Rightarrow> akey \<Rightarrow> ingestor \<Rightarrow> ingestor" where
  "inherit_status cx k st =
     (case k of (t, v) \<Rightarrow>
        if t \<in> {asset_type.PORT, asset_type.SERVICE}
        then put_status k (map_option (\<lambda>(ip, _, _). ingest_ip_status cx st ip) (parse_port_value v)) st
        else if t = asset_type.HTTP_ENDPOINT
        then put_status k (case endpoint_host cx v of
               Some h \<Rightarrow> if h = [] then None else Some (host_status cx st h) | None \<Rightarrow> None) st
        else st)"

definition neighbours :: "arel list \<Rightarrow> akey \<Rightarrow> akey list" where
  "neighbours rels k = List.map_filter (\<lambda>(s, _, d, _). if s = k then Some d else None) rels @
     List.map_filter (\<lambda>(s, _, d, _). if d = k then Some s else None) rels"

definition anchored :: "ingestor \<Rightarrow> akey \<Rightarrow> bool" where
  "anchored st k \<longleftrightarrow> status_at st k \<in> {Some scope_status.IN_SCOPE, Some scope_status.DERIVED}"

definition attach :: "arel list \<Rightarrow> akey \<Rightarrow> ingestor \<times> bool \<Rightarrow> ingestor \<times> bool" where
  "attach rels k acc =
     (case acc of (st, changed) \<Rightarrow>
        if \<not> anchored st k \<and> fst k \<in> set CONTEXT_TYPES \<and>
           (list_ex (anchored st) (neighbours rels k) \<or> known_scope (existing_status st k))
        then (put_status k (Some scope_status.DERIVED) st, True) else acc)"

primrec attach_rounds :: "nat \<Rightarrow> arel list \<Rightarrow> akey list \<Rightarrow> ingestor \<Rightarrow> ingestor" where
  "attach_rounds 0 rels ks st = st"
| "attach_rounds (Suc n) rels ks st =
     (case fold (attach rels) ks (st, False) of (st', changed) \<Rightarrow> if changed then attach_rounds n rels ks st' else st')"

definition drop_noise :: "arel list \<Rightarrow> akey \<Rightarrow> ingestor \<Rightarrow> ingestor" where
  "drop_noise rels k st =
     (if status_at st k = Some scope_status.OUT_OF_SCOPE \<and> \<not> list_ex (anchored st) (neighbours rels k)
      then put_status k None st else st)"

definition compute_statuses :: "ingest_context \<Rightarrow> akey list \<Rightarrow> arel list \<Rightarrow> ingestor \<Rightarrow> ingestor" where
  "compute_statuses cx ks rels st =
     fold (drop_noise rels) ks (attach_rounds 3 rels ks
       (fold (inherit_status cx) ks (fold (derive_status cx) rels (fold (own_status cx) ks st))))"

end
