(* ===== verification/Ingest.thy ===== *)
theory Ingest
  imports IngestScope
begin

text \<open>
  The second half of the ingestion engine (\<open>backend/app/assets/ingest.py\<close>): assets, relations, coverage and
  the whole run over a sensor result.
\<close>

subsection \<open>Assets\<close>

definition default_approval :: "asset_type \<Rightarrow> scope_status \<Rightarrow> approval_status" where
  "default_approval t s =
     (if s = scope_status.OUT_OF_SCOPE then approval_status.THIRD_PARTY
      else if t \<in> set APPROVED_BY_DEFAULT then approval_status.APPROVED
      else if t = asset_type.ROOT_DOMAIN then approval_status.APPROVED
      else if t \<in> {asset_type.IP_ADDRESS, asset_type.CIDR} \<and> s = scope_status.IN_SCOPE then approval_status.APPROVED
      else approval_status.UNVERIFIED)"

definition enrich :: "asset_type \<Rightarrow> attrs \<Rightarrow> attrs" where
  "enrich t a =
     (if t = asset_type.IP_ADDRESS \<and> jtruthy (jget a ''asn'')
      then (case provider_for_asn (Some (jtext (jget a ''asn''))) of
              None \<Rightarrow> a
            | Some (p, hk) \<Rightarrow>
                (let b = dict_set (dict_set a ''hosting_provider'' (JStr p)) ''hosting_kind'' (JStr hk) in
                 if p \<in> set CDN_PROVIDERS then dict_set b ''cdn'' (JBool True) else b))
      else a)"

definition new_asset_row :: "ingest_context \<Rightarrow> uuid \<Rightarrow> akey \<Rightarrow> scope_status \<Rightarrow> attrs \<Rightarrow> int \<Rightarrow> asset" where
  "new_asset_row cx i k s a confidence =
     \<lparr>as_id = i, as_tenant = ix_tenant cx, as_org = ix_org cx, as_type = fst k, as_value = snd k, as_norm = snd k,
      as_status = asset_status.ACTIVE, as_scope = s, as_first_seen = ix_now cx, as_last_seen = ix_now cx,
      as_discovered_at = ix_now cx, as_last_scanned_at = Some (ix_now cx), as_inactive_since = None, as_missed = 0,
      as_source = Some (ix_source cx), as_sources = [ix_source cx], as_method = ix_method cx, as_confidence = confidence,
      as_owner = None, as_business_unit = None, as_criticality = criticality.MEDIUM, as_approval = default_approval (fst k) s,
      as_tags = [], as_notes = None, as_risk_score = 0, as_risk_level = risk_level.INFO, as_risk_factors = [],
      as_open_findings = 0, as_meta = a\<rparr>"

definition create_asset :: "ingest_context \<Rightarrow> akey \<Rightarrow> scope_status \<Rightarrow> attrs \<Rightarrow> int \<Rightarrow> ingestor \<Rightarrow> (ingestor \<times> asset) option" where
  "create_asset cx k s a confidence st = do {
     let row = new_asset_row cx (next_id (ig_db st)) k s a confidence;
     d \<leftarrow> new_asset (fst k) (snd k) a (as_approval row);
     let st1 = bump ''new_assets'' (st\<lparr>ig_db := add_asset row (ig_db st), ig_assets := dict_set (ig_assets st) k (as_id row),
                 ig_new := insert_last k (ig_new st)\<rparr>);
     Some (case d of Some ev \<Rightarrow> emit cx (Some row) None ev st1 | None \<Rightarrow> st1, row)
   }"

definition last_items :: "nat \<Rightarrow> 'a list \<Rightarrow> 'a list" where
  "last_items n xs = drop (length xs - n) xs"

definition merge_sighting :: "ingest_context \<Rightarrow> attrs \<Rightarrow> asset \<Rightarrow> asset" where
  "merge_sighting cx a x =
     x\<lparr>as_meta := (if a = [] then as_meta x else dict_update (as_meta x) a),
       as_sources := (if ix_source cx \<in> set (as_sources x) then as_sources x else last_items 20 (as_sources x @ [ix_source cx]))\<rparr>"

definition refresh_asset :: "ingest_context \<Rightarrow> int \<Rightarrow> asset \<Rightarrow> asset" where
  "refresh_asset cx confidence x =
     x\<lparr>as_last_seen := ix_now cx, as_missed := 0, as_confidence := max (as_confidence x) confidence,
       as_inactive_since := (if as_status x = asset_status.INACTIVE then None else as_inactive_since x),
       as_status := asset_status.ACTIVE\<rparr>"

text \<open>
  A sighting of a known asset: the changes of its attributes, the merged row, and unless the source is
  historical the proof of life. Events carry the asset, of which they only show the identity and scope.
\<close>

definition sight_asset :: "ingest_context \<Rightarrow> attrs \<Rightarrow> int \<Rightarrow> asset \<Rightarrow> ingestor \<Rightarrow> (ingestor \<times> asset) option" where
  "sight_asset cx a confidence x st = do {
     let drafts = (if as_status x = asset_status.ACTIVE \<and> a \<noteq> [] then attribute_changes (as_type x) (as_norm x) (as_meta x) a else []);
     let st1 = fold (emit cx (Some x) None) drafts st;
     let y = merge_sighting cx a x;
     if ix_historical cx then Some (bump ''updated_assets'' st1, y)
     else if as_status y = asset_status.INACTIVE
     then do { d \<leftarrow> reappeared (as_type x) (as_norm x);
               Some (emit cx (Some (refresh_asset cx confidence y)) None d (bump ''reactivated'' st1), refresh_asset cx confidence y) }
     else Some (bump ''updated_assets'' st1, refresh_asset cx confidence y)
   }"

definition rescope :: "scope_status \<Rightarrow> asset \<Rightarrow> asset" where
  "rescope s x =
     (if as_type x \<in> set HOSTNAME_ASSET_TYPES \<or> as_type x = asset_type.IP_ADDRESS
      then (if as_scope x \<noteq> s \<and> \<not> (as_type x = asset_type.IP_ADDRESS \<and> s = scope_status.OUT_OF_SCOPE \<and>
                as_scope x = scope_status.DERIVED)
            then x\<lparr>as_scope := s\<rparr> else x)
      else if RANK s > RANK (as_scope x) then x\<lparr>as_scope := s\<rparr> else x)"

definition update_asset :: "ingest_context \<Rightarrow> scope_status \<Rightarrow> attrs \<Rightarrow> int \<Rightarrow> bool \<Rightarrow> asset \<Rightarrow> ingestor \<Rightarrow> (ingestor \<times> asset) option" where
  "update_asset cx s a confidence observed x st = do {
     (st1, y) \<leftarrow> (if observed then sight_asset cx a confidence x st else Some (st, x));
     let z = rescope s y;
     Some (mapdb (put_asset z) st1, z)
   }"

definition apply_asset :: "ingest_context \<Rightarrow> akey \<Rightarrow> attrs \<Rightarrow> int \<Rightarrow> bool \<Rightarrow> ingestor \<Rightarrow> ingestor option" where
  "apply_asset cx k attrs0 confidence observed st =
     (case status_at st k of
        None \<Rightarrow> Some st
      | Some s \<Rightarrow> do {
          let a = enrich (fst k) attrs0;
          (st1, row) \<leftarrow> (case asset_at st k of None \<Rightarrow> create_asset cx k s a confidence st
                          | Some x \<Rightarrow> update_asset cx s a confidence observed x st);
          let st2 = (if ix_historical cx then st1
                     else mapdb (put_asset (row\<lparr>as_last_scanned_at := Some (ix_now cx)\<rparr>)) st1);
          let st3 = touch (as_id row) st2;
          Some (if observed then st3\<lparr>ig_observed := insert_last k (ig_observed st3)\<rparr> else st3)
        })"

subsection \<open>Relations\<close>

definition display_name :: "asset \<Rightarrow> string" where
  "display_name a = jtext (jor (jget (as_meta a) ''name'') (JStr (as_value a)))"

definition find_rel :: "inventory \<Rightarrow> uuid \<Rightarrow> uuid \<Rightarrow> relation_type \<Rightarrow> relationship option" where
  "find_rel db s d r = find (\<lambda>x. rl_source_asset x = s \<and> rl_target_asset x = d \<and> rl_type x = r) (relationships db)"

definition refresh_rel :: "ingest_context \<Rightarrow> attrs \<Rightarrow> relationship \<Rightarrow> relationship" where
  "refresh_rel cx a r =
     r\<lparr>rl_active := True, rl_last_seen := (if ix_historical cx then rl_last_seen r else ix_now cx),
       rl_missed := (if ix_historical cx then rl_missed r else 0),
       rl_attributes := (if a = [] then rl_attributes r else dict_update (rl_attributes r) a)\<rparr>"

definition update_rel :: "ingest_context \<Rightarrow> asset \<Rightarrow> asset \<Rightarrow> attrs \<Rightarrow> relationship \<Rightarrow> ingestor \<Rightarrow> ingestor" where
  "update_rel cx src dst a r st =
     (let old_v = jget (rl_attributes r) ''version''; new_v = jget a ''version'';
          tech = rl_type r = relation_type.USES_TECHNOLOGY;
          st1 = (if tech \<and> jtruthy old_v \<and> jtruthy new_v \<and> old_v \<noteq> new_v
                 then emit cx (Some src) None (technology_version_changed (as_value src) (display_name dst) (jstr old_v) (jstr new_v)) st
                 else st);
          st2 = (if tech \<and> \<not> rl_active r
                 then emit cx (Some src) None (technology_added (as_value src) (display_name dst) (jstr new_v)) st1 else st1)
      in mapdb (put_rel (refresh_rel cx a r)) st2)"

definition cert_view :: "asset \<Rightarrow> attrs" where
  "cert_view c = dict_update [(''fingerprint'', JStr (as_value c))] (as_meta c)"

text \<open>A new certificate of an endpoint replaces those that this run did not see.\<close>

definition replace_cert :: "ingest_context \<Rightarrow> asset \<Rightarrow> asset \<Rightarrow> relationship \<Rightarrow> ingestor \<Rightarrow> ingestor" where
  "replace_cert cx src dst r st =
     (if \<not> rl_active r \<or> (rl_source_asset r, rl_target_asset r, rl_type r) \<in> set (ig_rels st) then st
      else (let st1 = mapdb (put_rel (r\<lparr>rl_active := False\<rparr>)) st in
            case get_asset (ig_db st) (rl_target_asset r) of
              None \<Rightarrow> st1
            | Some old \<Rightarrow> emit cx (Some src) None (certificate_changed (as_value src) (cert_view old) (cert_view dst)) st1))"

definition create_rel :: "ingest_context \<Rightarrow> asset \<Rightarrow> relation_type \<Rightarrow> asset \<Rightarrow> attrs \<Rightarrow> ingestor \<Rightarrow> ingestor" where
  "create_rel cx src rel dst a st =
     (let row = \<lparr>rl_id = next_id (ig_db st), rl_tenant = ix_tenant cx, rl_org = ix_org cx, rl_source_asset = as_id src,
                  rl_target_asset = as_id dst, rl_type = rel, rl_active = True, rl_missed = 0, rl_first_seen = ix_now cx,
                  rl_last_seen = ix_now cx, rl_source = Some (ix_source cx), rl_attributes = a\<rparr>;
          others = filter (\<lambda>x. rl_source_asset x = as_id src \<and> rl_type x = rel) (relationships (ig_db st));
          st1 = bump ''new_relationships'' (mapdb (add_rel row) st)
      in if rel = relation_type.USES_TECHNOLOGY
         then emit cx (Some src) None (technology_added (as_value src) (display_name dst) (jstr (jget a ''version''))) st1
         else if rel = relation_type.PRESENTS_CERTIFICATE
         then fold (replace_cert cx src dst) others st1
         else st1)"

definition upsert_rel :: "ingest_context \<Rightarrow> arel \<Rightarrow> ingestor \<Rightarrow> ingestor" where
  "upsert_rel cx r st =
     (case r of (s, rel, d, a) \<Rightarrow>
        case (asset_at st s, asset_at st d) of
          (Some src, Some dst) \<Rightarrow>
            (if as_id src = as_id dst then st
             else let key = (as_id src, as_id dst, rel) in
               if key \<in> set (ig_rels st) then st
               else (let st1 = st\<lparr>ig_rels := ig_rels st @ [key]\<rparr> in
                     case find_rel (ig_db st) (as_id src) (as_id dst) rel of
                       Some row \<Rightarrow> update_rel cx src dst a row st1
                     | None \<Rightarrow> create_rel cx src rel dst a st1))
        | _ \<Rightarrow> st)"

definition upsert_relations :: "ingest_context \<Rightarrow> arel list \<Rightarrow> ingestor \<Rightarrow> ingestor" where
  "upsert_relations cx rels st = fold (upsert_rel cx) rels st"

definition structural_relation :: "ingest_context \<Rightarrow> akey \<Rightarrow> ingestor \<times> arel list \<Rightarrow> ingestor \<times> arel list" where
  "structural_relation cx k acc =
     (case acc of (st, out) \<Rightarrow>
        if fst k = asset_type.SUBDOMAIN \<and> status_at st k = Some scope_status.IN_SCOPE
        then (case parent_domain (ix_registered cx) (snd k) (roots cx) of
                Some p \<Rightarrow> if p = [] then acc
                  else (case find_hostname cx p st of
                          (st', Some pa) \<Rightarrow> (st', out @ [(k, relation_type.SUBDOMAIN_OF, (as_type pa, as_norm pa), [])])
                        | (st', None) \<Rightarrow> (st', out))
              | None \<Rightarrow> acc)
        else acc)"

definition structural_relations :: "ingest_context \<Rightarrow> akey list \<Rightarrow> ingestor \<Rightarrow> ingestor \<times> arel list" where
  "structural_relations cx ks st = fold (structural_relation cx) ks (st, [])"

definition cloud_candidates :: "arel list \<Rightarrow> akey list \<Rightarrow> ingestor \<Rightarrow> (akey \<times> string) list" where
  "cloud_candidates rels ks st =
     List.map_filter (\<lambda>(s, rel, d, _). if rel = relation_type.CNAME \<and> fst d \<in> set HOSTNAME_ASSET_TYPES then Some (s, snd d) else None) rels @
     List.map_filter (\<lambda>k. if fst k \<in> set HOSTNAME_ASSET_TYPES \<and> status_at st k = Some scope_status.IN_SCOPE then Some (k, snd k) else None) ks"

definition cloud_relation :: "ingest_context \<Rightarrow> akey \<times> string \<Rightarrow> ingestor \<times> arel list \<Rightarrow> (ingestor \<times> arel list) option" where
  "cloud_relation cx c acc =
     (case acc of (st, out) \<Rightarrow>
        case match_hostname (snd c) of
          Some m \<Rightarrow>
            if anchored st (fst c)
            then do {
              let ck = (asset_type.CLOUD_RESOURCE, resource_value m);
              st1 \<leftarrow> apply_asset cx ck [(''provider'', JStr (provider m)), (''service'', JStr (Cloud.service m)),
                       (''kind'', JStr (cloud_kind m)), (''hostname'', JStr (resource m))] 70 True
                       (load cx [ck] (put_status ck (Some scope_status.DERIVED) st));
              Some (st1, out @ [(fst c, relation_type.HOSTED_BY, ck, [])])
            }
            else Some acc
        | None \<Rightarrow> Some acc)"

definition cloud_relations :: "ingest_context \<Rightarrow> arel list \<Rightarrow> akey list \<Rightarrow> ingestor \<Rightarrow> (ingestor \<times> arel list) option" where
  "cloud_relations cx rels ks st = for_each (cloud_relation cx) (cloud_candidates rels ks st) (st, [])"

subsection \<open>Coverage\<close>

definition emit_changes :: "ingest_context \<Rightarrow> asset option \<Rightarrow> (finding \<times> event_draft) list \<Rightarrow> ingestor \<Rightarrow> ingestor" where
  "emit_changes cx a chs st = fold (\<lambda>(f, d) st. emit cx a (Some (fi_id f)) d (bump ''resolved_findings'' st)) chs st"

definition resolve_inactive :: "ingest_context \<Rightarrow> asset \<Rightarrow> ingestor \<Rightarrow> ingestor" where
  "resolve_inactive cx a st =
     (case resolve_for_inactive_asset (as_id a) (ix_now cx) (ix_scan cx) (ig_db st) of
        (db, chs) \<Rightarrow> emit_changes cx (Some a) chs (st\<lparr>ig_db := db\<rparr>))"

definition owned_rows :: "inventory \<Rightarrow> uuid \<Rightarrow> relation_type \<Rightarrow> asset_type \<Rightarrow> (uuid \<times> uuid) list" where
  "owned_rows db i rel ty = List.map_filter (\<lambda>r.
     if rl_source_asset r = i \<and> rl_type r = rel \<and> rl_active r \<and>
        (case get_asset db (rl_target_asset r) of Some c \<Rightarrow> as_type c = ty \<and> as_status c = asset_status.ACTIVE | None \<Rightarrow> False)
     then Some (rl_id r, rl_target_asset r) else None) (relationships db)"

definition has_incoming :: "inventory \<Rightarrow> uuid \<Rightarrow> relation_type list \<Rightarrow> bool" where
  "has_incoming db child rels \<longleftrightarrow> list_ex (\<lambda>r. rl_target_asset r = child \<and> rl_active r \<and> rl_type r \<in> set rels) (relationships db)"

definition has_other_presence :: "inventory \<Rightarrow> uuid \<Rightarrow> uuid \<Rightarrow> bool" where
  "has_other_presence db child parent \<longleftrightarrow>
     list_ex (\<lambda>r. rl_target_asset r = child \<and> rl_active r \<and> rl_source_asset r \<noteq> parent \<and> rl_type r = relation_type.SERVES) (relationships db)"

definition set_rel :: "uuid \<Rightarrow> (relationship \<Rightarrow> relationship) \<Rightarrow> inventory \<Rightarrow> inventory" where
  "set_rel i f db = db\<lparr>relationships := update_where (\<lambda>r. rl_id r = i) f (relationships db)\<rparr>"

definition mark_inactive :: "ingest_context \<Rightarrow> asset \<Rightarrow> ingestor \<Rightarrow> ingestor" where
  "mark_inactive cx a st =
     touch (as_id a) (bump ''deactivated'' (mapdb (put_asset (a\<lparr>as_status := asset_status.INACTIVE, as_inactive_since := Some (ix_now cx)\<rparr>))
       (st\<lparr>ig_deactivated := insert_last (as_id a) (ig_deactivated st)\<rparr>)))"

definition deactivate_self :: "ingest_context \<Rightarrow> bool \<Rightarrow> asset \<Rightarrow> ingestor \<Rightarrow> ingestor option" where
  "deactivate_self cx emits a st = do {
     let b = a\<lparr>as_status := asset_status.INACTIVE, as_inactive_since := Some (ix_now cx)\<rparr>;
     let st1 = mark_inactive cx a st;
     st2 \<leftarrow> (if emits \<and> as_type a \<notin> set CONTEXT_TYPES
              then map_option (\<lambda>d. emit cx (Some b) None d st1) (disappeared (as_type a) (as_value a) (as_meta a))
              else Some st1);
     Some (resolve_inactive cx b st2)
   }"

text \<open>One owned child of a deactivated parent, with the recursive call as a parameter.\<close>

definition deactivate_child :: "(uuid \<Rightarrow> ingestor \<Rightarrow> ingestor option) \<Rightarrow> uuid \<Rightarrow> uuid \<times> uuid \<Rightarrow> ingestor \<Rightarrow> ingestor option" where
  "deactivate_child rec parent rc st =
     (case rc of (r, c) \<Rightarrow>
        let st' = mapdb (set_rel r (\<lambda>x. x\<lparr>rl_active := False\<rparr>)) st in
        case get_asset (ig_db st') c of
          None \<Rightarrow> Some st'
        | Some child \<Rightarrow>
            if (as_type child, as_norm child) \<in> set (ig_observed st') then Some st'
            else if as_type child = asset_type.HTTP_ENDPOINT \<and> has_other_presence (ig_db st') c parent then Some st'
            else rec c st')"

definition deactivate_owned ::
  "(uuid \<Rightarrow> ingestor \<Rightarrow> ingestor option) \<Rightarrow> uuid \<Rightarrow> relation_type \<times> asset_type \<Rightarrow> ingestor \<Rightarrow> ingestor option" where
  "deactivate_owned rec parent rt st = for_each (deactivate_child rec parent) (owned_rows (ig_db st) parent (fst rt) (snd rt)) st"

text \<open>
  Deactivation with everything the asset owns. The first argument bounds the depth of the
  recursion: the owned types are at most three levels deep, so that three levels are enough for every
  database (\<open>deactivation_ends\<close> in \<open>Cascade\<close>).
\<close>

primrec deactivate :: "nat \<Rightarrow> ingest_context \<Rightarrow> bool \<Rightarrow> uuid \<Rightarrow> ingestor \<Rightarrow> ingestor option" where
  "deactivate 0 cx emits i st = None"
| "deactivate (Suc n) cx emits i st =
     (case get_asset (ig_db st) i of
        None \<Rightarrow> Some st
      | Some a \<Rightarrow>
          if as_status a = asset_status.INACTIVE \<or> i \<in> set (ig_deactivated st) then Some st
          else do {
            st1 \<leftarrow> deactivate_self cx emits a st;
            for_each (deactivate_owned (deactivate n cx False) i) (OWNED_CHILDREN (as_type a)) st1
          })"

definition DEPTH :: nat where
  "DEPTH = 3"

definition missed :: "ingest_context \<Rightarrow> uuid \<Rightarrow> ingestor \<Rightarrow> ingestor option" where
  "missed cx i st =
     (case get_asset (ig_db st) i of
        None \<Rightarrow> Some st
      | Some a \<Rightarrow>
          if (as_type a, as_norm a) \<in> set (ig_observed st) \<or> as_status a \<noteq> asset_status.ACTIVE then Some st
          else do {
            let b = a\<lparr>as_missed := as_missed a + 1\<rparr>;
            let st1 = bump ''missed'' (mapdb (put_asset b) st);
            threshold \<leftarrow> inactivity_threshold (ix_settings cx) (asset_type_value (as_type a));
            if as_missed b \<ge> threshold then deactivate DEPTH cx True i st1 else Some st1
          })"

definition observed_asset_types :: "observed_type \<Rightarrow> string list" where
  "observed_asset_types t = (if t = observed_type.HOSTNAME then map asset_type_value HOSTNAME_ASSET_TYPES else [observed_type_value t])"

definition resolve_parents :: "ingest_context \<Rightarrow> observed_type \<Rightarrow> string list \<Rightarrow> string list \<Rightarrow> ingestor \<Rightarrow> uuid list option" where
  "resolve_parents cx t values cidrs st = do {
     let norms = filter (\<lambda>n. n \<noteq> []) (List.map_filter (normalize_value (ix_unicode cx) (observed_type_value t)) values);
     let found = map as_id (filter (\<lambda>a. as_org a = ix_org cx \<and> asset_type_value (as_type a) \<in> set (observed_asset_types t) \<and>
                   as_norm a \<in> set norms) (assets (ig_db st)));
     if cidrs = [] then Some found
     else do {
       nets \<leftarrow> mapM_opt ip_network cidrs;
       let rows = filter (\<lambda>a. as_org a = ix_org cx \<and> as_type a = asset_type.IP_ADDRESS \<and> as_status a = asset_status.ACTIVE) (assets (ig_db st));
       inside \<leftarrow> mapM_opt (\<lambda>a. map_option (\<lambda>addr. (as_id a, list_ex (in_net addr) nets)) (ip_address (as_norm a))) rows;
       Some (found @ map fst (filter (\<lambda>(i, inn). inn \<and> i \<notin> set found) inside))
     }
   }"

text \<open>The port of a child: the outer option is an exception, the inner one the absence of a port.\<close>

definition child_port :: "ingest_context \<Rightarrow> asset \<Rightarrow> int option option" where
  "child_port cx c =
     (if as_type c \<in> {asset_type.PORT, asset_type.SERVICE}
      then Some (case parse_port_value (as_norm c) of Some (_, p, _) \<Rightarrow> p | None \<Rightarrow> None)
      else if as_type c = asset_type.HTTP_ENDPOINT
      then (if jtruthy (jget (as_meta c) ''port'') then map_option Some (json_int (jget (as_meta c) ''port''))
            else case urlsplit (ix_unicode cx) (as_norm c) of
              None \<Rightarrow> None
            | Some u \<Rightarrow> map_option (\<lambda>p. Some (case p of
                Some n \<Rightarrow> if n \<noteq> 0 then n else (if scheme u = ''https'' then 443 else 80)
              | None \<Rightarrow> (if scheme u = ''https'' then 443 else 80))) (url_port u))
      else Some None)"

text \<open>Whether a child lies in the ports that were probed on its parent.\<close>

definition port_covered :: "ingest_context \<Rightarrow> attrs \<Rightarrow> asset \<Rightarrow> asset \<Rightarrow> bool option" where
  "port_covered cx constraints parent child =
     (case jstr (jget constraints ''port_spec'') of
        None \<Rightarrow> Some True
      | Some spec \<Rightarrow>
          if spec = [] then Some True
          else do {
            p \<leftarrow> child_port cx child;
            let effective = (case jstr (jget constraints ''cdn_port_spec'') of
                  Some c \<Rightarrow> if c \<noteq> [] \<and> jtruthy (jget (as_meta parent) ''cdn'') then c else spec
                | None \<Rightarrow> spec);
            case p of None \<Rightarrow> Some False
            | Some n \<Rightarrow> (case port_in_spec n effective of Inl _ \<Rightarrow> None | Inr b \<Rightarrow> Some b)
          })"

definition drop_rel :: "ingest_context \<Rightarrow> asset \<Rightarrow> asset \<Rightarrow> relationship \<Rightarrow> ingestor \<Rightarrow> ingestor option" where
  "drop_rel cx parent child r st =
     (let st1 = mapdb (set_rel (rl_id r) (\<lambda>x. x\<lparr>rl_active := False\<rparr>)) st in
      if rl_type r = relation_type.USES_TECHNOLOGY
      then Some (emit cx (Some parent) None (technology_removed (as_value parent) (display_name child)) st1)
      else if rl_type r = relation_type.RESOLVES_TO \<and> as_type child = asset_type.IP_ADDRESS \<and>
              as_scope child = scope_status.DERIVED \<and> (as_type child, as_norm child) \<notin> set (ig_observed st1) \<and>
              \<not> has_incoming (ig_db st1) (as_id child) [relation_type.RESOLVES_TO, relation_type.HOSTED_ON]
      then deactivate DEPTH cx True (as_id child) st1
      else Some st1)"

definition miss_rel :: "ingest_context \<Rightarrow> attrs \<Rightarrow> int \<Rightarrow> uuid \<Rightarrow> ingestor \<Rightarrow> ingestor option" where
  "miss_rel cx constraints threshold i st =
     (case find (\<lambda>r. rl_id r = i) (relationships (ig_db st)) of
        None \<Rightarrow> Some st
      | Some r \<Rightarrow>
          (case (get_asset (ig_db st) (rl_source_asset r), get_asset (ig_db st) (rl_target_asset r)) of
             (Some parent, Some child) \<Rightarrow>
               if (rl_source_asset r, rl_target_asset r, rl_type r) \<in> set (ig_rels st) then Some st
               else do {
                 covered \<leftarrow> port_covered cx constraints parent child;
                 if \<not> covered then Some st
                 else do {
                   let r1 = r\<lparr>rl_missed := rl_missed r + 1\<rparr>;
                   let st1 = mapdb (set_rel i (\<lambda>_. r1)) st;
                   st2 \<leftarrow> (if rl_missed r1 \<ge> threshold then drop_rel cx parent child r1 st1 else Some st1);
                   if as_type child \<in> set LIVENESS_TYPES then missed cx (as_id child) st2 else Some st2
                 }
               }
           | _ \<Rightarrow> Some st))"

fun chunks :: "nat \<Rightarrow> 'a list \<Rightarrow> 'a list list" where
  "chunks n xs = (if xs = [] \<or> n = 0 then [] else take n xs # chunks n (drop n xs))"

declare chunks.simps [simp del]

definition covered_rels :: "relation_coverage \<Rightarrow> uuid list \<Rightarrow> inventory \<Rightarrow> uuid list" where
  "covered_rels cov ids db = map rl_id (filter (\<lambda>r. rl_source_asset r \<in> set ids \<and> rl_type r = cov_relation cov \<and> rl_active r \<and>
     (case get_asset db (rl_target_asset r) of
        Some c \<Rightarrow> asset_type_value (as_type c) \<in> set (observed_asset_types (cov_child_type cov)) | None \<Rightarrow> False)) (relationships db))"

definition scanned_now :: "ingest_context \<Rightarrow> uuid \<Rightarrow> ingestor \<Rightarrow> ingestor" where
  "scanned_now cx i st =
     mapdb (\<lambda>db. db\<lparr>assets := update_where (\<lambda>a. as_id a = i) (\<lambda>a. a\<lparr>as_last_scanned_at := Some (ix_now cx)\<rparr>) (assets db)\<rparr>) st"

definition apply_relation_coverage :: "ingest_context \<Rightarrow> relation_coverage \<Rightarrow> ingestor \<Rightarrow> ingestor option" where
  "apply_relation_coverage cx cov st = do {
     parents \<leftarrow> resolve_parents cx (cov_parent_type cov) (cov_parents cov) (jstrs (jget (cov_constraints cov) ''parent_cidrs'')) st;
     if parents = [] then Some st
     else do {
       threshold \<leftarrow> inactivity_threshold (ix_settings cx) ''relation'';
       for_each (\<lambda>ids st. for_each (miss_rel cx (cov_constraints cov) threshold) (covered_rels cov ids (ig_db st)) st)
         (chunks 1000 (remdups parents)) (fold (scanned_now cx) parents st)
     }
   }"

definition apply_liveness :: "ingest_context \<Rightarrow> liveness_coverage \<Rightarrow> ingestor \<Rightarrow> ingestor option" where
  "apply_liveness cx cov st = do {
     ids \<leftarrow> resolve_parents cx (live_type cov) (live_values cov) [] st;
     for_each (\<lambda>i st. missed cx i (scanned_now cx i st)) ids st
   }"

definition load_ref :: "ingest_context \<Rightarrow> asset_ref \<Rightarrow> ingestor \<times> uuid list \<Rightarrow> ingestor \<times> uuid list" where
  "load_ref cx r acc =
     (case acc of (st, ids) \<Rightarrow>
        case akey cx (ref_type r) (ref_value r) of
          None \<Rightarrow> acc
        | Some k \<Rightarrow> (let st1 = load cx [k] st in
            (st1, ids @ (case asset_at st1 k of Some a \<Rightarrow> [as_id a] | None \<Rightarrow> []))))"

definition apply_finding_coverage :: "ingest_context \<Rightarrow> finding_coverage \<Rightarrow> uuid list \<Rightarrow> ingestor \<Rightarrow> ingestor option" where
  "apply_finding_coverage cx cov observed_ids st = do {
     let (st1, ids) = fold (load_ref cx) (fc_assets cov) (st, []);
     threshold \<leftarrow> inactivity_threshold (ix_settings cx) ''finding'';
     let (db, chs) = resolve_unobserved (ix_tenant cx) (set ids) (ix_source cx) (Some cov) (set observed_ids) threshold (ix_now cx)
                       (ix_scan cx) (ig_db st1);
     Some (fold (\<lambda>(f, d) st. emit cx (get_asset (ig_db st) (fi_asset f)) (Some (fi_id f)) d (bump ''resolved_findings'' st)) chs
       (st1\<lparr>ig_db := db\<rparr>))
   }"

subsection \<open>The whole run\<close>

record collected =
  co_assets :: "(akey, attrs \<times> int) dict"
  co_rels :: "arel list"
  co_findings :: "(akey \<times> finding_obs) list"
  co_keys :: "akey list"

definition no_nulls :: "attrs \<Rightarrow> attrs" where
  "no_nulls d = filter (\<lambda>(_, v). v \<noteq> JNull) d"

definition collect_obs :: "ingest_context \<Rightarrow> observation \<Rightarrow> ingestor \<times> collected \<Rightarrow> ingestor \<times> collected" where
  "collect_obs cx obs acc =
     (case acc of (st, co) \<Rightarrow>
        case obs of
          AssetObs a \<Rightarrow>
            (case akey cx (obs_type a) (obs_value a) of
               None \<Rightarrow> (bump ''invalid_observations'' st, co)
             | Some k \<Rightarrow>
                 (let (old, conf) = (case map_of (co_assets co) k of Some x \<Rightarrow> x | None \<Rightarrow> ([], 0)) in
                  (st, co\<lparr>co_assets := dict_set (co_assets co) k (dict_update old (no_nulls (obs_attributes a)), max conf (obs_confidence a)),
                          co_keys := insert_last k (co_keys co)\<rparr>)))
        | RelationObs r \<Rightarrow>
            (case (akey cx (ref_type (rel_source r)) (ref_value (rel_source r)), akey cx (ref_type (rel_target r)) (ref_value (rel_target r))) of
               (Some s, Some d) \<Rightarrow>
                 (st, co\<lparr>co_rels := co_rels co @ [(s, rel_relation r, d, rel_attributes r)],
                         co_keys := insert_last d (insert_last s (co_keys co))\<rparr>)
             | _ \<Rightarrow> acc)
        | FindingObs f \<Rightarrow>
            (case akey cx (ref_type (fo_asset f)) (ref_value (fo_asset f)) of
               Some k \<Rightarrow> (st, co\<lparr>co_findings := co_findings co @ [(k, f)], co_keys := insert_last k (co_keys co)\<rparr>)
             | None \<Rightarrow> acc))"

definition implied_hosts :: "akey list \<Rightarrow> akey list" where
  "implied_hosts ks = List.map_filter (\<lambda>(t, v).
     if t \<in> {asset_type.PORT, asset_type.SERVICE}
     then map_option (\<lambda>(ip, _, _). (asset_type.IP_ADDRESS, ip)) (parse_port_value v) else None) ks"

definition type_index :: "asset_type \<Rightarrow> nat" where
  "type_index t = length (takeWhile (\<lambda>x. x \<noteq> t) all_asset_types)"

definition apply_key :: "ingest_context \<Rightarrow> collected \<Rightarrow> akey \<Rightarrow> ingestor \<Rightarrow> ingestor option" where
  "apply_key cx co k st =
     (case (case map_of (co_assets co) k of Some x \<Rightarrow> x | None \<Rightarrow> ([], 80)) of
        (a, conf) \<Rightarrow> apply_asset cx k a conf (map_of (co_assets co) k \<noteq> None) st)"

definition ingest_finding :: "ingest_context \<Rightarrow> akey \<times> finding_obs \<Rightarrow> ingestor \<times> uuid list \<Rightarrow> ingestor \<times> uuid list" where
  "ingest_finding cx kf acc =
     (case (kf, acc) of ((k, fo), (st, seen)) \<Rightarrow>
        case asset_at st k of
          None \<Rightarrow> acc
        | Some a \<Rightarrow>
            if as_scope a = scope_status.OUT_OF_SCOPE then acc
            else (case upsert_observation (ix_unicode cx) (ix_sha256 cx) (ix_tenant cx) (ix_org cx) a fo (ix_source cx) (ix_now cx)
                         (ix_scan cx) (ix_historical cx \<or> ''unverified'' \<in> set (fo_tags fo)) (ig_db st) of
                    (db, f, ev) \<Rightarrow>
                      (let st1 = bump ''findings'' (st\<lparr>ig_db := db\<rparr>) in
                       (case ev of
                          None \<Rightarrow> st1
                        | Some d \<Rightarrow> emit cx (Some a) (Some (fi_id f)) d
                            (if ev_type d = event_type.VULNERABILITY_DETECTED then bump ''new_findings'' st1 else st1),
                        insert_last (fi_id f) seen))))"

fun apply_coverage :: "ingest_context \<Rightarrow> uuid list \<Rightarrow> coverage \<Rightarrow> ingestor \<Rightarrow> ingestor option" where
  "apply_coverage cx seen (LivenessCov c) st = apply_liveness cx c st"
| "apply_coverage cx seen (RelationCov c) st = apply_relation_coverage cx c st"
| "apply_coverage cx seen (FindingCov c) st = apply_finding_coverage cx c seen st"

definition record_observation :: "ingest_context \<Rightarrow> akey \<times> attrs \<times> int \<Rightarrow> ingestor \<Rightarrow> ingestor" where
  "record_observation cx ka st =
     (case ka of (k, a, _) \<Rightarrow>
        case asset_at st k of
          None \<Rightarrow> st
        | Some x \<Rightarrow> bump ''observations'' (mapdb (\<lambda>db. db\<lparr>observation_rows := observation_rows db @
            [\<lparr>ob_tenant = ix_tenant cx, ob_asset = as_id x, ob_scan = ix_scan cx, ob_stage = ix_stage cx, ob_source = ix_source cx,
              ob_observed_at = ix_now cx, ob_data = a\<rparr>]\<rparr>) st))"

definition ingest :: "ingest_context \<Rightarrow> sensor_result \<Rightarrow> inventory \<Rightarrow> ingestor option" where
  "ingest cx result db = do {
     let (st0, co) = fold (collect_obs cx) (res_observations result) (mk_ingestor db, \<lparr>co_assets = [], co_rels = [], co_findings = [], co_keys = []\<rparr>);
     let st1 = compute_statuses cx (co_keys co) (co_rels co) (load cx (co_keys co @ implied_hosts (co_keys co)) st0);
     st2 \<leftarrow> for_each (apply_key cx co) (sort_key (\<lambda>k. type_index (fst k)) (co_keys co)) st1;
     let (st3, structural) = structural_relations cx (co_keys co) st2;
     (st4, clouds) \<leftarrow> cloud_relations cx (co_rels co) (co_keys co) st3;
     let st5 = upsert_relations cx (co_rels co @ structural @ clouds) st4;
     let (st6, seen) = fold (ingest_finding cx) (co_findings co) (st5, []);
     st7 \<leftarrow> for_each (apply_coverage cx seen) (res_coverage result) st6;
     Some (fold (record_observation cx) (co_assets co) st7)
   }"

end
