(* ===== verification/Cascade.thy ===== *)
theory Cascade
  imports Ingest
begin

text \<open>
  The cascade of a deactivation (\<open>Ingestor._deactivate\<close>) ends: the types an asset may own are
  ordered by depth, and no operation changes the type of an asset.
\<close>

subsection \<open>Depth of the cascade\<close>

fun own_depth :: "asset_type \<Rightarrow> nat" where
  "own_depth asset_type.IP_ADDRESS = 2"
| "own_depth asset_type.PORT = 1"
| "own_depth asset_type.SUBDOMAIN = 1"
| "own_depth asset_type.ROOT_DOMAIN = 1"
| "own_depth asset_type.DOMAIN = 1"
| "own_depth _ = 0"

lemma owned_shallower: "(rel, ty) \<in> set (OWNED_CHILDREN t) \<Longrightarrow> own_depth ty < own_depth t"
  by (cases t) auto

lemma for_each_cong_inv:
  assumes "\<And>x s. x \<in> set xs \<Longrightarrow> I s \<Longrightarrow> f x s = g x s" "\<And>x s s'. x \<in> set xs \<Longrightarrow> I s \<Longrightarrow> f x s = Some s' \<Longrightarrow> I s'" "I s"
  shows "for_each f xs s = for_each g xs s"
  using assms
proof (induction xs arbitrary: s)
  case (Cons x xs)
  have fg: "f x s = g x s" using Cons.prems by simp
  show ?case
  proof (cases "g x s")
    case (Some s')
    then have "I s'" using Cons.prems(2) [of x s s'] Cons.prems(3) fg by simp
    moreover have "for_each f xs s' = for_each g xs s'"
      by (rule Cons.IH [OF _ _ \<open>I s'\<close>]) (use Cons.prems(1,2) in \<open>meson list.set_intros(2)\<close>)+
    ultimately show ?thesis using Some fg by simp
  qed (simp add: fg)
qed simp

lemma for_each_inv:
  assumes "\<And>x s s'. x \<in> set xs \<Longrightarrow> I s \<Longrightarrow> f x s = Some s' \<Longrightarrow> I s'" "I s" "for_each f xs s = Some s'"
  shows "I s'"
  using assms
proof (induction xs arbitrary: s)
  case (Cons x xs)
  then obtain s1 where s1: "f x s = Some s1" "for_each f xs s1 = Some s'" by (auto split: Option.bind_splits)
  then have "I s1" using Cons.prems(1) [of x s s1] Cons.prems(2) by simp
  then show ?case using Cons.IH [of s1] Cons.prems(1) s1(2) by auto
qed simp

text \<open>The type of an asset never changes, so the depth below an asset is fixed.\<close>

definition types_kept :: "(uuid \<Rightarrow> asset_type option) \<Rightarrow> ingestor \<Rightarrow> bool" where
  "types_kept T st \<longleftrightarrow> (\<forall>i. map_option as_type (get_asset (ig_db st) i) = T i)"

lemma types_keptD: "types_kept T st \<Longrightarrow> get_asset (ig_db st) i = Some a \<Longrightarrow> T i = Some (as_type a)"
  unfolding types_kept_def by (metis option.simps(9))

lemma ig_db_bump [simp]: "ig_db (bump k st) = ig_db st"
  by (simp add: bump_def)

lemma ig_db_touch [simp]: "ig_db (touch i st) = ig_db st"
  by (simp add: touch_def)

lemma ig_db_mapdb [simp]: "ig_db (mapdb f st) = f (ig_db st)"
  by (simp add: mapdb_def)

lemma ig_db_put_status [simp]: "ig_db (put_status k s st) = ig_db st"
  by (simp add: put_status_def)

lemma assets_add_event [simp]: "assets (add_event e db) = assets db"
  by (simp add: add_event_def)

lemma assets_emit [simp]: "assets (ig_db (emit cx a f d st)) = assets (ig_db st)"
  by (simp add: emit_def Let_def)

lemma get_asset_eq: "assets db = assets db' \<Longrightarrow> get_asset db i = get_asset db' i"
  by (simp add: get_asset_def)

lemma get_asset_id: "get_asset db i = Some a \<Longrightarrow> as_id a = i"
  unfolding get_asset_def by (blast dest: find_Some_D)

lemma get_put_asset:
  "get_asset (put_asset b db) i = (if as_id b = i then map_option (\<lambda>_. b) (get_asset db i) else get_asset db i)"
proof -
  have "find (\<lambda>a. as_id a = i) (update_where (\<lambda>x. as_id x = as_id b) (\<lambda>_. b) xs) =
    (if as_id b = i then map_option (\<lambda>_. b) (find (\<lambda>a. as_id a = i) xs) else find (\<lambda>a. as_id a = i) xs)" for xs
    by (induction xs) (auto simp: update_where_def)
  then show ?thesis by (simp add: get_asset_def put_asset_def)
qed

lemma assets_add_activity [simp]: "assets (add_activity a db) = assets db"
  by (simp add: add_activity_def)

lemma assets_put_finding [simp]: "assets (put_finding f db) = assets db"
  by (simp add: put_finding_def)

lemma assets_collect: "(\<And>r db. assets (fst (step r db)) = assets db) \<Longrightarrow> assets (fst (collect step rows db)) = assets db"
proof (induction rows arbitrary: db)
  case (Cons r rows)
  show ?case using Cons.IH [OF Cons.prems, of "fst (step r db)"] Cons.prems [of r db] by (simp add: case_prod_unfold)
qed simp

lemma assets_resolve_inactive_asset [simp]: "assets (fst (resolve_for_inactive_asset i now scan db)) = assets db"
  unfolding resolve_for_inactive_asset_def by (rule assets_collect) (simp add: resolve_def Let_def)

lemma assets_resolve_unobserved [simp]:
  "assets (fst (resolve_unobserved tenant ids source cov observed threshold now scan db)) = assets db"
  unfolding resolve_unobserved_def Let_def by (rule assets_collect) (simp add: miss_def resolve_def Let_def)

lemma assets_upsert [simp]:
  "assets (fst (upsert_observation u sha tenant org a obs source now scan unv db)) = assets db"
  by (simp add: upsert_observation_def insert_observation_def update_observation_def add_finding_def Let_def split: option.split)

lemma assets_emit_changes [simp]: "assets (ig_db (emit_changes cx a chs st)) = assets (ig_db st)"
  by (induction chs arbitrary: st) (auto simp: emit_changes_def)

lemma assets_resolve_inactive [simp]: "assets (ig_db (resolve_inactive cx a st)) = assets (ig_db st)"
  using assets_resolve_inactive_asset [of "as_id a" "ix_now cx" "ix_scan cx" "ig_db st"]
  by (simp add: resolve_inactive_def case_prod_unfold)

lemma types_kept_assets: "assets (ig_db st') = assets (ig_db st) \<Longrightarrow> types_kept T st' = types_kept T st"
  by (simp add: types_kept_def get_asset_def)

lemma types_kept_put:
  assumes "get_asset (ig_db st) (as_id b) = Some a" "as_type b = as_type a" "assets (ig_db st') = assets (put_asset b (ig_db st))"
  shows "types_kept T st' = types_kept T st"
proof -
  have "map_option as_type (get_asset (ig_db st') i) = map_option as_type (get_asset (ig_db st) i)" for i
    unfolding get_asset_eq [OF assms(3)] get_put_asset using assms(1,2) by auto
  then show ?thesis by (simp add: types_kept_def)
qed

lemma assets_deactivate_self:
  assumes "deactivate_self cx emits a st = Some st'"
  shows "assets (ig_db st') = assets (put_asset (a\<lparr>as_status := asset_status.INACTIVE, as_inactive_since := Some (ix_now cx)\<rparr>) (ig_db st))"
  using assms by (auto simp: deactivate_self_def mark_inactive_def Let_def split: if_splits Option.bind_splits)

lemma types_deactivate_self:
  assumes "get_asset (ig_db st) i = Some a" "deactivate_self cx emits a st = Some st'"
  shows "types_kept T st' = types_kept T st"
  by (rule types_kept_put [OF _ _ assets_deactivate_self [OF assms(2)]]) (use assms(1) get_asset_id [OF assms(1)] in auto)

lemma assets_set_rel [simp]: "assets (set_rel r f db) = assets db"
  by (simp add: set_rel_def)

lemma types_deactivate_child:
  assumes "\<And>c st st'. rec c st = Some st' \<Longrightarrow> types_kept T st \<Longrightarrow> types_kept T st'" "deactivate_child rec i rc st = Some st'" "types_kept T st"
  shows "types_kept T st'"
proof -
  let ?st = "mapdb (set_rel (fst rc) (\<lambda>x. x\<lparr>rl_active := False\<rparr>)) st"
  have k: "types_kept T ?st" using assms(3) types_kept_assets [of ?st st T] by simp
  have "st' = ?st \<or> rec (snd rc) ?st = Some st'"
    using assms(2) by (auto simp: deactivate_child_def Let_def split: prod.splits option.splits if_splits)
  then show ?thesis using assms(1) [OF _ k] k by blast
qed

lemma types_deactivate:
  "deactivate n cx emits i st = Some st' \<Longrightarrow> types_kept T st \<Longrightarrow> types_kept T st'"
proof (induction n arbitrary: emits i st st')
  case (Suc n)
  show ?case
  proof (cases "get_asset (ig_db st) i")
    case None
    then show ?thesis using Suc.prems by simp
  next
    case (Some a)
    consider "st' = st" | st1 where "deactivate_self cx emits a st = Some st1"
      "for_each (deactivate_owned (deactivate n cx False) i) (OWNED_CHILDREN (as_type a)) st1 = Some st'"
      using Suc.prems(1) Some by (auto split: if_splits Option.bind_splits)
    then show ?thesis
    proof cases
      case 2
      have "types_kept T st1" using types_deactivate_self [OF Some 2(1)] Suc.prems(2) by simp
      moreover have "types_kept T s'" if "deactivate_owned (deactivate n cx False) i rt s = Some s'" "types_kept T s" for rt s s'
        by (rule for_each_inv [where I = "types_kept T", OF _ that(2) that(1) [unfolded deactivate_owned_def]])
          (rule types_deactivate_child [OF Suc.IH])
      ultimately show ?thesis using for_each_inv [where I = "types_kept T", OF _ _ 2(2)] by blast
    qed (use Suc.prems in simp)
  qed
qed simp

text \<open>Within the depth of the types the bound is not felt.\<close>

definition shallow :: "(uuid \<Rightarrow> asset_type option) \<Rightarrow> nat \<Rightarrow> uuid \<Rightarrow> bool" where
  "shallow T n i \<longleftrightarrow> (case T i of Some t \<Rightarrow> own_depth t < n | None \<Rightarrow> 0 < n)"

lemma owned_rows_type:
  "(r, c) \<in> set (owned_rows db i rel ty) \<Longrightarrow> map_option as_type (get_asset db c) = Some ty"
  by (auto simp: owned_rows_def List.map_filter_def split: option.splits if_splits)

lemma shallow_owned:
  assumes "T i = Some t" "shallow T (Suc n) i" "rt \<in> set (OWNED_CHILDREN t)" "types_kept T s"
    "rc \<in> set (owned_rows (ig_db s) i (fst rt) (snd rt))"
  shows "shallow T n (snd rc)"
proof -
  have "T (snd rc) = Some (snd rt)"
    using owned_rows_type [of "fst rc" "snd rc" "ig_db s" i "fst rt" "snd rt"] assms(4,5) unfolding types_kept_def by (metis prod.collapse)
  then show ?thesis using owned_shallower [of "fst rt" "snd rt" t] assms(1-3) by (simp add: shallow_def)
qed

lemma types_child:
  "deactivate_child (deactivate n cx False) i rc st = Some st' \<Longrightarrow> types_kept T st \<Longrightarrow> types_kept T st'"
  by (rule types_deactivate_child [OF types_deactivate])

lemma types_deactivate_owned:
  "deactivate_owned (deactivate n cx False) i rt s = Some s' \<Longrightarrow> types_kept T s \<Longrightarrow> types_kept T s'"
  unfolding deactivate_owned_def
  by (rule for_each_inv [where I = "types_kept T"]) (rule types_deactivate_child [OF types_deactivate])

lemma types_mapdb_rel: "types_kept T st \<Longrightarrow> types_kept T (mapdb (set_rel r f) st)"
  by (simp add: types_kept_assets [of "mapdb (set_rel r f) st" st])

lemma deactivate_child_cong:
  assumes "\<And>st. types_kept T st \<Longrightarrow> rec (snd rc) st = rec' (snd rc) st" "types_kept T st"
  shows "deactivate_child rec i rc st = deactivate_child rec' i rc st"
  using assms(1) [OF types_mapdb_rel [OF assms(2)]]
  by (simp add: deactivate_child_def Let_def case_prod_unfold split: option.split)

lemma deactivate_depth:
  assumes "shallow T n i" "shallow T m i" "types_kept T st"
  shows "deactivate n cx emits i st = deactivate m cx emits i st"
  using assms
proof (induction n arbitrary: m emits i st)
  case (Suc n)
  from Suc.prems(2) obtain k where m: "m = Suc k" by (cases m) (auto simp: shallow_def split: option.splits)
  let ?f = "\<lambda>n. deactivate_owned (deactivate n cx False) i"
  have owned: "?f n rt s = ?f k rt s" if t: "T i = Some t" and rt: "rt \<in> set (OWNED_CHILDREN t)" and s: "types_kept T s" for t rt s
    unfolding deactivate_owned_def
  proof (rule for_each_cong_inv [where I = "types_kept T"])
    fix rc s1 assume rc: "rc \<in> set (owned_rows (ig_db s) i (fst rt) (snd rt))" and s1: "types_kept T s1"
    have "shallow T n (snd rc)" "shallow T k (snd rc)"
      using shallow_owned [OF t _ rt s rc] Suc.prems(1,2) m by auto
    then show "deactivate_child (deactivate n cx False) i rc s1 = deactivate_child (deactivate k cx False) i rc s1"
      by (intro deactivate_child_cong [OF _ s1] Suc.IH)
  qed (rule types_deactivate_child [OF types_deactivate], assumption+, rule s)
  show ?case
  proof (cases "get_asset (ig_db st) i")
    case (Some a)
    then have "T i = Some (as_type a)" using types_keptD [OF Suc.prems(3)] by blast
    note step = owned [OF this]
    have "for_each (?f n) (OWNED_CHILDREN (as_type a)) s = for_each (?f k) (OWNED_CHILDREN (as_type a)) s" if "types_kept T s" for s
      by (rule for_each_cong_inv [where I = "types_kept T", OF step _ that]) (auto dest: types_deactivate_owned)
    then show ?thesis using Some m types_deactivate_self [OF Some] Suc.prems(3)
      by (auto intro!: Option.bind_cong)
  qed (simp add: m)
qed (auto simp: shallow_def split: option.splits)

lemma for_each_total:
  assumes "\<And>x s. x \<in> set xs \<Longrightarrow> I s \<Longrightarrow> \<exists>s'. f x s = Some s' \<and> I s'" "I s"
  shows "\<exists>s'. for_each f xs s = Some s' \<and> I s'"
  using assms
proof (induction xs arbitrary: s)
  case (Cons x xs)
  then obtain s1 where "f x s = Some s1" "I s1" by fastforce
  moreover have "\<exists>s'. for_each f xs s1 = Some s' \<and> I s'" using Cons.IH [OF _ \<open>I s1\<close>] Cons.prems(1) by simp
  ultimately show ?case by simp
qed simp

lemma deactivate_child_total:
  assumes "\<And>st. types_kept T st \<Longrightarrow> \<exists>st'. rec (snd rc) st = Some st'" "types_kept T st"
  shows "\<exists>st'. deactivate_child rec i rc st = Some st'"
  using assms(1) [OF types_mapdb_rel [OF assms(2)]]
  by (simp add: deactivate_child_def Let_def case_prod_unfold split: option.split)

lemma deactivate_self_total:
  "(emits \<and> as_type a \<notin> set CONTEXT_TYPES \<Longrightarrow> disappeared (as_type a) (as_value a) (as_meta a) \<noteq> None) \<Longrightarrow>
   \<exists>st'. deactivate_self cx emits a st = Some st'"
  by (cases "emits \<and> as_type a \<notin> set CONTEXT_TYPES") (auto simp: deactivate_self_def Let_def)

lemma deactivate_total:
  assumes "shallow T n i" "types_kept T st"
    "\<And>a. emits \<Longrightarrow> get_asset (ig_db st) i = Some a \<Longrightarrow> as_status a \<noteq> asset_status.INACTIVE \<Longrightarrow> i \<notin> set (ig_deactivated st) \<Longrightarrow>
      as_type a \<notin> set CONTEXT_TYPES \<Longrightarrow> disappeared (as_type a) (as_value a) (as_meta a) \<noteq> None"
  shows "\<exists>st'. deactivate n cx emits i st = Some st'"
  using assms
proof (induction n arbitrary: emits i st)
  case (Suc n)
  let ?f = "deactivate_owned (deactivate n cx False) i"
  have owned: "\<exists>s'. ?f rt s = Some s' \<and> types_kept T s'"
    if t: "T i = Some t" and rt: "rt \<in> set (OWNED_CHILDREN t)" and s: "types_kept T s" for t rt s
    unfolding deactivate_owned_def
  proof (rule for_each_total [where I = "types_kept T", OF _ s])
    fix rc s1 assume rc: "rc \<in> set (owned_rows (ig_db s) i (fst rt) (snd rt))" and s1: "types_kept T s1"
    have "\<exists>st'. deactivate n cx False (snd rc) s2 = Some st'" if "types_kept T s2" for s2
      using Suc.IH [OF shallow_owned [OF t Suc.prems(1) rt s rc] that] by simp
    then have "\<exists>s'. deactivate_child (deactivate n cx False) i rc s1 = Some s'"
      by (rule deactivate_child_total [OF _ s1])
    then show "\<exists>s'. deactivate_child (deactivate n cx False) i rc s1 = Some s' \<and> types_kept T s'"
      using types_child [OF _ s1] by blast
  qed
  show ?case
  proof (cases "get_asset (ig_db st) i")
    case (Some a)
    then have t: "T i = Some (as_type a)" using types_keptD [OF Suc.prems(2)] by blast
    show ?thesis
    proof (cases "as_status a = asset_status.INACTIVE \<or> i \<in> set (ig_deactivated st)")
      case False
      then obtain st1 where st1: "deactivate_self cx emits a st = Some st1"
        using Suc.prems(3) [OF _ Some] deactivate_self_total [of emits a cx st] by blast
      then have "types_kept T st1" using types_deactivate_self [OF Some] Suc.prems(2) by blast
      from for_each_total [where I = "types_kept T" and f = ?f, OF owned [OF t] this] show ?thesis using Some st1 False by auto
    qed (use Some in simp)
  qed simp
qed (auto simp: shallow_def split: option.splits)

lemma own_depth_le: "own_depth t \<le> 2"
  by (cases t) simp_all

lemma shallow_DEPTH: "DEPTH \<le> n \<Longrightarrow> shallow T n i"
  using own_depth_le [of "the (T i)"] by (auto simp: shallow_def DEPTH_def split: option.split)

lemma types_kept_own: "types_kept (\<lambda>i. map_option as_type (get_asset (ig_db st) i)) st"
  by (simp add: types_kept_def)

text \<open>
  C24: the cascade of a deactivation always ends and three levels are enough for every database: more depth
  does not change the result, and the only way not to return is an event that cannot be described.
\<close>

theorem deactivation_ends:
  "deactivate (DEPTH + k) cx emits i st = deactivate DEPTH cx emits i st \<and>
   (deactivate DEPTH cx emits i st = None \<longleftrightarrow>
      emits \<and> (\<exists>a. get_asset (ig_db st) i = Some a \<and> as_status a \<noteq> asset_status.INACTIVE \<and> i \<notin> set (ig_deactivated st) \<and>
        as_type a \<notin> set CONTEXT_TYPES \<and> disappeared (as_type a) (as_value a) (as_meta a) = None))"
proof (intro conjI)
  show "deactivate (DEPTH + k) cx emits i st = deactivate DEPTH cx emits i st"
    by (rule deactivate_depth [OF shallow_DEPTH [OF le_add1] shallow_DEPTH [OF order.refl] types_kept_own])
  let ?raises = "emits \<and> (\<exists>a. get_asset (ig_db st) i = Some a \<and> as_status a \<noteq> asset_status.INACTIVE \<and> i \<notin> set (ig_deactivated st) \<and>
    as_type a \<notin> set CONTEXT_TYPES \<and> disappeared (as_type a) (as_value a) (as_meta a) = None)"
  have "deactivate DEPTH cx emits i st = None" if ?raises
    using that by (auto simp: DEPTH_def numeral_3_eq_3 deactivate_self_def Let_def)
  moreover have "\<exists>st'. deactivate DEPTH cx emits i st = Some st'" if "\<not> ?raises"
    using that by (intro deactivate_total [OF shallow_DEPTH [OF order.refl] types_kept_own]) simp
  ultimately show "deactivate DEPTH cx emits i st = None \<longleftrightarrow> ?raises" by fastforce
qed

end
