(* ===== verification/Lifecycle.thy ===== *)
theory Lifecycle
  imports Maintenance
begin

text \<open>
  The lifecycle of findings as a transition system: every operation that changes findings is a step,
  and every step moves each finding along the transitions the analysts are allowed, keeps its identity
  and keeps the table well formed.
\<close>

subsection \<open>What an operation may do to a finding\<close>

definition same_issue :: "finding \<Rightarrow> finding \<Rightarrow> bool" where
  "same_issue f g \<longleftrightarrow> fi_id g = fi_id f \<and> fi_tenant g = fi_tenant f \<and> fi_org g = fi_org f \<and> fi_asset g = fi_asset f \<and>
     fi_fingerprint g = fi_fingerprint f \<and> fi_source g = fi_source f \<and> fi_rule g = fi_rule f \<and> fi_first_seen g = fi_first_seen f"

definition finding_wf :: "finding \<Rightarrow> bool" where
  "finding_wf f \<longleftrightarrow> (fi_resolved_at f \<noteq> None \<longleftrightarrow> fi_status f = finding_status.REMEDIATED) \<and>
     (fi_false_positive f \<longleftrightarrow> fi_status f = finding_status.FALSE_POSITIVE) \<and> 1 \<le> fi_occurrences f \<and> 0 \<le> fi_missed f"

definition may_move :: "finding_status \<Rightarrow> finding_status \<Rightarrow> bool" where
  "may_move s t \<longleftrightarrow> t = s \<or> t \<in> set (ALLOWED_TRANSITIONS s)"

definition row_step :: "finding \<Rightarrow> finding \<Rightarrow> bool" where
  "row_step f g \<longleftrightarrow> same_issue f g \<and> (finding_wf f \<longrightarrow> finding_wf g) \<and> may_move (fi_status f) (fi_status g) \<and>
     fi_occurrences f \<le> fi_occurrences g \<and> (fi_unverified g \<longrightarrow> fi_unverified f)"

lemma row_step_refl [simp]: "row_step f f"
  by (simp add: row_step_def same_issue_def may_move_def)

lemmas row_step_defs = row_step_def same_issue_def finding_wf_def may_move_def

text \<open>Enrichment only touches scores.\<close>

definition essence :: "finding \<Rightarrow> finding" where
  "essence f = f\<lparr>fi_kev := False, fi_kev_due := None, fi_epss_score := None, fi_epss_percentile := None, fi_cvss_score := None,
     fi_cvss_vector := None, fi_exploit := False\<rparr>"

lemma essence_enrich_row: "essence (enrich_row f r) = essence f"
  by (simp add: enrich_row_def essence_def Let_def split: option.split)

lemma essence_enrich_rows: "essence (foldl enrich_row f rs) = essence f"
  by (induction rs arbitrary: f) (simp_all add: essence_enrich_row)

lemma essence_enrich: "essence (enrich_from_intel rows f) = essence f"
proof -
  have "essence (g\<lparr>fi_exploit := True\<rparr>) = essence g" for g by (simp add: essence_def)
  then show ?thesis by (simp add: enrich_from_intel_def Let_def essence_enrich_rows)
qed

lemma essence_fields:
  assumes "essence f = essence g"
  shows "fi_id f = fi_id g" "fi_tenant f = fi_tenant g" "fi_org f = fi_org g" "fi_asset f = fi_asset g"
    "fi_fingerprint f = fi_fingerprint g" "fi_source f = fi_source g" "fi_rule f = fi_rule g" "fi_first_seen f = fi_first_seen g"
    "fi_status f = fi_status g" "fi_resolved_at f = fi_resolved_at g" "fi_false_positive f = fi_false_positive g"
    "fi_occurrences f = fi_occurrences g" "fi_missed f = fi_missed g" "fi_unverified f = fi_unverified g"
    "fi_last_seen f = fi_last_seen g" "fi_accepted_until f = fi_accepted_until g"
  using arg_cong [OF assms, of fi_id] arg_cong [OF assms, of fi_tenant] arg_cong [OF assms, of fi_org] arg_cong [OF assms, of fi_asset]
    arg_cong [OF assms, of fi_fingerprint] arg_cong [OF assms, of fi_source] arg_cong [OF assms, of fi_rule] arg_cong [OF assms, of fi_first_seen]
    arg_cong [OF assms, of fi_status] arg_cong [OF assms, of fi_resolved_at] arg_cong [OF assms, of fi_false_positive] arg_cong [OF assms, of fi_occurrences]
    arg_cong [OF assms, of fi_missed] arg_cong [OF assms, of fi_unverified] arg_cong [OF assms, of fi_last_seen] arg_cong [OF assms, of fi_accepted_until]
  by (simp_all add: essence_def)

lemmas enrich_fields [simp] = essence_fields [OF essence_enrich]

subsection \<open>Effect of each operation on the table\<close>

definition finding_ids :: "inventory \<Rightarrow> uuid list" where
  "finding_ids db = map fi_id (findings db)"

lemma findings_add_activity [simp]: "findings (add_activity a db) = findings db"
  by (simp add: add_activity_def)

lemma findings_put_finding:
  "findings (put_finding g db) = update_where (\<lambda>x. fi_id x = fi_id g) (\<lambda>_. g) (findings db)"
  by (simp add: put_finding_def)

lemma findings_add_finding [simp]: "findings (add_finding f db) = findings db @ [f]"
  by (simp add: add_finding_def)

lemma findings_add_event [simp]: "findings (add_event e db) = findings db"
  by (simp add: add_event_def)

text \<open>The outcome of a covered scan that did not see a finding, and of its asset leaving.\<close>

definition resolved :: "time \<Rightarrow> finding \<Rightarrow> finding" where
  "resolved now f = f\<lparr>fi_status := finding_status.REMEDIATED, fi_resolved_at := Some now\<rparr>"

definition missed_once :: "int \<Rightarrow> time \<Rightarrow> finding \<Rightarrow> finding" where
  "missed_once threshold now f =
     (let g = f\<lparr>fi_missed := fi_missed f + 1\<rparr> in if fi_missed g < threshold then g else resolved now g)"

definition reopened :: "finding \<Rightarrow> finding" where
  "reopened f = f\<lparr>fi_status := finding_status.REOPENED, fi_accepted_until := None\<rparr>"

lemma findings_resolve:
  "findings (fst (resolve lead c now scan f db)) = update_where (\<lambda>x. fi_id x = fi_id f) (\<lambda>_. resolved now f) (findings db)"
  by (simp add: resolve_def Let_def findings_put_finding resolved_def)

lemma findings_miss:
  "findings (fst (miss threshold now scan f db)) =
   update_where (\<lambda>x. fi_id x = fi_id f) (\<lambda>_. missed_once threshold now f) (findings db)"
  using findings_resolve [of "''Resolved: ''" NOT_DETECTED_COMMENT now scan "f\<lparr>fi_missed := fi_missed f + 1\<rparr>" db]
  by (simp add: miss_def missed_once_def Let_def findings_put_finding case_prod_unfold)

lemma findings_expire:
  "findings (expire_acceptance now f db) = update_where (\<lambda>x. fi_id x = fi_id f) (\<lambda>_. reopened f) (findings db)"
  by (simp add: expire_acceptance_def Let_def findings_put_finding reopened_def)

lemma findings_collect:
  assumes "\<And>r db. findings (fst (step r db)) = update_where (\<lambda>x. fi_id x = fi_id r) (\<lambda>_. h r) (findings db)"
  shows "findings (fst (collect step rows db)) =
    foldl (\<lambda>T r. update_where (\<lambda>x. fi_id x = fi_id r) (\<lambda>_. h r) T) (findings db) rows"
proof (induction rows arbitrary: db)
  case (Cons r rows)
  show ?case using assms [of r db] Cons.IH [of "fst (step r db)"] by (simp add: case_prod_unfold)
qed simp

lemma findings_foldl:
  assumes "\<And>r db. findings (step r db) = update_where (\<lambda>x. fi_id x = fi_id r) (\<lambda>_. h r) (findings db)"
  shows "findings (foldl (\<lambda>db r. step r db) db rows) =
    foldl (\<lambda>T r. update_where (\<lambda>x. fi_id x = fi_id r) (\<lambda>_. h r) T) (findings db) rows"
  by (induction rows arbitrary: db) (simp_all add: assms)

lemma write_rows:
  assumes "distinct (finding_ids db)" "\<And>r. fi_id (h r) = fi_id r"
  shows "foldl (\<lambda>T r. update_where (\<lambda>x. fi_id x = fi_id r) (\<lambda>_. h r) T) (findings db) (filter P (findings db)) =
    map (\<lambda>f. if P f then h f else f) (findings db)"
  using assms foldl_write [of fi_id "findings db" "filter P (findings db)" h]
  by (auto simp: finding_ids_def distinct_map)

lemma findings_resolve_unobserved:
  assumes "distinct (finding_ids db)"
  shows "\<exists>P. (\<forall>f. P f \<longrightarrow> is_open f \<and> fi_id f \<notin> observed \<and> fi_source f = source \<and> fi_asset f \<in> ids) \<and>
    findings (fst (resolve_unobserved tenant ids source cov observed threshold now scan db)) =
    map (\<lambda>f. if P f then missed_once threshold now f else f) (findings db)"
proof -
  let ?P = "\<lambda>f. (\<not> (fi_id f \<in> observed \<or> (case cov of Some c \<Rightarrow> \<not> matches_filter f c | None \<Rightarrow> False))) \<and>
     fi_tenant f = tenant \<and> fi_asset f \<in> ids \<and> fi_source f = source \<and> is_open f"
  have "fi_id (missed_once threshold now r) = fi_id r" for r by (simp add: missed_once_def resolved_def Let_def)
  then have "findings (fst (resolve_unobserved tenant ids source cov observed threshold now scan db)) =
    map (\<lambda>f. if ?P f then missed_once threshold now f else f) (findings db)"
    using findings_collect [of "miss threshold now scan", OF findings_miss] write_rows [OF assms]
    by (simp add: resolve_unobserved_def Let_def conj_commute)
  then show ?thesis by (intro exI [of _ ?P]) simp
qed

lemma findings_resolve_for_inactive:
  assumes "distinct (finding_ids db)"
  shows "findings (fst (resolve_for_inactive_asset a now scan db)) =
    map (\<lambda>f. if fi_asset f = a \<and> is_open f then resolved now f else f) (findings db)"
proof -
  let ?step = "\<lambda>f db. case resolve ''Resolved (asset gone): '' ASSET_GONE_COMMENT now scan f db of (db', ch) \<Rightarrow> (db', [ch])"
  have "findings (fst (?step r db')) = update_where (\<lambda>x. fi_id x = fi_id r) (\<lambda>_. resolved now r) (findings db')" for r db'
    by (simp add: findings_resolve case_prod_unfold)
  moreover have "fi_id (resolved now r) = fi_id r" for r by (simp add: resolved_def)
  ultimately show ?thesis using findings_collect [of ?step "resolved now"] write_rows [OF assms]
    by (simp add: resolve_for_inactive_asset_def)
qed

lemma findings_expire_risk_acceptance:
  assumes "distinct (finding_ids db)"
  shows "findings (fst (expire_risk_acceptance tenant now db)) =
    map (\<lambda>f. if acceptance_over tenant now f then reopened f else f) (findings db)"
proof -
  have "fi_id (reopened r) = fi_id r" for r by (simp add: reopened_def)
  then show ?thesis using findings_foldl [of "expire_acceptance now" reopened, OF findings_expire] write_rows [OF assms]
    by (simp add: expire_risk_acceptance_def Let_def)
qed

subsection \<open>Every changed row moves as allowed\<close>

lemma open_status: "is_open f \<longleftrightarrow> fi_status f \<in> {finding_status.NEW, finding_status.INVESTIGATING, finding_status.REOPENED}"
  by (simp add: is_open_def OPEN_FINDING_STATES_def)

lemma row_step_resolved: "is_open f \<Longrightarrow> row_step f (resolved now f)"
  by (auto simp: open_status row_step_defs resolved_def)

lemma row_step_missed: "is_open f \<Longrightarrow> row_step f (missed_once threshold now f)"
  by (auto simp: open_status row_step_defs resolved_def missed_once_def Let_def)

lemma row_step_reopened: "acceptance_over tenant now f \<Longrightarrow> row_step f (reopened f)"
  by (auto simp: acceptance_over_def row_step_defs reopened_def)

text \<open>A finding that is observed again, re-opened if it was remediated.\<close>

definition seen_again :: "vuln_intel list \<Rightarrow> finding_obs \<Rightarrow> time \<Rightarrow> uuid option \<Rightarrow> bool \<Rightarrow> finding \<Rightarrow> finding" where
  "seen_again rows obs now scan unv f =
     (let g = enrich_from_intel rows (observe_again obs now scan unv f) in
      if fi_status g = finding_status.REMEDIATED then g\<lparr>fi_status := finding_status.REOPENED, fi_resolved_at := None\<rparr> else g)"

lemma seen_again_fields:
  "fi_id (seen_again rows obs now scan unv f) = fi_id f"
  "fi_status (seen_again rows obs now scan unv f) =
     (if fi_status f = finding_status.REMEDIATED then finding_status.REOPENED else fi_status f)"
  by (simp_all add: seen_again_def Let_def observe_again_def)

lemma row_step_seen_again: "row_step f (seen_again rows obs now scan unv f)"
  by (auto simp: row_step_defs seen_again_def observe_again_def Let_def)

lemma upsert_existing:
  assumes "find_fingerprint db tenant (fingerprint u sha256 tenant (as_id a) source (fo_rule_id obs) (fo_location obs)) = Some f"
  shows "f \<in> set (findings db)"
    "findings (fst (upsert_observation u sha256 tenant org a obs source now scan unverified db)) =
     update_where (\<lambda>x. fi_id x = fi_id f) (\<lambda>_. seen_again (intel db) obs now scan unverified f) (findings db)"
proof -
  show "f \<in> set (findings db)" using assms unfolding find_fingerprint_def by (blast dest: find_Some_D)
  show "findings (fst (upsert_observation u sha256 tenant org a obs source now scan unverified db)) =
     update_where (\<lambda>x. fi_id x = fi_id f) (\<lambda>_. seen_again (intel db) obs now scan unverified f) (findings db)"
    using assms by (simp add: upsert_observation_def update_observation_def seen_again_def Let_def findings_put_finding observe_again_def)
qed

lemma row_step_set_status:
  assumes "check_transition can c (fi_status f) new = None"
  shows "row_step f (set_status now until new f)"
proof -
  have "new \<in> set (ALLOWED_TRANSITIONS (fi_status f))" using assms by (auto simp: check_transition_def split: if_splits)
  then show ?thesis by (cases "fi_status f") (auto simp: row_step_defs set_status_def)
qed

text \<open>An accepted risk has a justification by a user in the history of the finding.\<close>

definition justified :: "activity list \<Rightarrow> uuid \<Rightarrow> bool" where
  "justified acts i \<longleftrightarrow> (\<exists>a \<in> set acts. ac_finding a = i \<and> ac_type a = ''status'' \<and>
     ac_new a = status_json finding_status.ACCEPTED_RISK \<and> ac_user a \<noteq> None \<and> \<not> no_text (ac_comment a))"

lemma apply_status_effect:
  assumes "apply_status now user can ch f = Inr (g, acts, c)"
  shows "row_step f g"
    "fi_status g = finding_status.ACCEPTED_RISK \<Longrightarrow> fi_status f \<noteq> finding_status.ACCEPTED_RISK \<Longrightarrow> can \<and> justified acts (fi_id f)"
proof -
  have cases: "g = f \<or> (\<exists>new. check_transition can (ch_comment ch) (fi_status f) new = None \<and>
      g = set_status now (ch_accepted_until ch) new f \<and> acts = [status_activity user (ch_comment ch) f new])"
  proof (cases "ch_status ch")
    case None
    then show ?thesis using assms by (simp add: apply_status_def)
  next
    case (Some new)
    then show ?thesis using assms
      by (cases "new = fi_status f"; cases "check_transition can (ch_comment ch) (fi_status f) new")
        (simp_all add: apply_status_def, blast)
  qed
  then show "row_step f g" using row_step_set_status by auto
  show "can \<and> justified acts (fi_id f)" if a: "fi_status g = finding_status.ACCEPTED_RISK" "fi_status f \<noteq> finding_status.ACCEPTED_RISK"
  proof -
    from cases obtain new where c: "check_transition can (ch_comment ch) (fi_status f) new = None"
      "g = set_status now (ch_accepted_until ch) new f" "acts = [status_activity user (ch_comment ch) f new]"
      using a by blast
    then have "new = finding_status.ACCEPTED_RISK" using a(1) by (simp add: set_status_def)
    then show ?thesis using c(1,3)
      by (auto simp: check_transition_def justified_def status_activity_def mk_activity_def split: if_splits)
  qed
qed

lemma row_step_edit:
  "row_step f (g\<lparr>fi_assigned_to := w\<rparr>) = row_step f g" "row_step f (g\<lparr>fi_tags := ts\<rparr>) = row_step f g"
  "row_step f (g\<lparr>fi_notes := n\<rparr>) = row_step f g"
  by (simp_all add: row_step_defs)

lemma apply_edits_effect:
  "row_step f g \<Longrightarrow> row_step f (fst (apply_assignee user ch g))" "row_step f g \<Longrightarrow> row_step f (fst (apply_tags user ch g))"
  "fi_status (fst (apply_assignee user ch g)) = fi_status g" "fi_status (fst (apply_tags user ch g)) = fi_status g"
  by (auto simp: apply_assignee_def apply_tags_def row_step_edit split: option.split)

lemma audit_update_effect [simp]:
  "findings (audit_update sha256 ctx now f g db) = findings db"
  "activities (audit_update sha256 ctx now f g db) = activities db"
  "next_id (audit_update sha256 ctx now f g db) = next_id db"
  by (simp_all add: audit_update_def split: prod.split)

lemma update_finding_form:
  assumes "get_finding db i = Some f" "apply_status now user can ch f = Inr (f1, acts1, c)"
  obtains g acts where "update_finding sha256 ctx now i ch user can db =
      (audit_update sha256 ctx now f g ((put_finding g db)\<lparr>activities := activities db @ acts1 @ acts\<rparr>), Inr g)"
    "row_step f g" "fi_status g = fi_status f1"
proof -
  let ?f2 = "fst (apply_assignee user ch f1)" let ?f3 = "fst (apply_tags user ch ?f2)"
  define g where "g = (case ch_notes ch of Some n \<Rightarrow> ?f3\<lparr>fi_notes := n\<rparr> | None \<Rightarrow> ?f3)"
  have "row_step f g" "fi_status g = fi_status f1" using apply_status_effect(1) [OF assms(2)]
    by (simp_all add: g_def row_step_edit apply_edits_effect split: option.split)
  moreover have "update_finding sha256 ctx now i ch user can db =
      (audit_update sha256 ctx now f g ((put_finding g db)\<lparr>activities := activities db @ acts1 @ snd (apply_assignee user ch f1) @
         snd (apply_tags user ch ?f2) @ comment_activity user c g\<rparr>), Inr g)"
    by (cases "ch_notes ch") (simp_all add: update_finding_def assms Let_def case_prod_unfold g_def)
  ultimately show thesis using that by blast
qed

lemma update_finding_effect:
  assumes "update_finding sha256 ctx now i ch user can db = (db', res)"
  shows "(\<exists>e. res = Inl e \<and> db' = db) \<or>
    (\<exists>f g acts. res = Inr g \<and> get_finding db i = Some f \<and> row_step f g \<and> next_id db' = next_id db \<and>
       findings db' = update_where (\<lambda>x. fi_id x = fi_id f) (\<lambda>_. g) (findings db) \<and> activities db' = activities db @ acts \<and>
       (fi_status g = finding_status.ACCEPTED_RISK \<and> fi_status f \<noteq> finding_status.ACCEPTED_RISK \<longrightarrow> can \<and> justified acts (fi_id f)))"
proof (cases "get_finding db i")
  case None
  then show ?thesis using assms by (auto simp: update_finding_def)
next
  case (Some f)
  show ?thesis
  proof (cases "apply_status now user can ch f")
    case (Inl e)
    then show ?thesis using assms Some by (auto simp: update_finding_def)
  next
    case (Inr r)
    obtain f1 acts1 c where r: "r = (f1, acts1, c)" by (cases r)
    note st = apply_status_effect(2) [OF Inr [unfolded r]]
    obtain g acts where u: "update_finding sha256 ctx now i ch user can db =
        (audit_update sha256 ctx now f g ((put_finding g db)\<lparr>activities := activities db @ acts1 @ acts\<rparr>), Inr g)"
      and g: "row_step f g" "fi_status g = fi_status f1"
      by (rule update_finding_form [OF Some Inr [unfolded r]])
    have "fi_id g = fi_id f" using g(1) by (simp add: row_step_def same_issue_def)
    moreover have "justified acts1 (fi_id f) \<Longrightarrow> justified (acts1 @ acts) (fi_id f)" by (auto simp: justified_def)
    ultimately show ?thesis using u g st assms Some by (auto simp: put_finding_def)
  qed
qed

subsection \<open>The transition system\<close>

inductive finding_step :: "inventory \<Rightarrow> inventory \<Rightarrow> bool" where
  observed: "finding_step db (fst (upsert_observation u sha256 tenant org a obs source now scan unverified db))"
| unobserved: "finding_step db (fst (resolve_unobserved tenant ids source cov observed threshold now scan db))"
| asset_gone: "finding_step db (fst (resolve_for_inactive_asset i now scan db))"
| edited: "finding_step db (fst (update_finding sha256 ctx now i ch user can db))"
| commented: "finding_step db (fst (add_comment i user comment db))"
| expired: "finding_step db (fst (expire_risk_acceptance tenant now db))"

inductive finding_run :: "inventory \<Rightarrow> inventory \<Rightarrow> bool" where
  start: "finding_run db db"
| more: "finding_run db db' \<Longrightarrow> finding_step db' db'' \<Longrightarrow> finding_run db db''"

text \<open>History only grows, and identifiers are used once.\<close>

definition grows :: "inventory \<Rightarrow> inventory \<Rightarrow> bool" where
  "grows db db' \<longleftrightarrow> (\<exists>acts. activities db' = activities db @ acts) \<and> next_id db \<le> next_id db'"

lemma grows_refl [simp]: "grows db db"
  by (simp add: grows_def)

lemma grows_trans: "grows a b \<Longrightarrow> grows b c \<Longrightarrow> grows a c"
  by (auto simp: grows_def)

lemma grows_collect: "(\<And>r db. grows db (fst (step r db))) \<Longrightarrow> grows db (fst (collect step rows db))"
proof (induction rows arbitrary: db)
  case (Cons r rows)
  show ?case using Cons.IH [OF Cons.prems, of "fst (step r db)"] Cons.prems [of db r]
    by (auto simp: case_prod_unfold intro: grows_trans)
qed simp

lemma grows_foldl: "(\<And>r db. grows db (step r db)) \<Longrightarrow> grows db (foldl (\<lambda>db r. step r db) db rows)"
  by (induction rows arbitrary: db) (auto intro: grows_trans)

lemma grows_edits [simp]:
  "grows db (add_activity a db)" "grows db (put_finding f db)" "grows db (add_finding f db)" "grows db (add_event e db)"
  "grows db (add_activity a (put_finding f db))" "grows db (add_activity a (add_finding f db))"
  "grows db (add_event e (put_finding f (add_activity a db)))"
  by (simp_all add: grows_def add_activity_def put_finding_def add_finding_def add_event_def)

lemma grows_resolve [simp]: "grows db (fst (resolve lead c now scan f db))"
  by (simp add: resolve_def Let_def)

lemma grows_miss [simp]: "grows db (fst (miss threshold now scan f db))"
  by (simp add: miss_def Let_def case_prod_unfold)

lemma grows_step:
  assumes "finding_step db db'"
  shows "grows db db'"
  using assms
proof cases
  case (observed u sha256 tenant org a obs source now scan unverified)
  then show ?thesis
    by (simp add: upsert_observation_def insert_observation_def update_observation_def Let_def split: option.split)
next
  case (edited sha256 ctx now i ch user can)
  then show ?thesis using update_finding_effect [of sha256 ctx now i ch user can db]
    by (cases "update_finding sha256 ctx now i ch user can db") (auto simp: grows_def)
qed (auto simp: resolve_unobserved_def resolve_for_inactive_asset_def expire_risk_acceptance_def expire_acceptance_def add_comment_def
      Let_def case_prod_unfold intro!: grows_collect grows_foldl split: option.split)

text \<open>A step changes rows as allowed, or adds one new row.\<close>

definition row_moves :: "activity list \<Rightarrow> finding \<Rightarrow> finding \<Rightarrow> bool" where
  "row_moves acts f g \<longleftrightarrow> row_step f g \<and>
     (fi_status g = finding_status.ACCEPTED_RISK \<and> fi_status f \<noteq> finding_status.ACCEPTED_RISK \<longrightarrow> justified acts (fi_id f))"

definition new_row :: "inventory \<Rightarrow> finding \<Rightarrow> bool" where
  "new_row db w \<longleftrightarrow> fi_id w = next_id db \<and> finding_wf w \<and> fi_status w = finding_status.NEW \<and>
     find_fingerprint db (fi_tenant w) (fi_fingerprint w) = None"

lemma row_moves_refl [simp]: "row_moves acts f f"
  by (simp add: row_moves_def)

lemma rows_map: "(\<And>f. f \<in> set T \<Longrightarrow> row_moves acts f (h f)) \<Longrightarrow> list_all2 (row_moves acts) T (map h T)"
  by (simp add: list.rel_map list.rel_refl_strong)

lemma rows_update:
  assumes "distinct (map fi_id T)" "f \<in> set T" "row_moves acts f g"
  shows "list_all2 (row_moves acts) T (update_where (\<lambda>x. fi_id x = fi_id f) (\<lambda>_. g) T)"
  unfolding update_where_key [OF assms(1,2)] using assms(3) by (intro rows_map) auto

lemma not_accepted:
  "fi_status (resolved now f) \<noteq> finding_status.ACCEPTED_RISK" "fi_status (reopened f) \<noteq> finding_status.ACCEPTED_RISK"
  "fi_status (missed_once n now f) = finding_status.ACCEPTED_RISK \<Longrightarrow> fi_status f = finding_status.ACCEPTED_RISK"
  by (auto simp: resolved_def reopened_def missed_once_def Let_def split: if_splits)

lemma row_moves_auto:
  "is_open f \<Longrightarrow> row_moves acts f (missed_once n now f)"
  "is_open f \<Longrightarrow> row_moves acts f (resolved now f)"
  "acceptance_over tenant now f \<Longrightarrow> row_moves acts f (reopened f)"
  unfolding row_moves_def using row_step_missed row_step_resolved row_step_reopened not_accepted by blast+

lemma upsert_rows:
  assumes "distinct (finding_ids db)"
    "db' = fst (upsert_observation u sha256 tenant org a obs source now scan unverified db)"
  shows "list_all2 (row_moves (activities db')) (findings db) (findings db') \<or>
    (\<exists>w. findings db' = findings db @ [w] \<and> new_row db w \<and> next_id db' = next_id db + 1)"
proof -
  let ?fp = "fingerprint u sha256 tenant (as_id a) source (fo_rule_id obs) (fo_location obs)"
  show ?thesis
  proof (cases "find_fingerprint db tenant ?fp")
    case None
    let ?w = "enrich_from_intel (intel db) (new_finding (next_id db) tenant org a obs source ?fp now scan unverified)"
    have "findings db' = findings db @ [?w]" "next_id db' = next_id db + 1"
      using assms(2) None by (simp_all add: upsert_observation_def insert_observation_def Let_def add_activity_def add_finding_def)
    moreover have "new_row db ?w" using None by (simp add: new_row_def new_finding_def finding_wf_def)
    ultimately show ?thesis by blast
  next
    case (Some f)
    have "row_moves (activities db') f (seen_again (intel db) obs now scan unverified f)"
      by (simp add: row_moves_def row_step_seen_again seen_again_fields)
    then show ?thesis unfolding assms(2) upsert_existing(2) [OF Some]
      by (intro disjI1 rows_update [OF assms(1) [unfolded finding_ids_def] upsert_existing(1) [OF Some]]) simp
  qed
qed

lemma step_rows:
  assumes "finding_step db db'" "distinct (finding_ids db)"
  shows "list_all2 (row_moves (activities db')) (findings db) (findings db') \<or>
    (\<exists>w. findings db' = findings db @ [w] \<and> new_row db w \<and> next_id db' = next_id db + 1)"
  using assms(1)
proof cases
  case (observed u sha256 tenant org a obs source now scan unverified)
  then show ?thesis using upsert_rows [OF assms(2)] by blast
next
  case (unobserved tenant ids source cov obs threshold now scan)
  then show ?thesis using findings_resolve_unobserved [OF assms(2), of obs source ids tenant cov threshold now scan]
    by (auto intro!: rows_map row_moves_auto)
next
  case (asset_gone i now scan)
  then show ?thesis using findings_resolve_for_inactive [OF assms(2)]
    by (auto intro!: rows_map row_moves_auto)
next
  case (edited sha256 ctx now i ch user can)
  consider "db' = db" | f g acts where "get_finding db i = Some f" "row_step f g"
    "findings db' = update_where (\<lambda>x. fi_id x = fi_id f) (\<lambda>_. g) (findings db)" "activities db' = activities db @ acts"
    "fi_status g = finding_status.ACCEPTED_RISK \<and> fi_status f \<noteq> finding_status.ACCEPTED_RISK \<longrightarrow> justified acts (fi_id f)"
    using update_finding_effect [of sha256 ctx now i ch user can db] edited
    by (cases "update_finding sha256 ctx now i ch user can db") auto
  then show ?thesis
  proof cases
    case 1
    then show ?thesis by (simp add: list.rel_refl)
  next
    case 2
    then have "f \<in> set (findings db)" by (auto simp: get_finding_def find_Some_iff)
    moreover have "row_moves (activities db') f g" using 2 by (auto simp: row_moves_def justified_def)
    ultimately show ?thesis using rows_update [OF assms(2) [unfolded finding_ids_def]] 2(3) by simp
  qed
next
  case (commented i user comment)
  then have "findings db' = findings db" by (simp add: add_comment_def Let_def split: option.split)
  then show ?thesis by (simp add: list.rel_refl)
next
  case (expired tenant now)
  then show ?thesis using findings_expire_risk_acceptance [OF assms(2)]
    by (auto intro!: rows_map intro: row_moves_auto)
qed

subsection \<open>Invariant\<close>

definition findings_ok :: "inventory \<Rightarrow> bool" where
  "findings_ok db \<longleftrightarrow> distinct (finding_ids db) \<and> distinct (map (\<lambda>f. (fi_tenant f, fi_fingerprint f)) (findings db)) \<and>
     (\<forall>f \<in> set (findings db). fi_id f < next_id db \<and> finding_wf f \<and>
        (fi_status f = finding_status.ACCEPTED_RISK \<longrightarrow> justified (activities db) (fi_id f)))"

lemma rows_keep_keys:
  assumes "list_all2 (row_moves acts) xs ys"
  shows "map fi_id ys = map fi_id xs" "map (\<lambda>f. (fi_tenant f, fi_fingerprint f)) ys = map (\<lambda>f. (fi_tenant f, fi_fingerprint f)) xs"
  using assms by (induction rule: list_all2_induct) (auto simp: row_moves_def row_step_def same_issue_def)

lemma list_all2_pre: "list_all2 R xs ys \<Longrightarrow> y \<in> set ys \<Longrightarrow> \<exists>x \<in> set xs. R x y"
  by (induction rule: list_all2_induct) auto

lemma justified_grows: "justified (activities db) i \<Longrightarrow> grows db db' \<Longrightarrow> justified (activities db') i"
  by (auto simp: justified_def grows_def)

lemma findings_ok_step:
  assumes "finding_step db db'" "findings_ok db"
  shows "findings_ok db'"
proof -
  have d: "distinct (finding_ids db)" using assms(2) by (simp add: findings_ok_def)
  have g: "grows db db'" by (rule grows_step [OF assms(1)])
  from step_rows [OF assms(1) d] show ?thesis
  proof (elim disjE exE conjE)
    assume l: "list_all2 (row_moves (activities db')) (findings db) (findings db')"
    have "fi_id h < next_id db' \<and> finding_wf h \<and> (fi_status h = finding_status.ACCEPTED_RISK \<longrightarrow> justified (activities db') (fi_id h))"
      if h: "h \<in> set (findings db')" for h
    proof -
      obtain f where f: "f \<in> set (findings db)" "row_moves (activities db') f h" using list_all2_pre [OF l h] by blast
      then have "fi_id h = fi_id f" by (simp add: row_moves_def row_step_def same_issue_def)
      then show ?thesis using f assms(2) g justified_grows [OF _ g]
        by (auto simp: findings_ok_def row_moves_def row_step_def grows_def)
    qed
    then show ?thesis using assms(2) rows_keep_keys [OF l] by (simp add: findings_ok_def finding_ids_def)
  next
    fix w assume w: "findings db' = findings db @ [w]" "new_row db w" "next_id db' = next_id db + 1"
    have "fi_id w \<notin> set (finding_ids db)" using w(2) assms(2) by (auto simp: new_row_def findings_ok_def finding_ids_def)
    moreover have "(fi_tenant w, fi_fingerprint w) \<notin> (\<lambda>f. (fi_tenant f, fi_fingerprint f)) ` set (findings db)"
      using w(2) by (auto simp: new_row_def find_fingerprint_def find_None_iff)
    ultimately show ?thesis using assms(2) w justified_grows [OF _ g]
      by (auto simp: findings_ok_def finding_ids_def new_row_def)
  qed
qed

text \<open>The status of a finding in the database, and the automaton the analysts are shown.\<close>

definition status_of :: "inventory \<Rightarrow> uuid \<Rightarrow> finding_status option" where
  "status_of db i = map_option fi_status (get_finding db i)"

fun spec_step :: "finding_status option \<Rightarrow> finding_status option \<Rightarrow> bool" where
  "spec_step None None \<longleftrightarrow> True"
| "spec_step None (Some s) \<longleftrightarrow> s = finding_status.NEW"
| "spec_step (Some s) None \<longleftrightarrow> False"
| "spec_step (Some s) (Some t) \<longleftrightarrow> may_move s t"

lemma get_finding_moves:
  assumes "list_all2 (row_moves acts) (findings db) (findings db')"
  shows "rel_option row_step (get_finding db i) (get_finding db' i)"
  using assms unfolding get_finding_def
  by (induction rule: list_all2_induct) (auto simp: row_moves_def row_step_def same_issue_def)

lemma find_append: "find P (xs @ ys) = (case find P xs of Some x \<Rightarrow> Some x | None \<Rightarrow> find P ys)"
  by (induction xs) simp_all

lemma get_finding_new:
  assumes "findings db' = findings db @ [w]"
  shows "get_finding db' i = (case get_finding db i of Some f \<Rightarrow> Some f | None \<Rightarrow> if fi_id w = i then Some w else None)"
  using assms by (auto simp: get_finding_def find_append split: option.split)

lemma get_finding_step:
  assumes "finding_step db db'" "findings_ok db"
  shows "(\<exists>f g. get_finding db i = Some f \<and> get_finding db' i = Some g \<and> row_step f g) \<or>
    get_finding db i = None \<and> (\<forall>g. get_finding db' i = Some g \<longrightarrow> fi_status g = finding_status.NEW)"
proof -
  have "distinct (finding_ids db)" using assms(2) by (simp add: findings_ok_def)
  from step_rows [OF assms(1) this] show ?thesis
  proof (elim disjE exE conjE)
    assume "list_all2 (row_moves (activities db')) (findings db) (findings db')"
    from get_finding_moves [OF this, of i] show ?thesis by (cases rule: option.rel_cases) auto
  next
    fix w assume w: "findings db' = findings db @ [w]" "new_row db w"
    show ?thesis using get_finding_new [OF w(1), of i] w(2) by (auto simp: new_row_def split: option.splits if_splits)
  qed
qed

lemma findings_ok_run: "finding_run db db' \<Longrightarrow> findings_ok db \<Longrightarrow> findings_ok db'"
  by (induction rule: finding_run.induct) (auto intro: findings_ok_step)

subsection \<open>Scans and triage\<close>

lemma status_of_step:
  assumes "finding_step db db'" "findings_ok db" "get_finding db i = Some f"
  obtains g where "get_finding db' i = Some g" "row_step f g"
  using get_finding_step [OF assms(1,2), of i] assms(3) by auto

lemma get_finding_map:
  assumes "findings db' = map (\<lambda>f. if P f then h f else f) (findings db)" "\<And>f. fi_id (h f) = fi_id f"
  shows "get_finding db' i = map_option (\<lambda>f. if P f then h f else f) (get_finding db i)"
proof -
  have "find (\<lambda>f. fi_id f = i) (map (\<lambda>f. if P f then h f else f) T) = map_option (\<lambda>f. if P f then h f else f) (find (\<lambda>f. fi_id f = i) T)" for T
    by (induction T) (auto simp: assms(2))
  then show ?thesis by (simp add: get_finding_def assms(1))
qed

lemma get_finding_resolve_unobserved:
  assumes "distinct (finding_ids db)"
  shows "get_finding (fst (resolve_unobserved tenant ids source cov observed threshold now scan db)) i =
    map_option (\<lambda>f. if fi_id f \<notin> observed \<and> (case cov of Some c \<Rightarrow> matches_filter f c | None \<Rightarrow> True) \<and>
        fi_tenant f = tenant \<and> fi_asset f \<in> ids \<and> fi_source f = source \<and> is_open f
      then missed_once threshold now f else f) (get_finding db i)"
proof -
  let ?P = "\<lambda>f. fi_id f \<notin> observed \<and> (case cov of Some c \<Rightarrow> matches_filter f c | None \<Rightarrow> True) \<and>
        fi_tenant f = tenant \<and> fi_asset f \<in> ids \<and> fi_source f = source \<and> is_open f"
  have id: "fi_id (missed_once threshold now r) = fi_id r" for r by (simp add: missed_once_def resolved_def Let_def)
  have "filter ?P T = filter (\<lambda>f. \<not> (fi_id f \<in> observed \<or> (case cov of Some c \<Rightarrow> \<not> matches_filter f c | None \<Rightarrow> False)))
      (filter (\<lambda>f. fi_tenant f = tenant \<and> fi_asset f \<in> ids \<and> fi_source f = source \<and> is_open f) T)" for T
    by (auto simp: filter_filter intro!: filter_cong split: option.split)
  then have "findings (fst (resolve_unobserved tenant ids source cov observed threshold now scan db)) =
      map (\<lambda>f. if ?P f then missed_once threshold now f else f) (findings db)"
    using findings_collect [of "miss threshold now scan", OF findings_miss] write_rows [OF assms id, of ?P]
    by (simp add: resolve_unobserved_def Let_def)
  from get_finding_map [OF this id] show ?thesis by (simp cong: option.map_cong)
qed

text \<open>One covered scan after another that does not see the finding.\<close>

definition covered_scans ::
  "uuid \<Rightarrow> uuid set \<Rightarrow> string \<Rightarrow> finding_coverage option \<Rightarrow> uuid set \<Rightarrow> int \<Rightarrow> (time \<times> uuid option) list \<Rightarrow> inventory \<Rightarrow> inventory" where
  "covered_scans tenant ids source cov observed threshold scans db =
     foldl (\<lambda>db (now, scan). fst (resolve_unobserved tenant ids source cov observed threshold now scan db)) db scans"

lemma covered_scans_ok: "findings_ok db \<Longrightarrow> findings_ok (covered_scans tenant ids source cov observed threshold scans db)"
proof (induction scans arbitrary: db)
  case (Cons s scans)
  then show ?case using findings_ok_step [OF finding_step.unobserved Cons.prems]
    by (simp add: covered_scans_def case_prod_unfold)
qed (simp add: covered_scans_def)

lemma covered_scan_misses:
  assumes "findings_ok db" "get_finding db i = Some f" "is_open f" "i \<notin> observed" "fi_tenant f = tenant" "fi_asset f \<in> ids"
    "fi_source f = source" "case cov of Some c \<Rightarrow> matches_filter f c | None \<Rightarrow> True"
  shows "get_finding (fst (resolve_unobserved tenant ids source cov observed threshold now scan db)) i = Some (missed_once threshold now f)"
proof -
  have "fi_id f = i" using assms(2) by (simp add: get_finding_def find_Some_iff) auto
  then show ?thesis using assms get_finding_resolve_unobserved by (simp add: findings_ok_def)
qed

lemma matches_filter_missed: "matches_filter (f\<lparr>fi_missed := k\<rparr>) c = matches_filter f c"
  by (simp add: matches_filter_def cong: option.case_cong)

lemma resolved_stays:
  assumes "findings_ok db" "status_of db i = Some finding_status.REMEDIATED"
  shows "status_of (covered_scans tenant ids source cov observed threshold scans db) i = Some finding_status.REMEDIATED"
  using assms
proof (induction scans arbitrary: db)
  case (Cons s scans)
  obtain now scan where s: "s = (now, scan)" by (cases s)
  let ?db = "fst (resolve_unobserved tenant ids source cov observed threshold now scan db)"
  obtain f where "get_finding db i = Some f" "fi_status f = finding_status.REMEDIATED" using Cons.prems(2) by (auto simp: status_of_def)
  then have "status_of ?db i = Some finding_status.REMEDIATED"
    using Cons.prems(1) get_finding_resolve_unobserved [of db tenant ids source cov observed threshold now scan i]
    by (simp add: status_of_def findings_ok_def open_status)
  then show ?case using Cons.IH [of ?db] findings_ok_step [OF finding_step.unobserved Cons.prems(1)]
    by (simp add: covered_scans_def s)
qed (simp add: covered_scans_def)

lemma covered_scans_status:
  assumes "findings_ok db" "get_finding db i = Some f" "is_open f" "i \<notin> observed" "fi_tenant f = tenant" "fi_asset f \<in> ids"
    "fi_source f = source" "case cov of Some c \<Rightarrow> matches_filter f c | None \<Rightarrow> True" "scans \<noteq> []"
  shows "status_of (covered_scans tenant ids source cov observed threshold scans db) i =
    Some (if fi_missed f + int (length scans) < threshold then fi_status f else finding_status.REMEDIATED)"
  using assms
proof (induction scans arbitrary: db f)
  case (Cons s scans)
  obtain now scan where s: "s = (now, scan)" by (cases s)
  let ?db = "fst (resolve_unobserved tenant ids source cov observed threshold now scan db)"
  let ?g = "missed_once threshold now f"
  have ok: "findings_ok ?db" by (rule findings_ok_step [OF finding_step.unobserved Cons.prems(1)])
  have g: "get_finding ?db i = Some ?g" using covered_scan_misses Cons.prems by blast
  show ?case
  proof (cases "fi_missed f + 1 < threshold")
    case True
    then have m: "?g = f\<lparr>fi_missed := fi_missed f + 1\<rparr>" by (simp add: missed_once_def)
    have rest: "scans \<noteq> [] \<Longrightarrow> ?thesis"
      using Cons.IH [OF ok g] Cons.prems by (simp add: m s covered_scans_def is_open_def matches_filter_missed add.assoc cong: option.case_cong)
    show ?thesis
    proof (cases "scans = []")
      case True
      then show ?thesis using g \<open>fi_missed f + 1 < threshold\<close> by (simp add: covered_scans_def s status_of_def m)
    qed (rule rest)
  next
    case False
    then have "status_of ?db i = Some finding_status.REMEDIATED" using g by (simp add: status_of_def missed_once_def resolved_def)
    from resolved_stays [OF ok this] False show ?thesis by (simp add: covered_scans_def s)
  qed
qed simp

lemma upsert_keeps_triage:
  assumes "findings_ok db" "get_finding db i = Some f"
    "fi_status f \<in> {finding_status.FALSE_POSITIVE, finding_status.ACCEPTED_RISK}"
  shows "status_of (fst (upsert_observation u sha256 tenant org a obs source now scan unverified db)) i = Some (fi_status f)"
proof -
  let ?fp = "fingerprint u sha256 tenant (as_id a) source (fo_rule_id obs) (fo_location obs)"
  let ?db = "fst (upsert_observation u sha256 tenant org a obs source now scan unverified db)"
  have id: "fi_id f = i" using assms(2) by (simp add: get_finding_def find_Some_iff) auto
  show ?thesis
  proof (cases "find_fingerprint db tenant ?fp")
    case None
    then have "\<exists>w. findings ?db = findings db @ [w]"
      by (simp add: upsert_observation_def insert_observation_def Let_def)
    then show ?thesis using get_finding_new assms(2) by (auto simp: status_of_def)
  next
    case (Some h)
    have "findings ?db = map (\<lambda>x. if x = h then seen_again (intel db) obs now scan unverified x else x) (findings db)"
      using update_where_key [OF _ upsert_existing(1) [OF Some], of fi_id] assms(1)
      unfolding upsert_existing(2) [OF Some] by (auto simp: findings_ok_def finding_ids_def)
    from get_finding_map [OF this seen_again_fields(1)] show ?thesis
      using assms(2,3) by (auto simp: status_of_def seen_again_fields)
  qed
qed

lemma unobserved_keeps_triage:
  assumes "findings_ok db" "get_finding db i = Some f"
    "fi_status f \<in> {finding_status.FALSE_POSITIVE, finding_status.ACCEPTED_RISK}"
  shows "status_of (fst (resolve_unobserved tenant ids source cov observed threshold now scan db)) i = Some (fi_status f)"
proof -
  have "\<not> is_open f" using assms(3) by (auto simp: open_status)
  then show ?thesis using get_finding_resolve_unobserved assms(1,2) by (simp add: status_of_def findings_ok_def)
qed

lemma gone_keeps_triage:
  assumes "findings_ok db" "get_finding db i = Some f"
    "fi_status f \<in> {finding_status.FALSE_POSITIVE, finding_status.ACCEPTED_RISK}"
  shows "status_of (fst (resolve_for_inactive_asset j now scan db)) i = Some (fi_status f)"
proof -
  have "\<not> is_open f" using assms(3) by (auto simp: open_status)
  moreover have "distinct (finding_ids db)" using assms(1) by (simp add: findings_ok_def)
  ultimately show ?thesis
    using get_finding_map [OF findings_resolve_for_inactive] assms(2) by (simp add: status_of_def resolved_def)
qed

lemma snapshot_status: "fi_status f \<noteq> fi_status g \<Longrightarrow> fst (diff (snapshot f) (snapshot g)) \<noteq> []"
proof -
  assume ne: "fi_status f \<noteq> fi_status g"
  have "finding_status_value (fi_status f) \<noteq> finding_status_value (fi_status g)"
    using ne by (cases "fi_status f"; cases "fi_status g") simp_all
  then have "''status'' \<in> set (diff_keys (snapshot f) (snapshot g))" by (simp add: diff_keys_def snapshot_def dict_get_def)
  then show ?thesis by (auto simp: diff_def)
qed

lemma acceptance_effect:
  assumes "get_finding db i = Some f" "fi_status f \<noteq> finding_status.ACCEPTED_RISK"
    "update_finding sha256 ctx now i ch user can db = (db', Inr g)" "fi_status g = finding_status.ACCEPTED_RISK"
  shows "can \<and> \<not> no_text (ch_comment ch) \<and> fi_status f \<noteq> finding_status.REMEDIATED \<and>
    (\<exists>row. trail db' = trail db @ [row] \<and> row_action row = ''finding.risk_accepted'' \<and> row_object_id row = Some (uuid_str i))"
proof (cases "apply_status now user can ch f")
  case (Inl e)
  then show ?thesis using assms by (simp add: update_finding_def)
next
  case (Inr r)
  obtain f1 acts1 c where r: "r = (f1, acts1, c)" by (cases r)
  obtain h acts where u: "update_finding sha256 ctx now i ch user can db =
      (audit_update sha256 ctx now f h ((put_finding h db)\<lparr>activities := activities db @ acts1 @ acts\<rparr>), Inr h)"
    and h: "row_step f h" "fi_status h = fi_status f1"
    by (rule update_finding_form [OF assms(1) Inr [unfolded r]])
  have g: "h = g" and db': "db' = audit_update sha256 ctx now f g ((put_finding g db)\<lparr>activities := activities db @ acts1 @ acts\<rparr>)"
    using u assms(3) by auto
  have "fi_id f = i" using assms(1) by (auto simp: get_finding_def dest: find_Some_D)
  then have id: "fi_id g = i" using h(1) by (simp add: g row_step_def same_issue_def)
  have "check_transition can (ch_comment ch) (fi_status f) finding_status.ACCEPTED_RISK = None"
    using Inr assms(2,4) h(2) unfolding r g
    by (auto simp: apply_status_def set_status_def split: option.splits if_splits)
  then have "can \<and> \<not> no_text (ch_comment ch) \<and> fi_status f \<noteq> finding_status.REMEDIATED"
    by (auto simp: check_transition_def split: if_splits)
  moreover have "fst (diff (snapshot f) (snapshot g)) \<noteq> []" using snapshot_status assms(2,4) by force
  then have "\<exists>row. trail db' = trail db @ [row] \<and> row_action row = ''finding.risk_accepted'' \<and> row_object_id row = Some (uuid_str i)"
    using assms(2,4) id
    by (auto simp: db' audit_update_def put_finding_def record_entry_def new_entry_def Let_def audit_args_def split: prod.split)
  ultimately show ?thesis by blast
qed

subsection \<open>Correctness\<close>

text \<open>
  C28: the table of findings. In every state reached from a well formed one, an issue (tenant and
  fingerprint) has one row, identifiers are unique, a finding has a time of resolution exactly while it is
  remediated, is flagged a false positive exactly while it has that status, and an accepted risk
  has a justification by a user in its history.
\<close>

theorem findings_invariant:
  assumes "finding_run db db'" "findings_ok db"
  shows "distinct (map fi_id (findings db')) \<and> distinct (map (\<lambda>f. (fi_tenant f, fi_fingerprint f)) (findings db')) \<and>
    (\<forall>f \<in> set (findings db').
       (fi_resolved_at f \<noteq> None \<longleftrightarrow> fi_status f = finding_status.REMEDIATED) \<and>
       (fi_false_positive f \<longleftrightarrow> fi_status f = finding_status.FALSE_POSITIVE) \<and>
       (fi_status f = finding_status.ACCEPTED_RISK \<longrightarrow> justified (activities db') (fi_id f)))"
  using findings_ok_run [OF assms] by (simp add: findings_ok_def finding_ids_def finding_wf_def)

definition example_asset :: asset where
  "example_asset = \<lparr>as_id = 9, as_tenant = 3, as_org = 5, as_type = asset_type.SUBDOMAIN, as_value = ''a.example.com'',
     as_norm = ''a.example.com'', as_status = asset_status.ACTIVE, as_scope = scope_status.IN_SCOPE, as_first_seen = 0,
     as_last_seen = 0, as_discovered_at = 0, as_last_scanned_at = None, as_inactive_since = None, as_missed = 0,
     as_source = Some ''dns'', as_sources = [''dns''], as_method = None, as_confidence = 80, as_owner = None, as_business_unit = None, as_criticality = criticality.MEDIUM,
     as_approval = approval_status.UNVERIFIED, as_tags = [], as_notes = None, as_risk_score = 0, as_risk_level = risk_level.INFO,
     as_risk_factors = [], as_open_findings = 0, as_meta = []\<rparr>"

definition example_obs :: finding_obs where
  "example_obs = mk_finding_obs \<lparr>ref_type = observed_type.HOSTNAME, ref_value = ''a.example.com''\<rparr> ''cve-2024-1'' ''Issue''"

definition empty_inventory :: inventory where
  "empty_inventory = \<lparr>assets = [], relationships = [], observation_rows = [], findings = [], activities = [], asset_events = [],
     intel = [], trail = [], next_id = 10\<rparr>"

definition example_finding :: finding where
  "example_finding = new_finding 7 3 5 example_asset example_obs ''nuclei'' ''fp'' 0 None False"

definition example_inventory :: inventory where
  "example_inventory = empty_inventory\<lparr>assets := [example_asset], findings := [example_finding]\<rparr>"

lemmas example_defs = example_asset_def example_obs_def empty_inventory_def example_finding_def example_inventory_def

lemma example_ok: "findings_ok example_inventory"
  by (simp add: findings_ok_def example_defs finding_ids_def new_finding_def finding_wf_def)

lemma example_get: "get_finding example_inventory 7 = Some example_finding"
  by (simp add: get_finding_def example_defs new_finding_def)

theorem findings_invariant_witness:
  "finding_run example_inventory (fst (expire_risk_acceptance 3 0 example_inventory)) \<and>
   distinct (map fi_id (findings (fst (expire_risk_acceptance 3 0 example_inventory))))"
proof -
  have "finding_run example_inventory (fst (expire_risk_acceptance 3 0 example_inventory))"
    by (rule finding_run.more [OF finding_run.start finding_step.expired])
  then show ?thesis using findings_invariant [OF _ example_ok] by blast
qed

text \<open>
  C27: the code implements the lifecycle. Seen through the status of each finding, every operation of the
  service (an observation, a scan without it, its asset leaving, an edit, a comment, the end of a risk
  acceptance) is a step of the automaton of the allowed transitions: a finding is created as new,
  never deleted, and changes its status only along a transition an analyst could make.
\<close>

theorem lifecycle_refines:
  assumes "findings_ok db" "finding_step db db'"
  shows "spec_step (status_of db i) (status_of db' i)"
  using get_finding_step [OF assms(2,1), of i]
  by (cases "get_finding db' i") (auto simp: status_of_def row_step_def)

theorem lifecycle_refines_witness:
  "spec_step (status_of example_inventory 7) (status_of (fst (resolve_for_inactive_asset 9 0 None example_inventory)) 7)"
  by (rule lifecycle_refines [OF example_ok finding_step.asset_gone])

text \<open>
  scans respect triage. What an analyst marked as a false positive or accepted keeps that status
  through any observation, any scan that does not see it and the loss of its asset.
\<close>

theorem scans_respect_triage:
  assumes "findings_ok db" "get_finding db i = Some f"
    "fi_status f \<in> {finding_status.FALSE_POSITIVE, finding_status.ACCEPTED_RISK}"
  shows "status_of (fst (upsert_observation u sha256 tenant org a obs source now scan unverified db)) i = Some (fi_status f) \<and>
    status_of (fst (resolve_unobserved tenant ids source cov observed threshold now scan db)) i = Some (fi_status f) \<and>
    status_of (fst (resolve_for_inactive_asset j now scan db)) i = Some (fi_status f)"
  by (intro conjI upsert_keeps_triage [OF assms] unobserved_keeps_triage [OF assms] gone_keeps_triage [OF assms])

theorem scans_respect_triage_witness:
  "status_of (fst (resolve_for_inactive_asset 9 0 None
     (example_inventory\<lparr>findings := [example_finding\<lparr>fi_status := finding_status.FALSE_POSITIVE, fi_false_positive := True\<rparr>]\<rparr>))) 7 =
   Some finding_status.FALSE_POSITIVE"
proof -
  let ?f = "example_finding\<lparr>fi_status := finding_status.FALSE_POSITIVE, fi_false_positive := True\<rparr>"
  have "findings_ok (example_inventory\<lparr>findings := [?f]\<rparr>)"
    by (simp add: findings_ok_def example_defs finding_ids_def new_finding_def finding_wf_def)
  moreover have "get_finding (example_inventory\<lparr>findings := [?f]\<rparr>) 7 = Some ?f"
    by (simp add: get_finding_def example_defs new_finding_def)
  ultimately show ?thesis using scans_respect_triage [of "example_inventory\<lparr>findings := [?f]\<rparr>" 7 ?f] by simp
qed

text \<open>
  C29: what is gone is resolved, and not too early. An open finding that one scan after another covers
  without seeing it is resolved by exactly the scan that makes its count of misses reach the
  threshold; before that its status does not change.
\<close>

theorem resolved_after_misses:
  assumes "findings_ok db" "get_finding db i = Some f" "is_open f" "i \<notin> observed" "fi_tenant f = tenant" "fi_asset f \<in> ids"
    "fi_source f = source" "case cov of Some c \<Rightarrow> matches_filter f c | None \<Rightarrow> True" "scans \<noteq> []"
  shows "status_of (covered_scans tenant ids source cov observed threshold scans db) i =
    Some (if fi_missed f + int (length scans) < threshold then fi_status f else finding_status.REMEDIATED)"
  using assms by (rule covered_scans_status)

theorem resolved_after_misses_witness:
  "status_of (covered_scans 3 {9} ''nuclei'' None {} 2 [(100, None)] example_inventory) 7 = Some finding_status.NEW \<and>
   status_of (covered_scans 3 {9} ''nuclei'' None {} 2 [(100, None), (200, None)] example_inventory) 7 = Some finding_status.REMEDIATED"
proof -
  have "is_open example_finding" "fi_tenant example_finding = 3" "fi_asset example_finding = 9" "fi_source example_finding = ''nuclei''"
    "fi_missed example_finding = 0" "fi_status example_finding = finding_status.NEW"
    by (simp_all add: example_defs new_finding_def open_status)
  then show ?thesis
    using resolved_after_misses [OF example_ok example_get, of "{}" 3 "{9}" "''nuclei''" None "[(100, None)]" 2]
      resolved_after_misses [OF example_ok example_get, of "{}" 3 "{9}" "''nuclei''" None "[(100, None), (200, None)]" 2]
    by simp
qed

text \<open>
  C30: accepting a risk. A request that moves a finding to accepted risk succeeds only for a user who
  may accept risks and with a comment; it is written to the audit log as the acceptance of a risk.
\<close>

theorem risk_acceptance_guarded:
  assumes "get_finding db i = Some f" "fi_status f \<noteq> finding_status.ACCEPTED_RISK"
    "update_finding sha256 ctx now i ch user can db = (db', Inr g)" "fi_status g = finding_status.ACCEPTED_RISK"
  shows "can \<and> \<not> no_text (ch_comment ch) \<and> fi_status f \<noteq> finding_status.REMEDIATED \<and>
    (\<exists>row. trail db' = trail db @ [row] \<and> row_action row = ''finding.risk_accepted'' \<and> row_object_id row = Some (uuid_str i))"
  using assms by (rule acceptance_effect)

definition example_acceptance :: finding_changes where
  "example_acceptance = \<lparr>ch_status = Some finding_status.ACCEPTED_RISK, ch_assigned_to = None, ch_tags = None, ch_notes = None,
     ch_comment = Some ''legacy system'', ch_accepted_until = None\<rparr>"

theorem risk_acceptance_guarded_witness:
  "\<exists>db' g row. update_finding toy_hash no_context 0 7 example_acceptance 4 True example_inventory = (db', Inr g) \<and>
     fi_status g = finding_status.ACCEPTED_RISK \<and> trail db' = [row] \<and> row_action row = ''finding.risk_accepted''"
proof -
  have st: "fi_status example_finding = finding_status.NEW" by (simp add: example_defs new_finding_def)
  obtain db' g where u: "update_finding toy_hash no_context 0 7 example_acceptance 4 True example_inventory = (db', Inr g)"
    "fi_status g = finding_status.ACCEPTED_RISK"
    by (simp add: update_finding_def example_get apply_status_def st check_transition_def no_text_def apply_assignee_def
        apply_tags_def set_status_def example_acceptance_def Let_def)
  moreover have "trail example_inventory = []" by (simp add: example_defs)
  ultimately show ?thesis using risk_acceptance_guarded [OF example_get _ u] st by auto
qed

end
