(* ===== verification/IngestSafety.thy ===== *)
theory IngestSafety
  imports Cascade Lifecycle
begin

text \<open>
  What ingestion may do to the inventory. A run is a sequence of primitive changes of the database,
  and a relation between databases that each of them respects is respected by the whole run. The locale
  states the laws; its interpretations are the history of assets and the lifecycle of findings.
\<close>

subsection \<open>Primitive changes\<close>

definition ids_ok :: "inventory \<Rightarrow> bool" where
  "ids_ok db \<longleftrightarrow> distinct (map as_id (assets db)) \<and> (\<forall>a \<in> set (assets db). as_id a < next_id db)"

inductive row_update :: "ingest_context \<Rightarrow> asset \<Rightarrow> asset \<Rightarrow> bool" for cx where
  referenced: "row_update cx x (rescope s x)"
| merged: "ix_historical cx \<Longrightarrow> row_update cx x (rescope s (merge_sighting cx a x))"
| refreshed: "\<not> ix_historical cx \<Longrightarrow> row_update cx x (rescope s (refresh_asset cx c (merge_sighting cx a x)))"
| scanned: "row_update cx x (x\<lparr>as_last_scanned_at := Some (ix_now cx)\<rparr>)"
| inactive: "row_update cx x (x\<lparr>as_status := asset_status.INACTIVE, as_inactive_since := Some (ix_now cx)\<rparr>)"
| missed_once_more: "row_update cx x (x\<lparr>as_missed := as_missed x + 1\<rparr>)"

text \<open>The steps of findings that a scan takes.\<close>

inductive scan_step :: "inventory \<Rightarrow> inventory \<Rightarrow> bool" where
  seen: "scan_step db (fst (upsert_observation u sha256 tenant org a obs source now scan unverified db))"
| missing: "scan_step db (fst (resolve_unobserved tenant ids source cov observed threshold now scan db))"
| gone: "scan_step db (fst (resolve_for_inactive_asset i now scan db))"

lemma scan_step_finding: "scan_step db db' \<Longrightarrow> finding_step db db'"
  by (induction rule: scan_step.induct) (rule finding_step.intros)+

lemma scan_step_triage:
  assumes "scan_step db db'" "findings_ok db" "get_finding db i = Some f"
    "fi_status f \<in> {finding_status.FALSE_POSITIVE, finding_status.ACCEPTED_RISK}"
  shows "status_of db' i = Some (fi_status f)"
  using assms by (induction rule: scan_step.induct) (rule upsert_keeps_triage unobserved_keeps_triage gone_keeps_triage; assumption)+

definition frame :: "inventory \<Rightarrow> inventory \<Rightarrow> bool" where
  "frame db db' \<longleftrightarrow> assets db' = assets db \<and> findings db' = findings db \<and> activities db' = activities db \<and> next_id db \<le> next_id db'"

lemma rescope_id [simp]: "as_id (rescope s x) = as_id x"
  by (simp add: rescope_def)

lemma merge_id [simp]: "as_id (merge_sighting cx a x) = as_id x"
  by (simp add: merge_sighting_def)

lemma refresh_id [simp]: "as_id (refresh_asset cx c x) = as_id x"
  by (simp add: refresh_asset_def)

lemma row_update_id: "row_update cx x z \<Longrightarrow> as_id z = as_id x"
  by (induction rule: row_update.induct) simp_all

lemma frame_refl [simp]: "frame db db"
  by (simp add: frame_def)

lemma frame_trans: "frame a b \<Longrightarrow> frame b c \<Longrightarrow> frame a c"
  by (auto simp: frame_def)

lemma frame_edits [simp]:
  "frame db (add_event e db') \<longleftrightarrow> frame db db'" "frame db (put_rel r db') \<longleftrightarrow> frame db db'" "frame db (set_rel i f db') \<longleftrightarrow> frame db db'"
  "frame db (db'\<lparr>observation_rows := os\<rparr>) \<longleftrightarrow> frame db db'"
  by (simp_all add: frame_def add_event_def put_rel_def set_rel_def)

lemma frame_add_rel [simp]: "frame db db' \<Longrightarrow> frame db (add_rel r db')"
  by (simp add: frame_def add_rel_def)

lemma frame_emit [simp]: "frame db (ig_db (emit cx a f d st)) \<longleftrightarrow> frame db (ig_db st)"
  by (simp add: emit_def Let_def)

lemma frame_fold: "(\<And>x st. frame (ig_db st) (ig_db (f x st))) \<Longrightarrow> frame (ig_db st) (ig_db (fold f xs st))"
  by (induction xs arbitrary: st) (auto intro: frame_trans)

lemma frame_ids: "frame db db' \<Longrightarrow> ids_ok db \<Longrightarrow> ids_ok db'"
  by (auto simp: frame_def ids_ok_def)

lemma map_put_asset: "map as_id (assets (put_asset b db)) = map as_id (assets db)"
  by (simp add: put_asset_def update_where_def)

lemma ids_ok_keys: "ids_ok db \<longleftrightarrow> distinct (map as_id (assets db)) \<and> (\<forall>i \<in> set (map as_id (assets db)). i < next_id db)"
  by (simp add: ids_ok_def)

lemma ids_put_asset: "ids_ok db \<Longrightarrow> ids_ok (put_asset b db)"
  unfolding ids_ok_keys map_put_asset by (simp add: put_asset_def)

lemma ids_add_asset: "ids_ok db \<Longrightarrow> as_id a = next_id db \<Longrightarrow> ids_ok (add_asset a db)"
  by (auto simp: ids_ok_def add_asset_def)

lemma get_add_asset: "ids_ok db \<Longrightarrow> as_id a = next_id db \<Longrightarrow> get_asset (add_asset a db) (as_id a) = Some a"
proof -
  assume ok: "ids_ok db" and id: "as_id a = next_id db"
  have "find (\<lambda>x. as_id x = as_id a) (assets db) = None" using ok id by (auto simp: ids_ok_def find_None_iff)
  then show ?thesis by (simp add: add_asset_def get_asset_def find_append)
qed

text \<open>Deciding what belongs to the organization does not touch the database.\<close>

lemma ig_db_status [simp]:
  "ig_db (load cx ks st) = ig_db st" "ig_db (own_status cx k st) = ig_db st" "ig_db (derive_status cx r st) = ig_db st"
  "ig_db (inherit_status cx k st) = ig_db st" "ig_db (drop_noise rels k st) = ig_db st"
  by (simp_all add: load_def own_status_def derive_status_def inherit_status_def drop_noise_def Let_def split: prod.split option.split)

lemma ig_db_fold: "(\<And>x st. ig_db (f x st) = ig_db st) \<Longrightarrow> ig_db (fold f xs st) = ig_db st"
  by (induction xs arbitrary: st) simp_all

lemma ig_db_fold_pair: "(\<And>x acc. ig_db (fst (f x acc)) = ig_db (fst acc)) \<Longrightarrow> ig_db (fst (fold f xs acc)) = ig_db (fst acc)"
  by (induction xs arbitrary: acc) simp_all

lemma ig_db_attach [simp]: "ig_db (fst (attach rels k acc)) = ig_db (fst acc)"
  by (simp add: attach_def split: prod.split)

lemma ig_db_attach_rounds [simp]: "ig_db (attach_rounds n rels ks st) = ig_db st"
proof (induction n arbitrary: st)
  case (Suc n)
  then show ?case using ig_db_fold_pair [of "attach rels" ks "(st, False)"] by (simp add: case_prod_unfold)
qed simp

lemma ig_db_compute_statuses [simp]: "ig_db (compute_statuses cx ks rels st) = ig_db st"
  by (simp add: compute_statuses_def ig_db_fold)

lemma ig_db_collect_obs [simp]: "ig_db (fst (collect_obs cx obs acc)) = ig_db (fst acc)"
  by (simp add: collect_obs_def Let_def case_prod_unfold split: observation.split option.split)

lemma ig_db_find_hostname [simp]: "ig_db (fst (find_hostname cx v st)) = ig_db st"
  by (simp add: find_hostname_def split: list.split option.split)

lemma ig_db_structural_relation [simp]: "ig_db (fst (structural_relation cx k acc)) = ig_db (fst acc)"
  by (simp add: structural_relation_def case_prod_unfold split: option.split)

lemma ig_db_load_ref [simp]: "ig_db (fst (load_ref cx r acc)) = ig_db (fst acc)"
  by (simp add: load_ref_def Let_def split: prod.split option.split)

subsection \<open>Relations between databases\<close>

text \<open>
  \<open>carries\<close>: a step keeps the identifiers of assets in order and respects the relation; \<open>yields\<close>: so does
  a step that may raise, when it returns.
\<close>

definition carries :: "(inventory \<Rightarrow> inventory \<Rightarrow> bool) \<Rightarrow> ingestor \<Rightarrow> ingestor \<Rightarrow> bool" where
  "carries T st st' \<longleftrightarrow> (ids_ok (ig_db st) \<longrightarrow> ids_ok (ig_db st') \<and> T (ig_db st) (ig_db st'))"

definition yields :: "(inventory \<Rightarrow> inventory \<Rightarrow> bool) \<Rightarrow> ingestor \<Rightarrow> ingestor option \<Rightarrow> bool" where
  "yields T st r \<longleftrightarrow> (\<forall>st'. r = Some st' \<longrightarrow> carries T st st')"

locale ingest_relation =
  fixes cx :: ingest_context and T :: "inventory \<Rightarrow> inventory \<Rightarrow> bool"
  assumes T_trans: "T db db' \<Longrightarrow> T db' db'' \<Longrightarrow> T db db''"
    and T_frame: "frame db db' \<Longrightarrow> T db db'"
    and T_put: "ids_ok db \<Longrightarrow> get_asset db (as_id x) = Some x \<Longrightarrow> row_update cx x z \<Longrightarrow> T db (put_asset z db)"
    and T_new: "ids_ok db \<Longrightarrow> T db (add_asset (new_asset_row cx (next_id db) k s attrs confidence) db)"
    and T_finding: "scan_step db db' \<Longrightarrow> assets db' = assets db \<Longrightarrow> T db db'"
begin

lemma carries_refl [simp]: "carries T st st"
  by (simp add: carries_def T_frame)

lemma carries_trans [trans]: "carries T a b \<Longrightarrow> carries T b c \<Longrightarrow> carries T a c"
  by (auto simp: carries_def intro: T_trans)

lemma carries_frame: "frame (ig_db st) (ig_db st') \<Longrightarrow> carries T st st'"
  by (auto simp: carries_def intro: T_frame frame_ids)

lemma carries_same: "ig_db st' = ig_db st \<Longrightarrow> carries T st st'"
  by (rule carries_frame) simp

lemma carries_put:
  "get_asset (ig_db st) (as_id x) = Some x \<Longrightarrow> row_update cx x z \<Longrightarrow> ig_db st' = put_asset z (ig_db st) \<Longrightarrow> carries T st st'"
  by (auto simp: carries_def intro: T_put ids_put_asset)

lemma carries_finding:
  assumes "scan_step (ig_db st) (ig_db st')" "assets (ig_db st') = assets (ig_db st)"
  shows "carries T st st'"
  using grows_step [OF scan_step_finding [OF assms(1)]] assms T_finding by (auto simp: carries_def ids_ok_def grows_def)

lemma carries_fold: "(\<And>x st. carries T st (f x st)) \<Longrightarrow> carries T st (fold f xs st)"
  by (induction xs arbitrary: st) (auto intro: carries_trans)

lemma carries_fold_pair: "(\<And>x acc. carries T (fst acc) (fst (f x acc))) \<Longrightarrow> carries T (fst acc) (fst (fold f xs acc))"
proof (induction xs arbitrary: acc)
  case (Cons x xs)
  show ?case using carries_trans [OF Cons.prems [of acc x] Cons.IH [OF Cons.prems, of "f x acc"]] by simp
qed simp

lemma yields_Some [simp]: "yields T st (Some st') \<longleftrightarrow> carries T st st'"
  by (simp add: yields_def)

lemma yields_None [simp]: "yields T st None"
  by (simp add: yields_def)

lemma yields_bind:
  "yields T st r \<Longrightarrow> (\<And>s. r = Some s \<Longrightarrow> yields T s (f s)) \<Longrightarrow> yields T st (r \<bind> f)"
  by (cases r) (auto simp: yields_def intro: carries_trans)

lemma yields_pure: "(\<And>x. r = Some x \<Longrightarrow> yields T st (f x)) \<Longrightarrow> yields T st (r \<bind> f)"
  by (cases r) simp_all

lemma yields_after: "carries T st st1 \<Longrightarrow> yields T st1 r \<Longrightarrow> yields T st r"
  by (auto simp: yields_def intro: carries_trans)

lemma yields_for_each: "(\<And>x st. yields T st (f x st)) \<Longrightarrow> yields T st (for_each f xs st)"
  by (induction xs arbitrary: st) (auto intro: yields_bind)

lemma for_each_carries: "for_each f xs st = Some st' \<Longrightarrow> (\<And>x st. yields T st (f x st)) \<Longrightarrow> carries T st st'"
  using yields_for_each [of f st xs] by (simp add: yields_def)

subsubsection \<open>Operations\<close>

lemma carries_emit: "carries T st (emit cx' a f d st)"
  by (rule carries_frame) simp

lemma carries_mapdb: "frame (ig_db st) (f (ig_db st)) \<Longrightarrow> carries T st (mapdb f st)"
  by (rule carries_frame) simp

lemma create_asset_row:
  assumes "create_asset cx k s a c st = Some (st1, row)" "ids_ok (ig_db st)"
  shows "carries T st st1 \<and> get_asset (ig_db st1) (as_id row) = Some row"
proof -
  let ?row = "new_asset_row cx (next_id (ig_db st)) k s a c"
  let ?db = "add_asset ?row (ig_db st)"
  have id: "as_id ?row = next_id (ig_db st)" by (simp add: new_asset_row_def)
  have row: "row = ?row" using assms(1) by (auto simp: create_asset_def Let_def split: Option.bind_splits option.splits)
  have fr: "frame ?db (ig_db st1)"
    using assms(1) by (auto simp: create_asset_def Let_def emit_def split: Option.bind_splits option.splits)
  have "get_asset (ig_db st1) (as_id row) = Some row"
    using get_add_asset [OF assms(2) id] fr row get_asset_eq [of "ig_db st1" ?db] by (simp add: frame_def)
  moreover have "T (ig_db st) (ig_db st1)" using T_trans [OF T_new [OF assms(2)] T_frame [OF fr]] .
  moreover have "ids_ok (ig_db st1)" using frame_ids [OF fr ids_add_asset [OF assms(2) id]] .
  ultimately show ?thesis by (simp add: carries_def)
qed

lemma sight_asset_row:
  assumes "sight_asset cx a c x st = Some (st1, y)"
  shows "frame (ig_db st) (ig_db st1) \<and> row_update cx x (rescope s y)"
proof -
  have e: "frame (ig_db st) (ig_db (fold (emit cx (Some x) None) ds st))" for ds by (rule frame_fold) simp
  show ?thesis
    using assms e by (auto simp: sight_asset_def Let_def row_update.intros split: if_splits Option.bind_splits)
qed

lemma update_asset_row:
  assumes "update_asset cx s a c observed x st = Some (st1, row)" "get_asset (ig_db st) (as_id x) = Some x"
  shows "carries T st st1 \<and> get_asset (ig_db st1) (as_id row) = Some row"
proof -
  obtain st0 y where y: "st1 = mapdb (put_asset row) st0" "row = rescope s y" "frame (ig_db st) (ig_db st0)" "row_update cx x row"
    using assms(1) sight_asset_row [of a c x st _ _ s]
    by (auto simp: update_asset_def Let_def row_update.referenced split: if_splits Option.bind_splits)
  have g: "get_asset (ig_db st0) (as_id x) = Some x"
    using assms(2) y(3) get_asset_eq [of "ig_db st0" "ig_db st"] by (simp add: frame_def)
  have "carries T st0 st1" by (rule carries_put [OF g y(4)]) (simp add: y(1))
  then show ?thesis using carries_trans [OF carries_frame [OF y(3)]] g row_update_id [OF y(4)] y(1)
    by (simp add: get_put_asset)
qed

lemma asset_at_row: "asset_at st k = Some x \<Longrightarrow> get_asset (ig_db st) (as_id x) = Some x"
  by (auto simp: asset_at_def dest: get_asset_id split: Option.bind_splits)

lemma yields_apply_asset: "yields T st (apply_asset cx k a c observed st)"
proof (cases "status_at st k")
  case (Some s)
  let ?r = "case asset_at st k of None \<Rightarrow> create_asset cx k s (enrich (fst k) a) c st
    | Some x \<Rightarrow> update_asset cx s (enrich (fst k) a) c observed x st"
  have "carries T st st'" if h: "apply_asset cx k a c observed st = Some st'" and ok: "ids_ok (ig_db st)" for st'
  proof -
    obtain st1 row where row: "?r = Some (st1, row)" and
      st': "ig_db st' = ig_db st1 \<or> ig_db st' = put_asset (row\<lparr>as_last_scanned_at := Some (ix_now cx)\<rparr>) (ig_db st1)"
      using h Some by (auto simp: apply_asset_def Let_def split: Option.bind_splits if_splits)
    from row have r: "carries T st st1 \<and> get_asset (ig_db st1) (as_id row) = Some row"
      using create_asset_row [OF _ ok] update_asset_row [OF _ asset_at_row] by (auto split: option.splits)
    then show ?thesis using st' carries_put [OF _ row_update.scanned] carries_same carries_trans by blast
  qed
  then show ?thesis by (auto simp: yields_def carries_def)
qed (simp add: apply_asset_def)

lemma carries_emit_changes: "carries T st (emit_changes cx a chs st)"
  unfolding emit_changes_def by (rule carries_fold) (auto intro!: carries_frame)

lemma carries_resolve_inactive: "carries T st (resolve_inactive cx a st)"
proof -
  let ?r = "resolve_for_inactive_asset (as_id a) (ix_now cx) (ix_scan cx) (ig_db st)"
  have "carries T st (st\<lparr>ig_db := fst ?r\<rparr>)" by (rule carries_finding) (simp_all add: scan_step.gone)
  then show ?thesis unfolding resolve_inactive_def
    using carries_trans carries_emit_changes by (simp add: case_prod_unfold)
qed

lemma yields_deactivate_self:
  assumes "get_asset (ig_db st) (as_id a) = Some a"
  shows "yields T st (deactivate_self cx emits a st)"
proof -
  have m: "carries T st (mark_inactive cx a st)"
    by (rule carries_put [OF assms row_update.inactive]) (simp add: mark_inactive_def)
  have "carries T st (emit cx b None d (mark_inactive cx a st))" for b d by (rule carries_trans [OF m carries_emit])
  then show ?thesis using m unfolding deactivate_self_def Let_def
    by (intro yields_bind) (auto simp: carries_resolve_inactive yields_def)
qed

lemma yields_deactivate_child:
  assumes "\<And>c st. yields T st (rec c st)"
  shows "yields T st (deactivate_child rec i rc st)"
proof -
  let ?st = "mapdb (set_rel (fst rc) (\<lambda>x. x\<lparr>rl_active := False\<rparr>)) st"
  have m: "carries T st ?st" by (rule carries_mapdb) simp
  have "deactivate_child rec i rc st = Some ?st \<or> deactivate_child rec i rc st = rec (snd rc) ?st"
    by (auto simp: deactivate_child_def Let_def split: prod.splits option.splits)
  then show ?thesis using m yields_after [OF m assms] by auto
qed

lemma yields_deactivate: "yields T st (deactivate n cx emits i st)"
proof (induction n arbitrary: emits i st)
  case (Suc n)
  have owned: "yields T st (deactivate_owned (deactivate n cx False) j rt st)" for j rt st
    unfolding deactivate_owned_def by (intro yields_for_each yields_deactivate_child Suc.IH)
  show ?case
  proof (cases "get_asset (ig_db st) i")
    case (Some a)
    then have "yields T st (deactivate_self cx emits a st)" using yields_deactivate_self get_asset_id [OF Some] by simp
    then show ?thesis using Some owned by (auto intro!: yields_bind yields_for_each)
  qed simp
qed simp

lemma yields_missed: "yields T st (missed cx i st)"
proof (cases "get_asset (ig_db st) i")
  case (Some a)
  let ?st = "bump ''missed'' (mapdb (put_asset (a\<lparr>as_missed := as_missed a + 1\<rparr>)) st)"
  have m: "carries T st ?st"
    by (rule carries_put [OF _ row_update.missed_once_more]) (use Some get_asset_id [OF Some] in simp_all)
  have "yields T st (deactivate n cx True i ?st)" for n by (rule yields_after [OF m yields_deactivate])
  then show ?thesis using Some m by (auto simp: missed_def Let_def split: Option.bind_split)
qed (simp add: missed_def)

subsubsection \<open>Relations and coverage\<close>

lemma frame_upsert_rel: "frame (ig_db st) (ig_db (upsert_rel cx r st))"
proof -
  have u: "frame db (ig_db st) \<Longrightarrow> frame db (ig_db (update_rel cx src dst a row st))" for db src dst a row st
    by (simp add: update_rel_def Let_def)
  have c: "frame (ig_db st) (ig_db (replace_cert cx src dst row st))" for src dst row st
    by (simp add: replace_cert_def Let_def split: option.split)
  have "frame db (ig_db st) \<Longrightarrow> frame db (ig_db (create_rel cx src rel dst a st))" for db src rel dst a st
    using frame_trans [OF _ frame_fold [where f = "replace_cert cx src dst", OF c]] by (simp add: create_rel_def Let_def)
  then show ?thesis using u by (simp add: upsert_rel_def Let_def split: prod.split option.split)
qed

lemma carries_upsert_relations: "carries T st (upsert_relations cx rels st)"
  unfolding upsert_relations_def by (rule carries_fold, rule carries_frame, rule frame_upsert_rel)

lemma yields_drop_rel: "yields T st (drop_rel cx parent child r st)"
proof -
  let ?st = "mapdb (set_rel (rl_id r) (\<lambda>x. x\<lparr>rl_active := False\<rparr>)) st"
  have m: "carries T st ?st" by (rule carries_mapdb) simp
  show ?thesis unfolding drop_rel_def Let_def
    using m yields_after [OF m yields_deactivate] carries_trans [OF m carries_emit] by auto
qed

lemma yields_miss_rel: "yields T st (miss_rel cx constraints threshold i st)"
proof -
  have m: "carries T st (mapdb (set_rel i f) st)" for f by (rule carries_mapdb) simp
  note steps = m yields_after [OF m yields_drop_rel] yields_after [OF m yields_missed]
  show ?thesis unfolding miss_rel_def Let_def
    by (auto simp: steps yields_missed split: option.split intro!: yields_pure [where r = "port_covered cx constraints p c" for p c]
      yields_bind [where r = "drop_rel cx p c r s" for p c r s])
qed

lemma carries_scanned_now: "carries T st (scanned_now cx i st)"
proof (cases "get_asset (ig_db st) i")
  case None
  then have "update_where (\<lambda>a. as_id a = i) f (assets (ig_db st)) = assets (ig_db st)" for f
    by (auto simp: get_asset_def find_None_iff update_where_def intro: map_idI)
  then show ?thesis by (intro carries_same) (simp add: scanned_now_def)
next
  case (Some a)
  then have a: "a \<in> set (assets (ig_db st))" "as_id a = i" by (auto simp: get_asset_def find_Some_iff)
  have "ig_db (scanned_now cx i st) = put_asset (a\<lparr>as_last_scanned_at := Some (ix_now cx)\<rparr>) (ig_db st)" if "ids_ok (ig_db st)"
  proof -
    have "update_where (\<lambda>x. as_id x = i) (\<lambda>x. x\<lparr>as_last_scanned_at := Some (ix_now cx)\<rparr>) (assets (ig_db st)) =
      update_where (\<lambda>x. as_id x = i) (\<lambda>_. a\<lparr>as_last_scanned_at := Some (ix_now cx)\<rparr>) (assets (ig_db st))"
      using that a by (auto simp: ids_ok_def update_where_def distinct_map inj_on_def)
    then show ?thesis by (simp add: scanned_now_def put_asset_def a(2))
  qed
  moreover have "get_asset (ig_db st) (as_id a) = Some a" using Some a by simp
  ultimately show ?thesis using T_put [OF _ _ row_update.scanned] ids_put_asset by (auto simp: carries_def)
qed

lemma yields_relation_coverage: "yields T st (apply_relation_coverage cx cov st)"
proof -
  have "yields T st (for_each (\<lambda>ids st. for_each (miss_rel cx constraints threshold) (covered_rels cov ids (ig_db st)) st) xs
      (fold (scanned_now cx) parents st))" for constraints threshold xs parents
    by (rule yields_after [OF carries_fold [where f = "scanned_now cx" and xs = parents, OF carries_scanned_now]])
      (intro yields_for_each yields_miss_rel)
  then show ?thesis unfolding apply_relation_coverage_def by (intro yields_pure) (simp add: yields_pure)
qed

lemma yields_liveness: "yields T st (apply_liveness cx cov st)"
proof -
  have "yields T st (missed cx i (scanned_now cx i st))" for i st by (rule yields_after [OF carries_scanned_now yields_missed])
  then show ?thesis unfolding apply_liveness_def by (intro yields_pure yields_for_each)
qed

lemma carries_structural: "carries T st (fst (structural_relations cx ks st))"
  unfolding structural_relations_def using carries_same ig_db_fold_pair [of "structural_relation cx" ks "(st, [])"] by simp

lemma yields_finding_coverage: "yields T st (apply_finding_coverage cx cov observed st)"
proof -
  let ?l = "fold (load_ref cx) (fc_assets cov) (st, [])"
  let ?r = "\<lambda>threshold. resolve_unobserved (ix_tenant cx) (set (snd ?l)) (ix_source cx) (Some cov) (set observed) threshold (ix_now cx)
    (ix_scan cx) (ig_db (fst ?l))"
  let ?e = "\<lambda>(f, d) st. emit cx (get_asset (ig_db st) (fi_asset f)) (Some (fi_id f)) d (bump ''resolved_findings'' st)"
  have db: "ig_db (fst ?l) = ig_db st" using ig_db_fold_pair [of "load_ref cx" "fc_assets cov" "(st, [])"] by simp
  have "carries T st ((fst ?l)\<lparr>ig_db := fst (?r t)\<rparr>)" for t
    by (rule carries_finding) (simp_all add: db scan_step.missing)
  moreover have "carries T s (fold ?e chs s)" for s chs
    by (rule carries_fold) (auto intro: carries_frame)
  ultimately have "carries T st (fold ?e chs ((fst ?l)\<lparr>ig_db := fst (?r t)\<rparr>))" for t chs by (rule carries_trans)
  then show ?thesis unfolding apply_finding_coverage_def Let_def case_prod_unfold by (intro yields_pure) simp
qed

lemma yields_coverage: "yields T st (apply_coverage cx seen c st)"
  by (cases c) (simp_all add: yields_liveness yields_relation_coverage yields_finding_coverage)

lemma carries_ingest_finding: "carries T (fst acc) (fst (ingest_finding cx kf acc))"
proof -
  obtain k fo st seen where kf: "kf = (k, fo)" "acc = (st, seen)" by (cases kf; cases acc)
  show ?thesis
  proof (cases "asset_at st k")
    case (Some a)
    let ?r = "upsert_observation (ix_unicode cx) (ix_sha256 cx) (ix_tenant cx) (ix_org cx) a fo (ix_source cx) (ix_now cx)
      (ix_scan cx) (ix_historical cx \<or> ''unverified'' \<in> set (fo_tags fo)) (ig_db st)"
    have "carries T st (st\<lparr>ig_db := fst ?r\<rparr>)" by (rule carries_finding) (simp_all add: scan_step.seen)
    moreover have "carries T (st\<lparr>ig_db := fst ?r\<rparr>) st'" if "frame (fst ?r) (ig_db st')" for st'
      by (rule carries_frame) (simp add: that)
    ultimately have "carries T st st'" if "frame (fst ?r) (ig_db st')" for st' using that carries_trans by blast
    then show ?thesis using Some by (auto simp: ingest_finding_def kf case_prod_unfold Let_def split: option.split)
  qed (simp add: ingest_finding_def kf)
qed

lemma carries_record_observation: "carries T st (record_observation cx ka st)"
  by (rule carries_frame) (simp add: record_observation_def split: prod.split option.split)

lemma carries_cloud_relation:
  assumes "cloud_relation cx c acc = Some acc'"
  shows "carries T (fst acc) (fst acc')"
proof -
  have *: "carries T st st1" if "apply_asset cx k a conf obs (load cx ks (put_status k' s st)) = Some st1" for st st1 k a conf obs ks k' s
    using yields_apply_asset [of "load cx ks (put_status k' s st)" k a conf obs] that
    by (simp add: yields_def carries_def)
  then show ?thesis using assms
    by (auto simp: cloud_relation_def Let_def split: prod.splits option.splits if_splits Option.bind_splits)
qed

lemma carries_cloud_relations:
  assumes "for_each (cloud_relation cx) cs acc = Some acc'"
  shows "carries T (fst acc) (fst acc')"
  using assms
proof (induction cs arbitrary: acc)
  case (Cons c cs)
  then obtain acc1 where "cloud_relation cx c acc = Some acc1" "for_each (cloud_relation cx) cs acc1 = Some acc'"
    by (cases "cloud_relation cx c acc") auto
  then show ?case using carries_trans [OF carries_cloud_relation Cons.IH] by blast
qed simp

lemma yields_apply_key: "yields T st (apply_key cx co k st)"
  by (simp add: apply_key_def case_prod_unfold yields_apply_asset)

theorem ingest_carries:
  assumes "ingest cx result db = Some st" "ids_ok db"
  shows "ids_ok (ig_db st) \<and> T db (ig_db st)"
proof -
  let ?c = "fold (collect_obs cx) (res_observations result) (mk_ingestor db, \<lparr>co_assets = [], co_rels = [], co_findings = [], co_keys = []\<rparr>)"
  let ?co = "snd ?c" and ?ks = "co_keys (snd ?c)"
  let ?st1 = "compute_statuses cx ?ks (co_rels ?co) (load cx (?ks @ implied_hosts ?ks) (fst ?c))"
  have db: "ig_db ?st1 = db" using ig_db_fold_pair [of "collect_obs cx"] by (simp add: mk_ingestor_def)
  obtain st2 st4 clouds st7 where
    st2: "for_each (apply_key cx ?co) (sort_key (\<lambda>k. type_index (fst k)) ?ks) ?st1 = Some st2" and
    st4: "cloud_relations cx (co_rels ?co) ?ks (fst (structural_relations cx ?ks st2)) = Some (st4, clouds)" and
    st7: "for_each (apply_coverage cx (snd (fold (ingest_finding cx) (co_findings ?co)
        (upsert_relations cx (co_rels ?co @ snd (structural_relations cx ?ks st2) @ clouds) st4, [])))) (res_coverage result)
      (fst (fold (ingest_finding cx) (co_findings ?co)
        (upsert_relations cx (co_rels ?co @ snd (structural_relations cx ?ks st2) @ clouds) st4, []))) = Some st7" and
    st: "st = fold (record_observation cx) (co_assets ?co) st7"
    using assms(1) by (auto simp: ingest_def Let_def case_prod_unfold split: Option.bind_splits)
  let ?st5 = "upsert_relations cx (co_rels ?co @ snd (structural_relations cx ?ks st2) @ clouds) st4"
  have "carries T ?st1 st2"
    by (rule for_each_carries [OF st2 yields_apply_key])
  also have "carries T \<dots> (fst (structural_relations cx ?ks st2))" by (rule carries_structural)
  also have "carries T \<dots> st4" using carries_cloud_relations [OF st4 [unfolded cloud_relations_def]] by simp
  also have "carries T \<dots> ?st5" by (rule carries_upsert_relations)
  also have "carries T \<dots> (fst (fold (ingest_finding cx) (co_findings ?co) (?st5, [])))"
    using carries_fold_pair [of "ingest_finding cx" "(?st5, [])", OF carries_ingest_finding] by simp
  also have "carries T \<dots> st7"
    by (rule for_each_carries [OF st7 yields_coverage])
  also have "carries T \<dots> st" unfolding st by (rule carries_fold [OF carries_record_observation])
  finally show ?thesis using assms(2) by (simp only: carries_def db)
qed

end

subsection \<open>The history of assets\<close>

text \<open>
  A source only changes the evidence about an asset: everything a person decides about it and its identity stay.
  A historical source does not even change when it was last seen, nor revives it.
\<close>

definition evidence_of :: "asset \<Rightarrow> asset \<Rightarrow> asset" where
  "evidence_of b a = a\<lparr>as_meta := as_meta b, as_sources := as_sources b, as_scope := as_scope b, as_status := as_status b,
     as_last_seen := as_last_seen b, as_last_scanned_at := as_last_scanned_at b, as_inactive_since := as_inactive_since b,
     as_missed := as_missed b, as_confidence := as_confidence b\<rparr>"

definition same_asset :: "ingest_context \<Rightarrow> asset \<Rightarrow> asset \<Rightarrow> bool" where
  "same_asset cx a b \<longleftrightarrow> b = evidence_of b a \<and> as_confidence a \<le> as_confidence b \<and> fst ` set (as_meta a) \<subseteq> fst ` set (as_meta b) \<and>
     (ix_historical cx \<longrightarrow> as_last_seen b = as_last_seen a \<and> as_confidence b = as_confidence a \<and>
        (as_status a = asset_status.INACTIVE \<longrightarrow> as_status b = asset_status.INACTIVE))"

definition new_asset_ok :: "ingest_context \<Rightarrow> nat \<Rightarrow> asset \<Rightarrow> bool" where
  "new_asset_ok cx n w \<longleftrightarrow> n \<le> as_id w \<and> as_tenant w = ix_tenant cx \<and> as_org w = ix_org cx \<and> as_first_seen w = ix_now cx"

definition history :: "ingest_context \<Rightarrow> inventory \<Rightarrow> inventory \<Rightarrow> bool" where
  "history cx db db' \<longleftrightarrow> next_id db \<le> next_id db' \<and>
     (\<exists>zs ws. assets db' = zs @ ws \<and> list_all2 (same_asset cx) (assets db) zs \<and> list_all (new_asset_ok cx (next_id db)) ws)"

lemma same_asset_refl [simp]: "same_asset cx a a"
  by (simp add: same_asset_def evidence_of_def)

lemma same_asset_trans:
  assumes "same_asset cx a b" "same_asset cx b c"
  shows "same_asset cx a c"
proof -
  have b: "b = evidence_of b a" and c: "c = evidence_of c b" using assms by (auto simp: same_asset_def)
  have "evidence_of c (evidence_of b a) = evidence_of c a" by (simp add: evidence_of_def)
  then have "c = evidence_of c a" using b c by metis
  then show ?thesis using assms by (auto simp: same_asset_def)
qed

lemma dict_update_keys: "fst ` set d \<subseteq> fst ` set (dict_update d e)"
  unfolding dict_update_def
proof (induction e arbitrary: d)
  case (Cons kv e)
  then show ?case using dict_set_keys [of d "fst kv" "snd kv"] by (simp add: case_prod_unfold) blast
qed simp

lemma row_update_same: "row_update cx x z \<Longrightarrow> same_asset cx x z"
proof (induction rule: row_update.induct)
  case (refreshed x s c a)
  then show ?case using dict_update_keys [of "as_meta x" a]
    by (simp add: same_asset_def evidence_of_def rescope_def refresh_asset_def merge_sighting_def Let_def)
next
  case (merged x s a)
  then show ?case using dict_update_keys [of "as_meta x" a]
    by (simp add: same_asset_def evidence_of_def rescope_def merge_sighting_def Let_def)
qed (simp_all add: same_asset_def evidence_of_def rescope_def)

lemma same_asset_id: "same_asset cx a b \<Longrightarrow> as_id b = as_id a \<and> as_tenant b = as_tenant a \<and> as_org b = as_org a \<and> as_first_seen b = as_first_seen a"
  unfolding same_asset_def evidence_of_def by (elim conjE) (erule ssubst, simp)

lemma new_asset_ok_same: "new_asset_ok cx n a \<Longrightarrow> same_asset cx a b \<Longrightarrow> new_asset_ok cx n b"
  by (auto dest: same_asset_id simp: new_asset_ok_def)

lemma history_trans:
  assumes "history cx a b" "history cx b c"
  shows "history cx a c"
proof -
  obtain zs ws where b: "assets b = zs @ ws" "list_all2 (same_asset cx) (assets a) zs" "list_all (new_asset_ok cx (next_id a)) ws"
    "next_id a \<le> next_id b" using assms(1) by (auto simp: history_def)
  obtain ys us where c: "assets c = ys @ us" "list_all2 (same_asset cx) (zs @ ws) ys" "list_all (new_asset_ok cx (next_id b)) us"
    "next_id b \<le> next_id c" using assms(2) b(1) by (auto simp: history_def)
  obtain ys1 ys2 where y: "ys = ys1 @ ys2" "list_all2 (same_asset cx) zs ys1" "list_all2 (same_asset cx) ws ys2"
    using c(2) by (auto simp: list_all2_append1)
  have "list_all2 (same_asset cx) (assets a) ys1"
    by (rule list_all2_trans [OF _ b(2) y(2)]) (rule same_asset_trans)
  moreover have "list_all (new_asset_ok cx (next_id a)) ys2"
    using y(3) b(3) by (induction rule: list_all2_induct) (auto intro: new_asset_ok_same)
  moreover have "list_all (new_asset_ok cx (next_id a)) us"
    using c(3) b(4) by (auto simp: list_all_iff new_asset_ok_def)
  ultimately have "assets c = ys1 @ (ys2 @ us)" "list_all2 (same_asset cx) (assets a) ys1"
    "list_all (new_asset_ok cx (next_id a)) (ys2 @ us)" using c(1) y(1) by auto
  then show ?thesis using b(4) c(4) unfolding history_def by (metis order.trans)
qed

lemma history_same: "assets db' = assets db \<Longrightarrow> next_id db \<le> next_id db' \<Longrightarrow> history cx db db'"
  unfolding history_def by (intro conjI exI [of _ "assets db"] exI [of _ "[]"]) (auto simp: list.rel_refl)

lemma history_put:
  assumes "ids_ok db" "get_asset db (as_id x) = Some x" "row_update cx x z"
  shows "history cx db (put_asset z db)"
proof -
  have x: "x \<in> set (assets db)" using assms(2) by (auto simp: get_asset_def find_Some_iff)
  have "assets (put_asset z db) = map (\<lambda>y. if y = x then z else y) (assets db)"
    using update_where_key [OF _ x, of as_id z] assms(1) row_update_id [OF assms(3)] by (simp add: put_asset_def ids_ok_def)
  moreover have "list_all2 (same_asset cx) (assets db) (map (\<lambda>y. if y = x then z else y) (assets db))"
    using row_update_same [OF assms(3)] by (auto simp: list.rel_map intro!: list.rel_refl_strong)
  ultimately show ?thesis unfolding history_def
    by (intro conjI exI [of _ "assets (put_asset z db)"] exI [of _ "[]"]) (auto simp: put_asset_def)
qed

lemma history_new: "history cx db (add_asset (new_asset_row cx (next_id db) k s a c) db)"
  unfolding history_def
  by (intro conjI exI [of _ "assets db"] exI [of _ "[new_asset_row cx (next_id db) k s a c]"])
    (auto simp: add_asset_def list.rel_refl new_asset_ok_def new_asset_row_def)

interpretation evidence: ingest_relation cx "history cx" for cx
proof unfold_locales
  show "history cx db db'" if "scan_step db db'" "assets db' = assets db" for db db'
    using that grows_step [OF scan_step_finding] by (auto simp: grows_def intro: history_same)
qed (auto simp: frame_def intro: history_trans history_same history_put history_new)

subsection \<open>The lifecycle of findings\<close>

definition lifecycle :: "inventory \<Rightarrow> inventory \<Rightarrow> bool" where
  "lifecycle db db' \<longleftrightarrow> (findings_ok db \<longrightarrow> findings_ok db' \<and> (\<forall>i. spec_step\<^sup>*\<^sup>* (status_of db i) (status_of db' i)) \<and>
     (\<forall>i. status_of db i \<in> {Some finding_status.FALSE_POSITIVE, Some finding_status.ACCEPTED_RISK} \<longrightarrow> status_of db' i = status_of db i))"

lemma lifecycle_trans: "lifecycle a b \<Longrightarrow> lifecycle b c \<Longrightarrow> lifecycle a c"
  unfolding lifecycle_def by (metis rtranclp_trans)

lemma lifecycle_same:
  assumes "findings db' = findings db" "activities db' = activities db" "next_id db \<le> next_id db'"
  shows "lifecycle db db'"
proof -
  have "status_of db' i = status_of db i" for i using assms(1) by (simp add: status_of_def get_finding_def)
  moreover have "findings_ok db \<Longrightarrow> findings_ok db'" using assms by (auto simp: findings_ok_def finding_ids_def)
  ultimately show ?thesis by (simp add: lifecycle_def)
qed

lemma lifecycle_scan:
  assumes "scan_step db db'"
  shows "lifecycle db db'"
proof -
  have f: "finding_step db db'" by (rule scan_step_finding [OF assms])
  have "spec_step (status_of db i) (status_of db' i)" if ok: "findings_ok db" for i
    using get_finding_step [OF f ok, of i]
    by (cases "get_finding db' i") (auto simp: status_of_def row_step_def)
  moreover have "status_of db' i = status_of db i"
    if "findings_ok db" "status_of db i \<in> {Some finding_status.FALSE_POSITIVE, Some finding_status.ACCEPTED_RISK}" for i
    using scan_step_triage [OF assms that(1)] that(2) by (cases "get_finding db i") (auto simp: status_of_def)
  ultimately show ?thesis using findings_ok_step [OF f] by (auto simp: lifecycle_def)
qed

interpretation triage: ingest_relation cx lifecycle for cx
  by unfold_locales
    (auto simp: frame_def put_asset_def add_asset_def intro: lifecycle_trans lifecycle_same lifecycle_scan)

subsection \<open>Correctness\<close>

definition example_context :: ingest_context where
  "example_context = \<lparr>ix_tenant = 3, ix_org = 5, ix_source = ''dns'', ix_checker = example_checker, ix_now = 1000, ix_settings = [],
     ix_method = None, ix_scan = None, ix_stage = None, ix_baseline = False, ix_historical = False, ix_unicode = ascii_only,
     ix_sha256 = (\<lambda>s. s), ix_registered = (\<lambda>s. Some ''example.com'')\<rparr>"

definition example_result :: sensor_result where
  "example_result = \<lparr>res_historical = False, res_observations =
     [AssetObs \<lparr>obs_type = observed_type.HOSTNAME, obs_value = ''A.example.com'', obs_attributes = [(''dns'', JBool True)], obs_confidence = 90\<rparr>,
      RelationObs \<lparr>rel_source = \<lparr>ref_type = observed_type.HOSTNAME, ref_value = ''a.example.com''\<rparr>,
        rel_target = \<lparr>ref_type = observed_type.IP_ADDRESS, ref_value = ''8.8.8.8''\<rparr>,
        rel_relation = relation_type.RESOLVES_TO, rel_attributes = []\<rparr>,
      FindingObs example_obs],
     res_coverage = []\<rparr>"

definition past_context :: ingest_context where
  "past_context = example_context\<lparr>ix_historical := True\<rparr>"

definition past_inventory :: inventory where
  "past_inventory = empty_inventory\<lparr>assets := [example_asset\<lparr>as_status := asset_status.INACTIVE\<rparr>],
     findings := [example_finding\<lparr>fi_status := finding_status.FALSE_POSITIVE, fi_false_positive := True\<rparr>]\<rparr>"

lemma example_run: "map_option (\<lambda>st. map as_id (assets (ig_db st))) (ingest example_context example_result example_inventory) = Some [9, 10]"
  by code_simp

lemma past_run: "map_option (\<lambda>st. map as_id (assets (ig_db st))) (ingest past_context example_result past_inventory) = Some [9, 10]"
  by code_simp

lemma example_ids: "ids_ok example_inventory" "ids_ok past_inventory"
  by (simp_all add: ids_ok_def example_defs past_inventory_def)

lemma find_list_all2:
  assumes "list_all2 R xs zs" "\<And>x z. R x z \<Longrightarrow> P z = P x" "find P xs = Some x"
  shows "\<exists>z. find P (zs @ ws) = Some z \<and> R x z"
  using assms by (induction rule: list_all2_induct) (auto split: if_splits)

lemma history_get:
  assumes "history cx db db'" "get_asset db i = Some a"
  shows "\<exists>b. get_asset db' i = Some b \<and> same_asset cx a b"
proof -
  obtain zs ws where "assets db' = zs @ ws" "list_all2 (same_asset cx) (assets db) zs" using assms(1) by (auto simp: history_def)
  then show ?thesis using find_list_all2 [of "same_asset cx" "assets db" zs "\<lambda>a. as_id a = i"] assms(2) same_asset_id
    by (auto simp: get_asset_def)
qed



text \<open>
  C23: a historical source is no proof of life. It changes neither when a known asset was last seen nor
  the confidence in it, and does not bring an inactive asset back.
\<close>

theorem historical_never_revives:
  assumes "ingest cx result db = Some st" "ids_ok db" "ix_historical cx" "get_asset db i = Some a"
  shows "\<exists>b. get_asset (ig_db st) i = Some b \<and> as_last_seen b = as_last_seen a \<and> as_confidence b = as_confidence a \<and>
    (as_status a = asset_status.INACTIVE \<longrightarrow> as_status b = asset_status.INACTIVE)"
proof -
  have "history cx db (ig_db st)" using evidence.ingest_carries [OF assms(1,2)] by auto
  from history_get [OF this assms(4)] show ?thesis using assms(3) unfolding same_asset_def by blast
qed

theorem historical_never_revives_witness:
  "\<exists>st b. ingest past_context example_result past_inventory = Some st \<and> get_asset (ig_db st) 9 = Some b \<and>
     as_status b = asset_status.INACTIVE \<and> as_last_seen b = 0"
proof -
  obtain st where st: "ingest past_context example_result past_inventory = Some st" using past_run by auto
  have "get_asset past_inventory 9 = Some (example_asset\<lparr>as_status := asset_status.INACTIVE\<rparr>)" "ix_historical past_context"
    by (simp_all add: get_asset_def example_defs past_inventory_def past_context_def)
  from historical_never_revives [OF st example_ids(2) this(2,1)] st show ?thesis by (auto simp: example_asset_def)
qed



end
