(* ===== verification/Housekeeping.thy ===== *)
theory Housekeeping
  imports Maintenance IngestSafety
begin

text \<open>
  What the periodic housekeeping does: assets age out exactly when they were not seen for long, and a
  certificate gives a bounded number of alerts.
\<close>

lemma assets_maintenance_event [simp]: "assets (maintenance_event a d now db) = assets db"
  by (simp add: maintenance_event_def)

definition aged_row :: "time \<Rightarrow> asset \<Rightarrow> asset" where
  "aged_row now a = a\<lparr>as_status := asset_status.INACTIVE, as_inactive_since := Some now\<rparr>"

lemma assets_foldl:
  assumes "\<And>a db. assets (step db a) = update_where (\<lambda>x. as_id x = as_id a) (\<lambda>_. h a) (assets db)"
  shows "assets (foldl step db rows) = foldl (\<lambda>T a. update_where (\<lambda>x. as_id x = as_id a) (\<lambda>_. h a) T) (assets db) rows"
  by (induction rows arbitrary: db) (simp_all add: assms)

lemma assets_age_out: "assets (age_out n now a db) = update_where (\<lambda>x. as_id x = as_id a) (\<lambda>_. aged_row now a) (assets db)"
  by (simp add: age_out_def Let_def put_asset_def aged_row_def)

lemma write_assets:
  assumes "distinct (map as_id T)" "\<And>a. as_id (h a) = as_id a"
  shows "foldl (\<lambda>T a. update_where (\<lambda>x. as_id x = as_id a) (\<lambda>_. h a) T) T (filter P T) = map (\<lambda>a. if P a then h a else a) T"
  using foldl_write [of as_id T "filter P T" h] assms by (auto simp: distinct_map intro!: map_cong)

lemma age_out_assets_rows:
  assumes "ids_ok db" "jget settings ''inactivity'' = JObj inactivity" "json_int (get_or inactivity ''max_age_days'' (JInt 30)) = Some max_age"
  shows "\<exists>db'. age_out_assets tenant settings now db = Some (db', int (length (filter (aged tenant (now - Core.days max_age)) (assets db)))) \<and>
    assets db' = map (\<lambda>a. if aged tenant (now - Core.days max_age) a then aged_row now a else a) (assets db)"
proof -
  let ?db = "foldl (\<lambda>db a. age_out max_age now a db) db (filter (aged tenant (now - Core.days max_age)) (assets db))"
  have "assets ?db = map (\<lambda>a. if aged tenant (now - Core.days max_age) a then aged_row now a else a) (assets db)"
    unfolding assets_foldl [where step = "\<lambda>db a. age_out max_age now a db" and h = "aged_row now", OF assets_age_out]
    by (rule write_assets) (use assms(1) in \<open>simp_all add: ids_ok_def aged_row_def\<close>)
  then show ?thesis using assms(2,3) by (simp add: age_out_assets_def Let_def)
qed

subsection \<open>Certificates\<close>

definition watched :: "uuid \<Rightarrow> time \<Rightarrow> asset \<Rightarrow> bool" where
  "watched tenant now a \<longleftrightarrow> as_tenant a = tenant \<and> as_type a = asset_type.CERTIFICATE \<and> as_status a = asset_status.ACTIVE \<and>
     certificate_alert now a \<noteq> None"

definition alerted_row :: "time \<Rightarrow> asset \<Rightarrow> asset" where
  "alerted_row now a = note_alert (snd (the (certificate_alert now a))) a"

definition alert_event :: "time \<Rightarrow> asset \<Rightarrow> asset_event" where
  "alert_event now a = event_row (as_tenant a) (Some (as_org a)) (Some a) None None False now (fst (the (certificate_alert now a)))"

lemma alert_certificate_skip: "foldl (alert_certificate now) acc rows = foldl (alert_certificate now) acc (filter (\<lambda>a. certificate_alert now a \<noteq> None) rows)"
  by (induction rows arbitrary: acc) (auto simp: alert_certificate_def split: option.split)

lemma alert_certificate_Some:
  assumes "certificate_alert now a \<noteq> None"
  shows "alert_certificate now acc a = (put_asset (alerted_row now a) (add_event (alert_event now a) (fst acc)), snd acc + 1)"
  using assms by (auto simp: alert_certificate_def alerted_row_def alert_event_def maintenance_event_def)

lemma alert_all:
  assumes "\<forall>a \<in> set rows. certificate_alert now a \<noteq> None"
  shows "assets (fst (foldl (alert_certificate now) acc rows)) =
      foldl (\<lambda>T a. update_where (\<lambda>x. as_id x = as_id a) (\<lambda>_. alerted_row now a) T) (assets (fst acc)) rows \<and>
    asset_events (fst (foldl (alert_certificate now) acc rows)) = asset_events (fst acc) @ map (alert_event now) rows \<and>
    next_id (fst (foldl (alert_certificate now) acc rows)) = next_id (fst acc)"
  using assms
  by (induction rows arbitrary: acc)
    (auto simp: alert_certificate_Some put_asset_def add_event_def alerted_row_def note_alert_def)

lemma certificate_alerts_effect:
  assumes "ids_ok db"
  shows "assets (fst (certificate_alerts tenant now db)) = map (\<lambda>a. if watched tenant now a then alerted_row now a else a) (assets db)"
    "asset_events (fst (certificate_alerts tenant now db)) = asset_events db @ map (alert_event now) (filter (watched tenant now) (assets db))"
    "next_id (fst (certificate_alerts tenant now db)) = next_id db"
proof -
  let ?rows = "filter (watched tenant now) (assets db)"
  have r: "filter (\<lambda>a. certificate_alert now a \<noteq> None)
      (filter (\<lambda>a. as_tenant a = tenant \<and> as_type a = asset_type.CERTIFICATE \<and> as_status a = asset_status.ACTIVE) (assets db)) = ?rows"
    unfolding filter_filter by (rule filter_cong) (auto simp: watched_def)
  have f: "certificate_alerts tenant now db = foldl (alert_certificate now) (db, 0) ?rows"
    unfolding certificate_alerts_def by (subst alert_certificate_skip) (simp only: r)
  have "\<forall>a \<in> set ?rows. certificate_alert now a \<noteq> None" by (simp add: watched_def)
  note e = alert_all [OF this, of "(db, 0)"]
  show "assets (fst (certificate_alerts tenant now db)) = map (\<lambda>a. if watched tenant now a then alerted_row now a else a) (assets db)"
    using e write_assets [of "assets db" "alerted_row now" "watched tenant now"] assms
    by (simp add: f ids_ok_def alerted_row_def note_alert_def)
  show "asset_events (fst (certificate_alerts tenant now db)) = asset_events db @ map (alert_event now) ?rows"
    "next_id (fst (certificate_alerts tenant now db)) = next_id db" using e by (simp_all add: f)
qed

lemma expiry_alerts_note: "set (expiry_alerts (note_alert t a)) = insert t (set (expiry_alerts a))"
proof -
  have "List.map_filter jint (map JInt xs) = xs" for xs by (induction xs) (simp_all add: List.map_filter_simps)
  then show ?thesis by (simp add: note_alert_def expiry_alerts_def jget_def map_of_dict_set insert_absorb)
qed

text \<open>The alerts a certificate can still give, and those that were given about an asset.\<close>

definition alert_kinds :: "int set" where
  "alert_kinds = {-1, 1, 7, 14, 30}"

definition alerts_left :: "asset \<Rightarrow> nat" where
  "alerts_left a = card (alert_kinds - set (expiry_alerts a))"

definition alerts_about :: "uuid \<Rightarrow> inventory \<Rightarrow> nat" where
  "alerts_about i db = length (filter (\<lambda>e. ae_asset e = Some i \<and> ae_type e \<in> {event_type.CERTIFICATE_EXPIRING, event_type.CERTIFICATE_EXPIRED})
     (asset_events db))"

lemma certificate_alert_kind:
  assumes "certificate_alert now a = Some (d, t)"
  shows "t \<in> alert_kinds - set (expiry_alerts a)"
proof -
  obtain e where "certificate_expiry (as_value a) (jstr (jget (as_meta a) ''subject_cn'')) (delta_days (e - now)) (expiry_alerts a) = Some (d, t)"
    using assms by (auto simp: certificate_alert_def split: option.splits)
  from certificate_expiry_sound [OF this] show ?thesis
    by (auto simp: alert_kinds_def EXPIRY_THRESHOLDS_def split: if_splits)
qed

lemma alerts_left_alerted: "certificate_alert now a \<noteq> None \<Longrightarrow> alerts_left a = alerts_left (alerted_row now a) + 1"
proof -
  assume "certificate_alert now a \<noteq> None"
  then obtain d t where t: "certificate_alert now a = Some (d, t)" by auto
  have "alert_kinds - set (expiry_alerts (alerted_row now a)) = (alert_kinds - set (expiry_alerts a)) - {t}"
    by (auto simp: alerted_row_def t expiry_alerts_note)
  moreover have "finite (alert_kinds - set (expiry_alerts a))" by (simp add: alert_kinds_def)
  ultimately show ?thesis unfolding alerts_left_def
    using card_Suc_Diff1 [OF _ certificate_alert_kind [OF t]] by simp
qed

lemma alerted_row_id [simp]: "as_id (alerted_row now a) = as_id a"
  by (simp add: alerted_row_def note_alert_def)

lemma ae_asset_alert [simp]: "ae_asset (alert_event now a) = Some (as_id a)"
  by (simp add: alert_event_def event_row_def)

lemma get_asset_map: "(\<And>a. as_id (h a) = as_id a) \<Longrightarrow> find (\<lambda>a. as_id a = i) (map h T) = map_option h (find (\<lambda>a. as_id a = i) T)"
  by (induction T) auto

lemma filter_key:
  assumes "distinct (map as_id T)"
  shows "length (filter (\<lambda>a. as_id a = i \<and> P a) T) = (case find (\<lambda>a. as_id a = i) T of Some a \<Rightarrow> if P a then 1 else 0 | None \<Rightarrow> 0)"
  using assms
proof (induction T)
  case (Cons x T)
  show ?case
  proof (cases "as_id x = i")
    case True
    then have "filter (\<lambda>a. as_id a = i \<and> P a) T = []" using Cons.prems by (auto simp: filter_empty_conv image_iff)
    then show ?thesis using True by simp
  qed (use Cons in simp)
qed simp

lemma filter_count_mono: "(\<And>x. P x \<Longrightarrow> Q x) \<Longrightarrow> length (filter P xs) \<le> length (filter Q xs)"
  by (induction xs) (auto intro: le_SucI)

lemma alert_step:
  fixes i :: uuid
  assumes "ids_ok db"
  defines "left \<equiv> \<lambda>db. (case get_asset db i of Some a \<Rightarrow> alerts_left a | None \<Rightarrow> 0)"
  shows "alerts_about i (fst (certificate_alerts tenant now db)) + left (fst (certificate_alerts tenant now db)) \<le>
    alerts_about i db + left db"
proof -
  let ?db = "fst (certificate_alerts tenant now db)" and ?w = "watched tenant now"
  have "alerts_about i ?db \<le> alerts_about i db + length (filter (\<lambda>a. as_id a = i \<and> ?w a) (assets db))"
    by (auto simp: alerts_about_def certificate_alerts_effect [OF assms(1)] filter_map comp_def intro!: filter_count_mono)
  then have about: "alerts_about i ?db \<le> alerts_about i db + (case get_asset db i of Some a \<Rightarrow> if ?w a then 1 else 0 | None \<Rightarrow> 0)"
    using filter_key [of "assets db" i ?w] assms(1) by (simp add: ids_ok_def get_asset_def)
  have row: "get_asset ?db i = map_option (\<lambda>a. if ?w a then alerted_row now a else a) (get_asset db i)"
    unfolding get_asset_def certificate_alerts_effect(1) [OF assms(1)] by (rule get_asset_map) simp
  show ?thesis
  proof (cases "get_asset db i")
    case (Some a)
    have "certificate_alert now a \<noteq> None" if "?w a" using that by (simp add: watched_def)
    then show ?thesis using about row Some alerts_left_alerted [of now a] by (auto simp: left_def)
  qed (use about row in \<open>simp add: left_def\<close>)
qed

lemma ids_certificate_alerts: "ids_ok db \<Longrightarrow> ids_ok (fst (certificate_alerts tenant now db))"
proof -
  assume ok: "ids_ok db"
  have "map as_id (assets (fst (certificate_alerts tenant now db))) = map as_id (assets db)"
    unfolding certificate_alerts_effect(1) [OF ok] by simp
  then show ?thesis using ok unfolding ids_ok_keys by (simp add: certificate_alerts_effect(3) [OF ok])
qed

definition certificate_runs :: "uuid \<Rightarrow> time list \<Rightarrow> inventory \<Rightarrow> inventory" where
  "certificate_runs tenant moments db = foldl (\<lambda>db now. fst (certificate_alerts tenant now db)) db moments"

lemma alert_runs:
  assumes "ids_ok db"
  shows "alerts_about i (certificate_runs tenant moments db) \<le> alerts_about i db + (case get_asset db i of Some a \<Rightarrow> alerts_left a | None \<Rightarrow> 0)"
  using assms
proof (induction moments arbitrary: db)
  case (Cons now moments)
  show ?case using Cons.IH [OF ids_certificate_alerts [OF Cons.prems, of tenant now]] alert_step [OF Cons.prems, of i tenant now]
    by (simp add: certificate_runs_def)
qed (simp add: certificate_runs_def)

subsection \<open>Correctness\<close>

text \<open>
  C31: however often housekeeping runs, and at whatever times, a certificate gives at most five alerts: one for
  its expiry and one for each threshold.
\<close>

theorem certificate_alerts_bounded:
  assumes "ids_ok db"
  shows "alerts_about i (certificate_runs tenant moments db) \<le> alerts_about i db + 5"
proof -
  have "alerts_left a \<le> 5" for a
    using card_mono [of alert_kinds "alert_kinds - set (expiry_alerts a)"] by (simp add: alerts_left_def alert_kinds_def)
  then show ?thesis using alert_runs [OF assms, of i tenant moments] by (cases "get_asset db i") (auto intro: order.trans)
qed

definition example_certificate :: asset where
  "example_certificate = example_asset\<lparr>as_type := asset_type.CERTIFICATE, as_value := ''ab'', as_norm := ''ab'',
     as_meta := [(''not_after'', JStr ''1970-01-06T00:00:00Z'')]\<rparr>"

definition certificate_inventory :: inventory where
  "certificate_inventory = empty_inventory\<lparr>assets := [example_certificate]\<rparr>"

theorem certificate_alerts_bounded_witness:
  "ids_ok certificate_inventory \<and> alerts_about 9 (certificate_runs 3 [0, 1] certificate_inventory) \<le> 5"
proof -
  have "ids_ok certificate_inventory" by (simp add: ids_ok_def certificate_inventory_def example_certificate_def example_defs)
  moreover have "alerts_about 9 certificate_inventory = 0" by (simp add: alerts_about_def certificate_inventory_def example_defs)
  ultimately show ?thesis using certificate_alerts_bounded [of certificate_inventory 9 3 "[0, 1]"] by simp
qed

text \<open>
  A certificate first seen five days before it expires gives three alerts in a row, also when housekeeping
  runs three times at the same instant: only the tightest threshold is noted, so that each following run takes
  the next wider one for newly crossed.
\<close>

lemma certificate_alerts_repeated:
  "map (\<lambda>n. alerts_about 9 (certificate_runs 3 (replicate n 0) certificate_inventory)) [1, 2, 3, 4] = [1, 2, 3, 3]"
  by code_simp

text \<open>
  C32: assets age out exactly. With the configured number of days, a run marks inactive those active assets of the tenant
  that were last seen before the cutoff, have a source other than the scope and are of a type that
  ages; it changes nothing else of them and nothing of the others, and reports their number.
\<close>

theorem age_out_exact:
  fixes tenant :: uuid and now :: time
  assumes "ids_ok db" "jget settings ''inactivity'' = JObj inactivity" "json_int (get_or inactivity ''max_age_days'' (JInt 30)) = Some max_age"
  defines "gone \<equiv> \<lambda>a. as_tenant a = tenant \<and> as_status a = asset_status.ACTIVE \<and> as_last_seen a < now - Core.days max_age \<and>
        as_type a \<notin> set NO_AGE_OUT \<and> as_source a \<noteq> None \<and> as_source a \<noteq> Some ''scope''"
  shows "\<exists>db'. age_out_assets tenant settings now db = Some (db', int (length (filter gone (assets db)))) \<and>
    assets db' = map (\<lambda>a. if gone a then a\<lparr>as_status := asset_status.INACTIVE, as_inactive_since := Some now\<rparr> else a) (assets db)"
proof -
  have g: "aged tenant (now - Core.days max_age) = gone" by (auto simp: aged_def gone_def fun_eq_iff split: option.split)
  show ?thesis using age_out_assets_rows [OF assms(1-3), of tenant now] unfolding g aged_row_def .
qed

theorem age_out_exact_witness:
  "\<exists>db'. age_out_assets 3 DEFAULT_TENANT_SETTINGS (Core.days 31) example_inventory = Some (db', 1) \<and>
     map as_status (assets db') = [asset_status.INACTIVE]"
proof -
  obtain inactivity where r: "jget DEFAULT_TENANT_SETTINGS ''inactivity'' = JObj inactivity" "json_int (get_or inactivity ''max_age_days'' (JInt 30)) = Some 30"
    by (simp add: DEFAULT_TENANT_SETTINGS_def jget_def get_or_def ints_def)
  have a: "assets example_inventory = [example_asset]" by (simp add: example_defs)
  have f: "as_tenant example_asset = 3" "as_status example_asset = asset_status.ACTIVE" "as_last_seen example_asset = 0"
    "as_type example_asset = asset_type.SUBDOMAIN" "as_source example_asset = Some ''dns''"
    by (simp_all add: example_asset_def)
  show ?thesis using age_out_exact [OF example_ids(1) r, of 3 "Core.days 31"]
    by (auto simp: a f NO_AGE_OUT_def Core.days_def)
qed

end
