(* ===== verification/Risk.thy ===== *)
theory Risk
  imports Findings IsoTime Settings "HOL-Library.Monad_Syntax"
begin

text \<open>
  Risk scores (\<open>backend/app/risk/engine.py\<close> and \<open>service.py\<close>). Floating point numbers are exact rationals; \<open>round\<close>
  rounds halves to even. A configuration without an entry, or with something else than a number there, raises
  (\<^const>\<open>None\<close>) where the code reads it; a text in place of a number does not occur in settings.
\<close>

subsection \<open>Numbers\<close>

definition round_even :: "rat \<Rightarrow> int" where
  "round_even x =
     (let n = \<lfloor>x\<rfloor>; d = x - of_int n in
      if d < 1 / 2 then n else if d > 1 / 2 then n + 1 else if even n then n else n + 1)"

text \<open>\<open>round(x, 1)\<close>, and the formats \<open>.1f\<close> and \<open>.0%\<close> (of a number that is not negative).\<close>

definition round1 :: "rat \<Rightarrow> rat" where
  "round1 x = of_int (round_even (x * 10)) / 10"

definition fmt1 :: "rat \<Rightarrow> string" where
  "fmt1 x = (let n = round_even (x * 10) in show_int (n div 10) @ ''.'' @ show_int (n mod 10))"

definition fmt_percent :: "rat \<Rightarrow> string" where
  "fmt_percent x = show_int (round_even (x * 100)) @ ''%''"

text \<open>A number of the settings; \<open>repr\<close> writes those with a fraction as decimals.\<close>

definition decimal :: "string \<Rightarrow> rat option" where
  "decimal s =
     (let neg = startswith s ''-''; (w, _, f) = partition_str ''.'' (if neg then tl s else s) in
      map_option (\<lambda>n. (if neg then -1 else 1) * of_int n / 10 ^ length f) (py_int (w @ f)))"

fun json_num :: "json \<Rightarrow> rat option" where
  "json_num (JInt i) = Some (of_int i)"
| "json_num (JBool b) = Some (if b then 1 else 0)"
| "json_num (JFloat r) = decimal r"
| "json_num _ = None"

text \<open>\<open>cfg[key]\<close> as a number, as a dictionary, and \<open>cfg[key].get(k, 0)\<close>.\<close>

definition num :: "attrs \<Rightarrow> string \<Rightarrow> rat option" where
  "num cfg k = Option.bind (map_of cfg k) json_num"

definition sub_dict :: "attrs \<Rightarrow> string \<Rightarrow> attrs option" where
  "sub_dict cfg k = (case map_of cfg k of Some (JObj d) \<Rightarrow> Some d | _ \<Rightarrow> None)"

definition points :: "attrs \<Rightarrow> string \<Rightarrow> string \<Rightarrow> rat option" where
  "points cfg k entry = Option.bind (sub_dict cfg k) (\<lambda>d. json_num (get_or d entry (JInt 0)))"

subsection \<open>The engine\<close>

record risk_result =
  rk_score :: int
  rk_level :: risk_level
  rk_factors :: "factor list"

definition level_for :: "int \<Rightarrow> attrs \<Rightarrow> risk_level option" where
  "level_for score cfg = do {
     lv \<leftarrow> sub_dict cfg ''levels'';
     c \<leftarrow> num lv ''critical'';
     if of_int score \<ge> c then Some risk_level.CRITICAL else do {
     h \<leftarrow> num lv ''high'';
     if of_int score \<ge> h then Some risk_level.HIGH else do {
     m \<leftarrow> num lv ''medium'';
     if of_int score \<ge> m then Some risk_level.MEDIUM else do {
     l \<leftarrow> num lv ''low'';
     Some (if of_int score \<ge> l then risk_level.LOW else risk_level.INFO) }}}}"

definition port_of :: "asset \<Rightarrow> int option" where
  "port_of a =
     (if as_type a \<in> {asset_type.PORT, asset_type.SERVICE}
      then (case rpartition (CHR '':'') (as_norm a) of
              (_, False, _) \<Rightarrow> None
            | (_, True, t) \<Rightarrow> py_int (hd (split_on (CHR ''/'') t)))
      else None)"

definition risky_port :: "asset \<Rightarrow> (string \<times> severity) option" where
  "risky_port a = Option.bind (port_of a) (map_of RISKY_PORTS)"

definition total :: "factor list \<Rightarrow> rat" where
  "total fs = sum_list (map (\<lambda>(_, _, p). p) fs)"

definition management_of :: "asset \<Rightarrow> string" where
  "management_of a =
     (let m = jget (as_meta a) ''management_interface'' in
      if jtruthy m then jtext m
      else case management_interface [jstr (jget (as_meta a) ''title''), Some (join '' '' (jstrs (jget (as_meta a) ''technologies'')))] of
        Some s \<Rightarrow> s | None \<Rightarrow> [])"

text \<open>A factor that applies under a condition, with its points read from the configuration.\<close>

definition factor_if :: "bool \<Rightarrow> attrs \<Rightarrow> string \<Rightarrow> string \<Rightarrow> string \<Rightarrow> factor list option" where
  "factor_if b cfg key label entry = (if b then map_option (\<lambda>p. [(key, label, p)]) (num cfg entry) else Some [])"

definition access_factors :: "asset \<Rightarrow> attrs \<Rightarrow> factor list option" where
  "access_factors a cfg =
     (let mgmt = management_of a in
      if mgmt \<noteq> []
      then factor_if True cfg ''management_interface'' (''Exposed administrative interface ('' @ mgmt @ '')'') ''management_interface_points''
      else factor_if (as_type a = asset_type.HTTP_ENDPOINT \<and> looks_like_login (jstr (jget (as_meta a) ''title''))) cfg
             ''auth_exposure'' ''Exposed authentication surface'' ''auth_exposure_points'')"

definition port_factors :: "asset \<Rightarrow> attrs \<Rightarrow> factor list option" where
  "port_factors a cfg =
     (case risky_port a of
        Some (name, _) \<Rightarrow> factor_if True cfg ''risky_port'' (''High-risk service exposed ('' @ name @ '')'') ''risky_port_points''
      | None \<Rightarrow> Some [])"

definition criticality_factors :: "asset \<Rightarrow> attrs \<Rightarrow> factor list option" where
  "criticality_factors a cfg =
     map_option (\<lambda>p. if p \<noteq> 0 then [(''criticality'', ''Business criticality: '' @ criticality_value (as_criticality a), p)] else [])
       (points cfg ''criticality_points'' (criticality_value (as_criticality a)))"

definition approval_factors :: "asset \<Rightarrow> attrs \<Rightarrow> factor list option" where
  "approval_factors a cfg =
     (if as_approval a = approval_status.UNAUTHORIZED
      then factor_if True cfg ''unauthorized'' ''Asset marked unauthorized'' ''unauthorized_points''
      else factor_if (as_approval a \<in> {approval_status.UNVERIFIED, approval_status.UNKNOWN}) cfg
             ''shadow_it'' ''Unknown ownership (potential shadow IT)'' ''shadow_it_points'')"

definition exposure_factors :: "asset \<Rightarrow> attrs \<Rightarrow> time \<Rightarrow> factor list option" where
  "exposure_factors a cfg now = do {
     f1 \<leftarrow> factor_if (as_scope a \<in> {scope_status.IN_SCOPE, scope_status.DERIVED}) cfg ''exposure'' ''Internet-facing asset'' ''exposure_points'';
     f2 \<leftarrow> access_factors a cfg;
     f3 \<leftarrow> port_factors a cfg;
     f4 \<leftarrow> criticality_factors a cfg;
     f5 \<leftarrow> approval_factors a cfg;
     days \<leftarrow> num cfg ''new_asset_days'';
     f6 \<leftarrow> factor_if (of_int (delta_days (now - as_first_seen a)) < days) cfg ''new_asset'' ''Recently discovered asset'' ''new_asset_points'';
     Some (f1 @ f2 @ f3 @ f4 @ f5 @ f6)
   }"

definition severity_factor :: "finding \<Rightarrow> attrs \<Rightarrow> factor option" where
  "severity_factor f cfg =
     map_option (\<lambda>p. (case fi_cvss_score f of
         Some c \<Rightarrow> if c * (11 / 2) > p then (''severity'', ''CVSS '' @ fmt1 c, c * (11 / 2))
                   else (''severity'', ''Technical severity: '' @ severity_value (fi_severity f), p)
       | None \<Rightarrow> (''severity'', ''Technical severity: '' @ severity_value (fi_severity f), p)))
       (points cfg ''severity_points'' (severity_value (fi_severity f)))"

definition exploit_factors :: "finding \<Rightarrow> attrs \<Rightarrow> factor list option" where
  "exploit_factors f cfg =
     (if fi_kev f then factor_if True cfg ''kev'' ''Known exploited in the wild (CISA KEV)'' ''kev_points''
      else factor_if (fi_exploit f) cfg ''exploit'' ''Public exploit available'' ''exploit_points'')"

definition epss_factors :: "finding \<Rightarrow> attrs \<Rightarrow> factor list option" where
  "epss_factors f cfg =
     (case fi_epss_score f of
        None \<Rightarrow> Some []
      | Some e \<Rightarrow>
          if e = 0 then Some []
          else map_option (\<lambda>m. let p = round1 (e * m) in
                 if p \<ge> 1 then [(''epss'', ''Exploit prediction (EPSS '' @ fmt_percent e @ '')'', p)] else []) (num cfg ''epss_max_points''))"

definition panel_factors :: "finding \<Rightarrow> attrs \<Rightarrow> factor list \<Rightarrow> factor list option" where
  "panel_factors f cfg fs =
     factor_if (''panel'' \<in> set (fi_tags f) \<and> \<not> list_ex (\<lambda>(k, _, _). k = ''management_interface'') fs) cfg
       ''management_interface'' ''Administrative panel'' ''management_interface_points''"

definition age_factors :: "finding \<Rightarrow> attrs \<Rightarrow> time \<Rightarrow> factor list option" where
  "age_factors f cfg now =
     (let age = delta_days (now - fi_first_seen f) in
      if age \<ge> 30
      then do { m \<leftarrow> num cfg ''age_max_points''; per \<leftarrow> num cfg ''age_points_per_30_days'';
                Some [(''age'', ''Unresolved for '' @ show_int age @ '' days'', min m (of_int (age div 30) * per))] }
      else Some [])"

definition clamp :: "rat \<Rightarrow> int" where
  "clamp x = round_even (max 0 (min 100 x))"

definition rounded :: "factor list \<Rightarrow> factor list" where
  "rounded fs = map (\<lambda>(k, l, p). (k, l, round1 p)) fs"

definition result_of :: "rat \<Rightarrow> factor list \<Rightarrow> attrs \<Rightarrow> risk_result option" where
  "result_of x fs cfg = map_option (\<lambda>l. \<lparr>rk_score = clamp x, rk_level = l, rk_factors = rounded fs\<rparr>) (level_for (clamp x) cfg)"

text \<open>\<open>f.confidence or 100\<close>: no confidence counts as full confidence.\<close>

definition confidence_of :: "finding \<Rightarrow> int" where
  "confidence_of f = max 0 (min 100 (if fi_confidence f = 0 then 100 else fi_confidence f))"

definition multiplier :: "int \<Rightarrow> rat" where
  "multiplier conf = 3 / 5 + 2 / 5 * of_int conf / 100"

definition finding_factors :: "finding \<Rightarrow> asset \<Rightarrow> attrs \<Rightarrow> time \<Rightarrow> factor list option" where
  "finding_factors f a cfg now = do {
     s \<leftarrow> severity_factor f cfg;
     x \<leftarrow> exploit_factors f cfg;
     e \<leftarrow> epss_factors f cfg;
     ex \<leftarrow> exposure_factors a cfg now;
     p \<leftarrow> panel_factors f cfg (s # x @ e @ ex);
     g \<leftarrow> age_factors f cfg now;
     Some (s # x @ e @ ex @ p @ g)
   }"

definition score_finding :: "finding \<Rightarrow> asset \<Rightarrow> attrs \<Rightarrow> time \<Rightarrow> risk_result option" where
  "score_finding f a cfg now = do {
     fs \<leftarrow> finding_factors f a cfg now;
     let conf = confidence_of f;
     let mult = multiplier conf;
     if conf < 100
     then result_of (total fs * mult) (fs @ [(''confidence'', ''Detection confidence '' @ show_int conf @ ''%'', round1 (total fs * (mult - 1)))]) cfg
     else result_of (total fs) fs cfg
   }"

definition finding_part :: "int list \<Rightarrow> factor list" where
  "finding_part scores =
     (let ordered = rev (sort scores); extra = sum_list (tl ordered) in
      (''top_finding'', ''Highest-risk open finding'', of_int (hd ordered)) #
      (if extra \<noteq> 0 then [(''more_findings'', show_int (int (length ordered) - 1) @ '' additional open finding(s)'',
          min 15 (of_int extra * (15 / 100)))] else []))"

definition residual_part :: "asset \<Rightarrow> attrs \<Rightarrow> time \<Rightarrow> factor list option" where
  "residual_part a cfg now = do {
     ctx \<leftarrow> exposure_factors a cfg now;
     svc \<leftarrow> (case risky_port a of
        None \<Rightarrow> Some []
      | Some (name, sev) \<Rightarrow> map_option (\<lambda>p. [(''exposed_service'', name @ '' reachable from the internet'', p * (1 / 2))])
          (points cfg ''severity_points'' (severity_value sev)));
     let fs = ctx @ svc;
     Some (if total fs > 45 then fs @ [(''cap'', ''Residual exposure cap (no confirmed findings)'', 45 - total fs)] else fs)
   }"

definition best_child :: "(int \<times> string) list \<Rightarrow> int \<times> string" where
  "best_child cs = foldl (\<lambda>b c. if fst c > fst b \<or> fst c = fst b \<and> snd c > snd b then c else b) (hd cs) (tl cs)"

definition child_part :: "factor list \<Rightarrow> (int \<times> string) list \<Rightarrow> factor list" where
  "child_part fs cs =
     (if cs = [] then []
      else case best_child cs of (best, name) \<Rightarrow>
        if of_int best > total fs then [(''child'', ''Inherited from '' @ name, of_int best - total fs)] else [])"

definition score_asset :: "asset \<Rightarrow> int list \<Rightarrow> (int \<times> string) list \<Rightarrow> attrs \<Rightarrow> time \<Rightarrow> risk_result option" where
  "score_asset a finding_scores child_scores cfg now = do {
     own \<leftarrow> (if finding_scores \<noteq> [] then Some (finding_part finding_scores) else residual_part a cfg now);
     let fs = own @ child_part own child_scores;
     result_of (total fs) fs cfg
   }"

subsection \<open>Scores of an organization\<close>

definition ROLLUP :: "relation_type list" where
  "ROLLUP = [relation_type.SERVES, relation_type.HAS_PORT, relation_type.RUNS_SERVICE, relation_type.RESOLVES_TO]"

definition ORDER :: "asset_type list" where
  "ORDER = [asset_type.SERVICE, asset_type.PORT, asset_type.HTTP_ENDPOINT, asset_type.IP_ADDRESS, asset_type.SUBDOMAIN,
     asset_type.DOMAIN, asset_type.ROOT_DOMAIN]"

definition order_key :: "asset \<Rightarrow> int" where
  "order_key a = (case index_of ORDER (as_type a) of Some n \<Rightarrow> int n | None \<Rightarrow> -1)"

definition NO_RISK_EVENT :: "asset_type list" where
  "NO_RISK_EVENT = [asset_type.TECHNOLOGY, asset_type.CERTIFICATE, asset_type.ASN, asset_type.CIDR]"

definition org_asset :: "uuid \<Rightarrow> inventory \<Rightarrow> uuid \<Rightarrow> asset option" where
  "org_asset org db i = find (\<lambda>a. as_org a = org \<and> as_id a = i) (assets db)"

text \<open>A finding with its score; one of another organization, or whose asset is of another, is left alone.\<close>

definition rescore :: "uuid \<Rightarrow> attrs \<Rightarrow> time \<Rightarrow> inventory \<Rightarrow> finding \<Rightarrow> finding option" where
  "rescore org cfg now db f =
     (case (if fi_org f = org then org_asset org db (fi_asset f) else None) of
        None \<Rightarrow> Some f
      | Some a \<Rightarrow> map_option (\<lambda>r. f\<lparr>fi_risk_score := rk_score r, fi_risk_level := rk_level r, fi_risk_factors := rk_factors r\<rparr>)
          (score_finding f a cfg now))"

definition counts_for :: "uuid \<Rightarrow> inventory \<Rightarrow> uuid \<Rightarrow> finding \<Rightarrow> bool" where
  "counts_for org db i f \<longleftrightarrow> fi_org f = org \<and> fi_asset f = i \<and> is_open f \<and> \<not> fi_unverified f \<and>
     (case org_asset org db i of Some a \<Rightarrow> as_status a = asset_status.ACTIVE | None \<Rightarrow> False)"

definition by_asset :: "uuid \<Rightarrow> inventory \<Rightarrow> finding list \<Rightarrow> uuid \<Rightarrow> int list" where
  "by_asset org db fs i = map fi_risk_score (filter (counts_for org db i) fs)"

definition rollup_children :: "uuid \<Rightarrow> inventory \<Rightarrow> uuid \<Rightarrow> uuid list" where
  "rollup_children org db i =
     map rl_target_asset (filter (\<lambda>r. rl_org r = org \<and> rl_active r \<and> rl_type r \<in> set ROLLUP \<and> rl_source_asset r = i) (relationships db))"

definition child_scores :: "uuid \<Rightarrow> inventory \<Rightarrow> (uuid, int) dict \<Rightarrow> uuid \<Rightarrow> (int \<times> string) list" where
  "child_scores org db computed i =
     List.map_filter (\<lambda>c. case (map_of computed c, org_asset org db c) of (Some s, Some b) \<Rightarrow> Some (s, as_value b) | _ \<Rightarrow> None)
       (rollup_children org db i)"

definition new_score :: "uuid \<Rightarrow> attrs \<Rightarrow> time \<Rightarrow> inventory \<Rightarrow> finding list \<Rightarrow> (uuid, int) dict \<Rightarrow> asset \<Rightarrow> risk_result option" where
  "new_score org cfg now db fs computed a =
     (if as_status a \<noteq> asset_status.ACTIVE then Some \<lparr>rk_score = 0, rk_level = risk_level.INFO, rk_factors = []\<rparr>
      else score_asset a (by_asset org db fs (as_id a)) (child_scores org db computed (as_id a)) cfg now)"

definition risk_event :: "uuid \<Rightarrow> uuid option \<Rightarrow> bool \<Rightarrow> bool \<Rightarrow> time \<Rightarrow> asset \<Rightarrow> risk_result \<Rightarrow> asset_event list option" where
  "risk_event org scan emits baseline now a r =
     (if (rk_score r \<noteq> as_risk_score a \<or> rk_level r \<noteq> as_risk_level a) \<and> emits \<and> as_status a = asset_status.ACTIVE \<and>
         as_type a \<notin> set NO_RISK_EVENT
      then map_option (\<lambda>d. case d of
             None \<Rightarrow> []
           | Some d \<Rightarrow> [(event_row (as_tenant a) (Some org) (Some a) None scan baseline now d)\<lparr>ae_details := JObj []\<rparr>])
           (risk_changed (as_value a) (as_risk_score a) (rk_score r) (risk_level_value (as_risk_level a)) (risk_level_value (rk_level r))
             (rk_factors r))
      else Some [])"

definition scored_row :: "uuid \<Rightarrow> inventory \<Rightarrow> finding list \<Rightarrow> risk_result \<Rightarrow> asset \<Rightarrow> asset" where
  "scored_row org db fs r a =
     a\<lparr>as_open_findings := int (length (by_asset org db fs (as_id a))), as_risk_score := rk_score r, as_risk_level := rk_level r,
       as_risk_factors := rk_factors r\<rparr>"

record recompute_state =
  rs_rows :: "asset list"
  rs_computed :: "(uuid, int) dict"
  rs_events :: "asset_event list"
  rs_changed :: int

definition recompute_asset ::
  "uuid \<Rightarrow> uuid option \<Rightarrow> bool \<Rightarrow> bool \<Rightarrow> attrs \<Rightarrow> time \<Rightarrow> inventory \<Rightarrow> finding list \<Rightarrow> asset \<Rightarrow> recompute_state \<Rightarrow> recompute_state option" where
  "recompute_asset org scan emits baseline cfg now db fs a st = do {
     r \<leftarrow> new_score org cfg now db fs (rs_computed st) a;
     evs \<leftarrow> risk_event org scan emits baseline now a r;
     Some (st\<lparr>rs_rows := update_where (\<lambda>x. as_id x = as_id a) (\<lambda>_. scored_row org db fs r a) (rs_rows st),
              rs_computed := dict_set (rs_computed st) (as_id a) (rk_score r),
              rs_events := rs_events st @ evs,
              rs_changed := rs_changed st + (if rk_score r \<noteq> as_risk_score a \<or> rk_level r \<noteq> as_risk_level a then 1 else 0)\<rparr>)
   }"

primrec recompute_assets ::
  "uuid \<Rightarrow> uuid option \<Rightarrow> bool \<Rightarrow> bool \<Rightarrow> attrs \<Rightarrow> time \<Rightarrow> inventory \<Rightarrow> finding list \<Rightarrow> asset list \<Rightarrow> recompute_state \<Rightarrow> recompute_state option" where
  "recompute_assets org scan emits baseline cfg now db fs [] st = Some st"
| "recompute_assets org scan emits baseline cfg now db fs (a # as) st =
     Option.bind (recompute_asset org scan emits baseline cfg now db fs a st) (recompute_assets org scan emits baseline cfg now db fs as)"

record risk_stats =
  rst_assets :: int
  rst_findings :: int
  rst_changed :: int
  rst_events :: int

definition recompute_organization ::
  "uuid \<Rightarrow> attrs \<Rightarrow> uuid option \<Rightarrow> bool \<Rightarrow> bool \<Rightarrow> time \<Rightarrow> inventory \<Rightarrow> (inventory \<times> risk_stats) option" where
  "recompute_organization org settings scan emits baseline now db = do {
     cfg \<leftarrow> sub_dict settings ''risk'';
     fs \<leftarrow> mapM_opt (rescore org cfg now db) (findings db);
     let rows = filter (\<lambda>a. as_org a = org) (assets db);
     st \<leftarrow> recompute_assets org scan emits baseline cfg now db fs (sort_key order_key rows)
             \<lparr>rs_rows = assets db, rs_computed = [], rs_events = [], rs_changed = 0\<rparr>;
     Some (db\<lparr>findings := fs, assets := rs_rows st, asset_events := asset_events db @ rs_events st\<rparr>,
           \<lparr>rst_assets = int (length rows), rst_findings = int (length (filter (\<lambda>f. fi_org f = org) fs)), rst_changed = rs_changed st,
             rst_events = int (length (rs_events st))\<rparr>)
   }"

definition organization_score :: "inventory \<Rightarrow> uuid \<Rightarrow> int" where
  "organization_score db org =
     (let scores = rev (sort (map as_risk_score (filter (\<lambda>a. as_org a = org \<and> as_status a = asset_status.ACTIVE \<and> as_risk_score a > 0) (assets db)))) in
      if scores = [] then 0
      else (let breadth = (if length scores > 1 then of_int (sum_list (take 9 (tl scores))) / 10 else 0) in
            min 100 (round_even (of_int (hd scores) * (4 / 5) + breadth * (1 / 5)))))"

end
