(* ===== verification/RiskSafety.thy ===== *)
theory RiskSafety
  imports Risk Lifecycle
begin

text \<open>
  What the risk scores satisfy: their range, that a parent is never rated below a child it is rated from, and
  that unverified reports do not move the score of an asset.
\<close>

subsection \<open>Rounding\<close>

lemma round_even_near: "\<lfloor>x\<rfloor> \<le> round_even x \<and> round_even x \<le> \<lfloor>x\<rfloor> + 1"
  by (simp add: round_even_def Let_def)

lemma round_even_int [simp]: "round_even (of_int n) = n"
  by (simp add: round_even_def)

lemma round_even_mono:
  assumes "x \<le> y"
  shows "round_even x \<le> round_even y"
proof (cases "\<lfloor>x\<rfloor> = \<lfloor>y\<rfloor>")
  case True
  then show ?thesis using assms by (auto simp: round_even_def Let_def)
next
  case False
  then have "\<lfloor>x\<rfloor> + 1 \<le> \<lfloor>y\<rfloor>" using floor_mono [OF assms] by simp
  then show ?thesis using round_even_near [of x] round_even_near [of y] by simp
qed

lemma clamp_range: "0 \<le> clamp x \<and> clamp x \<le> 100"
  using round_even_mono [of 0 "max 0 (min 100 x)"] round_even_mono [of "max 0 (min 100 x)" 100]
    round_even_int [of 0] round_even_int [of 100]
  by (simp add: clamp_def)

lemma clamp_above: "of_int n \<le> x \<Longrightarrow> n \<le> 100 \<Longrightarrow> n \<le> clamp x"
proof -
  assume "of_int n \<le> x" "n \<le> 100"
  then have "of_int n \<le> max 0 (min 100 x)" by (simp add: le_max_iff_disj)
  then show ?thesis using round_even_mono [of "of_int n" "max 0 (min 100 x)"] by (simp add: clamp_def)
qed

subsection \<open>Assets and their children\<close>

lemma best_child_ge: "c \<in> set cs \<Longrightarrow> fst c \<le> fst (best_child cs)"
proof -
  let ?f = "\<lambda>(b :: int \<times> string) c. if fst c > fst b \<or> fst c = fst b \<and> snd c > snd b then c else b"
  have up: "fst b \<le> fst (foldl ?f b xs)" for b xs
  proof (induction xs arbitrary: b)
    case (Cons x xs)
    have "fst b \<le> fst (?f b x)" by auto
    then show ?case using Cons.IH [of "?f b x"] by simp
  qed simp
  have "fst c \<le> fst (foldl ?f b xs)" if "c \<in> set xs" for b xs
    using that
  proof (induction xs arbitrary: b)
    case (Cons x xs)
    show ?case
    proof (cases "c = x")
      case True
      have "fst x \<le> fst (?f b x)" by auto
      then show ?thesis using True up [of "?f b x" xs] by simp
    next
      case False
      then show ?thesis using Cons.IH [of "?f b x"] Cons.prems by simp
    qed
  qed simp
  then show "c \<in> set cs \<Longrightarrow> ?thesis" using up [of "hd cs" "tl cs"] unfolding best_child_def by (cases cs) auto
qed

lemma total_append: "total (fs @ gs) = total fs + total gs"
  by (simp add: total_def)

lemma child_part_ge:
  assumes "c \<in> set cs"
  shows "of_int (fst c) \<le> total (own @ child_part own cs)"
proof -
  have "of_int (fst (best_child cs)) \<le> total (own @ child_part own cs)"
    using assms by (auto simp: child_part_def total_append total_def split: prod.split)
  then show ?thesis using best_child_ge [OF assms] by (meson of_int_le_iff order.trans)
qed

lemma score_asset_range: "score_asset a fs cs cfg now = Some r \<Longrightarrow> 0 \<le> rk_score r \<and> rk_score r \<le> 100 \<and> level_for (rk_score r) cfg = Some (rk_level r)"
  by (auto simp: score_asset_def result_of_def Let_def clamp_range split: Option.bind_splits)

lemma score_asset_child:
  assumes "score_asset a fs cs cfg now = Some r" "(s, name) \<in> set cs" "s \<le> 100"
  shows "s \<le> rk_score r"
proof -
  obtain own where "rk_score r = clamp (total (own @ child_part own cs))"
    using assms(1) by (auto simp: score_asset_def result_of_def Let_def split: Option.bind_splits)
  then show ?thesis using clamp_above [OF _ assms(3)] child_part_ge [OF assms(2)] by simp
qed

lemma new_score_range: "new_score org cfg now db fs known a = Some r \<Longrightarrow> 0 \<le> rk_score r \<and> rk_score r \<le> 100"
  using score_asset_range by (fastforce simp: new_score_def split: if_splits)

subsection \<open>The loop over the assets\<close>

lemma recompute_assets_append:
  "recompute_assets org scan emits baseline cfg now db fs (xs @ ys) st =
   Option.bind (recompute_assets org scan emits baseline cfg now db fs xs st) (recompute_assets org scan emits baseline cfg now db fs ys)"
  by (induction xs arbitrary: st) (simp_all split: Option.bind_split)

lemma find_update_where:
  assumes "as_id b = i"
  shows "find (\<lambda>a. as_id a = j) (update_where (\<lambda>x. as_id x = i) (\<lambda>_. b) T) =
    (if j = i then map_option (\<lambda>_. b) (find (\<lambda>a. as_id a = j) T) else find (\<lambda>a. as_id a = j) T)"
  using assms by (induction T) (auto simp: update_where_def)

lemma recompute_asset_effect:
  assumes "recompute_asset org scan emits baseline cfg now db fs a st = Some st'"
  obtains r where "new_score org cfg now db fs (rs_computed st) a = Some r"
    "rs_computed st' = dict_set (rs_computed st) (as_id a) (rk_score r)"
    "rs_rows st' = update_where (\<lambda>x. as_id x = as_id a) (\<lambda>_. scored_row org db fs r a) (rs_rows st)"
  using assms by (auto simp: recompute_asset_def split: Option.bind_splits)

lemma recompute_assets_other:
  assumes "recompute_assets org scan emits baseline cfg now db fs xs st = Some st'" "i \<notin> as_id ` set xs"
  shows "map_of (rs_computed st') i = map_of (rs_computed st) i \<and>
    find (\<lambda>a. as_id a = i) (rs_rows st') = find (\<lambda>a. as_id a = i) (rs_rows st)"
  using assms
proof (induction xs arbitrary: st)
  case (Cons a xs)
  obtain st1 where st1: "recompute_asset org scan emits baseline cfg now db fs a st = Some st1"
    "recompute_assets org scan emits baseline cfg now db fs xs st1 = Some st'"
    using Cons.prems(1) by (auto split: Option.bind_splits)
  obtain r where r: "rs_computed st1 = dict_set (rs_computed st) (as_id a) (rk_score r)"
    "rs_rows st1 = update_where (\<lambda>x. as_id x = as_id a) (\<lambda>_. scored_row org db fs r a) (rs_rows st)"
    by (rule recompute_asset_effect [OF st1(1)])
  have "as_id (scored_row org db fs r a) = as_id a" by (simp add: scored_row_def)
  then show ?case using Cons.IH [OF st1(2)] Cons.prems(2) r by (auto simp: map_of_dict_set find_update_where)
qed simp

lemma recompute_assets_at:
  assumes "recompute_assets org scan emits baseline cfg now db fs (pre @ a # post) st = Some st'" "distinct (map as_id (pre @ a # post))"
    "find (\<lambda>x. as_id x = as_id a) (rs_rows st) \<noteq> None"
  obtains st1 r where "recompute_assets org scan emits baseline cfg now db fs pre st = Some st1"
    "new_score org cfg now db fs (rs_computed st1) a = Some r" "map_of (rs_computed st') (as_id a) = Some (rk_score r)"
    "find (\<lambda>x. as_id x = as_id a) (rs_rows st') = Some (scored_row org db fs r a)"
    "\<And>i. i \<notin> as_id ` set (a # post) \<Longrightarrow> map_of (rs_computed st1) i = map_of (rs_computed st') i"
proof -
  obtain st1 st2 where st: "recompute_assets org scan emits baseline cfg now db fs pre st = Some st1"
    "recompute_asset org scan emits baseline cfg now db fs a st1 = Some st2"
    "recompute_assets org scan emits baseline cfg now db fs post st2 = Some st'"
    using assms(1) by (auto simp: recompute_assets_append split: Option.bind_splits)
  obtain r where r: "new_score org cfg now db fs (rs_computed st1) a = Some r"
    "rs_computed st2 = dict_set (rs_computed st1) (as_id a) (rk_score r)"
    "rs_rows st2 = update_where (\<lambda>x. as_id x = as_id a) (\<lambda>_. scored_row org db fs r a) (rs_rows st1)"
    by (rule recompute_asset_effect [OF st(2)])
  have id: "as_id (scored_row org db fs r a) = as_id a" by (simp add: scored_row_def)
  have pre: "as_id a \<notin> as_id ` set pre" and post: "as_id a \<notin> as_id ` set post" using assms(2) by auto
  have "find (\<lambda>x. as_id x = as_id a) (rs_rows st1) \<noteq> None" using recompute_assets_other [OF st(1) pre] assms(3) by simp
  then have "find (\<lambda>x. as_id x = as_id a) (rs_rows st2) = Some (scored_row org db fs r a)"
    by (auto simp: r(3) find_update_where [OF id])
  moreover have "map_of (rs_computed st2) (as_id a) = Some (rk_score r)" by (simp add: r(2) map_of_dict_set)
  moreover have "map_of (rs_computed st1) i = map_of (rs_computed st') i" if "i \<notin> as_id ` set (a # post)" for i
    using recompute_assets_other [OF st(3), of i] that by (simp add: r(2) map_of_dict_set)
  ultimately show thesis using that st(1) r(1) recompute_assets_other [OF st(3) post] by simp
qed

lemma recompute_organization_run:
  assumes "recompute_organization org settings scan emits baseline now db = Some (db', stats)"
  obtains cfg fs st where "sub_dict settings ''risk'' = Some cfg" "mapM_opt (rescore org cfg now db) (findings db) = Some fs"
    "recompute_assets org scan emits baseline cfg now db fs (sort_key order_key (filter (\<lambda>a. as_org a = org) (assets db)))
       \<lparr>rs_rows = assets db, rs_computed = [], rs_events = [], rs_changed = 0\<rparr> = Some st"
    "assets db' = rs_rows st"
  using assms by (auto simp: recompute_organization_def Let_def split: Option.bind_splits)

lemma find_id_unique: "distinct (map as_id T) \<Longrightarrow> a \<in> set T \<Longrightarrow> find (\<lambda>x. as_id x = as_id a) T = Some a"
  by (induction T) (auto simp: image_iff)

lemma org_asset_unique: "distinct (map as_id (assets db)) \<Longrightarrow> a \<in> set (assets db) \<Longrightarrow> as_org a = org \<Longrightarrow> org_asset org db (as_id a) = Some a"
proof -
  assume d: "distinct (map as_id (assets db))" and a: "a \<in> set (assets db)" "as_org a = org"
  have "find (\<lambda>x. as_org x = org \<and> as_id x = as_id a) T = Some a" if "distinct (map as_id T)" "a \<in> set T" for T
    using that a(2) by (induction T) (auto simp: image_iff)
  then show ?thesis using d a(1) by (simp add: org_asset_def)
qed

text \<open>An asset of the organization in the order of evaluation, with those before and after it.\<close>

lemma evaluation_split:
  assumes "distinct (map as_id (assets db))" "a \<in> set (assets db)" "as_org a = org"
  obtains pre post where "sort_key order_key (filter (\<lambda>a. as_org a = org) (assets db)) = pre @ a # post"
    "distinct (map as_id (pre @ a # post))"
    "\<And>c. c \<in> set (assets db) \<Longrightarrow> as_org c = org \<Longrightarrow> order_key c < order_key a \<Longrightarrow> c \<in> set pre \<and> as_id c \<notin> as_id ` set (a # post)"
proof -
  let ?xs = "sort_key order_key (filter (\<lambda>a. as_org a = org) (assets db))"
  have d: "distinct (map as_id ?xs)"
    using assms(1) by (simp add: distinct_map inj_on_def)
  obtain pre post where xs: "?xs = pre @ a # post" using split_list [of a ?xs] assms(2,3) by auto
  have "sorted (map order_key (pre @ a # post))" using sorted_sort_key [of order_key] xs by metis
  then have ge: "order_key a \<le> order_key x" if "x \<in> set (a # post)" for x using that by (auto simp: sorted_append)
  have "c \<in> set pre \<and> as_id c \<notin> as_id ` set (a # post)" if "c \<in> set (assets db)" "as_org c = org" "order_key c < order_key a" for c
  proof -
    have "c \<in> set ?xs" using that by simp
    then have "c \<in> set pre" using xs ge [of c] that(3) by auto
    then show ?thesis using d unfolding xs by (auto simp: image_iff)
  qed
  then show thesis using that [OF xs] d xs by simp
qed

lemma recompute_row:
  assumes "recompute_organization org settings scan emits baseline now db = Some (db', stats)" "distinct (map as_id (assets db))"
    "a \<in> set (assets db)" "as_org a = org"
  obtains cfg fs r known where "sub_dict settings ''risk'' = Some cfg" "new_score org cfg now db fs known a = Some r"
    "get_asset db' (as_id a) = Some (scored_row org db fs r a)"
    "\<And>c. c \<in> set (assets db) \<Longrightarrow> as_org c = org \<Longrightarrow> order_key c < order_key a \<Longrightarrow>
       map_of known (as_id c) = map_option as_risk_score (get_asset db' (as_id c))"
proof -
  obtain cfg fs st where run: "sub_dict settings ''risk'' = Some cfg"
    "recompute_assets org scan emits baseline cfg now db fs (sort_key order_key (filter (\<lambda>a. as_org a = org) (assets db)))
       \<lparr>rs_rows = assets db, rs_computed = [], rs_events = [], rs_changed = 0\<rparr> = Some st" "assets db' = rs_rows st"
    by (rule recompute_organization_run [OF assms(1)])
  have found: "find (\<lambda>x. as_id x = as_id b) (assets db) \<noteq> None" if "b \<in> set (assets db)" for b
    using find_id_unique [OF assms(2) that] by simp
  have at: "\<exists>r. map_of (rs_computed st) (as_id b) = Some (rk_score r) \<and> get_asset db' (as_id b) = Some (scored_row org db fs r b)"
    if b: "b \<in> set (assets db)" "as_org b = org" for b
  proof -
    obtain pre post where s: "sort_key order_key (filter (\<lambda>a. as_org a = org) (assets db)) = pre @ b # post" "distinct (map as_id (pre @ b # post))"
      by (rule evaluation_split [OF assms(2) b])
    show ?thesis by (rule recompute_assets_at [OF run(2) [unfolded s(1)] s(2)]) (use found [OF b(1)] run(3) in \<open>auto simp: get_asset_def\<close>)
  qed
  obtain pre post where s: "sort_key order_key (filter (\<lambda>a. as_org a = org) (assets db)) = pre @ a # post" "distinct (map as_id (pre @ a # post))"
    and before: "\<And>c. c \<in> set (assets db) \<Longrightarrow> as_org c = org \<Longrightarrow> order_key c < order_key a \<Longrightarrow> c \<in> set pre \<and> as_id c \<notin> as_id ` set (a # post)"
    by (rule evaluation_split [OF assms(2-4)]) blast
  show thesis
  proof (rule recompute_assets_at [OF run(2) [unfolded s(1)] s(2)])
    show "find (\<lambda>x. as_id x = as_id a) (rs_rows \<lparr>rs_rows = assets db, rs_computed = [], rs_events = [], rs_changed = 0\<rparr>) \<noteq> None"
      using found [OF assms(3)] by simp
  next
    fix st1 r assume r: "new_score org cfg now db fs (rs_computed st1) a = Some r"
      "find (\<lambda>x. as_id x = as_id a) (rs_rows st) = Some (scored_row org db fs r a)"
      "\<And>i. i \<notin> as_id ` set (a # post) \<Longrightarrow> map_of (rs_computed st1) i = map_of (rs_computed st) i"
    have "map_of (rs_computed st1) (as_id c) = map_option as_risk_score (get_asset db' (as_id c))"
      if c: "c \<in> set (assets db)" "as_org c = org" "order_key c < order_key a" for c
      using r(3) before [OF c] at [OF c(1,2)] by (auto simp: scored_row_def)
    then show thesis using that [OF run(1) r(1)] r(2) run(3) by (simp add: get_asset_def)
  qed
qed

subsection \<open>Unverified reports\<close>

definition without_unverified :: "inventory \<Rightarrow> inventory" where
  "without_unverified db = db\<lparr>findings := filter (\<lambda>f. \<not> fi_unverified f) (findings db)\<rparr>"

lemma mapM_opt_filter:
  assumes "mapM_opt g xs = Some ys" "\<And>x y. g x = Some y \<Longrightarrow> P y = P x"
  shows "mapM_opt g (filter P xs) = Some (filter P ys)"
  using assms
proof (induction xs arbitrary: ys)
  case (Cons x xs)
  then show ?case by (auto split: option.splits)
qed simp

lemma rescore_unverified: "rescore org cfg now db f = Some g \<Longrightarrow> fi_unverified g = fi_unverified f"
  by (auto simp: rescore_def split: option.splits)

lemma org_asset_findings [simp]: "org_asset org (without_unverified db) i = org_asset org db i"
  by (simp add: org_asset_def without_unverified_def)

lemma rescore_findings [simp]: "rescore org cfg now (without_unverified db) = rescore org cfg now db"
  by (simp add: rescore_def fun_eq_iff cong: option.case_cong)

lemma by_asset_unverified: "by_asset org (without_unverified db) (filter (\<lambda>f. \<not> fi_unverified f) fs) i = by_asset org db fs i"
proof -
  have "filter (counts_for org (without_unverified db) i) (filter (\<lambda>f. \<not> fi_unverified f) fs) = filter (counts_for org db i) fs"
    unfolding filter_filter by (rule filter_cong) (auto simp: counts_for_def)
  then show ?thesis by (simp only: by_asset_def)
qed

lemma recompute_asset_unverified:
  "recompute_asset org scan emits baseline cfg now (without_unverified db) (filter (\<lambda>f. \<not> fi_unverified f) fs) =
   recompute_asset org scan emits baseline cfg now db fs"
proof -
  have "child_scores org (without_unverified db) known i = child_scores org db known i" for known i
    by (simp add: child_scores_def rollup_children_def) (simp add: without_unverified_def)
  then show ?thesis by (simp add: fun_eq_iff recompute_asset_def new_score_def scored_row_def by_asset_unverified)
qed

lemma recompute_assets_unverified:
  "recompute_assets org scan emits baseline cfg now (without_unverified db) (filter (\<lambda>f. \<not> fi_unverified f) fs) xs st =
   recompute_assets org scan emits baseline cfg now db fs xs st"
  by (induction xs arbitrary: st) (simp_all add: recompute_asset_unverified cong: Option.bind_cong)

subsection \<open>Correctness\<close>

definition example_ip :: asset where
  "example_ip = example_asset\<lparr>as_id := 8, as_type := asset_type.IP_ADDRESS, as_value := ''192.0.2.1'', as_norm := ''192.0.2.1''\<rparr>"

definition example_rel :: relationship where
  "example_rel = \<lparr>rl_id = 6, rl_tenant = 3, rl_org = 5, rl_source_asset = 9, rl_target_asset = 8, rl_type = relation_type.RESOLVES_TO,
     rl_active = True, rl_missed = 0, rl_first_seen = 0, rl_last_seen = 0, rl_source = None, rl_attributes = []\<rparr>"

definition risk_inventory :: inventory where
  "risk_inventory = empty_inventory\<lparr>assets := [example_asset, example_ip], relationships := [example_rel],
     findings := [example_finding\<lparr>fi_asset := 8\<rparr>, example_finding\<lparr>fi_id := 6, fi_unverified := True\<rparr>]\<rparr>"

lemma risk_run:
  "map_option (\<lambda>(db, _). map as_risk_score (assets db))
     (recompute_organization 5 DEFAULT_TENANT_SETTINGS None True False 0 risk_inventory) = Some [18, 18]"
  by code_simp

lemma risk_example:
  "distinct (map as_id (assets risk_inventory))" "example_asset \<in> set (assets risk_inventory)" "example_ip \<in> set (assets risk_inventory)"
  "as_org example_asset = 5" "as_status example_asset = asset_status.ACTIVE" "as_id example_asset = 9"
  by (simp_all add: risk_inventory_def example_ip_def example_defs)

text \<open>
  C26: risk rolls up. When the scores of an organization are recomputed, an active asset scores at least as high as every
  asset that it serves, exposes, runs or resolves to and that is evaluated before it.
\<close>

theorem risk_rolls_up:
  assumes "recompute_organization org settings scan emits baseline now db = Some (db', stats)" "distinct (map as_id (assets db))"
    "rel \<in> set (relationships db)" "rl_org rel = org" "rl_active rel" "rl_type rel \<in> set ROLLUP"
    "a \<in> set (assets db)" "as_id a = rl_source_asset rel" "as_org a = org" "as_status a = asset_status.ACTIVE"
    "c \<in> set (assets db)" "as_id c = rl_target_asset rel" "as_org c = org" "order_key c < order_key a"
  shows "\<exists>a' c'. get_asset db' (as_id a) = Some a' \<and> get_asset db' (as_id c) = Some c' \<and> as_risk_score c' \<le> as_risk_score a'"
proof -
  obtain cfg fs r known where r: "new_score org cfg now db fs known a = Some r" "get_asset db' (as_id a) = Some (scored_row org db fs r a)"
    and before: "\<And>c. c \<in> set (assets db) \<Longrightarrow> as_org c = org \<Longrightarrow> order_key c < order_key a \<Longrightarrow>
       map_of known (as_id c) = map_option as_risk_score (get_asset db' (as_id c))"
    by (rule recompute_row [OF assms(1,2,7,9)]) blast
  obtain cfg' fs' r' known' where r': "new_score org cfg' now db fs' known' c = Some r'" "get_asset db' (as_id c) = Some (scored_row org db fs' r' c)"
    by (rule recompute_row [OF assms(1,2,11,13)]) blast
  have k: "map_of known (as_id c) = Some (rk_score r')" using before [OF assms(11,13,14)] r'(2) by (simp add: scored_row_def)
  have "as_id c \<in> set (rollup_children org db (as_id a))" using assms(3-6,8,12) by (auto simp: rollup_children_def)
  then have "(rk_score r', as_value c) \<in> set (child_scores org db known (as_id a))"
    using k org_asset_unique [OF assms(2,11,13)] by (auto simp: child_scores_def List.map_filter_def image_iff intro!: bexI [of _ "as_id c"])
  moreover have "score_asset a (by_asset org db fs (as_id a)) (child_scores org db known (as_id a)) cfg now = Some r"
    using r(1) assms(10) by (simp add: new_score_def)
  ultimately have "rk_score r' \<le> rk_score r" using score_asset_child new_score_range [OF r'(1)] by blast
  then show ?thesis using r(2) r'(2) by (simp add: scored_row_def)
qed

theorem risk_rolls_up_witness:
  "\<exists>db' stats a' c'. recompute_organization 5 DEFAULT_TENANT_SETTINGS None True False 0 risk_inventory = Some (db', stats) \<and>
     get_asset db' 9 = Some a' \<and> get_asset db' 8 = Some c' \<and> as_risk_score c' \<le> as_risk_score a'"
proof -
  obtain db' stats where run: "recompute_organization 5 DEFAULT_TENANT_SETTINGS None True False 0 risk_inventory = Some (db', stats)"
    using risk_run by auto
  have rel: "example_rel \<in> set (relationships risk_inventory)" "rl_org example_rel = 5" "rl_active example_rel"
    "rl_type example_rel \<in> set ROLLUP" "as_id example_asset = rl_source_asset example_rel" "as_id example_ip = rl_target_asset example_rel"
    "as_org example_ip = 5" "as_id example_ip = 8"
    by (simp_all add: risk_inventory_def example_rel_def example_ip_def ROLLUP_def example_defs)
  have "order_key example_ip < order_key example_asset" by code_simp
  from risk_rolls_up [OF run risk_example(1) rel(1-4) risk_example(2) rel(5) risk_example(4,5) risk_example(3) rel(6,7) this]
  show ?thesis using run rel(8) risk_example(6) by auto
qed

text \<open>
  the scores of an organization. After they are recomputed every asset of it scores between 0 and 100 with the level
  of the configured thresholds, and an asset that is not active scores nothing.
\<close>

theorem risk_scores_in_range:
  assumes "recompute_organization org settings scan emits baseline now db = Some (db', stats)" "distinct (map as_id (assets db))"
    "a \<in> set (assets db)" "as_org a = org"
  shows "\<exists>b cfg. get_asset db' (as_id a) = Some b \<and> sub_dict settings ''risk'' = Some cfg \<and>
    0 \<le> as_risk_score b \<and> as_risk_score b \<le> 100 \<and>
    (if as_status a = asset_status.ACTIVE then level_for (as_risk_score b) cfg = Some (as_risk_level b)
     else as_risk_score b = 0 \<and> as_risk_level b = risk_level.INFO)"
proof -
  obtain cfg fs r known where r: "sub_dict settings ''risk'' = Some cfg" "new_score org cfg now db fs known a = Some r"
    "get_asset db' (as_id a) = Some (scored_row org db fs r a)"
    by (rule recompute_row [OF assms]) blast
  have "if as_status a = asset_status.ACTIVE then level_for (rk_score r) cfg = Some (rk_level r)
    else rk_score r = 0 \<and> rk_level r = risk_level.INFO"
    using r(2) score_asset_range by (auto simp: new_score_def)
  then show ?thesis using r new_score_range [OF r(2)] by (simp add: scored_row_def)
qed

theorem risk_scores_in_range_witness:
  "\<exists>db' stats b. recompute_organization 5 DEFAULT_TENANT_SETTINGS None True False 0 risk_inventory = Some (db', stats) \<and>
     get_asset db' 9 = Some b \<and> 0 \<le> as_risk_score b \<and> as_risk_score b \<le> 100"
proof -
  obtain db' stats where run: "recompute_organization 5 DEFAULT_TENANT_SETTINGS None True False 0 risk_inventory = Some (db', stats)"
    using risk_run by auto
  from risk_scores_in_range [OF run risk_example(1,2,4)] show ?thesis using run risk_example(6) by auto
qed

text \<open>
  C25: unverified third-party reports never move risk scores: without them the recomputation returns as well, and every asset
  gets the same score, level, factors and number of open findings.
\<close>

theorem unverified_never_scored:
  assumes "recompute_organization org settings scan emits baseline now db = Some (db', stats)"
  shows "\<exists>db'' stats'. recompute_organization org settings scan emits baseline now (without_unverified db) = Some (db'', stats') \<and>
    assets db'' = assets db' \<and> asset_events db'' = asset_events db'"
proof -
  obtain cfg fs st where run: "sub_dict settings ''risk'' = Some cfg" "mapM_opt (rescore org cfg now db) (findings db) = Some fs"
    "recompute_assets org scan emits baseline cfg now db fs (sort_key order_key (filter (\<lambda>a. as_org a = org) (assets db)))
       \<lparr>rs_rows = assets db, rs_computed = [], rs_events = [], rs_changed = 0\<rparr> = Some st"
    and db': "assets db' = rs_rows st" "asset_events db' = asset_events db @ rs_events st"
    using assms by (auto simp: recompute_organization_def Let_def split: Option.bind_splits)
  have m: "mapM_opt (rescore org cfg now db) (filter (\<lambda>f. \<not> fi_unverified f) (findings db)) = Some (filter (\<lambda>f. \<not> fi_unverified f) fs)"
    by (rule mapM_opt_filter [OF run(2)]) (simp add: rescore_unverified)
  have "assets (without_unverified db) = assets db" "asset_events (without_unverified db) = asset_events db"
    "findings (without_unverified db) = filter (\<lambda>f. \<not> fi_unverified f) (findings db)"
    by (simp_all add: without_unverified_def)
  then show ?thesis using run(1,3) m db' by (simp add: recompute_organization_def Let_def recompute_assets_unverified)
qed

theorem unverified_never_scored_witness:
  "\<exists>db' stats db'' stats'. recompute_organization 5 DEFAULT_TENANT_SETTINGS None True False 0 risk_inventory = Some (db', stats) \<and>
     recompute_organization 5 DEFAULT_TENANT_SETTINGS None True False 0 (without_unverified risk_inventory) = Some (db'', stats') \<and>
     assets db'' = assets db'"
proof -
  obtain db' stats where run: "recompute_organization 5 DEFAULT_TENANT_SETTINGS None True False 0 risk_inventory = Some (db', stats)"
    using risk_run by auto
  from unverified_never_scored [OF run] run show ?thesis by auto
qed

text \<open>A finding that is reported with no confidence at all is scored like one of full confidence.\<close>

lemma no_confidence_is_full:
  assumes "fi_confidence f = 0"
  shows "score_finding f a cfg now = score_finding (f\<lparr>fi_confidence := 100\<rparr>) a cfg now"
proof -
  have "finding_factors (f\<lparr>fi_confidence := 100\<rparr>) a cfg now = finding_factors f a cfg now"
  proof -
    let ?g = "f\<lparr>fi_confidence := 100\<rparr>"
    have g: "fi_severity ?g = fi_severity f" "fi_cvss_score ?g = fi_cvss_score f" by simp_all
    have "severity_factor ?g cfg = severity_factor f cfg" unfolding severity_factor_def g ..
    moreover have "exploit_factors ?g cfg = exploit_factors f cfg" "epss_factors ?g cfg = epss_factors f cfg"
      "panel_factors ?g cfg = panel_factors f cfg" "age_factors ?g cfg now = age_factors f cfg now"
      by (simp_all add: exploit_factors_def epss_factors_def panel_factors_def age_factors_def fun_eq_iff)
    ultimately show ?thesis by (simp only: finding_factors_def)
  qed
  moreover have "confidence_of f = confidence_of (f\<lparr>fi_confidence := 100\<rparr>)" using assms by (simp add: confidence_of_def)
  ultimately show ?thesis by (simp only: score_finding_def)
qed

end
