(* ===== verification/Platform.thy ===== *)
theory Platform
  imports Inventory Normalization ScopeChecker Settings
begin

text \<open>
  The tables around the inventory: plans, tenants, organizations and usage
  (\<open>backend/app/models/tenancy.py\<close>), scope entries (\<open>models/scope.py\<close>), profiles, scans, stages, decisions,
  artifacts and schedules (\<open>models/scans.py\<close>); and what a service function reads beside the database: the
  deployment (settings, libraries) and the call (time, request, fresh random values). Times at which
  a row was created are kept where a query reads them.
\<close>

record plan =
  pn_id :: uuid
  pn_code :: string
  pn_name :: string
  pn_max_organizations :: "int option"
  pn_max_assets :: "int option"
  pn_max_users :: "int option"
  pn_max_scans_per_day :: "int option"
  pn_max_concurrent_scans :: int
  pn_allow_active_scanning :: bool
  pn_is_default :: bool

record tenant_row =
  tn_id :: uuid
  tn_name :: string
  tn_slug :: string
  tn_status :: tenant_status
  tn_plan_id :: "uuid option"
  tn_worker_pool :: string
  tn_data_region :: string
  tn_settings :: attrs

record organization =
  og_id :: uuid
  og_tenant :: uuid
  og_name :: string
  og_settings :: attrs
  og_baseline_completed_at :: "time option"
  og_is_active :: bool

record member_row =
  mb_tenant :: uuid
  mb_active :: bool

record usage_record =
  us_tenant :: uuid
  us_metric :: string
  us_quantity :: int
  us_reference :: "uuid option"
  us_details :: attrs

record scope_entry =
  se_id :: uuid
  se_tenant :: uuid
  se_org :: uuid
  se_type :: scope_entry_type
  se_value :: string
  se_subdomains :: bool
  se_exclusion :: bool
  se_active :: bool
  se_verification :: verification_status
  se_token :: "string option"
  se_verified_at :: "time option"
  se_notes :: "string option"
  se_created_by :: "uuid option"

text \<open>A stage of a profile: the dictionary that \<open>validate_stages\<close> gives, with its keys as fields.\<close>

record stage_spec =
  sp_stage :: stage_type
  sp_engine :: string
  sp_config :: attrs
  sp_enabled :: bool
  sp_optional :: bool
  sp_active :: bool

record scan_profile =
  pr_id :: uuid
  pr_tenant :: "uuid option"
  pr_slug :: string
  pr_name :: string
  pr_stages :: "stage_spec list"
  pr_retain_raw :: bool

record scan_stage =
  sg_id :: uuid
  sg_scan :: uuid
  sg_position :: int
  sg_type :: stage_type
  sg_engine :: string
  sg_config :: attrs
  sg_status :: stage_status
  sg_is_active :: bool
  sg_target_count :: int
  sg_rejected_count :: int
  sg_observation_count :: int
  sg_task :: "string option"
  sg_pool :: "string option"
  sg_dispatched_at :: "time option"
  sg_started_at :: "time option"
  sg_finished_at :: "time option"
  sg_tool_version :: "string option"
  sg_stats :: attrs
  sg_error :: "string option"

text \<open>A scan owns its stages, ordered by their position.\<close>

record scan =
  sc_id :: uuid
  sc_tenant :: uuid
  sc_org :: uuid
  sc_profile :: "uuid option"
  sc_profile_name :: string
  sc_retain_raw :: bool
  sc_status :: scan_status
  sc_trigger :: scan_trigger
  sc_requested_by :: "uuid option"
  sc_schedule :: "uuid option"
  sc_override :: "string list option"
  sc_created_at :: time
  sc_started_at :: "time option"
  sc_finished_at :: "time option"
  sc_stats :: "(string, int) dict"
  sc_error :: "string option"
  sc_is_baseline :: bool
  sc_secret :: "string option"
  sc_header :: "string option"
  sc_stages :: "scan_stage list"

record scope_decision =
  sd_tenant :: uuid
  sd_scan :: uuid
  sd_stage :: uuid
  sd_target :: string
  sd_allowed :: bool
  sd_reason :: string
  sd_entry :: "uuid option"
  sd_active :: bool

record scan_artifact =
  ar_scan :: uuid
  ar_stage :: uuid
  ar_name :: string
  ar_key :: string
  ar_size :: int
  ar_sha256 :: string
  ar_truncated :: bool
  ar_expires_at :: time

record scan_schedule =
  sh_id :: uuid
  sh_tenant :: uuid
  sh_org :: uuid
  sh_profile :: uuid
  sh_cron :: string
  sh_timezone :: string
  sh_enabled :: bool
  sh_next_run_at :: "time option"
  sh_last_run_at :: "time option"
  sh_last_scan :: "uuid option"

record metric_snapshot =
  ms_tenant :: uuid
  ms_org :: uuid
  ms_day :: int
  ms_total_assets :: int
  ms_active_assets :: int
  ms_new_assets :: int
  ms_unknown_assets :: int
  ms_open_findings :: "(severity, int) dict"
  ms_risk_score :: int

record platform =
  pl_plans :: "plan list"
  pl_tenants :: "tenant_row list"
  pl_orgs :: "organization list"
  pl_members :: "member_row list"
  pl_usage :: "usage_record list"
  pl_entries :: "scope_entry list"
  pl_profiles :: "scan_profile list"
  pl_scans :: "scan list"
  pl_decisions :: "scope_decision list"
  pl_artifacts :: "scan_artifact list"
  pl_schedules :: "scan_schedule list"
  pl_snapshots :: "metric_snapshot list"
  pl_inv :: inventory

subsection \<open>What surrounds the database\<close>

text \<open>
  An engine as the orchestrator sees it (\<open>ScannerAdapter\<close>). A parsed configuration is its dump without the defaults;
  \<open>ad_parse\<close> is \<^const>\<open>None\<close> where \<open>parse_config\<close> raises.
\<close>

record adapter =
  ad_name :: string
  ad_display :: string
  ad_stage_types :: "stage_type list"
  ad_parse :: "attrs \<Rightarrow> attrs option"
  ad_active :: "attrs \<Rightarrow> bool"
  ad_providers :: "string list"
  ad_crawled_pages :: bool
  ad_header_option :: bool

text \<open>
  The deployment: settings of \<open>core/config.py\<close> and code outside the model. \<open>dp_encrypt\<close> and \<open>dp_decrypt\<close>
  take the associated data, \<open>dp_seal\<close> the job and the pool; \<open>dp_hmac\<close> is the hexadecimal HMAC under the secret key; \<open>dp_credentials\<close> reads the tenant's stored
  secrets; \<open>dp_friendly\<close> is \<open>messages.friendly\<close>; \<open>dp_store\<close> says whether the object store kept an object;
  \<open>dp_threats\<close> is what \<open>threats.on_scan_finished\<close> makes of the inventory (\<^const>\<open>None\<close> when it raises).
\<close>

record deployment =
  dp_unicode :: unicode
  dp_sha256 :: "string \<Rightarrow> string"
  dp_registered :: "string \<Rightarrow> string option"
  dp_adapters :: "adapter list"
  dp_hmac :: "string \<Rightarrow> string"
  dp_encrypt :: "string \<Rightarrow> string \<Rightarrow> string"
  dp_decrypt :: "string \<Rightarrow> string \<Rightarrow> string option"
  dp_seal :: "(string, string list) dict \<Rightarrow> string \<Rightarrow> string \<Rightarrow> string"
  dp_credentials :: "uuid \<Rightarrow> string list \<Rightarrow> (string, string list) dict"
  dp_friendly :: "string list \<Rightarrow> string \<Rightarrow> string option"
  dp_store :: "string \<Rightarrow> bool"
  dp_threats :: "uuid \<Rightarrow> bool \<Rightarrow> inventory \<Rightarrow> inventory option"
  dp_allow_non_public :: bool
  dp_require_verification :: bool
  dp_worker_pools :: "string list"
  dp_per_tenant :: bool
  dp_max_concurrent :: int
  dp_max_targets :: nat
  dp_stage_timeout :: int
  dp_retention_days :: int
  dp_data_region :: string

text \<open>One call: its time, its request, and the values it draws at random (a token, a job identifier).\<close>

record call =
  cl_now :: time
  cl_context :: request_context
  cl_random :: string

text \<open>An exception that leaves a service: an error of the application, or any other one.\<close>

datatype fault = Refused app_error | Crashed

definition need :: "'a option \<Rightarrow> fault + 'a" where
  "need x = (case x of None \<Rightarrow> Inl Crashed | Some y \<Rightarrow> Inr y)"

definition found :: "string \<Rightarrow> 'a option \<Rightarrow> fault + 'a" where
  "found msg x = (case x of None \<Rightarrow> Inl (Refused (NotFound msg)) | Some y \<Rightarrow> Inr y)"

definition ensure :: "bool \<Rightarrow> app_error \<Rightarrow> fault + 'a \<Rightarrow> fault + 'a" where
  "ensure b e k = (if b then k else Inl (Refused e))"

lemma need_simps [simp]: "need None = Inl Crashed" "need (Some y) = Inr y"
  by (simp_all add: need_def)

lemma need_Inr [simp]: "need x = Inr y \<longleftrightarrow> x = Some y"
  by (cases x) simp_all

lemma found_simps [simp]: "found m None = Inl (Refused (NotFound m))" "found m (Some y) = Inr y"
  by (simp_all add: found_def)

lemma found_Inr [simp]: "found m x = Inr y \<longleftrightarrow> x = Some y"
  by (cases x) simp_all

lemma ensure_Inr [simp]: "ensure b e k = Inr y \<longleftrightarrow> b \<and> k = Inr y"
  by (simp add: ensure_def)

text \<open>\<open>get_adapter\<close>: an unknown engine raises.\<close>

definition get_adapter :: "deployment \<Rightarrow> string \<Rightarrow> adapter option" where
  "get_adapter D name = find (\<lambda>a. ad_name a = name) (dp_adapters D)"

definition get_tenant :: "platform \<Rightarrow> uuid \<Rightarrow> tenant_row option" where
  "get_tenant pl i = find (\<lambda>t. tn_id t = i) (pl_tenants pl)"

definition get_org :: "platform \<Rightarrow> uuid \<Rightarrow> organization option" where
  "get_org pl i = find (\<lambda>g. og_id g = i) (pl_orgs pl)"

definition get_entry :: "platform \<Rightarrow> uuid \<Rightarrow> scope_entry option" where
  "get_entry pl i = find (\<lambda>e. se_id e = i) (pl_entries pl)"

definition get_scan :: "platform \<Rightarrow> uuid \<Rightarrow> scan option" where
  "get_scan pl i = find (\<lambda>s. sc_id s = i) (pl_scans pl)"

definition put_scan :: "scan \<Rightarrow> platform \<Rightarrow> platform" where
  "put_scan s pl = pl\<lparr>pl_scans := update_where (\<lambda>x. sc_id x = sc_id s) (\<lambda>_. s) (pl_scans pl)\<rparr>"

text \<open>\<open>audit.record\<close> in the same transaction.\<close>

definition audited :: "deployment \<Rightarrow> call \<Rightarrow> audit_args \<Rightarrow> platform \<Rightarrow> platform" where
  "audited D c a pl = pl\<lparr>pl_inv := (pl_inv pl)\<lparr>trail := record_entry (dp_sha256 D) (cl_context c) (cl_now c) a (trail (pl_inv pl))\<rparr>\<rparr>"

lemma audited_simps [simp]:
  "pl_plans (audited D c a pl) = pl_plans pl" "pl_tenants (audited D c a pl) = pl_tenants pl"
  "pl_orgs (audited D c a pl) = pl_orgs pl" "pl_entries (audited D c a pl) = pl_entries pl"
  "pl_scans (audited D c a pl) = pl_scans pl" "pl_decisions (audited D c a pl) = pl_decisions pl"
  "assets (pl_inv (audited D c a pl)) = assets (pl_inv pl)" "next_id (pl_inv (audited D c a pl)) = next_id (pl_inv pl)"
  by (simp_all add: audited_def)

text \<open>The settings of a tenant that may be missing.\<close>

definition settings_of :: "deployment \<Rightarrow> tenant_row option \<Rightarrow> attrs option" where
  "settings_of D t = tenant_settings (dp_require_verification D) (case t of None \<Rightarrow> [] | Some r \<Rightarrow> tn_settings r)"

end
