(* ===== verification/ScopeService.thy ===== *)
theory ScopeService
  imports Platform
begin

text \<open>
  Management of the authorized scope (\<open>backend/app/scope/service.py\<close>): validation of entries, the checker of
  an organization, the entries as assets, re-scoping after a change, and the proof of ownership.
\<close>

definition VERIFY_PREFIX :: string where
  "VERIFY_PREFIX = ''_exteriq-asm''"

definition VERIFY_VALUE :: string where
  "VERIFY_VALUE = ''exteriq-asm-verification=''"

definition LEGACY_VERIFY :: "string \<times> string" where
  "LEGACY_VERIFY = (''_alrasedah-asm'', ''alrasedah-asm-verification='')"

definition WILDCARD :: string where
  "WILDCARD = ''*.''"

text \<open>The dash of the message is a character of three bytes.\<close>

definition parse_domain :: "string \<Rightarrow> fault + string \<times> bool" where
  "parse_domain value =
     (let v = rstrip_by (\<lambda>c. c = CHR ''.'') (lower (strip value)) in
      if CHR ''*'' \<notin> set v then Inr (v, False)
      else if \<not> startswith v WILDCARD \<or> CHR ''*'' \<in> set (drop (length WILDCARD) v)
      then Inl (Refused (ValidationFailed (CHR 0x27 # value @ CHR 0x27 # '' is not a valid wildcard. Write it as *.example.com '' @
             [CHR 0xE2, CHR 0x80, CHR 0x94] @ '' the wildcard can only replace the first label.'')))
      else (let host = drop (length WILDCARD) v in
            if host = [] then Inl (Refused (ValidationFailed ''Enter a domain after the wildcard, for example *.example.com''))
            else Inr (host, True)))"

definition invalid_entry :: "string \<Rightarrow> string \<Rightarrow> fault + 'a" where
  "invalid_entry value why = Inl (Refused (ValidationFailed (CHR 0x27 # value @ CHR 0x27 # '' '' @ why)))"

definition MAX_PREFIX :: "ip_net \<Rightarrow> nat" where
  "MAX_PREFIX net = (if net_ver net = V4 then 16 else 48)"

definition normalize_entry :: "deployment \<Rightarrow> scope_entry_type \<Rightarrow> string \<Rightarrow> fault + string" where
  "normalize_entry D t value =
     (let v = strip value in
      case t of
        scope_entry_type.DOMAIN \<Rightarrow>
          bind_r (parse_domain v) (\<lambda>(candidate, _).
            case normalize_hostname (dp_unicode D) candidate of
              None \<Rightarrow> invalid_entry value ''is not a valid domain name''
            | Some host \<Rightarrow>
                if host = [] then invalid_entry value ''is not a valid domain name''
                else if dp_registered D host = None then invalid_entry value ''is a public suffix and cannot be claimed''
                else Inr host)
      | scope_entry_type.IP \<Rightarrow>
          (case ip_address v of
             None \<Rightarrow> invalid_entry value ''is not a valid IP address''
           | Some a \<Rightarrow>
               ensure (is_global a \<or> dp_allow_non_public D)
                 (ValidationFailed ''Only publicly routable addresses can be in external scope'') (Inr (show_ip a)))
      | scope_entry_type.CIDR \<Rightarrow>
          (case ip_network v of
             None \<Rightarrow> invalid_entry value ''is not a valid CIDR range''
           | Some net \<Rightarrow>
               ensure (MAX_PREFIX net \<le> prefixlen net)
                 (ValidationFailed (''CIDR ranges larger than /'' @ show_nat (MAX_PREFIX net) @ '' are not accepted; split the range''))
                 (ensure (net_is_global net \<or> dp_allow_non_public D)
                    (ValidationFailed ''Only publicly routable ranges can be in external scope'') (Inr (show_net net)))))"

subsection \<open>The checker of an organization\<close>

definition from_entry :: "scope_entry \<Rightarrow> scope_rule" where
  "from_entry e =
     \<lparr>rule_id = Some (se_id e), rule_type = se_type e, rule_value = se_value e, include_subdomains = se_subdomains e,
      is_exclusion = se_exclusion e, allow_active_scanning = se_active e,
      verified = (se_verification e = verification_status.VERIFIED)\<rparr>"

definition entries_of :: "platform \<Rightarrow> uuid \<Rightarrow> scope_entry list" where
  "entries_of pl org = filter (\<lambda>e. se_org e = org) (pl_entries pl)"

text \<open>\<open>bool(tenant_settings(tenant)["scanning"].get("require_scope_verification"))\<close>\<close>

definition verification_required :: "deployment \<Rightarrow> tenant_row option \<Rightarrow> bool option" where
  "verification_required D t =
     (case settings_of D t of
        None \<Rightarrow> None
      | Some ts \<Rightarrow> (case jget ts ''scanning'' of JObj s \<Rightarrow> Some (jtruthy (jget s ''require_scope_verification'')) | _ \<Rightarrow> None))"

definition load_checker :: "deployment \<Rightarrow> platform \<Rightarrow> organization \<Rightarrow> checker option" where
  "load_checker D pl g =
     (case verification_required D (get_tenant pl (og_tenant g)) of
        None \<Rightarrow> None
      | Some req \<Rightarrow>
          mk_checker (map from_entry (entries_of pl (og_id g))) req
            (jtruthy (get_or (org_settings (og_settings g)) ''derived_ip_scanning'' (JBool True))) (dp_allow_non_public D))"

subsection \<open>Assets of the scope\<close>

definition scope_asset :: "organization \<Rightarrow> uuid \<Rightarrow> asset_type \<Rightarrow> string \<Rightarrow> time \<Rightarrow> asset" where
  "scope_asset g i t value now =
     \<lparr>as_id = i, as_tenant = og_tenant g, as_org = og_id g, as_type = t, as_value = value, as_norm = value,
      as_status = asset_status.ACTIVE, as_scope = scope_status.IN_SCOPE, as_first_seen = now, as_last_seen = now,
      as_discovered_at = now, as_last_scanned_at = None, as_inactive_since = None, as_missed = 0,
      as_source = Some ''scope'', as_sources = [''scope''], as_method = Some ''scope'', as_confidence = 100,
      as_owner = None, as_business_unit = None, as_criticality = criticality.MEDIUM, as_approval = approval_status.APPROVED,
      as_tags = [], as_notes = None, as_risk_score = 0, as_risk_level = risk_level.INFO, as_risk_factors = [],
      as_open_findings = 0, as_meta = []\<rparr>"

definition declare_in_scope :: "asset \<Rightarrow> asset" where
  "declare_in_scope a = a\<lparr>as_scope := scope_status.IN_SCOPE,
     as_approval := (if as_approval a = approval_status.UNVERIFIED then approval_status.APPROVED else as_approval a)\<rparr>"

definition upsert_scope_asset :: "organization \<Rightarrow> time \<Rightarrow> asset_type \<Rightarrow> string \<Rightarrow> inventory \<Rightarrow> inventory" where
  "upsert_scope_asset g now t value db =
     (case find (\<lambda>a. as_org a = og_id g \<and> as_type a = t \<and> as_norm a = value) (assets db) of
        None \<Rightarrow> add_asset (scope_asset g (next_id db) t value now) db
      | Some a \<Rightarrow> put_asset (declare_in_scope a) db)"

definition promote_host :: "organization \<Rightarrow> string \<Rightarrow> inventory \<Rightarrow> inventory" where
  "promote_host g value db =
     (case find (\<lambda>a. as_org a = og_id g \<and> as_norm a = value \<and> as_type a \<in> set HOSTNAME_TYPES) (assets db) of
        None \<Rightarrow> db
      | Some a \<Rightarrow> put_asset (a\<lparr>as_type := asset_type.ROOT_DOMAIN\<rparr>) db)"

definition sync_entry :: "organization \<Rightarrow> time \<Rightarrow> scope_entry \<Rightarrow> inventory \<Rightarrow> inventory" where
  "sync_entry g now e db =
     (case se_type e of
        scope_entry_type.DOMAIN \<Rightarrow> upsert_scope_asset g now asset_type.ROOT_DOMAIN (se_value e) (promote_host g (se_value e) db)
      | scope_entry_type.IP \<Rightarrow> upsert_scope_asset g now asset_type.IP_ADDRESS (se_value e) db
      | scope_entry_type.CIDR \<Rightarrow> upsert_scope_asset g now asset_type.CIDR (se_value e) db)"

text \<open>A flush that would store two assets of one organization with the same type and value raises.\<close>

definition flush_assets :: "inventory \<Rightarrow> inventory option" where
  "flush_assets db = (if distinct (map asset_key (assets db)) then Some db else None)"

definition root_type :: "deployment \<Rightarrow> checker \<Rightarrow> asset \<Rightarrow> asset_type" where
  "root_type D c a =
     (if as_type a = asset_type.ROOT_DOMAIN \<and> as_norm a \<notin> set (root_domains c)
      then (if dp_registered D (as_norm a) \<noteq> Some (as_norm a) then asset_type.SUBDOMAIN else asset_type.DOMAIN)
      else as_type a)"

definition rescope_asset :: "deployment \<Rightarrow> checker \<Rightarrow> asset \<Rightarrow> asset" where
  "rescope_asset D c a =
     (if as_type a = asset_type.IP_ADDRESS then
        (let st = fst (ip_status c (as_norm a)) in
         if st = scope_status.OUT_OF_SCOPE \<and> as_scope a = scope_status.DERIVED \<and> \<not> is_excluded_ip c (as_norm a) then a
         else a\<lparr>as_scope := st\<rparr>)
      else a\<lparr>as_type := root_type D c a, as_scope := fst (hostname_status c (as_norm a))\<rparr>)"

definition is_rescoped :: "uuid \<Rightarrow> asset \<Rightarrow> bool" where
  "is_rescoped org a \<longleftrightarrow> as_org a = org \<and> as_type a \<in> set HOSTNAME_TYPES \<union> {asset_type.IP_ADDRESS}"

definition rescope_assets :: "deployment \<Rightarrow> platform \<Rightarrow> organization \<Rightarrow> (platform \<times> int) option" where
  "rescope_assets D pl g =
     (case load_checker D pl g of
        None \<Rightarrow> None
      | Some c \<Rightarrow>
          (let old = assets (pl_inv pl); new = update_where (is_rescoped (og_id g)) (rescope_asset D c) old in
           map_option (\<lambda>db. (pl\<lparr>pl_inv := db\<rparr>, int (length (filter (\<lambda>(a, b). as_scope a \<noteq> as_scope b) (zip old new)))))
             (flush_assets ((pl_inv pl)\<lparr>assets := new\<rparr>))))"

definition sync_scope_assets :: "deployment \<Rightarrow> call \<Rightarrow> organization \<Rightarrow> platform \<Rightarrow> platform option" where
  "sync_scope_assets D c g pl =
     (case flush_assets (fold (sync_entry g (cl_now c)) (filter (\<lambda>e. \<not> se_exclusion e) (entries_of pl (og_id g))) (pl_inv pl)) of
        None \<Rightarrow> None
      | Some db \<Rightarrow> map_option fst (rescope_assets D (pl\<lparr>pl_inv := db\<rparr>) g))"

subsection \<open>Entries\<close>

definition entry_snapshot :: "scope_entry \<Rightarrow> attrs" where
  "entry_snapshot e =
     [(''type'', JStr (scope_entry_type_value (se_type e))), (''value'', JStr (se_value e)),
      (''include_subdomains'', JBool (se_subdomains e)), (''exclusion'', JBool (se_exclusion e)),
      (''active_scanning'', JBool (se_active e)), (''verification'', JStr (verification_status_value (se_verification e)))]"

definition entry_audit :: "string \<Rightarrow> uuid \<Rightarrow> uuid \<Rightarrow> json \<Rightarrow> json \<Rightarrow> audit_args" where
  "entry_audit action tenant i prev new = (audit_args action)
     \<lparr>a_tenant := Some tenant, a_object_type := Some ''scope_entry'', a_object_id := Some (uuid_str i), a_previous := prev, a_new := new\<rparr>"

definition changed_entry :: "uuid \<Rightarrow> scope_entry \<Rightarrow> scope_entry \<Rightarrow> audit_args" where
  "changed_entry tenant e e' =
     (let (prev, new) = diff (entry_snapshot e) (entry_snapshot e') in
      entry_audit ''scope.updated'' tenant (se_id e) (JObj prev) (JObj new))"

definition put_entry :: "scope_entry \<Rightarrow> platform \<Rightarrow> platform" where
  "put_entry e pl = pl\<lparr>pl_entries := update_where (\<lambda>x. se_id x = se_id e) (\<lambda>_. e) (pl_entries pl)\<rparr>"

text \<open>The arguments of \<open>add_entry\<close>.\<close>

record entry_args =
  ea_tenant :: uuid
  ea_org :: uuid
  ea_type :: scope_entry_type
  ea_value :: string
  ea_subdomains :: bool
  ea_exclusion :: bool
  ea_active :: bool
  ea_notes :: "string option"
  ea_user :: "uuid option"

definition new_scope_entry :: "call \<Rightarrow> entry_args \<Rightarrow> bool \<Rightarrow> bool \<Rightarrow> string \<Rightarrow> uuid \<Rightarrow> scope_entry" where
  "new_scope_entry c a subdomains required v i =
     \<lparr>se_id = i, se_tenant = ea_tenant a, se_org = ea_org a, se_type = ea_type a, se_value = v,
      se_subdomains = (if ea_type a = scope_entry_type.DOMAIN then subdomains else False), se_exclusion = ea_exclusion a,
      se_active = (ea_active a \<and> \<not> ea_exclusion a),
      se_verification = (if required \<and> \<not> ea_exclusion a then verification_status.UNVERIFIED else verification_status.NOT_REQUIRED),
      se_token = (if ea_type a = scope_entry_type.DOMAIN then Some (cl_random c) else None),
      se_verified_at = None, se_notes = ea_notes a, se_created_by = ea_user a\<rparr>"

definition insert_entry :: "scope_entry \<Rightarrow> platform \<Rightarrow> platform" where
  "insert_entry e pl = pl\<lparr>pl_entries := pl_entries pl @ [e], pl_inv := (pl_inv pl)\<lparr>next_id := next_id (pl_inv pl) + 1\<rparr>\<rparr>"

definition create_entry :: "deployment \<Rightarrow> call \<Rightarrow> entry_args \<Rightarrow> bool \<Rightarrow> string \<Rightarrow> organization \<Rightarrow> platform \<Rightarrow> fault + platform \<times> scope_entry" where
  "create_entry D c a subdomains v g pl =
     bind_r (need (verification_required D (get_tenant pl (ea_tenant a)))) (\<lambda>required.
       let e = new_scope_entry c a subdomains required v (next_id (pl_inv pl));
           args = entry_audit ''scope.added'' (ea_tenant a) (se_id e) JNull
             (JObj ((''organization_id'', JStr (uuid_str (ea_org a))) # entry_snapshot e)) in
       bind_r (need (sync_scope_assets D c g (audited D c args (insert_entry e pl)))) (\<lambda>pl'. Inr (pl', e)))"

definition add_entry :: "deployment \<Rightarrow> call \<Rightarrow> entry_args \<Rightarrow> platform \<Rightarrow> fault + platform \<times> scope_entry" where
  "add_entry D c a pl =
     bind_r (found ''Organization not found'' (get_org pl (ea_org a))) (\<lambda>g.
     bind_r (if ea_type a = scope_entry_type.DOMAIN then parse_domain (ea_value a) else Inr ([], False)) (\<lambda>(_, wildcard).
     let subdomains = wildcard \<or> ea_subdomains a in
     bind_r (normalize_entry D (ea_type a) (ea_value a)) (\<lambda>v.
       case find (\<lambda>e. se_org e = ea_org a \<and> se_type e = ea_type a \<and> se_value e = v \<and> se_exclusion e = ea_exclusion a) (pl_entries pl) of
         None \<Rightarrow> create_entry D c a subdomains v g pl
       | Some dup \<Rightarrow>
           if subdomains \<and> \<not> se_subdomains dup \<and> ea_type a = scope_entry_type.DOMAIN then
             (let dup' = dup\<lparr>se_subdomains := True\<rparr> in
              bind_r (need (sync_scope_assets D c g (audited D c (changed_entry (ea_tenant a) dup dup') (put_entry dup' pl))))
                (\<lambda>pl'. Inr (pl', dup')))
           else Inl (Refused (Conflict (v @ '' is already in scope''))))))"

text \<open>The fields a caller may change; \<^const>\<open>None\<close> is a field that is absent or null.\<close>

record entry_changes =
  ec_subdomains :: "bool option"
  ec_active :: "bool option"
  ec_notes :: "string option"

definition apply_changes :: "entry_changes \<Rightarrow> scope_entry \<Rightarrow> scope_entry" where
  "apply_changes ch e = e\<lparr>
     se_subdomains := (case ec_subdomains ch of None \<Rightarrow> se_subdomains e | Some b \<Rightarrow> b),
     se_active := (case ec_active ch of None \<Rightarrow> se_active e | Some b \<Rightarrow> b) \<and> \<not> se_exclusion e,
     se_notes := (case ec_notes ch of None \<Rightarrow> se_notes e | Some n \<Rightarrow> Some n)\<rparr>"

text \<open>Re-synchronization where the organization (still) exists.\<close>

definition resync :: "deployment \<Rightarrow> call \<Rightarrow> uuid \<Rightarrow> platform \<Rightarrow> fault + platform" where
  "resync D c org pl = (case get_org pl org of None \<Rightarrow> Inr pl | Some g \<Rightarrow> need (sync_scope_assets D c g pl))"

definition update_entry :: "deployment \<Rightarrow> call \<Rightarrow> uuid \<Rightarrow> entry_changes \<Rightarrow> platform \<Rightarrow> fault + platform \<times> scope_entry" where
  "update_entry D c i ch pl =
     bind_r (found ''Scope entry not found'' (get_entry pl i)) (\<lambda>e.
     let e' = apply_changes ch e in
     bind_r (resync D c (se_org e) (audited D c (changed_entry (se_tenant e) e e') (put_entry e' pl))) (\<lambda>pl'. Inr (pl', e')))"

definition remove_entry :: "deployment \<Rightarrow> call \<Rightarrow> uuid \<Rightarrow> platform \<Rightarrow> fault + platform" where
  "remove_entry D c i pl =
     bind_r (found ''Scope entry not found'' (get_entry pl i)) (\<lambda>e.
       resync D c (se_org e) (audited D c (entry_audit ''scope.removed'' (se_tenant e) i (JObj (entry_snapshot e)) JNull)
         (pl\<lparr>pl_entries := filter (\<lambda>x. se_id x \<noteq> i) (pl_entries pl)\<rparr>)))"

subsection \<open>Proof of ownership\<close>

definition apply_verification_policy :: "deployment \<Rightarrow> uuid \<Rightarrow> platform \<Rightarrow> (platform \<times> int) option" where
  "apply_verification_policy D tenant pl =
     (case verification_required D (get_tenant pl tenant) of
        None \<Rightarrow> None
      | Some False \<Rightarrow> Some (pl, 0)
      | Some True \<Rightarrow>
          (let P = (\<lambda>e. se_tenant e = tenant \<and> \<not> se_exclusion e \<and> se_verification e = verification_status.NOT_REQUIRED) in
           Some (pl\<lparr>pl_entries := update_where P (\<lambda>e. e\<lparr>se_verification := verification_status.UNVERIFIED\<rparr>) (pl_entries pl)\<rparr>,
                 int (length (filter P (pl_entries pl))))))"

definition mark_verified :: "call \<Rightarrow> scope_entry \<Rightarrow> scope_entry" where
  "mark_verified c e = e\<lparr>se_verification := verification_status.VERIFIED, se_verified_at := Some (cl_now c)\<rparr>"

definition approve_entry :: "deployment \<Rightarrow> call \<Rightarrow> uuid \<Rightarrow> platform \<Rightarrow> fault + platform \<times> scope_entry" where
  "approve_entry D c i pl =
     bind_r (found ''Scope entry not found'' (get_entry pl i)) (\<lambda>e.
     ensure (se_type e \<noteq> scope_entry_type.DOMAIN) (ValidationFailed ''Domains are verified with a DNS TXT record, not by approval'')
     (ensure (\<not> se_exclusion e) (ValidationFailed ''Exclusions do not need approval'')
     (let e' = mark_verified c e in
      Inr (audited D c (entry_audit ''scope.verified'' (se_tenant e) (se_id e) JNull
             (JObj [(''value'', JStr (se_value e)), (''method'', JStr ''platform_admin_approval'')])) (put_entry e' pl), e'))))"

definition verification_instructions :: "scope_entry \<Rightarrow> string \<times> string" where
  "verification_instructions e =
     (VERIFY_PREFIX @ ''.'' @ se_value e, VERIFY_VALUE @ (case se_token e of None \<Rightarrow> ''None'' | Some t \<Rightarrow> t))"

text \<open>The parameter \<open>txt\<close> is the resolver: the texts of the TXT records of a name, none where it raises.\<close>

definition dns_proof :: "(string \<Rightarrow> string list) \<Rightarrow> string \<Rightarrow> string \<Rightarrow> bool" where
  "dns_proof txt value token \<longleftrightarrow>
     list_ex (\<lambda>(prefix, marker). marker @ token \<in> set (txt (prefix @ ''.'' @ value))) [(VERIFY_PREFIX, VERIFY_VALUE), LEGACY_VERIFY]"

definition verify_entry :: "deployment \<Rightarrow> call \<Rightarrow> (string \<Rightarrow> string list) \<Rightarrow> uuid \<Rightarrow> platform \<Rightarrow> fault + platform \<times> scope_entry" where
  "verify_entry D c txt i pl =
     bind_r (found ''Scope entry not found'' (get_entry pl i)) (\<lambda>e.
       case (if se_type e = scope_entry_type.DOMAIN then se_token e else None) of
         None \<Rightarrow> Inl (Refused (ValidationFailed ''Only domain entries support DNS verification''))
       | Some token \<Rightarrow>
           ensure (token \<noteq> []) (ValidationFailed ''Only domain entries support DNS verification'')
           (if dns_proof txt (se_value e) token then
              (let e' = mark_verified c e in
               Inr (audited D c (entry_audit ''scope.verified'' (se_tenant e) (se_id e) JNull (JObj [(''value'', JStr (se_value e))]))
                     (put_entry e' pl), e'))
            else (let e' = e\<lparr>se_verification := verification_status.PENDING\<rparr> in Inr (put_entry e' pl, e'))))"

end
