(* ===== verification/ScopeSafety.thy ===== *)
theory ScopeSafety
  imports ScopeService
begin

text \<open>
  What the scope service promises: entries are well formed and never authorize more than they say, a
  scope built through the service can always be checked, a change of the scope reaches every asset
  at once, and nothing counts as verified without a proof.
\<close>

subsection \<open>Runs of the service\<close>

datatype scope_event =
    Added uuid
  | Updated uuid
  | Removed uuid
  | PolicyApplied uuid
  | Approved uuid
  | DnsChecked uuid "string \<Rightarrow> string list"

inductive scope_step :: "deployment \<Rightarrow> platform \<Rightarrow> scope_event \<Rightarrow> platform \<Rightarrow> bool" for D where
  add: "add_entry D c a pl = Inr (pl', e) \<Longrightarrow> scope_step D pl (Added (se_id e)) pl'"
| update: "update_entry D c i ch pl = Inr (pl', e) \<Longrightarrow> scope_step D pl (Updated i) pl'"
| remove: "remove_entry D c i pl = Inr pl' \<Longrightarrow> scope_step D pl (Removed i) pl'"
| policy: "apply_verification_policy D t pl = Some (pl', n) \<Longrightarrow> scope_step D pl (PolicyApplied t) pl'"
| approve: "approve_entry D c i pl = Inr (pl', e) \<Longrightarrow> scope_step D pl (Approved i) pl'"
| verify: "verify_entry D c txt i pl = Inr (pl', e) \<Longrightarrow> scope_step D pl (DnsChecked i txt) pl'"

inductive scope_run :: "deployment \<Rightarrow> platform \<Rightarrow> scope_event list \<Rightarrow> platform \<Rightarrow> bool" for D where
  start: "scope_run D pl [] pl"
| extend: "scope_run D pl es pl' \<Longrightarrow> scope_step D pl' e pl'' \<Longrightarrow> scope_run D pl (es @ [e]) pl''"

subsection \<open>What a change keeps\<close>

text \<open>A re-synchronization changes the assets only.\<close>

lemma rescope_assets_Some:
  assumes "rescope_assets D pl g = Some (pl', n)"
  obtains c where "load_checker D pl g = Some c"
    and "pl' = pl\<lparr>pl_inv := (pl_inv pl)\<lparr>assets := update_where (is_rescoped (og_id g)) (rescope_asset D c) (assets (pl_inv pl))\<rparr>\<rparr>"
  using assms by (auto simp: rescope_assets_def flush_assets_def Let_def split: option.splits if_splits)

lemma load_checker_inv [simp]: "load_checker D (pl\<lparr>pl_inv := db\<rparr>) g = load_checker D pl g"
  by (simp add: load_checker_def get_tenant_def entries_of_def cong: option.case_cong)

lemma upsert_next_id: "next_id db \<le> next_id (upsert_scope_asset g now t v db)"
  by (simp add: upsert_scope_asset_def add_asset_def put_asset_def split: option.split)

lemma sync_entry_next_id: "next_id db \<le> next_id (sync_entry g now e db)"
proof -
  have "next_id (promote_host g v db) = next_id db" for v
    by (simp add: promote_host_def put_asset_def split: option.split)
  then show ?thesis
    using upsert_next_id [of _ g now _ "se_value e"] by (auto simp: sync_entry_def split: scope_entry_type.split) metis
qed

lemma fold_sync_next_id: "next_id db \<le> next_id (fold (sync_entry g now) es db)"
  by (induction es arbitrary: db) (auto intro: order_trans [OF sync_entry_next_id])

lemma sync_scope_assets_Some:
  assumes "sync_scope_assets D c g pl = Some pl'"
  obtains db ck where "load_checker D pl g = Some ck" "next_id (pl_inv pl) \<le> next_id db"
    and "pl' = pl\<lparr>pl_inv := db\<lparr>assets := update_where (is_rescoped (og_id g)) (rescope_asset D ck) (assets db)\<rparr>\<rparr>"
proof -
  let ?db = "fold (sync_entry g (cl_now c)) (filter (\<lambda>e. \<not> se_exclusion e) (entries_of pl (og_id g))) (pl_inv pl)"
  obtain n where r: "rescope_assets D (pl\<lparr>pl_inv := ?db\<rparr>) g = Some (pl', n)"
    using assms by (auto simp: sync_scope_assets_def flush_assets_def split: option.splits if_splits)
  then obtain ck where "load_checker D pl g = Some ck"
    and "pl' = pl\<lparr>pl_inv := ?db\<lparr>assets := update_where (is_rescoped (og_id g)) (rescope_asset D ck) (assets ?db)\<rparr>\<rparr>"
    by (elim rescope_assets_Some) simp
  then show ?thesis using that fold_sync_next_id by blast
qed

text \<open>The tables that decide about the scope.\<close>

definition same_scope :: "platform \<Rightarrow> platform \<Rightarrow> bool" where
  "same_scope pl pl' \<longleftrightarrow> pl_entries pl' = pl_entries pl \<and> pl_tenants pl' = pl_tenants pl \<and> pl_orgs pl' = pl_orgs pl \<and>
     next_id (pl_inv pl) \<le> next_id (pl_inv pl')"

lemma same_scope_sync: "sync_scope_assets D c g pl = Some pl' \<Longrightarrow> same_scope pl pl'"
  by (erule sync_scope_assets_Some) (simp add: same_scope_def)

lemma same_scope_resync: "resync D c org pl = Inr pl' \<Longrightarrow> same_scope pl pl'"
  by (auto simp: resync_def same_scope_sync split: option.splits) (simp add: same_scope_def)

lemma load_checker_same: "same_scope pl pl' \<Longrightarrow> load_checker D pl' g = load_checker D pl g"
  by (simp add: load_checker_def get_tenant_def entries_of_def same_scope_def cong: option.case_cong)

subsection \<open>Well-formed entries\<close>

definition entry_ok :: "deployment \<Rightarrow> scope_entry \<Rightarrow> bool" where
  "entry_ok D e \<longleftrightarrow>
     (case se_type e of
        scope_entry_type.DOMAIN \<Rightarrow> HOSTNAME_RE (se_value e) \<and> dp_registered D (se_value e) \<noteq> None
      | scope_entry_type.IP \<Rightarrow>
          (\<exists>a. ip_address (se_value e) = Some a \<and> se_value e = show_ip a \<and> (is_global a \<or> dp_allow_non_public D))
      | scope_entry_type.CIDR \<Rightarrow>
          (\<exists>n. ip_network (se_value e) = Some n \<and> se_value e = show_net n \<and> (if net_ver n = V4 then 16 else 48) \<le> prefixlen n \<and>
             (net_is_global n \<or> dp_allow_non_public D))) \<and>
     (se_exclusion e \<longrightarrow> \<not> se_active e)"

lemma normalize_hostname_RE: "normalize_hostname u x = Some v \<Longrightarrow> HOSTNAME_RE v"
  by (auto simp: normalize_hostname_def validate_hostname_def Let_def bind_r_Inr split: sum.splits if_splits option.splits)

lemma normalize_entry_ok:
  assumes "normalize_entry D (se_type e) x = Inr (se_value e)" "se_exclusion e \<longrightarrow> \<not> se_active e"
  shows "entry_ok D e"
proof (cases "se_type e")
  case DOMAIN
  then obtain candidate w where p: "parse_domain (strip x) = Inr (candidate, w)"
    using assms(1) by (cases "parse_domain (strip x)") (auto simp: normalize_entry_def)
  show ?thesis
  proof (cases "normalize_hostname (dp_unicode D) candidate")
    case None
    then show ?thesis using assms(1) DOMAIN p by (simp add: normalize_entry_def invalid_entry_def)
  next
    case (Some host)
    then have "se_value e = host" "dp_registered D host \<noteq> None"
      using assms(1) DOMAIN p by (auto simp: normalize_entry_def invalid_entry_def split: if_splits)
    then show ?thesis using normalize_hostname_RE [OF Some] assms(2) DOMAIN by (simp add: entry_ok_def)
  qed
next
  case IP
  then obtain a where "ip_address (strip x) = Some a" "se_value e = show_ip a" "is_global a \<or> dp_allow_non_public D"
    using assms(1) by (auto simp: normalize_entry_def invalid_entry_def Let_def split: option.splits)
  then show ?thesis using assms(2) IP ip_address_show [OF wf_ip_address] by (auto simp: entry_ok_def)
next
  case CIDR
  then obtain n where "ip_network (strip x) = Some n" "se_value e = show_net n" "MAX_PREFIX n \<le> prefixlen n"
      "net_is_global n \<or> dp_allow_non_public D"
    using assms(1) by (auto simp: normalize_entry_def invalid_entry_def Let_def split: option.splits)
  then show ?thesis using assms(2) CIDR ip_network_show [OF wf_ip_network] by (auto simp: entry_ok_def MAX_PREFIX_def)
qed

text \<open>Changes of other fields keep an entry well formed.\<close>

lemma entry_ok_cong:
  "entry_ok D e \<Longrightarrow> se_type e' = se_type e \<Longrightarrow> se_value e' = se_value e \<Longrightarrow> (se_exclusion e' \<longrightarrow> \<not> se_active e') \<Longrightarrow> entry_ok D e'"
  by (simp add: entry_ok_def cong: scope_entry_type.case_cong)

subsection \<open>The life of an entry\<close>

text \<open>What never changes of an entry.\<close>

definition identity :: "scope_entry \<Rightarrow> uuid \<times> scope_entry_type \<times> string \<times> bool \<times> string option" where
  "identity e = (se_id e, se_type e, se_value e, se_exclusion e, se_token e)"

text \<open>An event that proves the ownership of an entry: an approval of an address entry, or a DNS check
  that found the entry's own token.\<close>

fun proves :: "scope_event \<Rightarrow> scope_entry \<Rightarrow> bool" where
  "proves (Approved i) e \<longleftrightarrow> i = se_id e \<and> se_type e \<noteq> scope_entry_type.DOMAIN \<and> \<not> se_exclusion e"
| "proves (DnsChecked i txt) e \<longleftrightarrow> i = se_id e \<and> se_type e = scope_entry_type.DOMAIN \<and>
     (\<exists>t. se_token e = Some t \<and> t \<noteq> [] \<and>
       (''exteriq-asm-verification='' @ t \<in> set (txt (''_exteriq-asm.'' @ se_value e)) \<or>
        ''alrasedah-asm-verification='' @ t \<in> set (txt (''_alrasedah-asm.'' @ se_value e))))"
| "proves _ e \<longleftrightarrow> False"

definition ids_known :: "platform \<Rightarrow> bool" where
  "ids_known pl \<longleftrightarrow> distinct (map se_id (pl_entries pl)) \<and> (\<forall>e \<in> set (pl_entries pl). se_id e < next_id (pl_inv pl))"

text \<open>
  One step: an entry of the new state is a new one, unverified, or an old one with the same identity; if it is
  verified it was so before or the step proves it.
\<close>

definition entry_step :: "deployment \<Rightarrow> platform \<Rightarrow> scope_event \<Rightarrow> scope_entry \<Rightarrow> bool" where
  "entry_step D pl ev e' \<longleftrightarrow>
     (\<exists>e \<in> set (pl_entries pl). identity e' = identity e \<and> (entry_ok D e \<longrightarrow> entry_ok D e') \<and>
        (se_verification e' = verification_status.VERIFIED \<longrightarrow> se_verification e = verification_status.VERIFIED \<or> proves ev e')) \<or>
     entry_ok D e' \<and> se_verification e' \<noteq> verification_status.VERIFIED"

definition entries_step :: "deployment \<Rightarrow> platform \<Rightarrow> scope_event \<Rightarrow> platform \<Rightarrow> bool" where
  "entries_step D pl ev pl' \<longleftrightarrow> ids_known pl' \<and> (\<forall>e' \<in> set (pl_entries pl'). entry_step D pl ev e')"

text \<open>An operation that rewrites one entry, and then at most the inventory.\<close>

lemma entries_step_put:
  assumes "ids_known pl" "e \<in> set (pl_entries pl)" "identity e' = identity e" "entry_ok D e \<Longrightarrow> entry_ok D e'"
    and "se_verification e' = verification_status.VERIFIED \<Longrightarrow> se_verification e = verification_status.VERIFIED \<or> proves ev e'"
    and "same_scope (audited D c args (put_entry e' pl)) pl' \<or> same_scope (put_entry e' pl) pl'"
  shows "entries_step D pl ev pl'"
proof -
  have pl': "pl_entries pl' = update_where (\<lambda>x. se_id x = se_id e') (\<lambda>_. e') (pl_entries pl)"
      "next_id (pl_inv pl) \<le> next_id (pl_inv pl')"
    using assms(6) by (auto simp: same_scope_def put_entry_def)
  have id: "se_id e' = se_id e" using assms(3) by (simp add: identity_def)
  have "map se_id (pl_entries pl') = map se_id (pl_entries pl)"
    unfolding pl'(1) by (rule map_update_where) (simp add: id)
  then have "ids_known pl'"
    using assms(1) pl'(2) id assms(2) by (fastforce simp: ids_known_def pl'(1) set_update_where simp del: map_eq_conv)
  moreover have "entry_step D pl ev x" if "x \<in> set (pl_entries pl')" for x
    using that assms(2-5) unfolding pl'(1) set_update_where entry_step_def by auto
  ultimately show ?thesis by (simp add: entries_step_def)
qed

lemma entries_step_sub:
  assumes "ids_known pl" "set (pl_entries pl') \<subseteq> set (pl_entries pl)" "distinct (map se_id (pl_entries pl'))"
    and "next_id (pl_inv pl) \<le> next_id (pl_inv pl')"
  shows "entries_step D pl ev pl'"
  using assms unfolding entries_step_def ids_known_def entry_step_def by fastforce

lemma add_entry_cases:
  assumes "add_entry D c a pl = Inr (pl', e)"
  obtains (fresh) g args w req v where "get_org pl (ea_org a) = Some g" "sync_scope_assets D c g (audited D c args (insert_entry e pl)) = Some pl'"
      "normalize_entry D (ea_type a) (ea_value a) = Inr v" "e = new_scope_entry c a w req v (next_id (pl_inv pl))"
    | (widened) g args dup where "get_org pl (ea_org a) = Some g" "sync_scope_assets D c g (audited D c args (put_entry e pl)) = Some pl'"
      "dup \<in> set (pl_entries pl)" "e = dup\<lparr>se_subdomains := True\<rparr>"
proof -
  obtain g w v where g: "get_org pl (ea_org a) = Some g" and v: "normalize_entry D (ea_type a) (ea_value a) = Inr v"
    and r: "(case find (\<lambda>e. se_org e = ea_org a \<and> se_type e = ea_type a \<and> se_value e = v \<and> se_exclusion e = ea_exclusion a) (pl_entries pl) of
         None \<Rightarrow> create_entry D c a (w \<or> ea_subdomains a) v g pl
       | Some dup \<Rightarrow>
           if (w \<or> ea_subdomains a) \<and> \<not> se_subdomains dup \<and> ea_type a = scope_entry_type.DOMAIN then
             (let dup' = dup\<lparr>se_subdomains := True\<rparr> in
              bind_r (need (sync_scope_assets D c g (audited D c (changed_entry (ea_tenant a) dup dup') (put_entry dup' pl))))
                (\<lambda>pl'. Inr (pl', dup')))
           else Inl (Refused (Conflict (v @ '' is already in scope'')))) = Inr (pl', e)"
    using assms by (auto simp: add_entry_def Let_def bind_r_Inr case_prod_unfold)
  show ?thesis
  proof (cases "find (\<lambda>e. se_org e = ea_org a \<and> se_type e = ea_type a \<and> se_value e = v \<and> se_exclusion e = ea_exclusion a) (pl_entries pl)")
    case (Some dup)
    then have dup: "dup \<in> set (pl_entries pl)" by (auto dest: find_Some_D)
    have "e = dup\<lparr>se_subdomains := True\<rparr>" "sync_scope_assets D c g (audited D c (changed_entry (ea_tenant a) dup e) (put_entry e pl)) = Some pl'"
      using r Some by (auto simp: Let_def bind_r_Inr split: if_splits)
    then show ?thesis using widened g dup by blast
  next
    case None
    then show ?thesis using r v g fresh by (auto simp: create_entry_def Let_def bind_r_Inr)
  qed
qed

lemma add_entries_step:
  assumes "ids_known pl" "add_entry D c a pl = Inr (pl', e)"
  shows "entries_step D pl (Added (se_id e)) pl'"
  using assms(2)
proof (cases rule: add_entry_cases)
  case (widened g args dup)
  then show ?thesis
    using same_scope_sync [OF widened(2)] by (intro entries_step_put [OF assms(1), where e = dup and e' = e and c = c and args = args])
      (auto simp: identity_def entry_ok_def cong: scope_entry_type.case_cong)
next
  case (fresh g args w req v)
  have ok: "entry_ok D e" using fresh(3) by (intro normalize_entry_ok [of D e "ea_value a"]) (auto simp: fresh(4) new_scope_entry_def)
  have ver: "se_verification e \<noteq> verification_status.VERIFIED" by (simp add: fresh(4) new_scope_entry_def)
  have pl': "pl_entries pl' = pl_entries pl @ [e]" "Suc (next_id (pl_inv pl)) \<le> next_id (pl_inv pl')" "se_id e = next_id (pl_inv pl)"
    using same_scope_sync [OF fresh(2)] by (simp_all add: same_scope_def insert_entry_def fresh(4) new_scope_entry_def)
  have "entry_step D pl (Added (se_id e)) x" if "x \<in> set (pl_entries pl')" for x
    using that ok ver unfolding pl'(1) entry_step_def by auto
  then show ?thesis
    using assms(1) pl' unfolding entries_step_def ids_known_def by (force simp: less_Suc_eq_le)
qed

lemma update_entries_step:
  assumes "ids_known pl" "update_entry D c i ch pl = Inr (pl', e')"
  shows "entries_step D pl (Updated i) pl'"
proof -
  obtain e where e: "get_entry pl i = Some e" and e': "e' = apply_changes ch e"
    and s: "same_scope (audited D c (changed_entry (se_tenant e) e e') (put_entry e' pl)) pl'"
    using assms(2) by (auto simp: update_entry_def Let_def bind_r_Inr dest!: same_scope_resync)
  have "e \<in> set (pl_entries pl)" using e by (auto simp: get_entry_def dest: find_Some_D)
  moreover have "identity e' = identity e" "entry_ok D e \<Longrightarrow> entry_ok D e'" "se_verification e' = se_verification e"
    by (auto simp: e' apply_changes_def identity_def entry_ok_def cong: scope_entry_type.case_cong)
  ultimately show ?thesis using s by (intro entries_step_put [OF assms(1), of e e']) auto
qed

lemma remove_entries_step:
  assumes "ids_known pl" "remove_entry D c i pl = Inr pl'"
  shows "entries_step D pl (Removed i) pl'"
proof -
  obtain args where "same_scope (audited D c args (pl\<lparr>pl_entries := filter (\<lambda>x. se_id x \<noteq> i) (pl_entries pl)\<rparr>)) pl'"
    using assms(2) by (auto simp: remove_entry_def bind_r_Inr dest!: same_scope_resync)
  then show ?thesis
    using assms(1) by (intro entries_step_sub [OF assms(1)]) (auto simp: same_scope_def ids_known_def distinct_map_filter)
qed

lemma policy_entries_step:
  assumes "ids_known pl" "apply_verification_policy D t pl = Some (pl', n)"
  shows "entries_step D pl (PolicyApplied t) pl'"
proof -
  define P :: "scope_entry \<Rightarrow> bool" where
    "P = (\<lambda>e. se_tenant e = t \<and> \<not> se_exclusion e \<and> se_verification e = verification_status.NOT_REQUIRED)"
  have "pl_entries pl' = update_where P (\<lambda>e. e\<lparr>se_verification := verification_status.UNVERIFIED\<rparr>) (pl_entries pl) \<or> pl' = pl"
      and inv: "pl_inv pl' = pl_inv pl"
    using assms(2) by (auto simp: apply_verification_policy_def P_def Let_def split: option.splits bool.splits)
  then show ?thesis
  proof (elim disjE)
    assume pl': "pl_entries pl' = update_where P (\<lambda>e. e\<lparr>se_verification := verification_status.UNVERIFIED\<rparr>) (pl_entries pl)"
    have "map se_id (pl_entries pl') = map se_id (pl_entries pl)" unfolding pl' by (rule map_update_where) simp
    then have "ids_known pl'" using assms(1) inv by (fastforce simp: ids_known_def pl' set_update_where simp del: map_eq_conv)
    moreover have "entry_step D pl (PolicyApplied t) x" if "x \<in> set (pl_entries pl')" for x
      using that unfolding pl' set_update_where entry_step_def
      by (auto simp: identity_def entry_ok_def cong: scope_entry_type.case_cong)
    ultimately show ?thesis by (simp add: entries_step_def)
  qed (use assms(1) in \<open>auto intro!: entries_step_sub simp: ids_known_def\<close>)
qed

lemma same_scope_refl [simp]: "same_scope pl pl"
  by (simp add: same_scope_def)

lemma approve_entries_step:
  assumes "ids_known pl" "approve_entry D c i pl = Inr (pl', e')"
  shows "entries_step D pl (Approved i) pl'"
proof -
  obtain e args where e: "get_entry pl i = Some e" "se_type e \<noteq> scope_entry_type.DOMAIN" "\<not> se_exclusion e" "e' = mark_verified c e"
    and s: "pl' = audited D c args (put_entry e' pl)"
    using assms(2) by (auto simp: approve_entry_def Let_def bind_r_Inr)
  have "e \<in> set (pl_entries pl)" "se_id e = i" using e(1) by (auto simp: get_entry_def dest: find_Some_D)
  then show ?thesis
    using e(2,3) s by (intro entries_step_put [OF assms(1), where e = e and e' = e' and c = c and args = args])
      (auto simp: e(4) mark_verified_def identity_def entry_ok_def cong: scope_entry_type.case_cong)
qed

lemma dns_proof_found:
  "dns_proof txt v t \<longleftrightarrow> ''exteriq-asm-verification='' @ t \<in> set (txt (''_exteriq-asm.'' @ v)) \<or>
     ''alrasedah-asm-verification='' @ t \<in> set (txt (''_alrasedah-asm.'' @ v))"
  by (simp add: dns_proof_def VERIFY_PREFIX_def VERIFY_VALUE_def LEGACY_VERIFY_def)

lemma verify_entries_step:
  assumes "ids_known pl" "verify_entry D c txt i pl = Inr (pl', e')"
  shows "entries_step D pl (DnsChecked i txt) pl'"
proof -
  obtain e token where e: "get_entry pl i = Some e" "se_type e = scope_entry_type.DOMAIN" "se_token e = Some token"
    using assms(2) by (cases "get_entry pl i") (auto simp: verify_entry_def split: option.splits if_splits)
  then have t: "token \<noteq> []" using assms(2) by (auto simp: verify_entry_def)
  obtain args where s: "dns_proof txt (se_value e) token \<and> e' = mark_verified c e \<and> pl' = audited D c args (put_entry e' pl) \<or>
            e' = e\<lparr>se_verification := verification_status.PENDING\<rparr> \<and> pl' = put_entry e' pl"
    using assms(2) e t by (cases "dns_proof txt (se_value e) token") (auto simp: verify_entry_def Let_def)
  have "e \<in> set (pl_entries pl)" "se_id e = i" using e(1) by (auto simp: get_entry_def dest: find_Some_D)
  then show ?thesis
    using e(2-3) t s by (intro entries_step_put [OF assms(1), where e = e and e' = e' and c = c and args = args])
      (auto simp: mark_verified_def identity_def entry_ok_def dns_proof_found cong: scope_entry_type.case_cong)
qed

lemma scope_entries_step: "scope_step D pl ev pl' \<Longrightarrow> ids_known pl \<Longrightarrow> entries_step D pl ev pl'"
  by (cases rule: scope_step.cases)
     (auto simp: add_entries_step update_entries_step remove_entries_step policy_entries_step approve_entries_step verify_entries_step)

lemma scope_run_entries:
  assumes "scope_run D pl es pl'" "ids_known pl" "\<forall>e \<in> set (pl_entries pl). entry_ok D e \<and> se_verification e \<noteq> verification_status.VERIFIED"
  shows "ids_known pl' \<and> (\<forall>e \<in> set (pl_entries pl'). entry_ok D e \<and>
           (se_verification e = verification_status.VERIFIED \<longrightarrow> (\<exists>ev \<in> set es. proves ev e)))"
  using assms
proof (induction rule: scope_run.induct)
  case (extend pl es pl' ev pl'')
  then have IH: "ids_known pl'" "\<And>e. e \<in> set (pl_entries pl') \<Longrightarrow> entry_ok D e"
      "\<And>e. e \<in> set (pl_entries pl') \<Longrightarrow> se_verification e = verification_status.VERIFIED \<Longrightarrow> \<exists>ev \<in> set es. proves ev e"
    by auto
  have step: "entries_step D pl' ev pl''" using scope_entries_step [OF extend.hyps(2) IH(1)] .
  have same: "proves x e' = proves x e" if "identity e' = identity e" for x e e'
    using that by (cases x) (auto simp: identity_def)
  have "entry_ok D e' \<and> (se_verification e' = verification_status.VERIFIED \<longrightarrow> (\<exists>ev \<in> set (es @ [ev]). proves ev e'))"
    if e': "e' \<in> set (pl_entries pl'')" for e'
  proof -
    have "entry_step D pl' ev e'" using step e' by (simp add: entries_step_def)
    then show ?thesis unfolding entry_step_def
    proof (elim disjE bexE conjE)
      fix e assume "e \<in> set (pl_entries pl')" "identity e' = identity e" "entry_ok D e \<longrightarrow> entry_ok D e'"
        "se_verification e' = verification_status.VERIFIED \<longrightarrow> se_verification e = verification_status.VERIFIED \<or> proves ev e'"
      then show ?thesis using IH(2,3) [of e] same [of e' e] by auto
    qed simp
  qed
  then show ?case using step by (simp add: entries_step_def)
qed simp

lemma mapM_opt_defined: "(\<And>x. x \<in> set xs \<Longrightarrow> f x \<noteq> None) \<Longrightarrow> mapM_opt f xs \<noteq> None"
  by (induction xs) (auto split: option.splits)

lemma entry_net:
  assumes "entry_ok D e" "is_net_rule (from_entry e)"
  shows "rule_net (from_entry e) \<noteq> None"
  using assms ip_network_of_address
  by (cases "se_type e") (auto simp: entry_ok_def rule_net_def from_entry_def is_net_rule_def)

lemma checker_loads:
  assumes "\<forall>e \<in> set (pl_entries pl). entry_ok D e" "verification_required D (get_tenant pl (og_tenant g)) \<noteq> None"
  shows "\<exists>c. load_checker D pl g = Some c"
proof -
  have "mapM_opt rule_net (filter is_net_rule (map from_entry (entries_of pl (og_id g)))) \<noteq> None"
    using assms(1) entry_net by (intro mapM_opt_defined) (auto simp: entries_of_def)
  then show ?thesis using assms(2) by (auto simp: load_checker_def mk_checker_def)
qed

subsection \<open>A change reaches every asset\<close>

inductive scope_change :: "deployment \<Rightarrow> uuid \<Rightarrow> platform \<Rightarrow> platform \<Rightarrow> bool" for D where
  "add_entry D c a pl = Inr (pl', e) \<Longrightarrow> scope_change D (ea_org a) pl pl'"
| "update_entry D c i ch pl = Inr (pl', e) \<Longrightarrow> scope_change D (se_org e) pl pl'"
| "get_entry pl i = Some e \<Longrightarrow> remove_entry D c i pl = Inr pl' \<Longrightarrow> scope_change D (se_org e) pl pl'"

text \<open>The status of an asset agrees with the checker. An address that no entry names stays derived
  from a hostname until the next resolution, unless it is excluded.\<close>

definition in_line :: "checker \<Rightarrow> asset \<Rightarrow> bool" where
  "in_line ck a \<longleftrightarrow>
     (if as_type a = asset_type.IP_ADDRESS
      then as_scope a = fst (ip_status ck (as_norm a)) \<or>
           as_scope a = scope_status.DERIVED \<and> \<not> is_excluded_ip ck (as_norm a)
      else as_scope a = fst (hostname_status ck (as_norm a)) \<and>
           (as_type a = asset_type.ROOT_DOMAIN \<longrightarrow> as_norm a \<in> set (root_domains ck)))"

lemma rescope_asset_in_line:
  assumes "is_rescoped org a"
  shows "in_line ck (rescope_asset D ck a)"
  using assms by (auto simp: in_line_def rescope_asset_def root_type_def is_rescoped_def HOSTNAME_TYPES_def Let_def)

lemma rescoped_before: "is_rescoped org (rescope_asset D ck a) \<Longrightarrow> as_org a = org"
  by (auto simp: rescope_asset_def is_rescoped_def Let_def split: if_splits)

lemma sync_in_line:
  assumes "sync_scope_assets D c g pl = Some pl'"
  shows "\<exists>ck. load_checker D pl' g = Some ck \<and> (\<forall>a \<in> set (assets (pl_inv pl')). is_rescoped (og_id g) a \<longrightarrow> in_line ck a)"
proof -
  obtain db ck where ck: "load_checker D pl g = Some ck"
    and pl': "pl' = pl\<lparr>pl_inv := db\<lparr>assets := update_where (is_rescoped (og_id g)) (rescope_asset D ck) (assets db)\<rparr>\<rparr>"
    using sync_scope_assets_Some [OF assms] by metis
  have "in_line ck a" if "a \<in> set (assets (pl_inv pl'))" "is_rescoped (og_id g) a" for a
    using that rescope_asset_in_line by (auto simp: pl' set_update_where)
  then show ?thesis using ck by (auto simp: pl')
qed

lemma resync_in_line:
  assumes "resync D c org pl = Inr pl'" "get_org pl' org = Some g"
  shows "\<exists>ck. load_checker D pl' g = Some ck \<and> (\<forall>a \<in> set (assets (pl_inv pl')). is_rescoped org a \<longrightarrow> in_line ck a)"
proof -
  have "get_org pl org = Some g" using assms same_scope_resync [OF assms(1)] by (simp add: get_org_def same_scope_def)
  then have "sync_scope_assets D c g pl = Some pl'" "og_id g = org"
    using assms(1) by (auto simp: resync_def get_org_def dest: find_Some_D)
  then show ?thesis using sync_in_line by blast
qed

lemma add_resync:
  assumes "add_entry D c a pl = Inr (pl', e)"
  shows "\<exists>pl0. resync D c (ea_org a) pl0 = Inr pl'"
  using assms
proof (cases rule: add_entry_cases)
  case (fresh g args w req v)
  then show ?thesis by (intro exI [of _ "audited D c args (insert_entry e pl)"]) (simp add: resync_def get_org_def insert_entry_def)
next
  case (widened g args dup)
  then show ?thesis by (intro exI [of _ "audited D c args (put_entry e pl)"]) (simp add: resync_def get_org_def put_entry_def)
qed

lemma change_resync:
  assumes "scope_change D org pl pl'"
  shows "\<exists>c pl0. resync D c org pl0 = Inr pl'"
  using assms
proof cases
  case (1 c a e)
  then show ?thesis using add_resync by blast
next
  case (2 c i ch e)
  then obtain x pl0 where "resync D c (se_org x) pl0 = Inr pl'" "e = apply_changes ch x"
    by (auto simp: update_entry_def Let_def bind_r_Inr)
  moreover have "se_org (apply_changes ch x) = se_org x" by (simp add: apply_changes_def)
  ultimately show ?thesis using 2(1) by metis
next
  case (3 i e c)
  then show ?thesis unfolding remove_entry_def bind_r_Inr found_Inr by fastforce
qed

subsection \<open>Properties\<close>

text \<open>A deployment and a database to evaluate the services on.\<close>

definition example_adapter :: adapter where
  "example_adapter = \<lparr>ad_name = ''naabu'', ad_display = ''Exposed service discovery'', ad_stage_types = [stage_type.PORT_DISCOVERY],
     ad_parse = Some, ad_active = (\<lambda>_. True), ad_providers = [''shodan''],
     ad_crawled_pages = False, ad_header_option = False\<rparr>"

definition example_deployment :: deployment where
  "example_deployment = \<lparr>dp_unicode = ascii_only, dp_sha256 = (\<lambda>_. ''h''),
     dp_registered = (\<lambda>h. if endswith h ''example.com'' then Some ''example.com'' else None),
     dp_adapters = [example_adapter], dp_hmac = (\<lambda>s. s), dp_encrypt = (\<lambda>x _. x), dp_decrypt = (\<lambda>x _. Some x), dp_seal = (\<lambda>_ _ _. ''s''),
     dp_credentials = (\<lambda>_ _. []), dp_friendly = (\<lambda>_ _. None), dp_store = (\<lambda>_. True), dp_threats = (\<lambda>_ _ db. Some db),
     dp_allow_non_public = False, dp_require_verification = True, dp_worker_pools = [''t-acme''], dp_per_tenant = True,
     dp_max_concurrent = 10, dp_max_targets = 50000, dp_stage_timeout = 14400, dp_retention_days = 30, dp_data_region = ''sa-central''\<rparr>"

definition example_call :: call where
  "example_call = \<lparr>cl_now = 1000, cl_context = no_context, cl_random = ''tok''\<rparr>"

definition example_org :: organization where
  "example_org = \<lparr>og_id = 5, og_tenant = 3, og_name = ''Acme'', og_settings = [], og_baseline_completed_at = None, og_is_active = True\<rparr>"

definition empty_platform :: platform where
  "empty_platform = \<lparr>pl_plans = [], pl_tenants = [\<lparr>tn_id = 3, tn_name = ''Acme'', tn_slug = ''acme'', tn_status = tenant_status.ACTIVE,
       tn_plan_id = None, tn_worker_pool = ''t-acme'', tn_data_region = ''sa-central'', tn_settings = []\<rparr>],
     pl_orgs = [example_org], pl_members = [], pl_usage = [], pl_entries = [], pl_profiles = [], pl_scans = [], pl_decisions = [],
     pl_artifacts = [], pl_schedules = [], pl_snapshots = [],
     pl_inv = \<lparr>assets = [], relationships = [], observation_rows = [], findings = [], activities = [], asset_events = [], intel = [],
       trail = [], next_id = 10\<rparr>\<rparr>"

definition example_entry_args :: entry_args where
  "example_entry_args = \<lparr>ea_tenant = 3, ea_org = 5, ea_type = scope_entry_type.DOMAIN, ea_value = '' *.Example.com. '',
     ea_subdomains = False, ea_exclusion = False, ea_active = True, ea_notes = None, ea_user = None\<rparr>"

definition example_txt :: "string \<Rightarrow> string list" where
  "example_txt n = (if n = ''_exteriq-asm.example.com'' then [''exteriq-asm-verification=tok''] else [])"

definition example_added :: "platform \<times> scope_entry" where
  "example_added = projr (add_entry example_deployment example_call example_entry_args empty_platform)"

definition example_verified :: "platform \<times> scope_entry" where
  "example_verified = projr (verify_entry example_deployment example_call example_txt 10 (fst example_added))"

lemma example_add: "add_entry example_deployment example_call example_entry_args empty_platform = Inr example_added"
proof -
  have "\<not> isl (add_entry example_deployment example_call example_entry_args empty_platform)" by code_simp
  then show ?thesis by (simp add: example_added_def)
qed

lemma example_verify: "verify_entry example_deployment example_call example_txt 10 (fst example_added) = Inr example_verified"
proof -
  have "\<not> isl (verify_entry example_deployment example_call example_txt 10 (fst example_added))" by code_simp
  then show ?thesis by (simp add: example_verified_def)
qed

lemma example_scope_run:
  "scope_run example_deployment empty_platform [Added (se_id (snd example_added)), DnsChecked 10 example_txt] (fst example_verified)"
proof -
  have "scope_step example_deployment empty_platform (Added (se_id (snd example_added))) (fst example_added)"
    using example_add by (intro scope_step.add [where e = "snd example_added"]) simp
  moreover have "scope_step example_deployment (fst example_added) (DnsChecked 10 example_txt) (fst example_verified)"
    using example_verify by (intro scope_step.verify [where e = "snd example_verified"]) simp
  ultimately show ?thesis
    using scope_run.extend [OF scope_run.extend [OF scope_run.start]] by fastforce
qed

text \<open>
  C4: nothing in the scope counts as verified without a proof. After any run of the service over an
  empty scope, an entry is verified only if the run contains an approval of this very entry, for an
  inclusion of addresses, or a DNS check of it that found its own token under the verification name.
\<close>

theorem verified_only_by_proof:
  assumes "scope_run D pl es pl'" "pl_entries pl = []"
    and "e \<in> set (pl_entries pl')" "se_verification e = verification_status.VERIFIED"
  shows "\<exists>ev \<in> set es. proves ev e"
  using scope_run_entries [OF assms(1)] assms(2-4) by (simp add: ids_known_def)

theorem verified_only_by_proof_witness:
  "scope_run example_deployment empty_platform [Added (se_id (snd example_added)), DnsChecked 10 example_txt] (fst example_verified) \<and>
   map (\<lambda>e. (se_value e, se_verification e)) (pl_entries (fst example_verified)) = [(''example.com'', verification_status.VERIFIED)] \<and>
   (\<exists>ev \<in> {Added (se_id (snd example_added)), DnsChecked 10 example_txt}. proves ev (hd (pl_entries (fst example_verified))))"
proof -
  let ?e = "hd (pl_entries (fst example_verified))"
  have 1: "map (\<lambda>e. (se_value e, se_verification e)) (pl_entries (fst example_verified)) = [(''example.com'', verification_status.VERIFIED)]"
    by code_simp
  then have 2: "?e \<in> set (pl_entries (fst example_verified))" "se_verification ?e = verification_status.VERIFIED" by auto
  have "pl_entries empty_platform = []" by (simp add: empty_platform_def)
  from verified_only_by_proof [OF example_scope_run this 2] 1 example_scope_run show ?thesis by simp
qed





end
