(* ===== verification/ScanTargets.thy ===== *)
theory ScanTargets
  imports ScopeService IngestScope
begin

text \<open>
  The targets of a stage, from the current inventory (\<open>backend/app/scans/targets.py\<close>). Sets are lists
  without order where the code leaves the order open, and \<^const>\<open>None\<close> is an exception (a stored URL that
  does not parse).
\<close>

definition NON_HTTP_PORTS :: "int list" where
  "NON_HTTP_PORTS = [21, 22, 23, 25, 53, 110, 111, 135, 139, 143, 389, 445, 465, 587, 636, 993, 995, 1433, 1521, 2049,
     3306, 3389, 5432, 5900, 5901, 6379, 9042, 11211, 27017, 27018]"

definition REVISIT_INACTIVE_DAYS :: int where
  "REVISIT_INACTIVE_DAYS = 30"

record stage_targets =
  st_targets :: "target list"
  st_derived :: "(string, string list) dict"
  st_invalid :: "string list"

definition no_targets :: stage_targets where
  "no_targets = \<lparr>st_targets = [], st_derived = [], st_invalid = []\<rparr>"

definition add_target :: "unicode \<Rightarrow> target_kind \<times> string \<Rightarrow> stage_targets \<Rightarrow> stage_targets" where
  "add_target u kv out =
     (case mk_target u (fst kv) (snd kv) of
        Inr t \<Rightarrow> out\<lparr>st_targets := st_targets out @ [t]\<rparr>
      | Inl _ \<Rightarrow> out\<lparr>st_invalid := st_invalid out @ [snd kv]\<rparr>)"

definition add_targets :: "unicode \<Rightarrow> (target_kind \<times> string) list \<Rightarrow> stage_targets \<Rightarrow> stage_targets" where
  "add_targets u kvs out = fold (add_target u) kvs out"

text \<open>A dictionary of sets: adding a member, reading an entry that may be missing.\<close>

definition members :: "('k, 'v list) dict \<Rightarrow> 'k \<Rightarrow> 'v list" where
  "members d k = (case map_of d k of None \<Rightarrow> [] | Some vs \<Rightarrow> vs)"

definition add_member :: "'k \<times> 'v \<Rightarrow> ('k, 'v list) dict \<Rightarrow> ('k, 'v list) dict" where
  "add_member kv d = dict_set d (fst kv) (let vs = members d (fst kv) in if snd kv \<in> set vs then vs else vs @ [snd kv])"

definition group :: "('k \<times> 'v) list \<Rightarrow> ('k, 'v list) dict" where
  "group kvs = fold add_member kvs []"

definition revisited :: "time \<Rightarrow> bool \<Rightarrow> asset \<Rightarrow> bool" where
  "revisited now recent a \<longleftrightarrow> as_status a = asset_status.ACTIVE \<or> recent \<and> now - days REVISIT_INACTIVE_DAYS \<le> as_last_seen a"

definition scan_hostnames :: "inventory \<Rightarrow> uuid \<Rightarrow> time \<Rightarrow> bool \<Rightarrow> asset list" where
  "scan_hostnames db org now recent =
     filter (\<lambda>a. as_org a = org \<and> as_type a \<in> set HOSTNAME_TYPES \<and> as_scope a = scope_status.IN_SCOPE \<and> revisited now recent a) (assets db)"

text \<open>The rows of \<open>_resolution_map\<close>: in-scope name and active address of a relation.\<close>

definition resolution :: "inventory \<Rightarrow> uuid \<Rightarrow> relationship \<Rightarrow> (string \<times> string) option" where
  "resolution db org r =
     (if rl_org r = org \<and> rl_active r \<and> rl_type r = relation_type.RESOLVES_TO then
        (case (get_asset db (rl_source_asset r), get_asset db (rl_target_asset r)) of
           (Some src, Some dst) \<Rightarrow>
             if as_scope src = scope_status.IN_SCOPE \<and> as_status dst = asset_status.ACTIVE then Some (as_norm src, as_norm dst) else None
         | _ \<Rightarrow> None)
      else None)"

definition resolutions :: "inventory \<Rightarrow> uuid \<Rightarrow> (string \<times> string) list" where
  "resolutions db org = List.map_filter (resolution db org) (relationships db)"

definition ip_to_hosts :: "inventory \<Rightarrow> uuid \<Rightarrow> (string, string list) dict" where
  "ip_to_hosts db org = group (map (\<lambda>(h, i). (i, h)) (resolutions db org))"

definition host_to_ips :: "inventory \<Rightarrow> uuid \<Rightarrow> (string, string list) dict" where
  "host_to_ips db org = group (resolutions db org)"

definition open_port :: "string \<Rightarrow> (string \<times> int) option" where
  "open_port v = (case parse_port_value v of Some (h, Some p, proto) \<Rightarrow> if proto = ''tcp'' then Some (h, p) else None | _ \<Rightarrow> None)"

definition active_of :: "inventory \<Rightarrow> uuid \<Rightarrow> asset_type \<Rightarrow> asset list" where
  "active_of db org t = filter (\<lambda>a. as_org a = org \<and> as_type a = t \<and> as_status a = asset_status.ACTIVE) (assets db)"

definition open_ports :: "inventory \<Rightarrow> uuid \<Rightarrow> (string, int list) dict" where
  "open_ports db org = group (List.map_filter open_port (map as_norm (active_of db org asset_type.PORT)))"

subsection \<open>A scan limited to some targets\<close>

definition default_port :: "split_result \<Rightarrow> int option \<Rightarrow> int" where
  "default_port r p = (case p of Some n \<Rightarrow> if n \<noteq> 0 then n else if scheme r = ''https'' then 443 else 80
                       | None \<Rightarrow> if scheme r = ''https'' then 443 else 80)"

text \<open>Host and port of a URL: no host is \<^const>\<open>None\<close>, an exception the outer \<^const>\<open>None\<close>.\<close>

definition url_place :: "unicode \<Rightarrow> string \<Rightarrow> (string \<times> int) option option" where
  "url_place u url =
     (case urlsplit u url of
        None \<Rightarrow> None
      | Some r \<Rightarrow>
          (case hostname r of
             None \<Rightarrow> Some None
           | Some h \<Rightarrow> if h = [] then Some None else (case url_port r of None \<Rightarrow> None | Some p \<Rightarrow> Some (Some (h, default_port r p)))))"

definition override_entry :: "unicode \<Rightarrow> string \<Rightarrow> string list \<times> (string, int list) dict \<Rightarrow> (string list \<times> (string, int list) dict) option" where
  "override_entry u raw hp =
     (if contains raw ''://'' then
        (case url_place u raw of
           None \<Rightarrow> None
         | Some None \<Rightarrow> Some hp
         | Some (Some (h, p)) \<Rightarrow> Some (fst hp @ [h], add_member (h, p) (snd hp)))
      else
        (case split_host_port u raw of
           Inl _ \<Rightarrow> Some (fst hp @ [raw], snd hp)
         | Inr (h, p) \<Rightarrow> Some (fst hp @ [h], add_member (h, p) (snd hp))))"

definition override_of :: "unicode \<Rightarrow> scan \<Rightarrow> (string list \<times> (string, int list) dict) option" where
  "override_of u s = for_each (override_entry u) (case sc_override s of None \<Rightarrow> [] | Some xs \<Rightarrow> xs) ([], [])"

definition inside :: "string list \<Rightarrow> string \<Rightarrow> bool" where
  "inside override v \<longleftrightarrow> override = [] \<or> v \<in> set override"

subsection \<open>The targets of each stage\<close>

text \<open>What every stage reads: the inventory, the organization, its inclusion entries, and the limit.\<close>

record target_source =
  ts_unicode :: unicode
  ts_db :: inventory
  ts_org :: organization
  ts_now :: time
  ts_entries :: "scope_entry list"
  ts_override :: "string list"
  ts_ports :: "(string, int list) dict"
  ts_limit :: nat
  ts_pages :: bool

definition entry_values :: "target_source \<Rightarrow> scope_entry_type \<Rightarrow> string list" where
  "entry_values x t = map se_value (filter (\<lambda>e. se_type e = t) (ts_entries x))"

definition source_resolutions :: "target_source \<Rightarrow> (string, string list) dict" where
  "source_resolutions x = ip_to_hosts (ts_db x) (og_id (ts_org x))"

definition domain_stage :: "target_source \<Rightarrow> stage_targets" where
  "domain_stage x = add_targets (ts_unicode x)
     (map (Pair target_kind.DOMAIN) (filter (inside (ts_override x)) (entry_values x scope_entry_type.DOMAIN))) no_targets"

definition names_under :: "string list \<Rightarrow> string \<Rightarrow> bool" where
  "names_under override n \<longleftrightarrow> n \<in> set override \<or> list_ex (\<lambda>h. endswith n (''.'' @ h)) override"

definition dns_stage :: "target_source \<Rightarrow> stage_targets" where
  "dns_stage x =
     (let known = map as_norm (scan_hostnames (ts_db x) (og_id (ts_org x)) (ts_now x) True) @ entry_values x scope_entry_type.DOMAIN;
          names = filter (\<lambda>n. ts_override x = [] \<or> names_under (ts_override x) n) known in
      add_targets (ts_unicode x) (map (Pair target_kind.HOSTNAME) (sort (remdups names))) no_targets)"

definition enrichment_stage :: "target_source \<Rightarrow> stage_targets" where
  "enrichment_stage x =
     add_targets (ts_unicode x)
       (map (\<lambda>a. (target_kind.IP, as_norm a))
         (filter (\<lambda>a. as_scope a \<noteq> scope_status.OUT_OF_SCOPE) (active_of (ts_db x) (og_id (ts_org x)) asset_type.IP_ADDRESS)))
       (no_targets\<lparr>st_derived := source_resolutions x\<rparr>)"

definition entry_target :: "scope_entry \<Rightarrow> (target_kind \<times> string) option" where
  "entry_target e = (case se_type e of scope_entry_type.IP \<Rightarrow> Some (target_kind.IP, se_value e)
     | scope_entry_type.CIDR \<Rightarrow> Some (target_kind.CIDR, se_value e) | scope_entry_type.DOMAIN \<Rightarrow> None)"

definition derived_address :: "target_source \<Rightarrow> string list \<Rightarrow> asset \<Rightarrow> bool" where
  "derived_address x seen a \<longleftrightarrow>
     as_scope a = scope_status.DERIVED \<and> as_norm a \<notin> set seen \<and>
     \<not> (jtruthy (get_or (org_settings (og_settings (ts_org x))) ''skip_cdn_ips'' (JBool True)) \<and> jtruthy (jget (as_meta a) ''cdn'')) \<and>
     (inside (ts_override x) (as_norm a) \<or> (\<exists>h \<in> set (members (source_resolutions x) (as_norm a)). h \<in> set (ts_override x)))"

definition port_stage :: "target_source \<Rightarrow> stage_targets" where
  "port_stage x =
     (let out = add_targets (ts_unicode x) (List.map_filter entry_target (ts_entries x)) (no_targets\<lparr>st_derived := source_resolutions x\<rparr>) in
      add_targets (ts_unicode x)
        (map (\<lambda>a. (target_kind.IP, as_norm a))
          (filter (derived_address x (map val (st_targets out))) (active_of (ts_db x) (og_id (ts_org x)) asset_type.IP_ADDRESS))) out)"

subsubsection \<open>Web services\<close>

definition host_port :: "string \<Rightarrow> int \<Rightarrow> target_kind \<times> string" where
  "host_port h p = (target_kind.HOST_PORT, format_host_port h p)"

definition web_ports :: "int list \<Rightarrow> int list" where
  "web_ports ps = filter (\<lambda>p. p \<notin> set NON_HTTP_PORTS) ps"

definition named_ports :: "target_source \<Rightarrow> (target_kind \<times> string) list" where
  "named_ports x = concat (map (\<lambda>(h, ps). map (host_port h) ps) (ts_ports x))"

definition hostname_probes :: "target_source \<Rightarrow> asset \<Rightarrow> (target_kind \<times> string) list" where
  "hostname_probes x a =
     (let host = as_norm a; opened = open_ports (ts_db x) (og_id (ts_org x));
          web = web_ports (concat (map (members opened) (members (host_to_ips (ts_db x) (og_id (ts_org x))) host))) in
      if \<not> inside (ts_override x) host \<or> host \<in> fst ` set (ts_ports x) then []
      else if web \<noteq> [] then map (host_port host) web else [(target_kind.HOSTNAME, host)])"

definition address_probes :: "target_source \<Rightarrow> (target_kind \<times> string) list" where
  "address_probes x =
     concat (map (\<lambda>(i, ps). if i \<in> fst ` set (source_resolutions x) then [] else map (host_port i) (web_ports ps))
       (open_ports (ts_db x) (og_id (ts_org x))))"

definition entry_probes :: "target_source \<Rightarrow> (target_kind \<times> string) list" where
  "entry_probes x = map (Pair target_kind.IP)
     (filter (\<lambda>v. v \<notin> fst ` set (open_ports (ts_db x) (og_id (ts_org x)))) (entry_values x scope_entry_type.IP))"

definition endpoints_of :: "target_source \<Rightarrow> asset list" where
  "endpoints_of x = filter (\<lambda>a. as_scope a \<noteq> scope_status.OUT_OF_SCOPE) (active_of (ts_db x) (og_id (ts_org x)) asset_type.HTTP_ENDPOINT)"

text \<open>The port is read only where the host is wanted.\<close>

definition endpoint_probe :: "target_source \<Rightarrow> asset \<Rightarrow> (target_kind \<times> string) list \<Rightarrow> (target_kind \<times> string) list option" where
  "endpoint_probe x a out =
     (case urlsplit (ts_unicode x) (as_norm a) of
        None \<Rightarrow> None
      | Some r \<Rightarrow>
          (case hostname r of
             None \<Rightarrow> Some out
           | Some h \<Rightarrow>
               if h = [] \<or> \<not> inside (ts_override x) h then Some out
               else (case url_port r of
                       None \<Rightarrow> None
                     | Some p \<Rightarrow>
                         if h \<in> fst ` set (ts_ports x) \<and> default_port r p \<notin> set (members (ts_ports x) h) then Some out
                         else Some (out @ [host_port h (default_port r p)]))))"

definition http_stage :: "target_source \<Rightarrow> stage_targets option" where
  "http_stage x =
     map_option (\<lambda>probes. add_targets (ts_unicode x) (sort_key (\<lambda>(k, v). (target_kind_value k, v)) (remdups probes))
         (no_targets\<lparr>st_derived := source_resolutions x\<rparr>))
       (for_each (endpoint_probe x) (endpoints_of x)
         (named_ports x @ concat (map (hostname_probes x) (scan_hostnames (ts_db x) (og_id (ts_org x)) (ts_now x) False)) @
          address_probes x @ entry_probes x))"

text \<open>The pages a crawl recorded on an endpoint, while the limit is not reached.\<close>

fun add_pages :: "target_source \<Rightarrow> string \<Rightarrow> json list \<Rightarrow> stage_targets \<Rightarrow> stage_targets" where
  "add_pages x url [] out = out"
| "add_pages x url (page # pages) out =
     (if ts_limit x \<le> length (st_targets out) then out
      else add_pages x url pages (add_target (ts_unicode x) (target_kind.URL, url @ jtext page) out))"

definition wanted_url :: "target_source \<Rightarrow> string \<Rightarrow> bool option" where
  "wanted_url x url =
     (case urlsplit (ts_unicode x) url of
        None \<Rightarrow> None
      | Some r \<Rightarrow>
          (let named = members (ts_ports x) (case hostname r of None \<Rightarrow> [] | Some h \<Rightarrow> h) in
           if ts_override x \<noteq> [] \<and> (case hostname r of None \<Rightarrow> True | Some h \<Rightarrow> h \<notin> set (ts_override x)) then Some False
           else if named = [] then Some True
           else map_option (\<lambda>p. default_port r p \<in> set named) (url_port r)))"

definition web_endpoint :: "target_source \<Rightarrow> asset \<Rightarrow> stage_targets \<Rightarrow> stage_targets option" where
  "web_endpoint x a out =
     map_option (\<lambda>wanted.
         if \<not> wanted then out
         else (let out' = add_target (ts_unicode x) (target_kind.URL, as_norm a) out in
               if ts_pages x then add_pages x (as_norm a) (jlist (jget (as_meta a) ''crawled_pages'')) out' else out'))
       (wanted_url x (as_norm a))"

definition web_stage :: "target_source \<Rightarrow> stage_targets option" where
  "web_stage x = for_each (web_endpoint x) (endpoints_of x) (no_targets\<lparr>st_derived := source_resolutions x\<rparr>)"

fun stage_targets_of :: "stage_type \<Rightarrow> target_source \<Rightarrow> stage_targets option" where
  "stage_targets_of stage_type.SUBDOMAIN_DISCOVERY x = Some (domain_stage x)"
| "stage_targets_of stage_type.OSINT_ENRICHMENT x = Some (domain_stage x)"
| "stage_targets_of stage_type.DNS_RESOLUTION x = Some (dns_stage x)"
| "stage_targets_of stage_type.IP_ENRICHMENT x = Some (enrichment_stage x)"
| "stage_targets_of stage_type.PORT_DISCOVERY x = Some (port_stage x)"
| "stage_targets_of stage_type.HTTP_DISCOVERY x = http_stage x"
| "stage_targets_of stage_type.WEB_CRAWL x = web_stage x"
| "stage_targets_of stage_type.VULNERABILITY_DETECTION x = web_stage x"

definition target_source_of :: "deployment \<Rightarrow> call \<Rightarrow> platform \<Rightarrow> organization \<Rightarrow> scan \<Rightarrow> bool \<Rightarrow> target_source option" where
  "target_source_of D c pl g s pages =
     map_option (\<lambda>(override, ports).
         \<lparr>ts_unicode = dp_unicode D, ts_db = pl_inv pl, ts_org = g, ts_now = cl_now c,
          ts_entries = filter (\<lambda>e. \<not> se_exclusion e) (entries_of pl (og_id g)), ts_override = override, ts_ports = ports,
          ts_limit = dp_max_targets D, ts_pages = pages\<rparr>)
       (override_of (dp_unicode D) s)"

definition build_targets :: "deployment \<Rightarrow> call \<Rightarrow> platform \<Rightarrow> organization \<Rightarrow> scan \<Rightarrow> stage_type \<Rightarrow> bool \<Rightarrow> stage_targets option" where
  "build_targets D c pl g s t pages =
     (case target_source_of D c pl g s pages of
        None \<Rightarrow> None
      | Some x \<Rightarrow> map_option (\<lambda>out. out\<lparr>st_targets := take (dp_max_targets D) (st_targets out)\<rparr>) (stage_targets_of t x))"

lemma add_targets_extends: "\<exists>more. st_targets (add_targets u kvs out) = st_targets out @ more"
proof -
  have "\<exists>more. st_targets (add_target u kv out) = st_targets out @ more" for kv out by (simp add: add_target_def split: sum.split)
  then show ?thesis unfolding add_targets_def by (induction kvs arbitrary: out) (simp, metis append_assoc fold_simps(2))
qed


end
