(* ===== verification/Tenancy.thy ===== *)
theory Tenancy
  imports Platform
begin

text \<open>Tenants, plans, quotas and usage (\<open>backend/app/tenants/service.py\<close>).\<close>

definition mk_plan :: "uuid \<Rightarrow> string \<Rightarrow> string \<Rightarrow> plan" where
  "mk_plan i c n = \<lparr>pn_id = i, pn_code = c, pn_name = n, pn_max_organizations = None, pn_max_assets = None, pn_max_users = None,
     pn_max_scans_per_day = None, pn_max_concurrent_scans = 2, pn_allow_active_scanning = True, pn_is_default = False\<rparr>"

definition DEFAULT_PLANS :: "(uuid \<Rightarrow> plan) list" where
  "DEFAULT_PLANS =
     [(\<lambda>i. (mk_plan i ''self-hosted'' ''Self-hosted (unlimited)'')\<lparr>pn_is_default := True, pn_max_concurrent_scans := 4\<rparr>),
      (\<lambda>i. (mk_plan i ''starter'' ''Starter'')\<lparr>pn_max_organizations := Some 1, pn_max_assets := Some 2500, pn_max_users := Some 5,
             pn_max_scans_per_day := Some 4, pn_max_concurrent_scans := 1\<rparr>),
      (\<lambda>i. (mk_plan i ''professional'' ''Professional'')\<lparr>pn_max_organizations := Some 5, pn_max_assets := Some 25000,
             pn_max_users := Some 25, pn_max_scans_per_day := Some 24, pn_max_concurrent_scans := 3\<rparr>),
      (\<lambda>i. (mk_plan i ''enterprise'' ''Enterprise'')\<lparr>pn_max_concurrent_scans := 8\<rparr>)]"

definition slug_char :: "char \<Rightarrow> bool" where
  "slug_char c \<longleftrightarrow> islower c \<or> isdigit c"

text \<open>\<open>re.sub("[^a-z0-9]+", "-", s)\<close>: every maximal run of other characters becomes one hyphen.\<close>

fun hyphenate :: "string \<Rightarrow> string" where
  "hyphenate [] = []"
| "hyphenate (c # cs) =
     (if slug_char c then c # hyphenate cs
      else (case hyphenate cs of d # ds \<Rightarrow> if d = CHR ''-'' then d # ds else CHR ''-'' # d # ds | [] \<Rightarrow> ''-''))"

definition slugify :: "string \<Rightarrow> string" where
  "slugify name =
     (let s = take 90 (strip_by (\<lambda>c. c = CHR ''-'') (hyphenate (lower name))) in if s = [] then ''tenant'' else s)"

definition fresh :: "platform \<Rightarrow> uuid" where
  "fresh pl = next_id (pl_inv pl)"

definition used_id :: "platform \<Rightarrow> platform" where
  "used_id pl = pl\<lparr>pl_inv := (pl_inv pl)\<lparr>next_id := next_id (pl_inv pl) + 1\<rparr>\<rparr>"

definition ensure_plan :: "(uuid \<Rightarrow> plan) \<Rightarrow> platform \<Rightarrow> platform" where
  "ensure_plan spec pl =
     (if list_ex (\<lambda>p. pn_code p = pn_code (spec 0)) (pl_plans pl) then pl
      else used_id (pl\<lparr>pl_plans := pl_plans pl @ [spec (fresh pl)]\<rparr>))"

definition ensure_plans :: "platform \<Rightarrow> platform" where
  "ensure_plans pl = fold ensure_plan DEFAULT_PLANS pl"

definition default_plan :: "platform \<Rightarrow> plan option" where
  "default_plan pl = find pn_is_default (pl_plans pl)"

text \<open>\<open>slug or name\<close>: an empty slug counts as none; likewise an empty plan code.\<close>

definition create_tenant :: "deployment \<Rightarrow> call \<Rightarrow> string \<Rightarrow> string \<Rightarrow> string \<Rightarrow> platform \<Rightarrow> fault + platform \<times> tenant_row" where
  "create_tenant D c name slug plan_code pl =
     (let sl = slugify (if slug = [] then name else slug);
          plan = (if plan_code = [] then default_plan pl else find (\<lambda>p. pn_code p = plan_code) (pl_plans pl)) in
      ensure (\<not> list_ex (\<lambda>t. tn_slug t = sl) (pl_tenants pl))
        (Conflict (''A tenant with slug '' @ CHR 0x27 # sl @ CHR 0x27 # '' already exists''))
      (ensure (plan_code = [] \<or> plan \<noteq> None) (ValidationFailed (''Unknown plan '' @ CHR 0x27 # plan_code @ [CHR 0x27]))
      (let t = \<lparr>tn_id = fresh pl, tn_name = strip name, tn_slug = sl, tn_status = tenant_status.ACTIVE, tn_plan_id = map_option pn_id plan,
                tn_worker_pool = (if dp_per_tenant D then take 64 (''t-'' @ sl) else ''default''),
                tn_data_region = dp_data_region D, tn_settings = []\<rparr> in
       Inr (audited D c ((audit_args ''tenant.created'')
              \<lparr>a_tenant := Some (tn_id t), a_object_type := Some ''tenant'', a_object_id := Some (uuid_str (tn_id t)),
               a_new := JObj [(''name'', JStr (tn_name t)), (''slug'', JStr sl),
                              (''plan'', case plan of None \<Rightarrow> JNull | Some p \<Rightarrow> JStr (pn_code p))]\<rparr>)
              (used_id (pl\<lparr>pl_tenants := pl_tenants pl @ [t]\<rparr>)), t))))"

subsection \<open>Quotas\<close>

definition plan_of :: "platform \<Rightarrow> uuid \<Rightarrow> plan option" where
  "plan_of pl t = (case get_tenant pl t of None \<Rightarrow> None
     | Some r \<Rightarrow> (case tn_plan_id r of None \<Rightarrow> None | Some i \<Rightarrow> find (\<lambda>p. pn_id p = i) (pl_plans pl)))"

text \<open>\<open>True\<close> where the plan sets no bound or \<open>n\<close> is below it.\<close>

definition within_quota :: "platform \<Rightarrow> uuid \<Rightarrow> (plan \<Rightarrow> int option) \<Rightarrow> nat \<Rightarrow> bool" where
  "within_quota pl t bound n \<longleftrightarrow>
     (case plan_of pl t of None \<Rightarrow> True | Some p \<Rightarrow> (case bound p of None \<Rightarrow> True | Some m \<Rightarrow> int n < m))"

definition quota_error :: "platform \<Rightarrow> uuid \<Rightarrow> (plan \<Rightarrow> int option) \<Rightarrow> string \<Rightarrow> app_error" where
  "quota_error pl t bound what =
     QuotaExceeded (''Your plan allows '' @ (case plan_of pl t of None \<Rightarrow> [] | Some p \<Rightarrow> (case bound p of None \<Rightarrow> [] | Some m \<Rightarrow> show_int m)) @ what)"

definition check_can_add_organization :: "platform \<Rightarrow> uuid \<Rightarrow> fault + unit" where
  "check_can_add_organization pl t =
     ensure (within_quota pl t pn_max_organizations (length (filter (\<lambda>g. og_tenant g = t) (pl_orgs pl))))
       (quota_error pl t pn_max_organizations '' organization(s)'') (Inr ())"

definition check_can_add_user :: "platform \<Rightarrow> uuid \<Rightarrow> fault + unit" where
  "check_can_add_user pl t =
     ensure (within_quota pl t pn_max_users (length (filter (\<lambda>m. mb_tenant m = t \<and> mb_active m) (pl_members pl))))
       (quota_error pl t pn_max_users '' user(s)'') (Inr ())"

definition recent_scans :: "platform \<Rightarrow> uuid \<Rightarrow> time \<Rightarrow> nat" where
  "recent_scans pl t now = length (filter (\<lambda>s. sc_tenant s = t \<and> now - days 1 \<le> sc_created_at s) (pl_scans pl))"

definition check_can_start_scan :: "call \<Rightarrow> platform \<Rightarrow> uuid \<Rightarrow> fault + unit" where
  "check_can_start_scan c pl t =
     ensure (within_quota pl t pn_max_scans_per_day (recent_scans pl t (cl_now c)))
       (quota_error pl t pn_max_scans_per_day '' scans per day'') (Inr ())"

definition scan_concurrency_limit :: "platform \<Rightarrow> uuid \<Rightarrow> int" where
  "scan_concurrency_limit pl t = (case plan_of pl t of None \<Rightarrow> 2 | Some p \<Rightarrow> pn_max_concurrent_scans p)"

definition running_scans :: "platform \<Rightarrow> uuid option \<Rightarrow> int" where
  "running_scans pl t =
     int (length (filter (\<lambda>s. sc_status s = scan_status.RUNNING \<and> (case t of None \<Rightarrow> True | Some i \<Rightarrow> sc_tenant s = i)) (pl_scans pl)))"

definition active_scan_count :: "platform \<Rightarrow> uuid \<Rightarrow> int" where
  "active_scan_count pl t = int (length (filter (\<lambda>s. sc_tenant s = t \<and> sc_status s \<in> set ACTIVE_SCAN_STATES) (pl_scans pl)))"

definition asset_quota_remaining :: "platform \<Rightarrow> uuid \<Rightarrow> int option" where
  "asset_quota_remaining pl t =
     (case plan_of pl t of None \<Rightarrow> None
      | Some p \<Rightarrow> map_option (\<lambda>m. max (m - int (length (filter (\<lambda>a. as_tenant a = t \<and> as_status a = asset_status.ACTIVE) (assets (pl_inv pl))))) 0)
          (pn_max_assets p))"

definition record_usage :: "uuid \<Rightarrow> string \<Rightarrow> int \<Rightarrow> uuid option \<Rightarrow> attrs \<Rightarrow> platform \<Rightarrow> platform" where
  "record_usage t metric quantity reference details pl =
     pl\<lparr>pl_usage := pl_usage pl @ [\<lparr>us_tenant = t, us_metric = metric, us_quantity = quantity, us_reference = reference, us_details = details\<rparr>]\<rparr>"

definition tenant_is_active :: "platform \<Rightarrow> uuid \<Rightarrow> bool" where
  "tenant_is_active pl t = (case get_tenant pl t of None \<Rightarrow> False | Some r \<Rightarrow> tn_status r = tenant_status.ACTIVE)"

end
