(* ===== verification/Scans.thy ===== *)
theory Scans
  imports ScanTargets Tenancy
begin

text \<open>
  Profiles (\<open>backend/app/scans/profiles.py\<close>, \<open>engines.py\<close>) and the creation of a scan
  (\<open>backend/app/scans/orchestrator.py\<close>).
\<close>

definition token_for :: "deployment \<Rightarrow> string \<Rightarrow> string" where
  "token_for D engine = ''eng_'' @ take 16 (dp_hmac D (''engine:'' @ engine))"

text \<open>A later adapter with the same token wins, as in the dictionary.\<close>

definition engine_for :: "deployment \<Rightarrow> string \<Rightarrow> string" where
  "engine_for D v = (case map_of (rev (map (\<lambda>a. (token_for D (ad_name a), ad_name a)) (dp_adapters D))) v of None \<Rightarrow> v | Some n \<Rightarrow> n)"

definition label_for :: "deployment \<Rightarrow> string \<Rightarrow> string" where
  "label_for D engine = (case get_adapter D engine of Some a \<Rightarrow> ad_display a | None \<Rightarrow> ''Scan stage'')"

subsection \<open>Profiles\<close>

definition STAGE_ORDER :: "stage_type list" where
  "STAGE_ORDER = [stage_type.SUBDOMAIN_DISCOVERY, stage_type.OSINT_ENRICHMENT, stage_type.DNS_RESOLUTION, stage_type.IP_ENRICHMENT,
     stage_type.PORT_DISCOVERY, stage_type.HTTP_DISCOVERY, stage_type.WEB_CRAWL, stage_type.VULNERABILITY_DETECTION]"

fun position_in :: "'a list \<Rightarrow> 'a \<Rightarrow> nat" where
  "position_in [] x = 0"
| "position_in (y # ys) x = (if y = x then 0 else Suc (position_in ys x))"

definition INTERNAL_SLUGS :: "string list" where
  "INTERNAL_SLUGS = [''threat-check'']"

definition stage_type_of :: "json \<Rightarrow> stage_type option" where
  "stage_type_of v = (case v of JStr s \<Rightarrow> find (\<lambda>t. stage_type_value t = s) STAGE_ORDER | _ \<Rightarrow> None)"

definition raw_config :: "attrs \<Rightarrow> attrs option" where
  "raw_config raw = (let v = jget raw ''config'' in if \<not> jtruthy v then Some [] else (case v of JObj d \<Rightarrow> Some d | _ \<Rightarrow> None))"

text \<open>One stage as a caller wrote it; \<^const>\<open>None\<close> where the code records an error.\<close>

definition validate_stage :: "deployment \<Rightarrow> json \<Rightarrow> stage_spec option" where
  "validate_stage D v =
     (case v of
        JObj raw \<Rightarrow>
          if \<not> list_all (\<lambda>(k, _). k \<in> {''stage'', ''engine'', ''config'', ''enabled'', ''optional''}) raw then None
          else (case (stage_type_of (jget raw ''stage''), get_adapter D (engine_for D (jtext (jget raw ''engine''))), raw_config raw) of
                  (Some t, Some a, Some d) \<Rightarrow>
                    if t \<notin> set (ad_stage_types a) then None
                    else map_option (\<lambda>cfg. \<lparr>sp_stage = t, sp_engine = ad_name a, sp_config = cfg,
                             sp_enabled = jtruthy (get_or raw ''enabled'' (JBool True)),
                             sp_optional = jtruthy (get_or raw ''optional'' (JBool False)), sp_active = ad_active a cfg\<rparr>) (ad_parse a d)
                | _ \<Rightarrow> None)
      | _ \<Rightarrow> None)"

definition validate_stages :: "deployment \<Rightarrow> json list \<Rightarrow> fault + stage_spec list" where
  "validate_stages D stages =
     ensure (stages \<noteq> []) (ValidationFailed ''A scan profile needs at least one stage'')
     (ensure (length stages \<le> 20) (ValidationFailed ''A scan profile may have at most 20 stages'')
     (case mapM_opt (validate_stage D) stages of
        None \<Rightarrow> Inl (Refused (ValidationFailed ''Invalid scan profile''))
      | Some out \<Rightarrow> Inr (sort_key (\<lambda>s. position_in STAGE_ORDER (sp_stage s)) out)))"

definition profile_is_active :: "stage_spec list \<Rightarrow> bool" where
  "profile_is_active stages = list_ex (\<lambda>s. sp_active s \<and> sp_enabled s) stages"

text \<open>Per engine: the configuration key, the default in minutes and the grace in seconds.\<close>

definition ENGINE_BUDGET :: "(string, string \<times> int \<times> int) dict" where
  "ENGINE_BUDGET = [(''amass'', ''timeout_minutes'', 30, 300), (''bbot'', ''timeout_minutes'', 60, 0), (''subfinder'', ''max_time_minutes'', 10, 120),
     (''zap_spider'', ''max_duration_minutes'', 15, 120), (''zap_active'', ''max_duration_minutes'', 60, 180)]"

definition stage_time_limit :: "string \<Rightarrow> attrs \<Rightarrow> int \<Rightarrow> int" where
  "stage_time_limit engine config platform_limit =
     (case map_of ENGINE_BUDGET engine of
        None \<Rightarrow> platform_limit
      | Some (key, dflt, grace) \<Rightarrow>
          (let m = (case json_int (get_or config key (JInt dflt)) of None \<Rightarrow> dflt | Some i \<Rightarrow> i) in
           min platform_limit (m * 60 + grace)))"

subsection \<open>Creation\<close>

definition AUTH_PROVIDER :: string where
  "AUTH_PROVIDER = ''zap_auth''"

fun first_target :: "unicode \<Rightarrow> target_kind list \<Rightarrow> string \<Rightarrow> target option" where
  "first_target u [] v = None"
| "first_target u (k # ks) v = (case mk_target u k v of Inr t \<Rightarrow> Some t | Inl _ \<Rightarrow> first_target u ks v)"

definition parse_target :: "unicode \<Rightarrow> string \<Rightarrow> target option" where
  "parse_target u raw =
     (let v = lower (strip raw) in
      if v = [] then None
      else if contains v ''://'' then first_target u [target_kind.URL] v
      else first_target u [target_kind.IP, target_kind.HOST_PORT, target_kind.CIDR, target_kind.HOSTNAME] v)"

fun reason_text :: "reason \<Rightarrow> string" where
  "reason_text (EntryForbidsActive what v) = what @ '' matched scope entry '' @ v @ '' which does not permit active scanning''"
| "reason_text (EntryNotVerified v) = ''scope entry '' @ v @ '' is not verified''"
| "reason_text (WithinEntry what v) = what @ '' within authorized scope entry '' @ v"
| "reason_text HostnameExcluded = ''hostname excluded from scope''"
| "reason_text HostnameNotInScope = ''hostname is not within any authorized domain''"
| "reason_text IpExcluded = ''IP address excluded from scope''"
| "reason_text DerivedDisabled = ''IP is only derived from in-scope hostnames and derived scanning is disabled''"
| "reason_text (ResolvedFrom h) = ''IP address resolved from in-scope hostname '' @ h"
| "reason_text IpNotInScope = ''IP address is not within authorized scope''"
| "reason_text (NotPublic a) = a @ '' is not a publicly routable address; it is never actively scanned''"
| "reason_text (NetOverlapsExcluded v) = ''network overlaps excluded range '' @ v"
| "reason_text NetNotInScope = ''network is not within authorized scope''"

record scan_args =
  sa_tenant :: uuid
  sa_org :: uuid
  sa_profile :: uuid
  sa_trigger :: scan_trigger
  sa_requested_by :: "uuid option"
  sa_schedule :: "uuid option"
  sa_targets :: "string list"
  sa_secret :: string
  sa_header :: string
  sa_stages :: "json list option"

text \<open>The targets a scan is limited to, each one checked against the scope; none is no limit.\<close>

fun check_override :: "deployment \<Rightarrow> checker \<Rightarrow> string list \<Rightarrow> fault + string list" where
  "check_override D ck [] = Inr []"
| "check_override D ck (raw # rest) =
     (case parse_target (dp_unicode D) raw of
        None \<Rightarrow> Inl (Refused (ValidationFailed (''Invalid target: '' @ raw @
                  ''. Use a hostname, an IP address, host:port (example.com:8580) or a full URL.'')))
      | Some t \<Rightarrow>
          bind_r (need (check (dp_unicode D) ck (\<lambda>_. []) t False)) (\<lambda>d.
            ensure (allowed d) (ScopeViolation (raw @ '' is outside the authorized scope: '' @ reason_text (dec_reason d)))
              (bind_r (check_override D ck rest) (\<lambda>vs. Inr (val t # vs)))))"

definition stages_for :: "deployment \<Rightarrow> scan_profile \<Rightarrow> scan_args \<Rightarrow> fault + stage_spec list" where
  "stages_for D p a =
     bind_r (case sa_stages a of None \<Rightarrow> Inr (pr_stages p) | Some raw \<Rightarrow> validate_stages D raw) (\<lambda>specs.
       let on = filter sp_enabled specs in
       ensure (on \<noteq> []) (ValidationFailed ''The selected profile has no enabled stages'') (Inr on))"

definition check_active :: "platform \<Rightarrow> uuid \<Rightarrow> checker \<Rightarrow> stage_spec list \<Rightarrow> fault + unit" where
  "check_active pl tenant ck stages =
     (if \<not> list_ex sp_active stages then Inr ()
      else ensure (case plan_of pl tenant of None \<Rightarrow> True | Some p \<Rightarrow> pn_allow_active_scanning p)
             (ValidationFailed ''Your plan does not include active scanning'')
           (ensure (list_ex (\<lambda>r. allow_active_scanning r \<and> \<not> is_exclusion r) (rules ck))
             (ScopeViolation ''No scope entry authorizes active scanning for this organization'') (Inr ())))"

definition check_secret :: "deployment \<Rightarrow> scan_args \<Rightarrow> stage_spec list \<Rightarrow> fault + unit" where
  "check_secret D a stages =
     (if sa_secret a = [] then Inr ()
      else ensure (CHR 0x0D \<notin> set (sa_secret a) \<and> newline \<notin> set (sa_secret a)) (ValidationFailed ''The sign-in value must be a single line'')
        (case mapM_opt (\<lambda>s. get_adapter D (sp_engine s)) stages of
           None \<Rightarrow> Inl Crashed
         | Some ads \<Rightarrow>
             ensure (list_ex (\<lambda>ad. AUTH_PROVIDER \<in> set (ad_providers ad)) ads)
               (ValidationFailed ''This profile has no web application scanning stage, so a sign-in value would not be used. Choose a profile with web crawling or web vulnerability scanning.'')
               (Inr ())))"

definition new_stage :: "uuid \<Rightarrow> uuid \<Rightarrow> nat \<Rightarrow> stage_spec \<Rightarrow> scan_stage" where
  "new_stage i sid pos s =
     \<lparr>sg_id = i, sg_scan = sid, sg_position = int pos, sg_type = sp_stage s, sg_engine = sp_engine s,
      sg_config = dict_set (sp_config s) ''_optional'' (JBool (sp_optional s)), sg_status = stage_status.PENDING, sg_is_active = sp_active s,
      sg_target_count = 0, sg_rejected_count = 0, sg_observation_count = 0, sg_task = None, sg_pool = None, sg_dispatched_at = None,
      sg_started_at = None, sg_finished_at = None, sg_tool_version = None, sg_stats = [], sg_error = None\<rparr>"

definition secret_name :: "uuid \<Rightarrow> string" where
  "secret_name sid = ''scan:'' @ uuid_str sid @ '':auth''"

definition new_scan :: "deployment \<Rightarrow> call \<Rightarrow> scan_args \<Rightarrow> organization \<Rightarrow> scan_profile \<Rightarrow> stage_spec list \<Rightarrow> string list option \<Rightarrow> uuid \<Rightarrow> scan" where
  "new_scan D c a g p stages override i =
     \<lparr>sc_id = i, sc_tenant = sa_tenant a, sc_org = sa_org a, sc_profile = Some (pr_id p), sc_profile_name = pr_name p,
      sc_retain_raw = pr_retain_raw p, sc_status = scan_status.PENDING, sc_trigger = sa_trigger a, sc_requested_by = sa_requested_by a,
      sc_schedule = sa_schedule a, sc_override = override, sc_created_at = cl_now c, sc_started_at = None, sc_finished_at = None,
      sc_stats = [], sc_error = None, sc_is_baseline = (og_baseline_completed_at g = None),
      sc_secret = (if sa_secret a = [] then None else Some (dp_encrypt D (sa_secret a) (secret_name i))),
      sc_header = (if sa_secret a = [] then None else Some (sa_header a)),
      sc_stages = map (\<lambda>(n, s). new_stage (i + 1 + n) i n s) (enumerate 0 stages)\<rparr>"

definition insert_scan :: "scan \<Rightarrow> platform \<Rightarrow> platform" where
  "insert_scan s pl = pl\<lparr>pl_scans := pl_scans pl @ [s], pl_inv := (pl_inv pl)\<lparr>next_id := next_id (pl_inv pl) + 1 + length (sc_stages s)\<rparr>\<rparr>"

definition scan_created :: "scan_args \<Rightarrow> scan_profile \<Rightarrow> scan \<Rightarrow> audit_args" where
  "scan_created a p s = (audit_args ''scan.created'')
     \<lparr>a_tenant := Some (sa_tenant a), a_object_type := Some ''scan'', a_object_id := Some (uuid_str (sc_id s)),
      a_new := JObj [(''organization_id'', JStr (uuid_str (sa_org a))), (''profile'', JStr (pr_name p)),
        (''trigger'', JStr (scan_trigger_value (sa_trigger a))),
        (''targets'', case sc_override s of None \<Rightarrow> JNull | Some vs \<Rightarrow> JList (map JStr vs)), (''authenticated'', JBool (sa_secret a \<noteq> []))]\<rparr>"

definition visible_profile :: "platform \<Rightarrow> scan_args \<Rightarrow> scan_profile option" where
  "visible_profile pl a =
     (case find (\<lambda>p. pr_id p = sa_profile a) (pl_profiles pl) of
        None \<Rightarrow> None
      | Some p \<Rightarrow>
          (let internal = (pr_tenant p = None \<and> pr_slug p \<in> set INTERNAL_SLUGS) in
           if (pr_tenant p \<noteq> None \<and> pr_tenant p \<noteq> Some (sa_tenant a)) \<or> internal \<noteq> (sa_stages a \<noteq> None) then None else Some p))"

definition already_active :: "platform \<Rightarrow> scan_args \<Rightarrow> bool" where
  "already_active pl a =
     list_ex (\<lambda>s. sc_org s = sa_org a \<and> sc_profile s = Some (sa_profile a) \<and> sc_status s \<in> set ACTIVE_SCAN_STATES) (pl_scans pl)"

definition create_scan :: "deployment \<Rightarrow> call \<Rightarrow> scan_args \<Rightarrow> platform \<Rightarrow> fault + platform \<times> scan" where
  "create_scan D c a pl =
     bind_r (found ''Organization not found'' (case get_org pl (sa_org a) of None \<Rightarrow> None | Some g \<Rightarrow> if og_is_active g then Some g else None)) (\<lambda>g.
     bind_r (found ''Scan profile not found'' (visible_profile pl a)) (\<lambda>p.
     bind_r (stages_for D p a) (\<lambda>stages.
     bind_r (need (load_checker D pl g)) (\<lambda>ck.
     ensure (list_ex (\<lambda>r. \<not> is_exclusion r) (rules ck)) (ScopeViolation ''Define the organization's authorized scope before scanning'')
     (bind_r (check_active pl (sa_tenant a) ck stages) (\<lambda>_.
     bind_r (if sa_targets a = [] then Inr None else bind_r (check_override D ck (sa_targets a)) (\<lambda>vs. Inr (Some vs))) (\<lambda>override.
     ensure (sa_stages a \<noteq> None \<or> \<not> already_active pl a)
       (Conflict ''A scan with this profile is already queued or running for this organization'')
     (bind_r (check_can_start_scan c pl (sa_tenant a)) (\<lambda>_.
     bind_r (check_secret D a stages) (\<lambda>_.
       let s = new_scan D c a g p stages override (fresh pl) in
       Inr (record_usage (sa_tenant a) ''scans'' 1 (Some (sc_id s)) [(''profile'', JStr (pr_slug p))]
              (audited D c (scan_created a p s) (insert_scan s pl)), s)))))))))))"

end
