(* ===== verification/Orchestrator.thy ===== *)
theory Orchestrator
  imports Scans Ingest Rules Risk
begin

text \<open>
  The run of a scan (\<open>backend/app/scans/orchestrator.py\<close>, and the tasks of \<open>workers/tasks.py\<close> and
  \<open>workers/results.py\<close> that drive it): cancellation, the reservation of a slot, the authorization of the targets
  of a stage and the job that is sent, the binding of a result to its job, the hand-over to the ingestion
  engine and the rules, and the end of the scan. Each function is one transaction.
\<close>

subsection \<open>Cancellation\<close>

definition or_default :: "string option \<Rightarrow> string" where
  "or_default p = (case p of None \<Rightarrow> ''default'' | Some s \<Rightarrow> if s = [] then ''default'' else s)"

text \<open>\<open>_after_scan\<close>: what the Threat Center raises is swallowed, with its changes.\<close>

definition after_scan :: "deployment \<Rightarrow> uuid \<Rightarrow> bool \<Rightarrow> platform \<Rightarrow> platform" where
  "after_scan D sid has_org pl = (case dp_threats D sid has_org (pl_inv pl) of None \<Rightarrow> pl | Some db \<Rightarrow> pl\<lparr>pl_inv := db\<rparr>)"

definition cancel_stage :: "time \<Rightarrow> scan_stage \<Rightarrow> scan_stage" where
  "cancel_stage now st =
     (if sg_status st \<in> {stage_status.PENDING, stage_status.RUNNING}
      then st\<lparr>sg_status := stage_status.CANCELLED, sg_finished_at := Some now\<rparr> else st)"

definition running_task :: "scan_stage \<Rightarrow> (string \<times> string) option" where
  "running_task st =
     (case sg_task st of
        None \<Rightarrow> None
      | Some t \<Rightarrow> if sg_status st = stage_status.RUNNING \<and> t \<noteq> [] then Some (t, or_default (sg_pool st)) else None)"

definition cancelled :: "time \<Rightarrow> string option \<Rightarrow> scan \<Rightarrow> scan" where
  "cancelled now reason s = s\<lparr>sc_stages := map (cancel_stage now) (sc_stages s), sc_status := scan_status.CANCELLED,
     sc_finished_at := Some now, sc_secret := None, sc_error := (case reason of None \<Rightarrow> sc_error s | Some r \<Rightarrow> Some r)\<rparr>"

definition cancel :: "deployment \<Rightarrow> call \<Rightarrow> string option \<Rightarrow> scan \<Rightarrow> platform \<Rightarrow> platform \<times> (string \<times> string) list" where
  "cancel D c reason s pl =
     (after_scan D (sc_id s) False
        (audited D c ((audit_args ''scan.cancelled'')
           \<lparr>a_tenant := Some (sc_tenant s), a_object_type := Some ''scan'', a_object_id := Some (uuid_str (sc_id s)),
            a_new := (case reason of None \<Rightarrow> JNull | Some r \<Rightarrow> JObj [(''reason'', JStr r)])\<rparr>)
          (put_scan (cancelled (cl_now c) reason s) pl)),
      List.map_filter running_task (sc_stages s))"

definition cancel_scan :: "deployment \<Rightarrow> call \<Rightarrow> uuid \<Rightarrow> platform \<Rightarrow> fault + platform \<times> (string \<times> string) list" where
  "cancel_scan D c sid pl =
     bind_r (found ''Scan not found'' (get_scan pl sid)) (\<lambda>s.
       ensure (sc_status s \<in> set ACTIVE_SCAN_STATES) (Conflict (''Scan is already '' @ scan_status_value (sc_status s)))
         (Inr (cancel D c None s pl)))"

definition cancel_tenant_scans :: "deployment \<Rightarrow> call \<Rightarrow> uuid \<Rightarrow> string \<Rightarrow> platform \<Rightarrow> platform \<times> (string \<times> string) list" where
  "cancel_tenant_scans D c tenant reason pl =
     fold (\<lambda>s (pl, tasks). case cancel D c (Some reason) s pl of (pl', ts) \<Rightarrow> (pl', tasks @ ts))
       (filter (\<lambda>s. sc_tenant s = tenant \<and> sc_status s \<in> set ACTIVE_SCAN_STATES) (pl_scans pl)) (pl, [])"

subsection \<open>Starting\<close>

text \<open>Names of pools have no quotes, so \<open>repr\<close> puts them between single quotes.\<close>

definition quoted :: "string \<Rightarrow> string" where
  "quoted s = CHR 0x27 # s @ [CHR 0x27]"

definition scanner_pool_error :: "deployment \<Rightarrow> platform \<Rightarrow> tenant_row \<Rightarrow> string option" where
  "scanner_pool_error D pl t =
     (let pool = or_default (Some (tn_worker_pool t)) in
      if pool \<notin> set (dp_worker_pools D) then
        Some (''Cancelled: no scanner is running for this tenant's pool ('' @ quoted pool @
              ''). A platform administrator provisions one with `cli scanner-pool '' @ pool @ ''` and adds it to ASM_WORKER_POOLS.'')
      else if \<not> dp_per_tenant D then None
      else if list_ex (\<lambda>x. tn_worker_pool x = pool \<and> tn_id x \<noteq> tn_id t) (pl_tenants pl) then
        Some (''Cancelled: the scanner pool '' @ quoted pool @ '' is shared with another tenant, and this deployment isolates '' @
              ''tenants at the scanner. A platform administrator must give this tenant a pool of its own.'')
      else None)"

definition inactive_reason :: "deployment \<Rightarrow> platform \<Rightarrow> scan \<Rightarrow> string option" where
  "inactive_reason D pl s =
     (case get_tenant pl (sc_tenant s) of
        None \<Rightarrow> Some ''Cancelled: the tenant is suspended''
      | Some t \<Rightarrow>
          if tn_status t \<noteq> tenant_status.ACTIVE then Some ''Cancelled: the tenant is suspended''
          else (case get_org pl (sc_org s) of
                  None \<Rightarrow> Some ''Cancelled: the organization is inactive''
                | Some g \<Rightarrow> if \<not> og_is_active g then Some ''Cancelled: the organization is inactive'' else scanner_pool_error D pl t))"

definition slots_taken :: "deployment \<Rightarrow> platform \<Rightarrow> uuid \<Rightarrow> bool" where
  "slots_taken D pl tenant \<longleftrightarrow>
     scan_concurrency_limit pl tenant \<le> running_scans pl (Some tenant) \<or> dp_max_concurrent D \<le> running_scans pl None"

text \<open>The advisory lock makes the whole function one atomic step.\<close>

definition try_start :: "deployment \<Rightarrow> call \<Rightarrow> uuid \<Rightarrow> platform \<Rightarrow> platform \<times> bool" where
  "try_start D c sid pl =
     (case get_scan pl sid of
        None \<Rightarrow> (pl, False)
      | Some s \<Rightarrow>
          if sc_status s \<notin> {scan_status.PENDING, scan_status.QUEUED} then (pl, False)
          else (case inactive_reason D pl s of
                  Some reason \<Rightarrow> (fst (cancel D c (Some reason) s pl), False)
                | None \<Rightarrow>
                    if slots_taken D pl (sc_tenant s) then (put_scan (s\<lparr>sc_status := scan_status.QUEUED\<rparr>) pl, False)
                    else (put_scan (s\<lparr>sc_status := scan_status.RUNNING, sc_started_at := Some (cl_now c)\<rparr>) pl, True)))"

subsection \<open>The next stage\<close>

record sensor_job =
  jb_id :: string
  jb_tenant :: string
  jb_scan :: string
  jb_stage :: string
  jb_adapter :: string
  jb_targets :: "target list"
  jb_config :: attrs
  jb_credentials :: "string option"
  jb_timeout :: int
  jb_retain_raw :: bool
  jb_excluded :: "string list"

definition uuid_hex :: "uuid \<Rightarrow> string" where
  "uuid_hex i = filter (\<lambda>c. c \<noteq> CHR ''-'') (uuid_str i)"

definition public_config :: "attrs \<Rightarrow> attrs" where
  "public_config cfg = filter (\<lambda>(k, _). \<not> startswith k ''_'') cfg"

definition decision_row :: "scan \<Rightarrow> scan_stage \<Rightarrow> bool \<Rightarrow> target \<times> decision \<Rightarrow> scope_decision" where
  "decision_row s st active td =
     \<lparr>sd_tenant = sc_tenant s, sd_scan = sc_id s, sd_stage = sg_id st, sd_target = take 2048 (val (fst td)), sd_allowed = allowed (snd td),
      sd_reason = take 255 (reason_text (dec_reason (snd td))), sd_entry = dec_rule (snd td), sd_active = active\<rparr>"

definition invalid_row :: "scan \<Rightarrow> scan_stage \<Rightarrow> bool \<Rightarrow> string \<Rightarrow> scope_decision" where
  "invalid_row s st active bad =
     \<lparr>sd_tenant = sc_tenant s, sd_scan = sc_id s, sd_stage = sg_id st, sd_target = take 2048 bad, sd_allowed = False,
      sd_reason = ''invalid target syntax'', sd_entry = None, sd_active = active\<rparr>"

text \<open>The decision about every target that was built for a stage, in order.\<close>

definition decide :: "deployment \<Rightarrow> checker \<Rightarrow> bool \<Rightarrow> stage_targets \<Rightarrow> (target \<times> decision) list option" where
  "decide D ck active built =
     mapM_opt (\<lambda>t. map_option (Pair t) (check (dp_unicode D) ck (members (st_derived built)) t active)) (st_targets built)"

definition put_stage :: "scan_stage \<Rightarrow> scan \<Rightarrow> scan" where
  "put_stage st s = s\<lparr>sc_stages := update_where (\<lambda>x. sg_id x = sg_id st) (\<lambda>_. st) (sc_stages s)\<rparr>"

definition excluded_networks :: "checker \<Rightarrow> string list option" where
  "excluded_networks ck =
     mapM_opt (\<lambda>r. map_option show_net (ip_network (rule_value r)))
       (filter (\<lambda>r. is_exclusion r \<and> rule_type r \<in> {scope_entry_type.IP, scope_entry_type.CIDR}) (rules ck))"

text \<open>The credentials of a job and its configuration; a sign-in value of the scan replaces the stored one.\<close>

definition job_secrets :: "deployment \<Rightarrow> scan \<Rightarrow> adapter \<Rightarrow> attrs \<Rightarrow> ((string, string list) dict \<times> attrs) option" where
  "job_secrets D s ad cfg =
     (let stored = dp_credentials D (sc_tenant s) (ad_providers ad) in
      case sc_secret s of
        None \<Rightarrow> Some (stored, cfg)
      | Some secret \<Rightarrow>
          if secret = [] \<or> AUTH_PROVIDER \<notin> set (ad_providers ad) then Some (stored, cfg)
          else map_option (\<lambda>plain. (dict_set stored AUTH_PROVIDER [plain],
                 case sc_header s of Some h \<Rightarrow> if h \<noteq> [] \<and> ad_header_option ad then dict_set cfg ''auth_header_name'' (JStr h) else cfg
                 | None \<Rightarrow> cfg)) (dp_decrypt D secret (secret_name (sc_id s))))"

text \<open>The validation of \<open>SensorJob\<close>.\<close>

definition job_valid :: "sensor_job \<Rightarrow> bool" where
  "job_valid j \<longleftrightarrow> length (jb_targets j) \<le> 500000 \<and> 30 \<le> jb_timeout j \<and> jb_timeout j \<le> 86400 \<and> length (jb_excluded j) \<le> 10000"

definition make_job :: "deployment \<Rightarrow> scan \<Rightarrow> scan_stage \<Rightarrow> adapter \<Rightarrow> checker \<Rightarrow> target list \<Rightarrow> string \<Rightarrow> uuid \<Rightarrow> sensor_job option" where
  "make_job D s st ad ck targets pool i =
     (case (job_secrets D s ad (public_config (sg_config st)), excluded_networks ck) of
        (Some (creds, cfg), Some excl) \<Rightarrow>
          (let j = \<lparr>jb_id = uuid_hex i, jb_tenant = uuid_str (sc_tenant s), jb_scan = uuid_str (sc_id s), jb_stage = uuid_str (sg_id st),
                    jb_adapter = sg_engine st, jb_targets = targets, jb_config = cfg,
                    jb_credentials = (if creds = [] then None else Some (dp_seal D creds (uuid_hex i) pool)),
                    jb_timeout = dp_stage_timeout D, jb_retain_raw = sc_retain_raw s, jb_excluded = excl\<rparr> in
           if job_valid j then Some j else None)
      | _ \<Rightarrow> None)"

definition skip_stage :: "time \<Rightarrow> scan_stage \<Rightarrow> scan_stage" where
  "skip_stage now st = st\<lparr>sg_status := stage_status.SKIPPED, sg_error := Some ''No authorized targets for this stage'', sg_finished_at := Some now\<rparr>"

definition dispatch_stage :: "time \<Rightarrow> string \<Rightarrow> string \<Rightarrow> scan_stage \<Rightarrow> scan_stage" where
  "dispatch_stage now job pool st = st\<lparr>sg_status := stage_status.RUNNING, sg_started_at := Some now, sg_task := Some job, sg_pool := Some pool,
     sg_dispatched_at := None\<rparr>"

text \<open>One pending stage: its decisions are logged, and it is skipped or its job is built.\<close>

definition prepare_stage :: "deployment \<Rightarrow> call \<Rightarrow> organization \<Rightarrow> string \<Rightarrow> scan_stage \<Rightarrow> scan \<Rightarrow> platform \<Rightarrow>
    (platform \<times> scan \<times> (scan_stage \<times> sensor_job) option) option" where
  "prepare_stage D c g pool st s pl = do {
     ck \<leftarrow> load_checker D pl g;
     ad \<leftarrow> get_adapter D (sg_engine st);
     built \<leftarrow> build_targets D c pl g s (sg_type st) (ad_crawled_pages ad);
     cfg \<leftarrow> ad_parse ad (public_config (sg_config st));
     let active = ad_active ad cfg;
     decided \<leftarrow> decide D ck active built;
     let targets = map fst (filter (allowed \<circ> snd) decided);
     let rows = map (decision_row s st active) decided @ map (invalid_row s st active) (st_invalid built);
     let pl1 = pl\<lparr>pl_decisions := pl_decisions pl @ rows\<rparr>;
     let st1 = st\<lparr>sg_target_count := int (length targets), sg_rejected_count := int (length rows) - int (length targets), sg_is_active := active\<rparr>;
     if targets = [] then Some (pl1, put_stage (skip_stage (cl_now c) st1) s, None)
     else do {
       job \<leftarrow> make_job D s st ad ck targets pool (fresh pl);
       let st2 = dispatch_stage (cl_now c) (jb_id job) pool st1;
       Some (used_id pl1, put_stage st2 s, Some (st2, job)) }
   }"

fun prepare_stages :: "deployment \<Rightarrow> call \<Rightarrow> organization \<Rightarrow> string \<Rightarrow> scan_stage list \<Rightarrow> scan \<Rightarrow> platform \<Rightarrow>
    (platform \<times> scan \<times> (scan_stage \<times> sensor_job) option) option" where
  "prepare_stages D c g pool [] s pl = Some (pl, s, None)"
| "prepare_stages D c g pool (st # sts) s pl =
     (if sg_status st \<noteq> stage_status.PENDING then prepare_stages D c g pool sts s pl
      else (case prepare_stage D c g pool st s pl of
              None \<Rightarrow> None
            | Some (pl', s', None) \<Rightarrow> prepare_stages D c g pool sts s' pl'
            | Some (pl', s', Some sj) \<Rightarrow> Some (pl', s', Some sj)))"

text \<open>\<^const>\<open>None\<close> is an exception: nothing of the call is committed.\<close>

definition prepare_next_stage :: "deployment \<Rightarrow> call \<Rightarrow> scan \<Rightarrow> platform \<Rightarrow> (platform \<times> (scan_stage \<times> sensor_job) option) option" where
  "prepare_next_stage D c s pl =
     (if sc_status s \<noteq> scan_status.RUNNING then Some (pl, None)
      else (case inactive_reason D pl s of
              Some reason \<Rightarrow> Some (fst (cancel D c (Some reason) s pl), None)
            | None \<Rightarrow>
                (case (get_org pl (sc_org s), get_tenant pl (sc_tenant s)) of
                   (Some g, Some t) \<Rightarrow>
                     map_option (\<lambda>(pl', s', sj). (put_scan s' pl', sj))
                       (prepare_stages D c g (or_default (Some (tn_worker_pool t))) (sort_key sg_position (sc_stages s)) s pl)
                 | _ \<Rightarrow> None)))"

subsection \<open>Results\<close>

record raw_artifact =
  ra_name :: string
  ra_size :: int
  ra_sha256 :: string
  ra_truncated :: bool

record stage_result =
  sr_adapter :: string
  sr_tool_version :: "string option"
  sr_status :: string
  sr_started_at :: time
  sr_finished_at :: time
  sr_errors :: "string list"
  sr_stats :: attrs
  sr_artifacts :: "raw_artifact list"
  sr_result :: sensor_result

record result_envelope =
  ev_job :: string
  ev_tenant :: string
  ev_scan :: string
  ev_stage :: string
  ev_pool :: string

text \<open>The text is written to the log only.\<close>

datatype binding_error = NoSuchStage | OtherJob | OtherPool | OtherEngine | Stale

definition result_binding_error :: "scan option \<Rightarrow> scan_stage option \<Rightarrow> result_envelope \<Rightarrow> stage_result \<Rightarrow> binding_error option" where
  "result_binding_error scan stage env r =
     (case (scan, stage) of
        (Some s, Some st) \<Rightarrow>
          if sg_scan st \<noteq> sc_id s \<or> uuid_str (sc_tenant s) \<noteq> ev_tenant env then Some NoSuchStage
          else if sg_task st = None \<or> sg_task st = Some [] \<or> sg_task st \<noteq> Some (ev_job env) then Some OtherJob
          else if or_default (sg_pool st) \<noteq> ev_pool env then Some OtherPool
          else if sr_adapter r \<noteq> sg_engine st then Some OtherEngine
          else if sg_status st \<noteq> stage_status.RUNNING \<or> sc_status s \<noteq> scan_status.RUNNING then Some Stale
          else None
      | _ \<Rightarrow> Some NoSuchStage)"

definition artifact_key :: "scan \<Rightarrow> scan_stage \<Rightarrow> uuid \<Rightarrow> string" where
  "artifact_key s st i = ''tenants/'' @ uuid_str (sc_tenant s) @ ''/scans/'' @ uuid_str (sc_id s) @ ''/'' @ uuid_str (sg_id st) @ ''/'' @ uuid_hex i @ ''.gz''"

definition store_artifact :: "deployment \<Rightarrow> call \<Rightarrow> scan \<Rightarrow> scan_stage \<Rightarrow> raw_artifact \<Rightarrow> platform \<Rightarrow> platform" where
  "store_artifact D c s st a pl =
     (let key = artifact_key s st (fresh pl); pl' = used_id pl in
      if \<not> dp_store D key then pl'
      else pl'\<lparr>pl_artifacts := pl_artifacts pl @ [\<lparr>ar_scan = sc_id s, ar_stage = sg_id st, ar_name = ra_name a, ar_key = key, ar_size = ra_size a,
                 ar_sha256 = ra_sha256 a, ar_truncated = ra_truncated a, ar_expires_at = cl_now c + days (dp_retention_days D)\<rparr>]\<rparr>)"

text \<open>\<open>Counter.update\<close> adds the counts of the same key.\<close>

definition add_counts :: "(string, int) dict \<Rightarrow> (string, int) dict \<Rightarrow> (string, int) dict" where
  "add_counts d e = fold (\<lambda>(k, n) d. dict_set d k ((case map_of d k of None \<Rightarrow> 0 | Some m \<Rightarrow> m) + n)) e d"

definition merge_stats :: "(string, int) dict \<Rightarrow> scan \<Rightarrow> scan" where
  "merge_stats stats s = s\<lparr>sc_stats := add_counts (sc_stats s) stats\<rparr>"

text \<open>Whole seconds (towards zero) and tenths of a second of a duration in microseconds.\<close>

definition whole_seconds :: "int \<Rightarrow> int" where
  "whole_seconds d = sgn d * (\<bar>d\<bar> div 1000000)"

definition tenths_text :: "int \<Rightarrow> string" where
  "tenths_text d =
     (let n = round_even (of_int d / 100000) in
      (if n < 0 then ''-'' else []) @ show_int (\<bar>n\<bar> div 10) @ ''.'' @ show_int (\<bar>n\<bar> mod 10))"

definition stage_context :: "deployment \<Rightarrow> call \<Rightarrow> scan \<Rightarrow> scan_stage \<Rightarrow> checker \<Rightarrow> attrs \<Rightarrow> string \<Rightarrow> string \<Rightarrow> bool \<Rightarrow> ingest_context" where
  "stage_context D c s st ck settings source how historical =
     \<lparr>ix_tenant = sc_tenant s, ix_org = sc_org s, ix_source = source, ix_checker = ck, ix_now = cl_now c, ix_settings = settings,
      ix_method = Some how, ix_scan = Some (sc_id s), ix_stage = Some (sg_id st), ix_baseline = sc_is_baseline s, ix_historical = historical,
      ix_unicode = dp_unicode D, ix_sha256 = dp_sha256 D, ix_registered = dp_registered D\<rparr>"

definition only_complete_covers :: "stage_result \<Rightarrow> sensor_result" where
  "only_complete_covers r = (if sr_status r \<noteq> ''completed'' then (sr_result r)\<lparr>res_coverage := []\<rparr> else sr_result r)"

text \<open>The detection rules over what the run touched; a historical result is not evidence for them.\<close>

definition run_rules :: "deployment \<Rightarrow> call \<Rightarrow> scan \<Rightarrow> scan_stage \<Rightarrow> checker \<Rightarrow> attrs \<Rightarrow> bool \<Rightarrow> ingestor \<Rightarrow> (inventory \<times> (string, int) dict) option" where
  "run_rules D c s st ck settings historical run =
     (if historical then Some (ig_db run, ig_stats run)
      else do {
        cfg \<leftarrow> sub_dict settings ''detection_rules'';
        hits \<leftarrow> evaluate (ig_db run) (ig_touched run) cfg (cl_now c);
        if res_coverage hits = [] then Some (ig_db run, ig_stats run)
        else do {
          again \<leftarrow> ingest (stage_context D c s st ck settings SOURCE ''detection_rules'' False) hits (ig_db run);
          Some (ig_db again, add_counts (ig_stats run) (map (\<lambda>(k, n). (''rules_'' @ k, n)) (ig_stats again))) }
      })"

definition ingest_stage :: "deployment \<Rightarrow> call \<Rightarrow> organization \<Rightarrow> attrs \<Rightarrow> scan \<Rightarrow> scan_stage \<Rightarrow> stage_result \<Rightarrow> platform \<Rightarrow> (platform \<times> (string, int) dict) option" where
  "ingest_stage D c g settings s st r pl = do {
     ck \<leftarrow> load_checker D pl g;
     let res = only_complete_covers r;
     run \<leftarrow> ingest (stage_context D c s st ck settings (sr_adapter r) (stage_type_value (sg_type st)) (res_historical res)) res (pl_inv pl);
     (db, stats) \<leftarrow> run_rules D c s st ck settings (res_historical res) run;
     Some (fold (store_artifact D c s st) (sr_artifacts r) (pl\<lparr>pl_inv := db\<rparr>), stats)
   }"

definition is_optional :: "scan_stage \<Rightarrow> bool" where
  "is_optional st = jtruthy (jget (sg_config st) ''_optional'')"

definition failed_status :: "scan_stage \<Rightarrow> stage_status" where
  "failed_status st = (if is_optional st then stage_status.SKIPPED else stage_status.FAILED)"

definition failed_result :: "deployment \<Rightarrow> stage_result \<Rightarrow> scan_stage \<Rightarrow> scan_stage" where
  "failed_result D r st =
     (let label = label_for D (sg_engine st) in
      st\<lparr>sg_status := failed_status st, sg_stats := [],
         sg_error := Some (case dp_friendly D (sr_errors r) label of Some m \<Rightarrow> if m = [] then label @ '' did not finish successfully.'' else m
                           | None \<Rightarrow> label @ '' did not finish successfully.'')\<rparr>)"

definition finished_stage :: "deployment \<Rightarrow> stage_result \<Rightarrow> (string, int) dict \<Rightarrow> scan_stage \<Rightarrow> scan_stage" where
  "finished_stage D r stats st =
     st\<lparr>sg_status := (if sr_status r = ''completed'' then stage_status.COMPLETED else stage_status.PARTIAL),
        sg_observation_count := int (length (res_observations (sr_result r))),
        sg_stats := dict_update (map (\<lambda>(k, n). (k, JInt n)) stats)
          [(''sensor'', JObj (sr_stats r)), (''duration_seconds'', JFloat (tenths_text (sr_finished_at r - sr_started_at r)))],
        sg_error := (if sr_errors r = [] then sg_error st else dp_friendly D (sr_errors r) (label_for D (sg_engine st)))\<rparr>"

definition complete_stage :: "deployment \<Rightarrow> call \<Rightarrow> scan \<Rightarrow> scan_stage \<Rightarrow> stage_result \<Rightarrow> platform \<Rightarrow> platform option" where
  "complete_stage D c s st r pl =
     (if sg_status st \<noteq> stage_status.RUNNING \<or> sc_status s \<noteq> scan_status.RUNNING then Some pl
      else do {
        g \<leftarrow> get_org pl (sc_org s);
        settings \<leftarrow> settings_of D (get_tenant pl (sc_tenant s));
        let st1 = st\<lparr>sg_tool_version := sr_tool_version r, sg_finished_at := Some (cl_now c)\<rparr>;
        if sr_status r = ''failed'' then Some (put_scan (put_stage (failed_result D r st1) s) pl)
        else do {
          (pl1, stats) \<leftarrow> ingest_stage D c g settings s st r pl;
          Some (record_usage (sc_tenant s) ''sensor_seconds'' (whole_seconds (sr_finished_at r - sr_started_at r)) (Some (sc_id s))
                  [(''engine'', JStr (sg_engine st))]
                  (put_scan (merge_stats stats (put_stage (finished_stage D r stats st1) s)) pl1)) }
      })"

definition fail_stage :: "call \<Rightarrow> scan \<Rightarrow> scan_stage \<Rightarrow> string \<Rightarrow> platform \<Rightarrow> platform" where
  "fail_stage c s st error pl =
     (if sg_status st \<noteq> stage_status.RUNNING then pl
      else put_scan (put_stage (st\<lparr>sg_status := failed_status st, sg_error := Some (take 4000 error), sg_finished_at := Some (cl_now c)\<rparr>) s) pl)"

subsection \<open>The end of a scan\<close>

text \<open>\<open>snapshot_organization\<close> (\<open>backend/app/services/metrics.py\<close>): one row per organization and day.\<close>

definition today :: "time \<Rightarrow> int" where
  "today now = now div days 1"

definition primary_assets :: "inventory \<Rightarrow> uuid \<Rightarrow> asset list" where
  "primary_assets db org = filter (\<lambda>a. as_org a = org \<and> as_type a \<in> set PRIMARY_TYPES \<and> as_scope a \<noteq> scope_status.OUT_OF_SCOPE) (assets db)"

definition open_by_severity :: "inventory \<Rightarrow> uuid \<Rightarrow> (severity, int) dict" where
  "open_by_severity db org =
     (let fs = filter (\<lambda>f. fi_org f = org \<and> fi_status f \<in> set OPEN_FINDING_STATES \<and> \<not> fi_unverified f) (findings db) in
      map (\<lambda>v. (v, int (length (filter (\<lambda>f. fi_severity f = v) fs)))) (remdups (map fi_severity fs)))"

definition snapshot_organization :: "call \<Rightarrow> organization \<Rightarrow> platform \<Rightarrow> platform" where
  "snapshot_organization c g pl =
     (let db = pl_inv pl; rows = primary_assets db (og_id g); active = filter (\<lambda>a. as_status a = asset_status.ACTIVE) rows;
          snap = \<lparr>ms_tenant = og_tenant g, ms_org = og_id g, ms_day = today (cl_now c), ms_total_assets = int (length rows),
            ms_active_assets = int (length active), ms_new_assets = int (length (filter (\<lambda>a. cl_now c - days 1 \<le> as_first_seen a) rows)),
            ms_unknown_assets = int (length (filter (\<lambda>a. as_approval a \<in> set SHADOW_IT_STATES) active)),
            ms_open_findings = open_by_severity db (og_id g), ms_risk_score = organization_score db (og_id g)\<rparr>;
          same = (\<lambda>m. ms_org m = og_id g \<and> ms_day m = today (cl_now c)) in
      pl\<lparr>pl_snapshots := (if list_ex same (pl_snapshots pl) then update_where same (\<lambda>_. snap) (pl_snapshots pl) else pl_snapshots pl @ [snap])\<rparr>)"

definition failures :: "scan \<Rightarrow> scan_stage list" where
  "failures s = filter (\<lambda>st. sg_status st = stage_status.FAILED) (sc_stages s)"

definition successes :: "scan \<Rightarrow> scan_stage list" where
  "successes s = filter (\<lambda>st. sg_status st \<in> {stage_status.COMPLETED, stage_status.PARTIAL}) (sc_stages s)"

definition final_status :: "scan \<Rightarrow> scan_status" where
  "final_status s =
     (if successes s = [] \<and> failures s \<noteq> [] then scan_status.FAILED
      else if failures s \<noteq> [] \<or> list_ex (\<lambda>st. sg_status st = stage_status.PARTIAL) (sc_stages s) then scan_status.PARTIAL
      else scan_status.COMPLETED)"

definition failure_text :: "scan \<Rightarrow> string" where
  "failure_text s = take 4000 (join ''; '' (map (\<lambda>st. stage_type_value (sg_type st) @ '': '' @ (case sg_error st of None \<Rightarrow> ''None'' | Some e \<Rightarrow> e)) (failures s)))"

definition finished :: "time \<Rightarrow> scan \<Rightarrow> scan" where
  "finished now s = s\<lparr>sc_status := final_status s, sc_error := (if final_status s = scan_status.FAILED then Some (failure_text s) else sc_error s),
     sc_finished_at := Some now, sc_secret := None\<rparr>"

definition count_of :: "scan \<Rightarrow> string \<Rightarrow> int" where
  "count_of s k = (case map_of (sc_stats s) k of None \<Rightarrow> 0 | Some n \<Rightarrow> n)"

definition scan_event :: "time \<Rightarrow> organization \<Rightarrow> scan \<Rightarrow> asset_event" where
  "scan_event now g s =
     (let failed = (sc_status s = scan_status.FAILED) in
      \<lparr>ae_tenant = sc_tenant s, ae_org = Some (og_id g), ae_asset = None, ae_asset_type = None, ae_asset_value = None, ae_finding = None,
       ae_scan = Some (sc_id s), ae_type = (if failed then event_type.SCAN_FAILED else event_type.SCAN_COMPLETED),
       ae_severity = (if failed then severity.MEDIUM else severity.INFO),
       ae_title = ''Scan '' @ (if failed then ''failed'' else scan_status_value (sc_status s)) @ '': '' @ sc_profile_name s @ '' for '' @ og_name g,
       ae_summary = (if failed then sc_error s
         else Some (show_int (count_of s ''new_assets'') @ '' new assets, '' @ show_int (count_of s ''new_findings'') @ '' new findings, '' @
                    show_int (count_of s ''events'') @ '' changes'')),
       ae_previous = JNull,
       ae_new = (if failed then JNull else JObj (map (\<lambda>k. (k, JInt (count_of s k))) [''new_assets'', ''new_findings'', ''events'', ''deactivated''])),
       ae_details = JObj [], ae_occurred_at = now, ae_baseline = (\<not> failed \<and> sc_is_baseline s)\<rparr>)"

definition rescore_scan :: "deployment \<Rightarrow> call \<Rightarrow> organization \<Rightarrow> scan \<Rightarrow> platform \<Rightarrow> (platform \<times> scan) option" where
  "rescore_scan D c g s pl =
     (if successes s = [] then Some (pl, s)
      else do {
        settings \<leftarrow> settings_of D (get_tenant pl (og_tenant g));
        (db, rst) \<leftarrow> recompute_organization (og_id g) settings (Some (sc_id s)) True (sc_is_baseline s) (cl_now c) (pl_inv pl);
        Some (pl\<lparr>pl_inv := db\<rparr>, merge_stats [(''risk_changes'', rst_changed rst), (''risk_events'', rst_events rst)] s)
      })"

definition complete_baseline :: "time \<Rightarrow> scan \<Rightarrow> organization \<Rightarrow> platform \<Rightarrow> platform" where
  "complete_baseline now s g pl =
     (if sc_is_baseline s \<and> sc_status s \<in> {scan_status.COMPLETED, scan_status.PARTIAL}
      then pl\<lparr>pl_orgs := update_where (\<lambda>x. og_id x = og_id g) (\<lambda>x. x\<lparr>og_baseline_completed_at := Some now\<rparr>) (pl_orgs pl)\<rparr> else pl)"

definition finalize_scan :: "deployment \<Rightarrow> call \<Rightarrow> scan \<Rightarrow> platform \<Rightarrow> platform option" where
  "finalize_scan D c s pl =
     (if sc_status s = scan_status.CANCELLED then Some pl
      else do {
        g \<leftarrow> get_org pl (sc_org s);
        (pl1, s1) \<leftarrow> rescore_scan D c g (finished (cl_now c) s) pl;
        let pl2 = complete_baseline (cl_now c) s1 g (put_scan s1 pl1);
        let pl3 = pl2\<lparr>pl_inv := add_event (scan_event (cl_now c) g s1) (pl_inv pl2)\<rparr>;
        Some (after_scan D (sc_id s) True (snapshot_organization c g pl3))
      })"

subsection \<open>Tasks\<close>

definition get_stage :: "scan \<Rightarrow> uuid \<Rightarrow> scan_stage option" where
  "get_stage s i = find (\<lambda>st. sg_id st = i) (sc_stages s)"

definition in_flight :: "scan \<Rightarrow> bool" where
  "in_flight s = list_ex (\<lambda>st. sg_status st = stage_status.RUNNING) (sc_stages s)"

text \<open>The transaction of \<open>advance_scan\<close>: a job to publish, or the end of the scan.\<close>

definition advance_scan :: "deployment \<Rightarrow> call \<Rightarrow> uuid \<Rightarrow> platform \<Rightarrow> (platform \<times> (scan_stage \<times> sensor_job) option) option" where
  "advance_scan D c sid pl =
     (case get_scan pl sid of
        None \<Rightarrow> Some (pl, None)
      | Some s \<Rightarrow>
          if sc_status s \<noteq> scan_status.RUNNING \<or> in_flight s then Some (pl, None)
          else (case prepare_next_stage D c s pl of
                  None \<Rightarrow> None
                | Some (pl', Some sj) \<Rightarrow> Some (pl', Some sj)
                | Some (pl', None) \<Rightarrow>
                    (case get_scan pl' sid of
                       None \<Rightarrow> None
                     | Some s' \<Rightarrow> map_option (\<lambda>pl''. (pl'', None)) (finalize_scan D c s' pl'))))"

text \<open>
  What \<open>advance_scan\<close> commits after the job was published, or could not be. The tasks are always given a stage
  together with the scan it belongs to, so the stage is looked up there.
\<close>

definition with_stage :: "platform \<Rightarrow> uuid \<Rightarrow> uuid \<Rightarrow> (scan \<Rightarrow> scan_stage \<Rightarrow> platform) \<Rightarrow> platform" where
  "with_stage pl sid gid f =
     (case get_scan pl sid of None \<Rightarrow> pl | Some s \<Rightarrow> (case get_stage s gid of None \<Rightarrow> pl | Some st \<Rightarrow> f s st))"

definition job_published :: "call \<Rightarrow> uuid \<Rightarrow> uuid \<Rightarrow> string \<Rightarrow> platform \<Rightarrow> platform" where
  "job_published c sid gid job pl = with_stage pl sid gid (\<lambda>s st.
     if sg_task st = Some job \<and> sg_dispatched_at st = None then put_scan (put_stage (st\<lparr>sg_dispatched_at := Some (cl_now c)\<rparr>) s) pl else pl)"

definition job_not_published :: "call \<Rightarrow> uuid \<Rightarrow> uuid \<Rightarrow> string \<Rightarrow> platform \<Rightarrow> platform" where
  "job_not_published c sid gid job pl = with_stage pl sid gid (\<lambda>s st.
     if sg_task st = Some job then fail_stage c s st ''The sensor job could not be dispatched'' pl else pl)"

definition stage_failed :: "call \<Rightarrow> uuid \<Rightarrow> uuid \<Rightarrow> string \<Rightarrow> platform \<Rightarrow> platform" where
  "stage_failed c sid gid reason pl = with_stage pl sid gid (\<lambda>s st. fail_stage c s st reason pl)"

text \<open>
  \<open>receive_result\<close> after the envelope was authenticated: the identifiers it names, and whether the scan is to
  be advanced. A result that raises is not committed.
\<close>

definition receive_result :: "deployment \<Rightarrow> call \<Rightarrow> uuid \<Rightarrow> uuid \<Rightarrow> result_envelope \<Rightarrow> stage_result \<Rightarrow> platform \<Rightarrow> (platform \<times> bool) option" where
  "receive_result D c sid gid env r pl =
     (let scan = get_scan pl sid;
          stage = find (\<lambda>st. sg_id st = gid) (concat (map sc_stages (pl_scans pl))) in
      case result_binding_error scan stage env r of
        Some _ \<Rightarrow> Some (pl, False)
      | None \<Rightarrow> map_option (\<lambda>pl'. (pl', True)) (complete_stage D c (the scan) (the stage) r pl))"

text \<open>
  The scans \<open>dispatch_queued_scans\<close> starts, oldest first, and the first half of \<open>watchdog\<close>: the running stages it
  gives up (their scan, their identifier and the reason), by the time they were started and whether their job ever reached the broker.
\<close>

definition queued_scans :: "platform \<Rightarrow> uuid list" where
  "queued_scans pl = map sc_id (take 100 (sort_key sc_created_at
     (filter (\<lambda>s. sc_status s \<in> {scan_status.PENDING, scan_status.QUEUED}) (pl_scans pl))))"

definition UNDISPATCHED_GRACE :: time where
  "UNDISPATCHED_GRACE = minutes 10"

definition is_stuck :: "deployment \<Rightarrow> time \<Rightarrow> scan_stage \<Rightarrow> bool" where
  "is_stuck D now st \<longleftrightarrow> sg_status st = stage_status.RUNNING \<and>
     (case sg_started_at st of
        None \<Rightarrow> False
      | Some t \<Rightarrow> t < now - (dp_stage_timeout D + 900) * 1000000 \<or> sg_dispatched_at st = None \<and> t < now - UNDISPATCHED_GRACE)"

definition stuck_stages :: "deployment \<Rightarrow> time \<Rightarrow> platform \<Rightarrow> (uuid \<times> uuid \<times> string) list" where
  "stuck_stages D now pl =
     map (\<lambda>st. (sg_scan st, sg_id st, if sg_dispatched_at st = None then ''The sensor job was never dispatched''
                 else ''Sensor task failed, timed out or was lost''))
       (filter (is_stuck D now) (concat (map sc_stages (pl_scans pl))))"

subsection \<open>Schedules\<close>

definition due_schedules :: "platform \<Rightarrow> time \<Rightarrow> (uuid \<times> uuid) list" where
  "due_schedules pl now =
     map (\<lambda>h. (sh_tenant h, sh_id h))
       (filter (\<lambda>h. sh_enabled h \<and> (case sh_next_run_at h of None \<Rightarrow> False | Some t \<Rightarrow> t \<le> now) \<and> tenant_is_active pl (sh_tenant h)) (pl_schedules pl))"

definition schedule_args :: "scan_schedule \<Rightarrow> uuid \<Rightarrow> scan_args" where
  "schedule_args h tenant = \<lparr>sa_tenant = tenant, sa_org = sh_org h, sa_profile = sh_profile h, sa_trigger = scan_trigger.SCHEDULED,
     sa_requested_by = None, sa_schedule = Some (sh_id h), sa_targets = [], sa_secret = [], sa_header = ''Cookie'', sa_stages = None\<rparr>"

definition put_schedule :: "scan_schedule \<Rightarrow> platform \<Rightarrow> platform" where
  "put_schedule h pl = pl\<lparr>pl_schedules := update_where (\<lambda>x. sh_id x = sh_id h) (\<lambda>_. h) (pl_schedules pl)\<rparr>"

text \<open>The parameter \<open>next_run\<close> is the cron library.\<close>

definition fire_schedule :: "(string \<Rightarrow> string \<Rightarrow> time \<Rightarrow> time) \<Rightarrow> deployment \<Rightarrow> call \<Rightarrow> uuid \<Rightarrow> uuid \<Rightarrow> platform \<Rightarrow> (platform \<times> uuid option) option" where
  "fire_schedule next_run D c tenant hid pl =
     (case find (\<lambda>h. sh_id h = hid) (pl_schedules pl) of
        None \<Rightarrow> Some (pl, None)
      | Some h \<Rightarrow>
          if \<not> sh_enabled h \<or> (case sh_next_run_at h of None \<Rightarrow> False | Some t \<Rightarrow> cl_now c < t) then Some (pl, None)
          else (let h1 = h\<lparr>sh_next_run_at := Some (next_run (sh_cron h) (sh_timezone h) (cl_now c)), sh_last_run_at := Some (cl_now c)\<rparr>;
                    pl1 = put_schedule h1 pl in
                case get_org pl (sh_org h) of
                  None \<Rightarrow> Some (pl1, None)
                | Some g \<Rightarrow>
                    if \<not> og_is_active g then Some (pl1, None)
                    else (case create_scan D c (schedule_args h tenant) pl1 of
                            Inr (pl2, s) \<Rightarrow> Some (put_schedule (h1\<lparr>sh_last_scan := Some (sc_id s)\<rparr>) pl2, Some (sc_id s))
                          | Inl (Refused _) \<Rightarrow> Some (pl1, None)
                          | Inl Crashed \<Rightarrow> None)))"

end
