(* ===== verification/ScanSafety.thy ===== *)
theory ScanSafety
  imports Orchestrator ScopeSafety
begin

text \<open>
  The life of scans: what every task of the pipeline keeps, whatever the order in which tasks, results and requests
  arrive.
\<close>

subsection \<open>One scan\<close>

definition ended :: "scan \<Rightarrow> bool" where
  "ended s \<longleftrightarrow> sc_status s \<notin> set ACTIVE_SCAN_STATES"

definition done_states :: "stage_status set" where
  "done_states = {stage_status.COMPLETED, stage_status.PARTIAL, stage_status.FAILED, stage_status.SKIPPED, stage_status.CANCELLED}"

text \<open>
  A scan row is consistent: its stages are its own, at most one of them is in flight and only in a running
  scan, none has begun before the scan runs, and all are over when the scan is, which then keeps no sign-in value.
\<close>

definition scan_ok :: "scan \<Rightarrow> bool" where
  "scan_ok s \<longleftrightarrow>
     distinct (map sg_id (sc_stages s)) \<and> (\<forall>st \<in> set (sc_stages s). sg_scan st = sc_id s) \<and>
     length (filter (\<lambda>st. sg_status st = stage_status.RUNNING) (sc_stages s)) \<le> 1 \<and>
     (sc_status s \<in> {scan_status.PENDING, scan_status.QUEUED} \<longrightarrow> (\<forall>st \<in> set (sc_stages s). sg_status st = stage_status.PENDING)) \<and>
     (ended s \<longrightarrow> (\<forall>st \<in> set (sc_stages s). sg_status st \<in> done_states) \<and> sc_secret s = None)"

text \<open>The row without the time at which a job reached the broker.\<close>

definition settled_row :: "scan \<Rightarrow> scan" where
  "settled_row s = s\<lparr>sc_stages := map (\<lambda>st. st\<lparr>sg_dispatched_at := None\<rparr>) (sc_stages s)\<rparr>"

text \<open>The states a scan may be in later: it never goes back, and its last state is final.\<close>

fun may_follow :: "scan_status \<Rightarrow> scan_status \<Rightarrow> bool" where
  "may_follow scan_status.PENDING t \<longleftrightarrow> True"
| "may_follow scan_status.QUEUED t \<longleftrightarrow> t \<noteq> scan_status.PENDING"
| "may_follow scan_status.RUNNING t \<longleftrightarrow> t \<notin> {scan_status.PENDING, scan_status.QUEUED}"
| "may_follow u t \<longleftrightarrow> t = u"

definition moves :: "scan \<Rightarrow> scan \<Rightarrow> bool" where
  "moves s s' \<longleftrightarrow> sc_id s' = sc_id s \<and> sc_tenant s' = sc_tenant s \<and> sc_org s' = sc_org s \<and> map sg_id (sc_stages s') = map sg_id (sc_stages s) \<and>
     may_follow (sc_status s) (sc_status s') \<and> (scan_ok s \<longrightarrow> scan_ok s') \<and> (scan_ok s \<and> ended s \<longrightarrow> settled_row s' = settled_row s)"

lemma may_follow_refl [simp]: "may_follow t t"
  by (cases t) simp_all

lemma moves_refl [simp]: "moves s s"
  by (simp add: moves_def)

lemma ended_simps: "ended s \<longleftrightarrow> sc_status s \<in> {scan_status.COMPLETED, scan_status.PARTIAL, scan_status.FAILED, scan_status.CANCELLED}"
  by (cases "sc_status s") (simp_all add: ended_def ACTIVE_SCAN_STATES_def)

lemma put_stage_simps [simp]:
  "sc_id (put_stage st s) = sc_id s" "sc_tenant (put_stage st s) = sc_tenant s" "sc_org (put_stage st s) = sc_org s"
  "sc_status (put_stage st s) = sc_status s" "sc_secret (put_stage st s) = sc_secret s" "sc_retain_raw (put_stage st s) = sc_retain_raw s"
  by (simp_all add: put_stage_def)

lemma put_stage_ids [simp]: "map sg_id (sc_stages (put_stage st s)) = map sg_id (sc_stages s)"
proof -
  have "map sg_id (update_where (\<lambda>x. sg_id x = sg_id st) (\<lambda>_. st) (sc_stages s)) = map sg_id (sc_stages s)"
    by (rule map_update_where) simp
  then show ?thesis by (simp add: put_stage_def)
qed

text \<open>Replacing one stage of a scan whose stages have different identifiers.\<close>

lemma put_stage_same:
  assumes "distinct (map sg_id (sc_stages s))" "st \<in> set (sc_stages s)" "sg_id st' = sg_id st"
  shows "sc_stages (put_stage st' s) = map (\<lambda>x. if x = st then st' else x) (sc_stages s)"
  using update_where_key [OF assms(1,2)] assms(3) by (simp add: put_stage_def)

lemma filter_map_replace:
  assumes "distinct xs" "x \<in> set xs"
  shows "length (filter P (map (\<lambda>z. if z = x then y else z) xs)) + (if P x then 1 else 0) = length (filter P xs) + (if P y then 1 else 0)"
  using assms
proof (induction xs)
  case (Cons a xs)
  show ?case
  proof (cases "a = x")
    case True
    then have "map (\<lambda>z. if z = x then y else z) xs = xs" using Cons.prems by (intro map_idI) auto
    then show ?thesis using True by (simp del: filter_map)
  qed (use Cons in \<open>simp del: filter_map\<close>)
qed simp

lemma put_stage_running:
  assumes "distinct (map sg_id (sc_stages s))" "st \<in> set (sc_stages s)" "sg_id st' = sg_id st"
  shows "length (filter P (sc_stages (put_stage st' s))) + (if P st then 1 else 0) = length (filter P (sc_stages s)) + (if P st' then 1 else 0)"
  using filter_map_replace [of "sc_stages s" st P st'] assms(1,2) unfolding put_stage_same [OF assms] by (simp add: distinct_map)

lemma put_stage_ball: "(\<forall>x \<in> set (sc_stages s). P x) \<Longrightarrow> P st' \<Longrightarrow> x \<in> set (sc_stages (put_stage st' s)) \<Longrightarrow> P x"
  by (auto simp: put_stage_def set_update_where)

text \<open>A stage of a running scan that is in flight is resolved.\<close>

lemma resolve_moves:
  assumes "st \<in> set (sc_stages s)" "sc_status s = scan_status.RUNNING" "sg_status st = stage_status.RUNNING"
    and "sg_id st' = sg_id st" "sg_scan st' = sg_scan st" "sg_status st' \<in> done_states"
    and "sc_stages s' = sc_stages (put_stage st' s)" "sc_id s' = sc_id s" "sc_tenant s' = sc_tenant s" "sc_org s' = sc_org s" "sc_status s' = sc_status s"
  shows "moves s s'"
proof -
  have "scan_ok s'" if ok: "scan_ok s"
  proof -
    have d: "distinct (map sg_id (sc_stages s))" using ok by (simp add: scan_ok_def)
    note set = put_stage_same [OF d assms(1,4)]
    have n: "length (filter (\<lambda>x. sg_status x = stage_status.RUNNING) (sc_stages s')) \<le> 1"
      using put_stage_running [OF d assms(1,4), of "\<lambda>x. sg_status x = stage_status.RUNNING"] ok assms(3,6)
      unfolding assms(7) by (auto simp: scan_ok_def done_states_def)
    have "\<forall>x \<in> set (sc_stages s'). sg_scan x = sc_id s"
      using ok assms(1,5) unfolding assms(7) set by (auto simp: scan_ok_def)
    then show ?thesis
      using n d ok assms(2,7-11) put_stage_ids [of st' s] by (auto simp: scan_ok_def ended_def ACTIVE_SCAN_STATES_def)
  qed
  then show ?thesis using assms(2,7-11) by (simp add: moves_def ended_def ACTIVE_SCAN_STATES_def)
qed

text \<open>Cancellation and start.\<close>

lemma cancel_stage_simps [simp]:
  "sg_id (cancel_stage now st) = sg_id st" "sg_scan (cancel_stage now st) = sg_scan st" "sg_status (cancel_stage now st) \<in> done_states"
  by (simp_all add: cancel_stage_def done_states_def) (cases "sg_status st"; simp)

lemma cancelled_moves:
  assumes "sc_status s \<in> set ACTIVE_SCAN_STATES"
  shows "moves s (cancelled now reason s)"
proof -
  let ?s = "cancelled now reason s"
  have f: "sc_stages ?s = map (cancel_stage now) (sc_stages s)" "sc_status ?s = scan_status.CANCELLED" "sc_secret ?s = None"
      "sc_id ?s = sc_id s" "sc_tenant ?s = sc_tenant s" "sc_org ?s = sc_org s"
    by (simp_all add: cancelled_def)
  have ids: "map sg_id (sc_stages ?s) = map sg_id (sc_stages s)" unfolding f(1) by simp
  have st: "sg_status st \<in> done_states" if "st \<in> set (sc_stages ?s)" for st using that unfolding f(1) by auto
  then have "filter (\<lambda>st. sg_status st = stage_status.RUNNING) (sc_stages ?s) = []"
    unfolding filter_empty_conv by (fastforce simp: done_states_def)
  moreover have "\<forall>st \<in> set (sc_stages ?s). sg_scan st = sc_id s" if "scan_ok s"
    using that unfolding f(1) by (simp add: scan_ok_def)
  ultimately have "scan_ok ?s" if "scan_ok s"
    using that st unfolding scan_ok_def ids f(2-6) by simp
  moreover have "may_follow (sc_status s) scan_status.CANCELLED" using assms by (auto simp: ACTIVE_SCAN_STATES_def)
  ultimately show ?thesis using assms ids f by (simp add: moves_def ended_def)
qed

lemma start_moves:
  assumes "sc_status s \<in> {scan_status.PENDING, scan_status.QUEUED}" "t \<in> {scan_status.QUEUED, scan_status.RUNNING}"
  shows "moves s (s\<lparr>sc_status := t, sc_started_at := w\<rparr>)"
proof -
  have "scan_ok (s\<lparr>sc_status := t, sc_started_at := w\<rparr>)" if "scan_ok s"
    using that assms by (auto simp: scan_ok_def ended_def ACTIVE_SCAN_STATES_def)
  moreover have "\<not> ended s" "may_follow (sc_status s) t" using assms by (auto simp: ended_def ACTIVE_SCAN_STATES_def)
  ultimately show ?thesis by (simp add: moves_def)
qed

text \<open>The time of dispatch does not matter for the life of a scan.\<close>

lemma published_moves:
  assumes "st \<in> set (sc_stages s)"
  shows "moves s (put_stage (st\<lparr>sg_dispatched_at := t\<rparr>) s)"
proof (cases "scan_ok s")
  case True
  let ?st = "st\<lparr>sg_dispatched_at := t\<rparr>"
  have d: "distinct (map sg_id (sc_stages s))" using True by (simp add: scan_ok_def)
  have set: "sc_stages (put_stage ?st s) = map (\<lambda>x. if x = st then ?st else x) (sc_stages s)" using put_stage_same [OF d assms] by simp
  have same: "sc_secret (put_stage ?st s) = sc_secret s" "ended (put_stage ?st s) = ended s" by (simp_all add: ended_def)
  have "length (filter (\<lambda>x. sg_status x = stage_status.RUNNING) (sc_stages (put_stage ?st s))) \<le> 1"
    using True put_stage_running [OF d assms, of ?st "\<lambda>x. sg_status x = stage_status.RUNNING"] by (auto simp: scan_ok_def split: if_splits)
  moreover have P: "\<forall>x \<in> set (sc_stages (put_stage ?st s)). P x" if "\<forall>x \<in> set (sc_stages s). P x" "P ?st = P st" for P
    using put_stage_ball [of s P ?st] that assms by blast
  ultimately have "scan_ok (put_stage ?st s)"
    using True P [of "\<lambda>x. sg_scan x = sc_id s"] P [of "\<lambda>x. sg_status x = stage_status.PENDING"] P [of "\<lambda>x. sg_status x \<in> done_states"]
    unfolding scan_ok_def same put_stage_simps put_stage_ids by auto
  moreover have "settled_row (put_stage ?st s) = settled_row s"
  proof -
    have "map (\<lambda>x. x\<lparr>sg_dispatched_at := None\<rparr>) (sc_stages (put_stage ?st s)) = map (\<lambda>x. x\<lparr>sg_dispatched_at := None\<rparr>) (sc_stages s)"
      unfolding set by auto
    then show ?thesis by (simp add: settled_row_def put_stage_def)
  qed
  ultimately show ?thesis by (simp add: moves_def)
qed (simp add: moves_def)

subsection \<open>Preparing a stage\<close>

text \<open>The tables that preparing and resolving a stage leave alone.\<close>

definition same_tables :: "platform \<Rightarrow> platform \<Rightarrow> bool" where
  "same_tables pl pl' \<longleftrightarrow> pl_scans pl' = pl_scans pl \<and> pl_tenants pl' = pl_tenants pl \<and> pl_plans pl' = pl_plans pl \<and> pl_orgs pl' = pl_orgs pl \<and>
     pl_entries pl' = pl_entries pl"

lemma prepare_stage_cases:
  assumes "prepare_stage D c g pool st s pl = Some (pl', s', x)"
  obtains st' where "s' = put_stage st' s" "sg_id st' = sg_id st" "sg_scan st' = sg_scan st" "same_tables pl pl'"
    and "x = None \<and> sg_status st' = stage_status.SKIPPED \<or> (\<exists>job. x = Some (st', job) \<and> sg_status st' = stage_status.RUNNING)"
proof -
  obtain ck ad built cfg decided where *: "load_checker D pl g = Some ck" "get_adapter D (sg_engine st) = Some ad"
      "build_targets D c pl g s (sg_type st) (ad_crawled_pages ad) = Some built" "ad_parse ad (public_config (sg_config st)) = Some cfg"
      "decide D ck (ad_active ad cfg) built = Some decided"
    using assms by (auto simp: prepare_stage_def Let_def bind_eq_Some_conv)
  let ?targets = "map fst (filter (allowed \<circ> snd) decided)"
  define rows where "rows = map (decision_row s st (ad_active ad cfg)) decided @ map (invalid_row s st (ad_active ad cfg)) (st_invalid built)"
  define st1 where "st1 = st\<lparr>sg_target_count := int (length ?targets), sg_rejected_count := int (length rows) - int (length ?targets),
      sg_is_active := ad_active ad cfg\<rparr>"
  show ?thesis
  proof (cases "?targets = []")
    case True
    then have "s' = put_stage (skip_stage (cl_now c) st1) s" "x = None" "pl' = pl\<lparr>pl_decisions := pl_decisions pl @ rows\<rparr>"
      using assms * by (simp_all add: prepare_stage_def Let_def rows_def st1_def del: map_is_Nil_conv)
    then show ?thesis using that [of "skip_stage (cl_now c) st1"] by (simp add: skip_stage_def st1_def same_tables_def)
  next
    case False
    then obtain job where "make_job D s st ad ck ?targets pool (fresh pl) = Some job" "s' = put_stage (dispatch_stage (cl_now c) (jb_id job) pool st1) s"
        "x = Some (dispatch_stage (cl_now c) (jb_id job) pool st1, job)" "pl' = used_id (pl\<lparr>pl_decisions := pl_decisions pl @ rows\<rparr>)"
      using assms * by (auto simp: prepare_stage_def Let_def rows_def st1_def bind_eq_Some_conv simp del: map_is_Nil_conv)
    then show ?thesis
      using that [of "dispatch_stage (cl_now c) (jb_id job) pool st1"] by (simp add: dispatch_stage_def st1_def same_tables_def used_id_def)
  qed
qed

abbreviation having :: "stage_status \<Rightarrow> scan_stage list \<Rightarrow> nat" where
  "having t sts \<equiv> length (filter (\<lambda>st. sg_status st = t) sts)"

text \<open>The rest of the row is as before.\<close>

definition same_row :: "scan \<Rightarrow> scan \<Rightarrow> bool" where
  "same_row s s' \<longleftrightarrow> s'\<lparr>sc_stages := []\<rparr> = s\<lparr>sc_stages := []\<rparr> \<and> map sg_id (sc_stages s') = map sg_id (sc_stages s) \<and>
     (\<forall>i. (\<forall>st \<in> set (sc_stages s). sg_scan st = i) \<longrightarrow> (\<forall>st \<in> set (sc_stages s'). sg_scan st = i))"

lemma same_row_refl [simp]: "same_row s s"
  by (simp add: same_row_def)

lemma same_row_trans:
  assumes "same_row s s'" "same_row s' s''"
  shows "same_row s s''"
proof -
  note * = assms [unfolded same_row_def]
  have "s''\<lparr>sc_stages := []\<rparr> = s\<lparr>sc_stages := []\<rparr>" "map sg_id (sc_stages s'') = map sg_id (sc_stages s)"
    using * by (blast intro: trans)+
  then show ?thesis using * unfolding same_row_def by blast
qed

lemma same_row_put:
  assumes "st \<in> set (sc_stages s)" "sg_scan st' = sg_scan st"
  shows "same_row s (put_stage st' s)"
proof -
  have "sg_scan x = i" if "\<forall>st \<in> set (sc_stages s). sg_scan st = i" "x \<in> set (sc_stages (put_stage st' s))" for i x
    using that assms put_stage_ball [of s "\<lambda>x. sg_scan x = i" st' x] by simp
  moreover have "(put_stage st' s)\<lparr>sc_stages := []\<rparr> = s\<lparr>sc_stages := []\<rparr>" by (simp add: put_stage_def)
  ultimately show ?thesis unfolding same_row_def using put_stage_ids by blast
qed

lemma prepare_stages_facts:
  assumes "prepare_stages D c g pool sts s pl = Some (pl', s', x)"
    and "distinct (map sg_id (sc_stages s))" "distinct sts" "set sts \<subseteq> set (sc_stages s)"
  shows "same_tables pl pl' \<and> same_row s s' \<and>
    having stage_status.RUNNING (sc_stages s') = having stage_status.RUNNING (sc_stages s) + (if x = None then 0 else 1) \<and>
    having stage_status.PENDING (sc_stages s') + (if x = None then having stage_status.PENDING sts else 1) \<le> having stage_status.PENDING (sc_stages s)"
  using assms
proof (induction sts arbitrary: s pl)
  case Nil
  then show ?case by (simp add: same_tables_def)
next
  case (Cons st sts)
  show ?case
  proof (cases "sg_status st = stage_status.PENDING")
    case False
    then have "prepare_stages D c g pool sts s pl = Some (pl', s', x)" using Cons.prems(1) by simp
    moreover have "having stage_status.PENDING (st # sts) = having stage_status.PENDING sts" using False by simp
    ultimately show ?thesis using Cons.IH [of s pl] Cons.prems(2-4) by (simp only: distinct.simps set_simps insert_subset)
  next
    case pending: True
    then obtain pl1 s1 y where y: "prepare_stage D c g pool st s pl = Some (pl1, s1, y)"
      using Cons.prems(1) by (auto split: option.splits)
    obtain st' where st': "s1 = put_stage st' s" "sg_id st' = sg_id st" "sg_scan st' = sg_scan st" "same_tables pl pl1"
      and or: "y = None \<and> sg_status st' = stage_status.SKIPPED \<or> (\<exists>job. y = Some (st', job) \<and> sg_status st' = stage_status.RUNNING)"
      using y by (rule prepare_stage_cases)
    have st: "st \<in> set (sc_stages s)" using Cons.prems(4) by simp
    have row: "same_row s s1" using same_row_put [OF st st'(3)] st'(1) by simp
    note n = put_stage_running [OF Cons.prems(2) st st'(2), folded st'(1)]
    from or show ?thesis
    proof
      assume s: "y = None \<and> sg_status st' = stage_status.SKIPPED"
      have "set sts \<subseteq> set (sc_stages s1)"
        using Cons.prems(3,4) unfolding st'(1) put_stage_same [OF Cons.prems(2) st st'(2)] by force
      moreover have "distinct (map sg_id (sc_stages s1))" using Cons.prems(2) unfolding st'(1) put_stage_ids .
      moreover have "prepare_stages D c g pool sts s1 pl1 = Some (pl', s', x)" using Cons.prems(1) pending y s by simp
      ultimately have IH: "same_tables pl1 pl' \<and> same_row s1 s' \<and>
          having stage_status.RUNNING (sc_stages s') = having stage_status.RUNNING (sc_stages s1) + (if x = None then 0 else 1) \<and>
          having stage_status.PENDING (sc_stages s') + (if x = None then having stage_status.PENDING sts else 1) \<le> having stage_status.PENDING (sc_stages s1)"
        using Cons.IH Cons.prems(3) by simp
      then have "same_tables pl pl'" "same_row s s'" using st'(4) row same_row_trans by (auto simp: same_tables_def)
      then show ?thesis
        using IH s pending n [of "\<lambda>x. sg_status x = stage_status.RUNNING"] n [of "\<lambda>x. sg_status x = stage_status.PENDING"] by (auto split: if_splits)
    next
      assume "\<exists>job. y = Some (st', job) \<and> sg_status st' = stage_status.RUNNING"
      then have s: "y \<noteq> None" "sg_status st' = stage_status.RUNNING" by auto
      then have "pl' = pl1" "s' = s1" "x = y" using Cons.prems(1) pending y by auto
      then show ?thesis
        using s row st'(4) pending n [of "\<lambda>x. sg_status x = stage_status.RUNNING"] n [of "\<lambda>x. sg_status x = stage_status.PENDING"] by auto
    qed
  qed
qed

lemma same_row_fields:
  assumes "same_row s s'"
  shows "sc_id s' = sc_id s" "sc_tenant s' = sc_tenant s" "sc_org s' = sc_org s" "sc_status s' = sc_status s" "sc_secret s' = sc_secret s"
    "map sg_id (sc_stages s') = map sg_id (sc_stages s)"
proof -
  have e: "s'\<lparr>sc_stages := []\<rparr> = s\<lparr>sc_stages := []\<rparr>" using assms by (simp add: same_row_def)
  show "sc_id s' = sc_id s" "sc_tenant s' = sc_tenant s" "sc_org s' = sc_org s" "sc_status s' = sc_status s" "sc_secret s' = sc_secret s"
    using arg_cong [OF e, of sc_id] arg_cong [OF e, of sc_tenant] arg_cong [OF e, of sc_org] arg_cong [OF e, of sc_status] arg_cong [OF e, of sc_secret]
    by simp_all
  show "map sg_id (sc_stages s') = map sg_id (sc_stages s)" using assms unfolding same_row_def by blast
qed

lemma in_flight_having: "in_flight s \<longleftrightarrow> having stage_status.RUNNING (sc_stages s) \<noteq> 0"
  by (auto simp: in_flight_def list_ex_iff filter_empty_conv)

lemma prepared_moves:
  assumes "same_row s s'" "sc_status s = scan_status.RUNNING" "having stage_status.RUNNING (sc_stages s') \<le> 1"
  shows "moves s s'"
proof -
  note f = same_row_fields [OF assms(1)]
  have "scan_ok s'" if "scan_ok s"
  proof -
    have "\<forall>st \<in> set (sc_stages s'). sg_scan st = sc_id s" using assms(1) that unfolding same_row_def scan_ok_def by blast
    then show ?thesis
      using that assms(2,3) f(4) unfolding scan_ok_def ended_def f by (simp add: ACTIVE_SCAN_STATES_def)
  qed
  then show ?thesis unfolding moves_def using assms(2) f by (simp add: ended_def ACTIVE_SCAN_STATES_def)
qed

lemma final_status_ended: "final_status s \<in> {scan_status.FAILED, scan_status.PARTIAL, scan_status.COMPLETED}"
  by (simp add: final_status_def)

lemma finished_moves:
  assumes "sc_status s = scan_status.RUNNING" "having stage_status.RUNNING (sc_stages s) = 0" "having stage_status.PENDING (sc_stages s) = 0"
    and "sc_stages s' = sc_stages s" "sc_id s' = sc_id s" "sc_tenant s' = sc_tenant s" "sc_org s' = sc_org s" "sc_status s' = final_status s" "sc_secret s' = None"
  shows "moves s s'"
proof -
  have "sg_status st \<in> done_states" if "st \<in> set (sc_stages s)" for st
    using that assms(2,3) by (cases "sg_status st") (auto simp: filter_empty_conv done_states_def)
  then have "scan_ok s'" if "scan_ok s"
    using that assms(2) final_status_ended [of s] unfolding scan_ok_def assms(4-9) by auto
  then show ?thesis
    using assms final_status_ended [of s] by (auto simp: moves_def ended_def ACTIVE_SCAN_STATES_def)
qed

lemma may_follow_trans: "may_follow r t \<Longrightarrow> may_follow t u \<Longrightarrow> may_follow r u"
  by (cases r; cases t) auto

lemma settled_status: "settled_row s' = settled_row s \<Longrightarrow> sc_status s' = sc_status s"
  by (drule arg_cong [of _ _ sc_status]) (simp add: settled_row_def)

lemma moves_trans:
  assumes "moves s s'" "moves s' s''"
  shows "moves s s''"
proof -
  have "settled_row s'' = settled_row s" if "scan_ok s" "ended s"
  proof -
    have s': "settled_row s' = settled_row s" "scan_ok s'" using assms(1) that by (auto simp: moves_def)
    moreover have "ended s'" using that(2) settled_status [OF s'(1)] by (simp add: ended_def)
    ultimately show ?thesis using assms(2) by (auto simp: moves_def)
  qed
  then show ?thesis using assms may_follow_trans unfolding moves_def by metis
qed

subsection \<open>All scans\<close>

definition scans_ok :: "platform \<Rightarrow> bool" where
  "scans_ok pl \<longleftrightarrow> distinct (map sc_id (pl_scans pl)) \<and> (\<forall>s \<in> set (pl_scans pl). scan_ok s)"

text \<open>Everything but the reservation of a slot: no scan begins to run.\<close>

definition keeps :: "scan \<Rightarrow> scan \<Rightarrow> bool" where
  "keeps s s' \<longleftrightarrow> moves s s' \<and> (sc_status s' = scan_status.RUNNING \<longrightarrow> sc_status s = scan_status.RUNNING)"

lemma keeps_refl [simp]: "keeps s s"
  by (simp add: keeps_def)

lemma keeps_trans: "keeps s s' \<Longrightarrow> keeps s' s'' \<Longrightarrow> keeps s s''"
  using moves_trans by (auto simp: keeps_def)

abbreviation scans_move :: "platform \<Rightarrow> platform \<Rightarrow> bool" where
  "scans_move pl pl' \<equiv> list_all2 keeps (pl_scans pl) (pl_scans pl')"

lemma scans_move_refl: "pl_scans pl' = pl_scans pl \<Longrightarrow> scans_move pl pl'"
  by (simp add: list_all2_refl)

lemma scans_move_trans: "scans_move pl pl' \<Longrightarrow> scans_move pl' pl'' \<Longrightarrow> scans_move pl pl''"
  using list_all2_trans [of keeps keeps keeps] keeps_trans by blast

lemma scans_move_ids: "scans_move pl pl' \<Longrightarrow> map sc_id (pl_scans pl') = map sc_id (pl_scans pl)"
  by (induction rule: list_all2_induct) (auto simp: keeps_def moves_def)

lemma list_all2_moves_ok: "list_all2 moves ss ss' \<Longrightarrow> \<forall>s \<in> set ss. scan_ok s \<Longrightarrow> \<forall>s \<in> set ss'. scan_ok s"
  by (induction rule: list_all2_induct) (auto simp: moves_def)

lemma scans_move_ok:
  assumes "scans_move pl pl'" "scans_ok pl"
  shows "scans_ok pl'"
proof -
  have "\<forall>s \<in> set (pl_scans pl'). scan_ok s"
    using list_all2_moves_ok [OF list_all2_mono [OF assms(1)]] assms(2) by (simp add: scans_ok_def keeps_def)
  then show ?thesis using assms(2) scans_move_ids [OF assms(1)] unfolding scans_ok_def by simp
qed

lemma get_scan_in: "get_scan pl sid = Some s \<Longrightarrow> s \<in> set (pl_scans pl) \<and> sc_id s = sid"
  unfolding get_scan_def by (rule find_Some_D)

lemma put_scan_map:
  assumes "scans_ok pl" "s \<in> set (pl_scans pl)" "sc_id s' = sc_id s"
  shows "pl_scans (put_scan s' pl) = map (\<lambda>x. if x = s then s' else x) (pl_scans pl)"
  using update_where_key [of sc_id "pl_scans pl" s s'] assms by (simp add: put_scan_def scans_ok_def)

lemma put_scan_moves:
  assumes "scans_ok pl" "s \<in> set (pl_scans pl)" "R s s'" "\<And>x. R x x" "sc_id s' = sc_id s" "pl_scans pl' = pl_scans (put_scan s' pl)"
  shows "list_all2 R (pl_scans pl) (pl_scans pl')"
proof -
  show ?thesis using assms(3,4) unfolding assms(6) put_scan_map [OF assms(1,2,5)] by (simp add: list_all2_map2 list.rel_refl_strong)
qed

lemma put_scan_keeps:
  assumes "scans_ok pl" "s \<in> set (pl_scans pl)" "moves s s'" "sc_status s' = scan_status.RUNNING \<Longrightarrow> sc_status s = scan_status.RUNNING"
    "pl_scans pl' = pl_scans (put_scan s' pl)"
  shows "scans_move pl pl'"
  using assms(3-5) by (intro put_scan_moves [OF assms(1,2), of keeps s']) (simp_all add: keeps_def moves_def)

lemma after_scan_scans [simp]: "pl_scans (after_scan D sid h pl) = pl_scans pl"
  by (simp add: after_scan_def split: option.split)

lemma cancel_scans: "pl_scans (fst (cancel D c reason s pl)) = pl_scans (put_scan (cancelled (cl_now c) reason s) pl)"
  by (simp add: cancel_def)

lemma cancel_moves:
  assumes "scans_ok pl" "s \<in> set (pl_scans pl)" "sc_status s \<in> set ACTIVE_SCAN_STATES"
  shows "scans_move pl (fst (cancel D c reason s pl))"
  by (rule put_scan_keeps [OF assms(1,2) cancelled_moves [OF assms(3)] _ cancel_scans]) (simp add: cancelled_def)

lemma cancel_all_moves:
  assumes "scans_ok pl" "distinct ss" "\<forall>s \<in> set ss. s \<in> set (pl_scans pl) \<and> sc_status s \<in> set ACTIVE_SCAN_STATES"
  shows "scans_move pl (fst (fold (\<lambda>s (pl, tasks). case cancel D c (Some reason) s pl of (pl', ts) \<Rightarrow> (pl', tasks @ ts)) ss (pl, tasks)))"
  using assms
proof (induction ss arbitrary: pl tasks)
  case (Cons s ss)
  obtain pl' ts where c: "cancel D c (Some reason) s pl = (pl', ts)" by (cases "cancel D c (Some reason) s pl")
  have m: "scans_move pl pl'" using cancel_moves [OF Cons.prems(1), of s D c "Some reason"] Cons.prems(3) c by simp
  have "pl_scans pl' = map (\<lambda>x. if x = s then cancelled (cl_now c) (Some reason) s else x) (pl_scans pl)"
    using cancel_scans [of D c "Some reason" s pl] put_scan_map [OF Cons.prems(1), of s] Cons.prems(3) c by (simp add: cancelled_def)
  then have "\<forall>t \<in> set ss. t \<in> set (pl_scans pl') \<and> sc_status t \<in> set ACTIVE_SCAN_STATES"
    using Cons.prems(2,3) by force
  then have "scans_move pl' (fst (fold (\<lambda>s (pl, tasks). case cancel D c (Some reason) s pl of (pl', ts) \<Rightarrow> (pl', tasks @ ts)) ss (pl', tasks @ ts)))"
    using Cons.IH scans_move_ok [OF m Cons.prems(1)] Cons.prems(2) by simp
  then show ?case using scans_move_trans [OF m] c by simp
qed (simp add: list_all2_refl)

text \<open>A start takes a free slot, or no scan begins to run.\<close>

lemma try_start_cases:
  assumes "scans_ok pl"
  obtains (quiet) "scans_move pl (fst (try_start D c sid pl))"
    | (started) s s' where "s \<in> set (pl_scans pl)" "moves s s'" "pl_scans (fst (try_start D c sid pl)) = pl_scans (put_scan s' pl)"
        "\<not> slots_taken D pl (sc_tenant s)"
proof (cases "get_scan pl sid")
  case (Some s)
  then have s: "s \<in> set (pl_scans pl)" by (simp add: get_scan_in)
  show ?thesis
  proof (cases "sc_status s \<in> {scan_status.PENDING, scan_status.QUEUED}")
    case st: True
    then have act: "sc_status s \<in> set ACTIVE_SCAN_STATES" by (auto simp: ACTIVE_SCAN_STATES_def)
    have m: "moves s (s\<lparr>sc_status := scan_status.QUEUED\<rparr>)" "moves s (s\<lparr>sc_status := scan_status.RUNNING, sc_started_at := Some (cl_now c)\<rparr>)"
      using start_moves [OF st, of scan_status.QUEUED "sc_started_at s"] start_moves [OF st, of scan_status.RUNNING] by simp_all
    show ?thesis
    proof (cases "inactive_reason D pl s")
      case None
      show ?thesis
      proof (cases "slots_taken D pl (sc_tenant s)")
        case True
        then show ?thesis
          using Some st None by (intro quiet put_scan_keeps [OF assms s m(1)]) (simp_all add: try_start_def)
      next
        case False
        then show ?thesis using Some st None by (intro started [OF s m(2)]) (simp_all add: try_start_def)
      qed
    next
      case (Some reason)
      then show ?thesis using \<open>get_scan pl sid = Some s\<close> st cancel_moves [OF assms s act] by (intro quiet) (simp add: try_start_def)
    qed
  qed (use Some quiet in \<open>simp add: try_start_def list_all2_refl\<close>)
qed (use quiet in \<open>simp add: try_start_def list_all2_refl\<close>)

lemma try_start_tables: "pl_tenants (fst (try_start D c sid pl)) = pl_tenants pl \<and> pl_plans (fst (try_start D c sid pl)) = pl_plans pl"
  by (simp add: try_start_def put_scan_def cancel_def after_scan_def split: option.split)

lemma scans_ok_same: "pl_scans pl' = pl_scans pl \<Longrightarrow> scans_ok pl' = scans_ok pl"
  by (simp add: scans_ok_def)

text \<open>What a call of \<open>prepare_next_stage\<close> makes of its scan.\<close>

lemma prepare_next_stage_cases:
  assumes "prepare_next_stage D c s pl = Some (pl', x)" "scans_ok pl" "s \<in> set (pl_scans pl)" "sc_status s = scan_status.RUNNING" "\<not> in_flight s"
  obtains (stopped) reason where "x = None" "pl' = fst (cancel D c (Some reason) s pl)"
    | (prepared) s' pl1 where "pl' = put_scan s' pl1" "same_tables pl pl1" "same_row s s'" "moves s s'"
        "having stage_status.RUNNING (sc_stages s') = (if x = None then 0 else 1)"
        "having stage_status.PENDING (sc_stages s') + (if x = None then having stage_status.PENDING (sc_stages s) else 1)
           \<le> having stage_status.PENDING (sc_stages s)"
proof (cases "inactive_reason D pl s")
  case (Some reason)
  then show ?thesis using assms(1,4) stopped by (auto simp: prepare_next_stage_def)
next
  case None
  then obtain g pool s' pl1 where *: "prepare_stages D c g pool (sort_key sg_position (sc_stages s)) s pl = Some (pl1, s', x)" "pl' = put_scan s' pl1"
    using assms(1,4) by (auto simp: prepare_next_stage_def split: option.splits)
  have d: "distinct (map sg_id (sc_stages s))" using assms(2,3) by (simp add: scans_ok_def scan_ok_def)
  have len: "having stage_status.PENDING (sort_key sg_position (sc_stages s)) = having stage_status.PENDING (sc_stages s)"
    by (simp add: filter_sort)
  have "distinct (sort_key sg_position (sc_stages s))" "set (sort_key sg_position (sc_stages s)) \<subseteq> set (sc_stages s)"
    using d by (simp_all add: distinct_map)
  note f0 = prepare_stages_facts [OF *(1) d this, unfolded len]
  then have f: "same_tables pl pl1" "same_row s s'"
      "having stage_status.RUNNING (sc_stages s') = having stage_status.RUNNING (sc_stages s) + (if x = None then 0 else 1)"
      "having stage_status.PENDING (sc_stages s') + (if x = None then having stage_status.PENDING (sc_stages s) else 1)
           \<le> having stage_status.PENDING (sc_stages s)"
    by blast+
  have r: "having stage_status.RUNNING (sc_stages s) = 0" using assms(5) by (simp add: in_flight_having)
  have "moves s s'" using prepared_moves [OF f(2) assms(4)] f(3) r by simp
  then show ?thesis using prepared [OF *(2) f(1,2)] f(3,4) r by simp
qed

lemma put_scan_get: "scans_ok pl \<Longrightarrow> s \<in> set (pl_scans pl) \<Longrightarrow> sc_id s' = sc_id s \<Longrightarrow> get_scan (put_scan s' pl) (sc_id s) = Some s'"
  unfolding get_scan_def by (rule find_unique) (auto simp: put_scan_map scans_ok_def distinct_map inj_on_def)

lemma same_tables_scans: "same_tables pl pl' \<Longrightarrow> pl_scans pl' = pl_scans pl"
  by (simp add: same_tables_def)

text \<open>The end of a scan: its row becomes a finished one.\<close>

lemma finalize_scan_cases:
  assumes "finalize_scan D c s pl = Some pl'" "sc_status s \<noteq> scan_status.CANCELLED"
  obtains s' where "pl_scans pl' = pl_scans (put_scan s' pl)" "sc_stages s' = sc_stages s" "sc_id s' = sc_id s" "sc_tenant s' = sc_tenant s"
    "sc_org s' = sc_org s" "sc_status s' = final_status s" "sc_secret s' = None" "pl_tenants pl' = pl_tenants pl" "pl_plans pl' = pl_plans pl"
    "pl_entries pl' = pl_entries pl"
proof -
  obtain g pl1 s1 where r: "rescore_scan D c g (finished (cl_now c) s) pl = Some (pl1, s1)"
    and pl': "pl' = after_scan D (sc_id s) True (snapshot_organization c g ((complete_baseline (cl_now c) s1 g (put_scan s1 pl1))
        \<lparr>pl_inv := add_event (scan_event (cl_now c) g s1) (pl_inv (complete_baseline (cl_now c) s1 g (put_scan s1 pl1)))\<rparr>))"
    using assms by (auto simp: finalize_scan_def Let_def bind_eq_Some_conv)
  have s1: "sc_stages s1 = sc_stages s" "sc_id s1 = sc_id s" "sc_tenant s1 = sc_tenant s" "sc_org s1 = sc_org s" "sc_status s1 = final_status s"
      "sc_secret s1 = None" and pl1: "same_tables pl pl1"
    using r by (auto simp: rescore_scan_def merge_stats_def finished_def same_tables_def bind_eq_Some_conv split: if_splits)
  have *: "pl_scans (after_scan D i h x) = pl_scans x" "pl_tenants (after_scan D i h x) = pl_tenants x" "pl_plans (after_scan D i h x) = pl_plans x"
      "pl_entries (after_scan D i h x) = pl_entries x" for i h x
    by (simp_all add: after_scan_def split: option.split)
  show ?thesis
    using s1 pl1 by (intro that [of s1]) (simp_all add: pl' * snapshot_organization_def Let_def complete_baseline_def put_scan_def same_tables_def)
qed

text \<open>What a call of \<open>advance_scan\<close> makes of a scan that is running without a stage in flight.\<close>

lemma advance_scan_cases:
  assumes "advance_scan D c sid pl = Some (pl', x)" "scans_ok pl" "get_scan pl sid = Some s" "sc_status s = scan_status.RUNNING" "\<not> in_flight s"
  obtains (ended) s' where "x = None" "pl_scans pl' = pl_scans (put_scan s' pl)" "moves s s'" "ended s'"
    | (dispatched) s' where "x \<noteq> None" "pl_scans pl' = pl_scans (put_scan s' pl)" "moves s s'" "sc_status s' = scan_status.RUNNING" "in_flight s'"
        "having stage_status.PENDING (sc_stages s') < having stage_status.PENDING (sc_stages s)"
proof -
  have s: "s \<in> set (pl_scans pl)" "sc_id s = sid" using get_scan_in [OF assms(3)] by auto
  obtain pl1 where p: "prepare_next_stage D c s pl = Some (pl1, x)"
    and fin: "x = None \<Longrightarrow> \<exists>s1. get_scan pl1 sid = Some s1 \<and> finalize_scan D c s1 pl1 = Some pl'" and sent: "x \<noteq> None \<Longrightarrow> pl' = pl1"
    using assms(1,3-5) by (auto simp: advance_scan_def split: option.splits prod.splits)
  from p assms(2) s(1) assms(4,5) show ?thesis
  proof (cases rule: prepare_next_stage_cases)
    case (stopped reason)
    let ?s = "cancelled (cl_now c) (Some reason) s"
    have sc: "pl_scans pl1 = pl_scans (put_scan ?s pl)" using stopped(2) cancel_scans by blast
    have "get_scan pl1 sid = Some ?s"
      using put_scan_get [OF assms(2) s(1), of ?s] sc s(2) by (simp add: get_scan_def cancelled_def)
    then have "pl' = pl1" using fin stopped(1) by (simp add: finalize_scan_def cancelled_def)
    moreover have "moves s ?s" using assms(4) by (intro cancelled_moves) (simp add: ACTIVE_SCAN_STATES_def)
    moreover have "ended ?s" by (simp add: ended_simps cancelled_def)
    ultimately show ?thesis using ended stopped(1) sc by blast
  next
    case (prepared s' pl2)
    have pl2: "pl_scans pl2 = pl_scans pl" using same_tables_scans [OF prepared(2)] .
    have sc: "pl_scans pl1 = pl_scans (put_scan s' pl)" using prepared(1) pl2 by (simp add: put_scan_def)
    have id: "sc_id s' = sc_id s" "sc_status s' = scan_status.RUNNING" using same_row_fields [OF prepared(3)] assms(4) by simp_all
    show ?thesis
    proof (cases x)
      case (Some sj)
      then have "in_flight s'" "having stage_status.PENDING (sc_stages s') < having stage_status.PENDING (sc_stages s)"
        using prepared(5,6) by (simp_all add: in_flight_having)
      then show ?thesis using dispatched Some sent sc prepared(4) id(2) by blast
    next
      case None
      have "get_scan pl1 sid = Some s'" using put_scan_get [OF assms(2) s(1) id(1)] sc s(2) by (simp add: get_scan_def)
      then obtain s'' where f: "pl_scans pl' = pl_scans (put_scan s'' pl1)" "sc_stages s'' = sc_stages s'" "sc_id s'' = sc_id s'"
          "sc_tenant s'' = sc_tenant s'" "sc_org s'' = sc_org s'" "sc_status s'' = final_status s'" "sc_secret s'' = None"
        using fin [OF None] id(2) by (auto elim!: finalize_scan_cases)
      have "moves s' s''" using prepared(5,6) None f id(2) by (intro finished_moves) simp_all
      then have "moves s s''" by (rule moves_trans [OF prepared(4)])
      moreover have "ended s''" using f(6) final_status_ended [of s'] by (auto simp: ended_simps)
      moreover have "pl_scans pl' = pl_scans (put_scan s'' pl)"
        unfolding f(1) using sc id(1) f(3) by (auto simp: put_scan_def update_where_def)
      ultimately show ?thesis using ended None by blast
    qed
  qed
qed

subsection \<open>Results and failures\<close>

lemma same_tables_trans: "same_tables pl pl' \<Longrightarrow> same_tables pl' pl'' \<Longrightarrow> same_tables pl pl''"
  by (simp add: same_tables_def)

lemma store_artifacts_tables: "same_tables pl (fold (store_artifact D c s st) as pl)"
proof (induction "as" arbitrary: pl)
  case (Cons a "as")
  have "same_tables pl (store_artifact D c s st a pl)" by (simp add: store_artifact_def used_id_def same_tables_def Let_def)
  then show ?case using Cons same_tables_trans by (metis fold_simps(2))
qed (simp add: same_tables_def)

lemma ingest_stage_tables: "ingest_stage D c g ts s st r pl = Some (pl', stats) \<Longrightarrow> same_tables pl pl'"
  using store_artifacts_tables [of "pl\<lparr>pl_inv := db\<rparr>" D c s st "sr_artifacts r" for db]
  by (auto simp: ingest_stage_def Let_def same_tables_def bind_eq_Some_conv)

lemma failed_status_done [simp]: "failed_status st \<in> done_states"
  by (simp add: failed_status_def done_states_def)

lemma complete_stage_cases:
  assumes "complete_stage D c s st r pl = Some pl'" "sg_status st = stage_status.RUNNING" "sc_status s = scan_status.RUNNING"
  obtains st' s' where "pl_scans pl' = pl_scans (put_scan s' pl)" "pl_tenants pl' = pl_tenants pl" "pl_plans pl' = pl_plans pl"
    "sc_stages s' = sc_stages (put_stage st' s)" "sc_id s' = sc_id s" "sc_tenant s' = sc_tenant s" "sc_org s' = sc_org s" "sc_status s' = sc_status s"
    "sg_id st' = sg_id st" "sg_scan st' = sg_scan st" "sg_status st' \<in> done_states"
proof -
  let ?st = "st\<lparr>sg_tool_version := sr_tool_version r, sg_finished_at := Some (cl_now c)\<rparr>"
  obtain g ts where g: "get_org pl (sc_org s) = Some g" "settings_of D (get_tenant pl (sc_tenant s)) = Some ts"
    using assms by (auto simp: complete_stage_def Let_def bind_eq_Some_conv)
  show ?thesis
  proof (cases "sr_status r = ''failed''")
    case True
    then have "pl' = put_scan (put_stage (failed_result D r ?st) s) pl" using assms g by (simp add: complete_stage_def Let_def)
    then show ?thesis
      by (intro that [of "put_stage (failed_result D r ?st) s" "failed_result D r ?st"])
         (simp_all add: put_scan_def failed_result_def Let_def failed_status_def is_optional_def done_states_def)
  next
    case False
    then obtain pl1 stats where i: "ingest_stage D c g ts s st r pl = Some (pl1, stats)"
      and pl': "pl' = record_usage (sc_tenant s) ''sensor_seconds'' (whole_seconds (sr_finished_at r - sr_started_at r)) (Some (sc_id s))
          [(''engine'', JStr (sg_engine st))] (put_scan (merge_stats stats (put_stage (finished_stage D r stats ?st) s)) pl1)"
      using assms g by (auto simp: complete_stage_def Let_def bind_eq_Some_conv)
    then show ?thesis
      using ingest_stage_tables [OF i]
      by (intro that [of "merge_stats stats (put_stage (finished_stage D r stats ?st) s)" "finished_stage D r stats ?st"])
         (simp_all add: put_scan_def record_usage_def merge_stats_def finished_stage_def same_tables_def done_states_def)
  qed
qed

lemma complete_stage_moves:
  assumes "complete_stage D c s st r pl = Some pl'" "scans_ok pl" "s \<in> set (pl_scans pl)" "st \<in> set (sc_stages s)"
  shows "scans_move pl pl' \<and> pl_tenants pl' = pl_tenants pl \<and> pl_plans pl' = pl_plans pl"
proof (cases "sg_status st = stage_status.RUNNING \<and> sc_status s = scan_status.RUNNING")
  case True
  then obtain st' s' where *: "pl_scans pl' = pl_scans (put_scan s' pl)" "pl_tenants pl' = pl_tenants pl" "pl_plans pl' = pl_plans pl"
    "sc_stages s' = sc_stages (put_stage st' s)" "sc_id s' = sc_id s" "sc_tenant s' = sc_tenant s" "sc_org s' = sc_org s" "sc_status s' = sc_status s"
    "sg_id st' = sg_id st" "sg_scan st' = sg_scan st" "sg_status st' \<in> done_states"
    using assms(1) by (elim conjE) (rule complete_stage_cases)
  have "moves s s'" using True * by (intro resolve_moves [OF assms(4), where st' = st']) auto
  then show ?thesis using put_scan_keeps [OF assms(2,3) _ _ *(1)] *(2,3,8) by simp
next
  case False
  then have "pl' = pl" using assms(1) by (auto simp: complete_stage_def)
  then show ?thesis by (simp add: list_all2_refl)
qed

lemma running_stage:
  assumes "scans_ok pl" "s \<in> set (pl_scans pl)" "st \<in> set (sc_stages s)" "sg_status st = stage_status.RUNNING"
  shows "sc_status s = scan_status.RUNNING"
proof -
  have ok: "scan_ok s" using assms(1,2) by (simp add: scans_ok_def)
  have "\<not> ended s" using ok assms(3,4) unfolding scan_ok_def done_states_def by fastforce
  moreover have "sc_status s \<notin> {scan_status.PENDING, scan_status.QUEUED}" using ok assms(3,4) unfolding scan_ok_def by fastforce
  ultimately show ?thesis by (cases "sc_status s") (simp_all add: ended_simps)
qed

lemma fail_stage_moves:
  assumes "scans_ok pl" "s \<in> set (pl_scans pl)" "st \<in> set (sc_stages s)"
  shows "scans_move pl (fail_stage c s st e pl)"
proof (cases "sg_status st = stage_status.RUNNING")
  case True
  let ?st = "st\<lparr>sg_status := failed_status st, sg_error := Some (take 4000 e), sg_finished_at := Some (cl_now c)\<rparr>"
  have "moves s (put_stage ?st s)"
    using running_stage [OF assms True] True by (intro resolve_moves [OF assms(3), where st' = ?st]) simp_all
  then show ?thesis using True by (intro put_scan_keeps [OF assms(1,2)]) (simp_all add: fail_stage_def)
qed (simp add: fail_stage_def list_all2_refl)

text \<open>A result that is bound to a stage of a consistent table is bound to a stage of that scan.\<close>

lemma bound_stage:
  assumes "scans_ok pl" "get_scan pl sid = Some s" "find (\<lambda>st. sg_id st = gid) (concat (map sc_stages (pl_scans pl))) = Some st" "sg_scan st = sc_id s"
  shows "st \<in> set (sc_stages s)"
proof -
  obtain t where t: "t \<in> set (pl_scans pl)" "st \<in> set (sc_stages t)" using find_Some_D [OF assms(3)] by auto
  then have "sc_id t = sc_id s" using assms(1,4) by (force simp: scans_ok_def scan_ok_def)
  then have "t = s" using assms(1) t(1) get_scan_in [OF assms(2)] by (auto simp: scans_ok_def distinct_map inj_on_def)
  then show ?thesis using t(2) by simp
qed

lemma receive_result_cases:
  assumes "receive_result D c sid gid env r pl = Some (pl', b)"
  obtains (rejected) "\<not> b" "pl' = pl"
    | (accepted) s st where b "get_scan pl sid = Some s" "find (\<lambda>st. sg_id st = gid) (concat (map sc_stages (pl_scans pl))) = Some st"
        "result_binding_error (Some s) (Some st) env r = None" "complete_stage D c s st r pl = Some pl'"
proof (cases "result_binding_error (get_scan pl sid) (find (\<lambda>st. sg_id st = gid) (concat (map sc_stages (pl_scans pl)))) env r")
  case None
  then obtain s st where *: "get_scan pl sid = Some s" "find (\<lambda>st. sg_id st = gid) (concat (map sc_stages (pl_scans pl))) = Some st"
    by (auto simp: result_binding_error_def split: option.splits)
  then show ?thesis using assms None accepted by (auto simp: receive_result_def Let_def)
qed (use assms rejected in \<open>auto simp: receive_result_def Let_def\<close>)

subsection \<open>Runs of the pipeline\<close>

text \<open>
  Everything that touches scans, in any order: requests, tasks, results and schedules. A scan gets an identifier no
  scan has.
\<close>

inductive pipeline_step :: "deployment \<Rightarrow> platform \<Rightarrow> platform \<Rightarrow> bool" for D where
  create: "create_scan D c a pl = Inr (pl', s) \<Longrightarrow> fresh pl \<notin> sc_id ` set (pl_scans pl) \<Longrightarrow> pipeline_step D pl pl'"
| fire: "fire_schedule next_run D c t h pl = Some (pl', x) \<Longrightarrow> fresh pl \<notin> sc_id ` set (pl_scans pl) \<Longrightarrow> pipeline_step D pl pl'"
| cancel: "cancel_scan D c sid pl = Inr (pl', tasks) \<Longrightarrow> pipeline_step D pl pl'"
| suspend: "cancel_tenant_scans D c t why pl = (pl', tasks) \<Longrightarrow> pipeline_step D pl pl'"
| start: "try_start D c sid pl = (pl', b) \<Longrightarrow> pipeline_step D pl pl'"
| advance: "advance_scan D c sid pl = Some (pl', x) \<Longrightarrow> pipeline_step D pl pl'"
| published: "job_published c sid gid job pl = pl' \<Longrightarrow> pipeline_step D pl pl'"
| unpublished: "job_not_published c sid gid job pl = pl' \<Longrightarrow> pipeline_step D pl pl'"
| failed: "stage_failed c sid gid why pl = pl' \<Longrightarrow> pipeline_step D pl pl'"
| result: "receive_result D c sid gid env r pl = Some (pl', b) \<Longrightarrow> pipeline_step D pl pl'"

text \<open>Known scans move, and new ones are pending.\<close>

definition scans_evolve :: "(scan \<Rightarrow> scan \<Rightarrow> bool) \<Rightarrow> platform \<Rightarrow> platform \<Rightarrow> bool" where
  "scans_evolve R pl pl' \<longleftrightarrow> (\<exists>old new. pl_scans pl' = old @ new \<and> list_all2 R (pl_scans pl) old \<and>
     (\<forall>s \<in> set new. scan_ok s \<and> sc_status s = scan_status.PENDING)) \<and> scans_ok pl' \<and> pl_tenants pl' = pl_tenants pl \<and> pl_plans pl' = pl_plans pl"

lemma evolves_moves: "scans_ok pl \<Longrightarrow> scans_move pl pl' \<Longrightarrow> pl_tenants pl' = pl_tenants pl \<Longrightarrow> pl_plans pl' = pl_plans pl \<Longrightarrow> scans_evolve keeps pl pl'"
  unfolding scans_evolve_def using scans_move_ok by (metis append_Nil2 empty_iff empty_set)

lemma new_scan_ok: "scan_ok (new_scan D c a g p stages override i)"
proof -
  let ?s = "new_scan D c a g p stages override i"
  have "map sg_id (sc_stages ?s) = map (\<lambda>n. i + 1 + n) [0..<length stages]"
    by (auto simp: new_scan_def new_stage_def enumerate_eq_zip map_zip_map2 case_prod_unfold intro: nth_equalityI)
  then have "distinct (map sg_id (sc_stages ?s))" by (simp add: distinct_map inj_on_def)
  moreover have "\<forall>st \<in> set (sc_stages ?s). sg_scan st = i \<and> sg_status st = stage_status.PENDING"
    by (auto simp: new_scan_def new_stage_def)
  moreover from this have "filter (\<lambda>st. sg_status st = stage_status.RUNNING) (sc_stages ?s) = []" by (simp add: filter_empty_conv)
  ultimately show ?thesis unfolding scan_ok_def ended_def by (simp add: new_scan_def ACTIVE_SCAN_STATES_def)
qed

lemma create_scan_appends:
  assumes "create_scan D c a pl = Inr (pl', s)"
  shows "pl_scans pl' = pl_scans pl @ [s] \<and> scan_ok s \<and> sc_status s = scan_status.PENDING \<and> sc_id s = fresh pl \<and>
    pl_tenants pl' = pl_tenants pl \<and> pl_plans pl' = pl_plans pl"
proof -
  obtain g p stages override where s: "s = new_scan D c a g p stages override (fresh pl)"
    and pl': "pl' = record_usage (sa_tenant a) ''scans'' 1 (Some (sc_id s)) [(''profile'', JStr (pr_slug p))]
              (audited D c (scan_created a p s) (insert_scan s pl))"
    using assms by (auto simp: create_scan_def Let_def bind_r_Inr)
  have "sc_status s = scan_status.PENDING" "sc_id s = fresh pl" by (simp_all add: s new_scan_def)
  moreover have "scan_ok s" unfolding s by (rule new_scan_ok)
  moreover have "pl_scans pl' = pl_scans pl @ [s]" "pl_tenants pl' = pl_tenants pl" "pl_plans pl' = pl_plans pl"
    by (simp_all add: pl' record_usage_def insert_scan_def)
  ultimately show ?thesis by blast
qed

lemma evolves_create:
  assumes "scans_ok pl" "pl_scans pl' = pl_scans pl @ [s]" "scan_ok s" "sc_status s = scan_status.PENDING" "sc_id s \<notin> sc_id ` set (pl_scans pl)"
    "pl_tenants pl' = pl_tenants pl" "pl_plans pl' = pl_plans pl"
  shows "scans_evolve keeps pl pl'"
proof -
  have "scans_ok pl'" using assms by (simp add: scans_ok_def)
  then show ?thesis unfolding scans_evolve_def using assms(2-4,6,7) by (intro conjI exI [of _ "pl_scans pl"] exI [of _ "[s]"]) (simp_all add: list_all2_refl)
qed

lemma cancel_tables: "pl_tenants (fst (cancel D c w s pl)) = pl_tenants pl \<and> pl_plans (fst (cancel D c w s pl)) = pl_plans pl"
  by (simp add: cancel_def after_scan_def put_scan_def split: option.split)

lemma prepare_stages_tables: "prepare_stages D c g pool sts s pl = Some (pl', s', x) \<Longrightarrow> same_tables pl pl'"
proof (induction sts arbitrary: s pl)
  case Nil
  then show ?case by (simp add: same_tables_def)
next
  case (Cons st sts)
  show ?case
  proof (cases "sg_status st = stage_status.PENDING")
    case True
    then obtain pl1 s1 y where y: "prepare_stage D c g pool st s pl = Some (pl1, s1, y)"
      using Cons.prems by (auto split: option.splits)
    have t: "same_tables pl pl1" using y by (rule prepare_stage_cases)
    show ?thesis
    proof (cases y)
      case None
      then show ?thesis using Cons True y same_tables_trans [OF t] by simp
    next
      case (Some sj)
      then show ?thesis using Cons.prems True y t by (cases sj) simp
    qed
  qed (use Cons in simp)
qed

lemma prepare_next_stage_tables:
  "prepare_next_stage D c s pl = Some (pl', x) \<Longrightarrow> pl_tenants pl' = pl_tenants pl \<and> pl_plans pl' = pl_plans pl"
  using cancel_tables prepare_stages_tables [of D c _ _ _ s pl]
  by (fastforce simp: prepare_next_stage_def put_scan_def same_tables_def split: if_splits option.splits)

lemma advance_tables:
  assumes "advance_scan D c sid pl = Some (pl', x)"
  shows "pl_tenants pl' = pl_tenants pl \<and> pl_plans pl' = pl_plans pl"
proof -
  have fin: "pl_tenants q = pl_tenants p \<and> pl_plans q = pl_plans p" if "finalize_scan D c s p = Some q" for s p q
  proof (cases "sc_status s = scan_status.CANCELLED")
    case False
    with that show ?thesis by (rule finalize_scan_cases) simp
  qed (use that in \<open>simp add: finalize_scan_def\<close>)
  show ?thesis
    using assms prepare_next_stage_tables [of D c _ pl] fin
    by (fastforce simp: advance_scan_def split: if_splits option.splits prod.splits)
qed

lemma with_stage_evolves:
  assumes "scans_ok pl" "\<And>s st. s \<in> set (pl_scans pl) \<Longrightarrow> st \<in> set (sc_stages s) \<Longrightarrow> scans_evolve keeps pl (f s st)"
  shows "scans_evolve keeps pl (with_stage pl sid gid f)"
proof -
  have "scans_evolve keeps pl pl" by (rule evolves_moves [OF assms(1)]) (simp_all add: list_all2_refl)
  moreover have "scans_evolve keeps pl (f s st)" if "get_scan pl sid = Some s" "get_stage s gid = Some st" for s st
    using assms(2) that find_Some_D [of _ "sc_stages s" st] get_scan_in [OF that(1)] by (simp add: get_stage_def)
  ultimately show ?thesis by (simp add: with_stage_def split: option.split)
qed

lemma fail_stage_evolves: "scans_ok pl \<Longrightarrow> s \<in> set (pl_scans pl) \<Longrightarrow> st \<in> set (sc_stages s) \<Longrightarrow> scans_evolve keeps pl (fail_stage c s st e pl)"
  by (rule evolves_moves [OF _ fail_stage_moves]) (simp_all add: fail_stage_def put_scan_def)

lemma advance_evolves:
  assumes "advance_scan D c sid pl = Some (pl', x)" "scans_ok pl"
  shows "scans_evolve keeps pl pl'"
proof (cases "\<exists>s. get_scan pl sid = Some s \<and> sc_status s = scan_status.RUNNING \<and> \<not> in_flight s")
  case True
  then obtain s where s: "get_scan pl sid = Some s" "sc_status s = scan_status.RUNNING" "\<not> in_flight s" by blast
  have "\<exists>s'. moves s s' \<and> pl_scans pl' = pl_scans (put_scan s' pl)"
    using assms s by (rule advance_scan_cases) blast+
  then have "scans_move pl pl'" using put_scan_keeps [OF assms(2)] get_scan_in [OF s(1)] s(2) by blast
  moreover have "pl_tenants pl' = pl_tenants pl \<and> pl_plans pl' = pl_plans pl" using advance_tables [OF assms(1)] .
  ultimately show ?thesis using evolves_moves [OF assms(2)] by blast
next
  case False
  then have "pl' = pl" using assms(1) by (auto simp: advance_scan_def split: option.splits if_splits)
  then show ?thesis by (intro evolves_moves [OF assms(2)]) (simp_all add: list_all2_refl)
qed

lemma evolves_same: "scans_ok pl \<Longrightarrow> pl_scans pl' = pl_scans pl \<Longrightarrow> pl_tenants pl' = pl_tenants pl \<Longrightarrow> pl_plans pl' = pl_plans pl \<Longrightarrow> scans_evolve keeps pl pl'"
  by (rule evolves_moves) (simp_all add: list_all2_refl)

lemma create_evolves:
  assumes "scans_ok pl" "create_scan D c a pl0 = Inr (pl1, s)" "fresh pl \<notin> sc_id ` set (pl_scans pl)"
    and "pl_scans pl0 = pl_scans pl" "pl_tenants pl0 = pl_tenants pl" "pl_plans pl0 = pl_plans pl" "pl_inv pl0 = pl_inv pl"
    and "pl_scans pl' = pl_scans pl1" "pl_tenants pl' = pl_tenants pl1" "pl_plans pl' = pl_plans pl1"
  shows "scans_evolve keeps pl pl'"
  using create_scan_appends [OF assms(2)] assms(3-10) by (intro evolves_create [OF assms(1), of pl' s]) (simp_all add: fresh_def)

lemma fire_evolves:
  assumes "scans_ok pl" "fire_schedule nr D c t hid pl = Some (pl', x)" "fresh pl \<notin> sc_id ` set (pl_scans pl)"
  shows "scans_evolve keeps pl pl'"
proof -
  have ps: "pl_scans (put_schedule k q) = pl_scans q" "pl_tenants (put_schedule k q) = pl_tenants q" "pl_plans (put_schedule k q) = pl_plans q"
      "pl_inv (put_schedule k q) = pl_inv q" for k q
    by (simp_all add: put_schedule_def)
  from assms(2) consider "pl' = pl" | k where "pl' = put_schedule k pl"
    | k k' a pl1 s where "create_scan D c a (put_schedule k pl) = Inr (pl1, s)" "pl' = put_schedule k' pl1"
    by (auto simp: fire_schedule_def Let_def split: option.splits if_splits sum.splits fault.splits)
  then show ?thesis
  proof cases
    case (3 k k' a pl1 s)
    then show ?thesis by (intro create_evolves [OF assms(1) 3(1) assms(3)]) (simp_all add: ps)
  qed (use assms(1) evolves_same ps in auto)
qed

lemma published_evolves:
  assumes "scans_ok pl"
  shows "scans_evolve keeps pl (job_published c sid gid job pl)"
  unfolding job_published_def
proof (rule with_stage_evolves [OF assms])
  fix s st assume *: "s \<in> set (pl_scans pl)" "st \<in> set (sc_stages s)"
  have "scans_evolve keeps pl (put_scan (put_stage (st\<lparr>sg_dispatched_at := Some (cl_now c)\<rparr>) s) pl)"
    by (rule evolves_moves [OF assms put_scan_keeps [OF assms *(1) published_moves [OF *(2)]]]) (simp_all add: put_scan_def)
  then show "scans_evolve keeps pl (if sg_task st = Some job \<and> sg_dispatched_at st = None
      then put_scan (put_stage (st\<lparr>sg_dispatched_at := Some (cl_now c)\<rparr>) s) pl else pl)"
    using evolves_same [OF assms] by simp
qed

lemma result_evolves:
  assumes "scans_ok pl" "receive_result D c sid gid env r pl = Some (pl', b)"
  shows "scans_evolve keeps pl pl'"
  using assms(2)
proof (cases rule: receive_result_cases)
  case rejected
  then show ?thesis using evolves_same [OF assms(1)] by simp
next
  case (accepted s st)
  have "sg_scan st = sc_id s" using accepted(4) by (auto simp: result_binding_error_def split: if_splits)
  then have "st \<in> set (sc_stages s)" using bound_stage [OF assms(1) accepted(2,3)] by simp
  then have "scans_move pl pl' \<and> pl_tenants pl' = pl_tenants pl \<and> pl_plans pl' = pl_plans pl"
    using complete_stage_moves [OF accepted(5) assms(1)] get_scan_in [OF accepted(2)] by blast
  then show ?thesis using evolves_moves [OF assms(1)] by blast
qed

lemma suspend_evolves:
  assumes "scans_ok pl" "cancel_tenant_scans D c t why pl = (pl', tasks)"
  shows "scans_evolve keeps pl pl'"
proof -
  let ?ss = "filter (\<lambda>s. sc_tenant s = t \<and> sc_status s \<in> set ACTIVE_SCAN_STATES) (pl_scans pl)"
  let ?f = "\<lambda>s (pl, tasks). case cancel D c (Some why) s pl of (pl', ts) \<Rightarrow> (pl', tasks @ ts)"
  have e: "fold ?f ?ss (pl, []) = (pl', tasks)" using assms(2) unfolding cancel_tenant_scans_def .
  have d: "distinct ?ss" using assms(1) by (simp add: scans_ok_def distinct_map)
  have al: "\<forall>s \<in> set ?ss. s \<in> set (pl_scans pl) \<and> sc_status s \<in> set ACTIVE_SCAN_STATES" by simp
  have m: "scans_move pl pl'" using cancel_all_moves [OF assms(1) d al, where D = D and c = c and reason = why and tasks = "[]"] unfolding e fst_conv .
  have "pl_tenants (fst (fold (\<lambda>s (pl, tasks). case cancel D c (Some why) s pl of (pl', ts) \<Rightarrow> (pl', tasks @ ts)) ss (q, us))) = pl_tenants q \<and>
      pl_plans (fst (fold (\<lambda>s (pl, tasks). case cancel D c (Some why) s pl of (pl', ts) \<Rightarrow> (pl', tasks @ ts)) ss (q, us))) = pl_plans q" for ss q us
  proof (induction ss arbitrary: q us)
    case (Cons s ss)
    then show ?case using cancel_tables [of D c "Some why" s q] by (cases "cancel D c (Some why) s q") simp
  qed simp
  from this [of ?ss pl "[]"] show ?thesis unfolding e using m by (intro evolves_moves [OF assms(1)]) simp_all
qed

text \<open>Every step but a start.\<close>

lemma pipeline_step_cases:
  assumes "pipeline_step D pl pl'" "scans_ok pl"
  obtains "scans_evolve keeps pl pl'" | c sid where "pl' = fst (try_start D c sid pl)"
  using assms(1)
proof cases
  case (create c a s)
  then show ?thesis using that(1) create_evolves [OF assms(2) create(1,2)] by simp
next
  case (cancel c sid tasks)
  then obtain s where s: "s \<in> set (pl_scans pl)" "sc_status s \<in> set ACTIVE_SCAN_STATES" "pl' = fst (Orchestrator.cancel D c None s pl)"
    by (auto simp: cancel_scan_def bind_r_Inr dest: get_scan_in)
  show ?thesis
    unfolding s(3) by (rule that(1)) (use cancel_moves [OF assms(2) s(1,2)] cancel_tables in \<open>auto intro!: evolves_moves [OF assms(2)] simp: s(3)\<close>)
next
  case (unpublished c sid gid job)
  have "scans_evolve keeps pl (job_not_published c sid gid job pl)"
    unfolding job_not_published_def using fail_stage_evolves [OF assms(2)] evolves_same [OF assms(2)]
    by (intro with_stage_evolves [OF assms(2)]) simp
  then show ?thesis using that(1) unpublished by simp
next
  case (failed c sid gid why)
  have "scans_evolve keeps pl (stage_failed c sid gid why pl)"
    unfolding stage_failed_def using fail_stage_evolves [OF assms(2)] by (intro with_stage_evolves [OF assms(2)])
  then show ?thesis using that(1) failed by simp
next
  case (start c sid b)
  then show ?thesis using that(2) [of c sid] by simp
next
  case (fire next_run c t h x)
  then show ?thesis using that(1) fire_evolves [OF assms(2) fire(1,2)] by simp
next
  case (suspend c t why tasks)
  then show ?thesis using that(1) suspend_evolves [OF assms(2) suspend] by simp
next
  case (advance c sid x)
  then show ?thesis using that(1) advance_evolves [OF advance assms(2)] by simp
next
  case (published c sid gid job)
  then show ?thesis using that(1) published_evolves [OF assms(2), of c sid gid job] by simp
next
  case (result c sid gid env r b)
  then show ?thesis using that(1) result_evolves [OF assms(2) result] by simp
qed

end
