(* ===== verification/ScanExample.thy ===== *)
theory ScanExample
  imports ScanSafety
begin

text \<open>
  A scan from its request to its end, on the example deployment: an organization with one verified
  address and a profile that looks for its open ports. The concrete runs of the pipeline start here.
\<close>

definition example_entry :: scope_entry where
  "example_entry = \<lparr>se_id = 6, se_tenant = 3, se_org = 5, se_type = scope_entry_type.IP, se_value = ''8.8.8.8'', se_subdomains = False,
     se_exclusion = False, se_active = True, se_verification = verification_status.VERIFIED, se_token = None, se_verified_at = Some 500,
     se_notes = None, se_created_by = None\<rparr>"

definition example_profile :: scan_profile where
  "example_profile = \<lparr>pr_id = 7, pr_tenant = None, pr_slug = ''ports'', pr_name = ''Ports'',
     pr_stages = [\<lparr>sp_stage = stage_type.PORT_DISCOVERY, sp_engine = ''naabu'', sp_config = [], sp_enabled = True, sp_optional = False, sp_active = True\<rparr>],
     pr_retain_raw = False\<rparr>"

definition example_platform :: platform where
  "example_platform = empty_platform\<lparr>pl_entries := [example_entry], pl_profiles := [example_profile]\<rparr>"

definition example_scan_args :: scan_args where
  "example_scan_args = \<lparr>sa_tenant = 3, sa_org = 5, sa_profile = 7, sa_trigger = scan_trigger.MANUAL, sa_requested_by = None, sa_schedule = None,
     sa_targets = [], sa_secret = [], sa_header = ''Cookie'', sa_stages = None\<rparr>"

definition example_created :: "platform \<times> scan" where
  "example_created = projr (create_scan example_deployment example_call example_scan_args example_platform)"

definition example_started :: "platform \<times> bool" where
  "example_started = try_start example_deployment example_call 10 (fst example_created)"

definition example_dispatched :: "platform \<times> (scan_stage \<times> sensor_job) option" where
  "example_dispatched = the (advance_scan example_deployment example_call 10 (fst example_started))"

definition example_envelope :: result_envelope where
  "example_envelope = \<lparr>ev_job = jb_id (snd (the (snd example_dispatched))), ev_tenant = uuid_str 3, ev_scan = uuid_str 10, ev_stage = uuid_str 11,
     ev_pool = ''t-acme''\<rparr>"

definition example_scan_result :: stage_result where
  "example_scan_result = \<lparr>sr_adapter = ''naabu'', sr_tool_version = None, sr_status = ''completed'', sr_started_at = 1000, sr_finished_at = 2000,
     sr_errors = [], sr_stats = [], sr_artifacts = [], sr_result = \<lparr>res_historical = False, res_observations = [], res_coverage = []\<rparr>\<rparr>"

definition example_answered :: "platform \<times> bool" where
  "example_answered = the (receive_result example_deployment example_call 10 11 example_envelope example_scan_result (fst example_dispatched))"

definition example_ended :: "platform \<times> (scan_stage \<times> sensor_job) option" where
  "example_ended = the (advance_scan example_deployment example_call 10 (fst example_answered))"

lemma example_create: "create_scan example_deployment example_call example_scan_args example_platform = Inr example_created"
proof -
  have "\<not> isl (create_scan example_deployment example_call example_scan_args example_platform)" by code_simp
  then show ?thesis by (simp add: example_created_def)
qed

lemma example_start: "map (\<lambda>s. (sc_id s, sc_status s, map sg_status (sc_stages s))) (pl_scans (fst example_started)) =
    [(10, scan_status.RUNNING, [stage_status.PENDING])]"
  by code_simp

lemma example_advance: "advance_scan example_deployment example_call 10 (fst example_started) = Some example_dispatched"
proof -
  have "advance_scan example_deployment example_call 10 (fst example_started) \<noteq> None" by code_simp
  then show ?thesis by (simp add: example_dispatched_def)
qed

lemma example_job: "map_option (\<lambda>(st, job). (sg_id st, jb_targets job)) (snd example_dispatched) = Some (11, [\<lparr>kind = target_kind.IP, val = ''8.8.8.8''\<rparr>])"
  by code_simp

lemma example_answer: "receive_result example_deployment example_call 10 11 example_envelope example_scan_result (fst example_dispatched) = Some (fst example_answered, True)"
proof -
  have "map_option snd (receive_result example_deployment example_call 10 11 example_envelope example_scan_result (fst example_dispatched)) = Some True" by code_simp
  then show ?thesis by (auto simp: example_answered_def)
qed

lemma example_finish: "advance_scan example_deployment example_call 10 (fst example_answered) = Some (fst example_ended, None)"
proof -
  have "map_option snd (advance_scan example_deployment example_call 10 (fst example_answered)) = Some None" by code_simp
  then show ?thesis by (auto simp: example_ended_def)
qed

lemma example_no_scans: "pl_scans example_platform = []"
  by (simp add: example_platform_def empty_platform_def)

text \<open>The steps of the pipeline, one after the other.\<close>

lemma example_pipeline_run:
  "(pipeline_step example_deployment)\<^sup>*\<^sup>* example_platform (fst example_started)"
  "(pipeline_step example_deployment)\<^sup>*\<^sup>* example_platform (fst example_dispatched)"
  "(pipeline_step example_deployment)\<^sup>*\<^sup>* example_platform (fst example_answered)"
  "(pipeline_step example_deployment)\<^sup>*\<^sup>* (fst example_answered) (fst example_ended)"
proof -
  have 1: "pipeline_step example_deployment example_platform (fst example_created)"
    using example_create example_no_scans by (intro pipeline_step.create [where s = "snd example_created"]) simp_all
  have 2: "pipeline_step example_deployment (fst example_created) (fst example_started)"
    using example_started_def by (intro pipeline_step.start [where b = "snd example_started" and c = example_call and sid = 10]) simp
  have 3: "pipeline_step example_deployment (fst example_started) (fst example_dispatched)"
    using example_advance by (intro pipeline_step.advance [where x = "snd example_dispatched"]) simp
  have 4: "pipeline_step example_deployment (fst example_dispatched) (fst example_answered)"
    using example_answer by (rule pipeline_step.result)
  have 5: "pipeline_step example_deployment (fst example_answered) (fst example_ended)"
    using example_finish by (rule pipeline_step.advance)
  show "(pipeline_step example_deployment)\<^sup>*\<^sup>* example_platform (fst example_started)" using 1 2 by simp
  then show "(pipeline_step example_deployment)\<^sup>*\<^sup>* example_platform (fst example_dispatched)" using 3 by simp
  then show "(pipeline_step example_deployment)\<^sup>*\<^sup>* example_platform (fst example_answered)" using 4 by simp
  show "(pipeline_step example_deployment)\<^sup>*\<^sup>* (fst example_answered) (fst example_ended)" using 5 by simp
qed

end
