(* ===== verification/Pipeline.thy ===== *)
theory Pipeline
  imports ScanExample
begin

text \<open>
  The promises of the scan pipeline: consistent and final scans, bounded concurrency, authorized targets, results
  that are taken once and only for their job, and scans that end.
\<close>

subsection \<open>The life of scans\<close>

lemma evolves_ok: "scans_evolve R pl pl' \<Longrightarrow> scans_ok pl'"
  by (simp add: scans_evolve_def)

lemma start_evolves:
  assumes "scans_ok pl"
  shows "scans_evolve moves pl (fst (try_start D c sid pl))"
proof -
  let ?pl = "fst (try_start D c sid pl)"
  have "list_all2 moves (pl_scans pl) (pl_scans ?pl)"
    using assms
  proof (cases rule: try_start_cases [where D = D and c = c and sid = sid])
    case quiet
    then show ?thesis by (rule list_all2_mono) (simp add: keeps_def)
  next
    case (started s s')
    then show ?thesis by (intro put_scan_moves [OF assms started(1)]) (simp_all add: moves_def)
  qed
  then have l: "list_all2 moves (pl_scans pl) (pl_scans ?pl)" .
  have "map sc_id (pl_scans ?pl) = map sc_id (pl_scans pl)"
    using l by (induction rule: list_all2_induct) (auto simp: moves_def)
  then have "scans_ok ?pl" using assms list_all2_moves_ok [OF l] unfolding scans_ok_def by simp
  then show ?thesis using l try_start_tables [of D c sid pl] unfolding scans_evolve_def by (metis append_Nil2 empty_iff empty_set)
qed

lemma step_evolves:
  assumes "pipeline_step D pl pl'" "scans_ok pl"
  shows "scans_evolve moves pl pl'"
  using assms
proof (cases rule: pipeline_step_cases)
  case 1
  then show ?thesis unfolding scans_evolve_def using list_all2_mono [of keeps _ _ moves] by (auto simp: keeps_def)
next
  case (2 c sid)
  then show ?thesis using start_evolves [OF assms(2)] by simp
qed

lemma evolves_get:
  assumes "scans_evolve moves pl pl'" "get_scan pl sid = Some s"
  obtains s' where "get_scan pl' sid = Some s'" "moves s s'"
proof -
  obtain old new where o: "pl_scans pl' = old @ new" "list_all2 moves (pl_scans pl) old" using assms(1) by (auto simp: scans_evolve_def)
  have "\<exists>s'. find (\<lambda>x. sc_id x = sid) old = Some s' \<and> moves s s'"
    using o(2) assms(2) unfolding get_scan_def by (induction rule: list_all2_induct) (auto simp: moves_def split: if_splits)
  moreover have "find (\<lambda>x. sc_id x = sid) (old @ new) = Some s'" if "find (\<lambda>x. sc_id x = sid) old = Some s'" for s'
    using that by (induction old) (auto split: if_splits)
  ultimately show ?thesis using that o(1) unfolding get_scan_def by metis
qed

lemma run_moves:
  assumes "(pipeline_step D)\<^sup>*\<^sup>* pl pl'" "scans_ok pl" "get_scan pl sid = Some s"
  shows "scans_ok pl' \<and> (\<exists>s'. get_scan pl' sid = Some s' \<and> moves s s')"
  using assms
proof (induction rule: rtranclp_induct)
  case (step pl1 pl2)
  then obtain s1 where s1: "scans_ok pl1" "get_scan pl1 sid = Some s1" "moves s s1" by blast
  have e: "scans_evolve moves pl1 pl2" using step_evolves [OF step.hyps(2) s1(1)] .
  then show ?case using evolves_get [OF e s1(2)] evolves_ok [OF e] moves_trans [OF s1(3)] by blast
qed auto

lemma run_ok: "(pipeline_step D)\<^sup>*\<^sup>* pl pl' \<Longrightarrow> scans_ok pl \<Longrightarrow> scans_ok pl'"
  by (induction rule: rtranclp_induct) (auto dest: step_evolves evolves_ok)

text \<open>
  C7: scans stay consistent. Whatever requests, tasks, results and schedules do, in any order, starting
  from a platform without scans: identifiers are unique, the stages of a scan are its own, at most one
  stage of a scan is in flight and only while the scan runs, no stage has begun before the scan runs,
  and when a scan is over every stage is over and no sign-in value is left in its row.
\<close>

theorem scans_consistent:
  assumes "(pipeline_step D)\<^sup>*\<^sup>* pl pl'" "pl_scans pl = []"
  shows "distinct (map sc_id (pl_scans pl')) \<and> (\<forall>s \<in> set (pl_scans pl'). scan_ok s)"
  using run_ok [OF assms(1)] assms(2) by (simp add: scans_ok_def)

theorem scans_consistent_witness:
  "(pipeline_step example_deployment)\<^sup>*\<^sup>* example_platform (fst example_started) \<and> pl_scans example_platform = [] \<and>
   map sc_id (pl_scans (fst example_started)) = [10] \<and> scan_ok (hd (pl_scans (fst example_started)))"
proof -
  have "pl_scans (fst example_started) \<noteq> []" "map sc_id (pl_scans (fst example_started)) = [10]" using example_start by auto
  then show ?thesis using scans_consistent [OF example_pipeline_run(1) example_no_scans] example_pipeline_run(1) example_no_scans by simp
qed

text \<open>
  C9: the status of a scan never goes back, and the end of a scan is final. Nothing that happens later,
  not even a late or repeated result, changes the row of a scan that is over (the time at which a job
  reached the broker apart).
\<close>

theorem finished_scan_final:
  assumes "(pipeline_step D)\<^sup>*\<^sup>* pl pl'" "pl_scans pl0 = []" "(pipeline_step D)\<^sup>*\<^sup>* pl0 pl" "get_scan pl sid = Some s"
  shows "\<exists>s'. get_scan pl' sid = Some s' \<and> may_follow (sc_status s) (sc_status s') \<and> (ended s \<longrightarrow> settled_row s' = settled_row s)"
proof -
  have ok: "scans_ok pl" using run_ok [OF assms(3)] assms(2) by (simp add: scans_ok_def)
  then obtain s' where "get_scan pl' sid = Some s'" "moves s s'" using run_moves [OF assms(1) _ assms(4)] by blast
  moreover have "scan_ok s" using ok get_scan_in [OF assms(4)] by (simp add: scans_ok_def)
  ultimately show ?thesis by (auto simp: moves_def)
qed

theorem finished_scan_final_witness:
  "(pipeline_step example_deployment)\<^sup>*\<^sup>* example_platform (fst example_answered) \<and> (pipeline_step example_deployment)\<^sup>*\<^sup>* (fst example_answered) (fst example_ended) \<and>
   (\<exists>s s'. get_scan (fst example_answered) 10 = Some s \<and> get_scan (fst example_ended) 10 = Some s' \<and> may_follow (sc_status s) (sc_status s'))"
proof -
  have "get_scan (fst example_answered) 10 \<noteq> None" by code_simp
  then obtain s where s: "get_scan (fst example_answered) 10 = Some s" by blast
  show ?thesis using finished_scan_final [OF example_pipeline_run(4) example_no_scans example_pipeline_run(3) s] s example_pipeline_run(3,4) by blast
qed

subsection \<open>Concurrency\<close>

definition counted :: "uuid option \<Rightarrow> scan \<Rightarrow> bool" where
  "counted t s \<longleftrightarrow> sc_status s = scan_status.RUNNING \<and> (case t of None \<Rightarrow> True | Some i \<Rightarrow> sc_tenant s = i)"

lemma running_scans_counted: "running_scans pl t = int (length (filter (counted t) (pl_scans pl)))"
  unfolding running_scans_def counted_def [abs_def] by (rule refl)

lemma keeps_counted1: "keeps s s' \<Longrightarrow> counted t s' \<Longrightarrow> counted t s"
  by (cases t) (auto simp: keeps_def moves_def counted_def)

lemma keeps_counted: "list_all2 keeps ss ss' \<Longrightarrow> length (filter (counted t) ss') \<le> length (filter (counted t) ss)"
  by (induction rule: list_all2_induct) (auto dest: keeps_counted1)

lemma evolves_counted:
  assumes "scans_evolve keeps pl pl'"
  shows "running_scans pl' t \<le> running_scans pl t"
proof -
  obtain old new where o: "pl_scans pl' = old @ new" "list_all2 keeps (pl_scans pl) old" "\<forall>s \<in> set new. sc_status s = scan_status.PENDING"
    using assms by (auto simp: scans_evolve_def)
  have "filter (counted t) new = []" using o(3) by (auto simp: filter_empty_conv counted_def)
  then show ?thesis using keeps_counted [OF o(2), of t] by (simp add: running_scans_counted o(1))
qed

lemma limit_same: "pl_tenants pl' = pl_tenants pl \<Longrightarrow> pl_plans pl' = pl_plans pl \<Longrightarrow> scan_concurrency_limit pl' t = scan_concurrency_limit pl t"
  by (simp add: scan_concurrency_limit_def plan_of_def get_tenant_def cong: option.case_cong)

lemma start_counted:
  assumes "scans_ok pl" "s \<in> set (pl_scans pl)" "sc_id s' = sc_id s" "sc_tenant s' = sc_tenant s"
  shows "running_scans (put_scan s' pl) t \<le> running_scans pl t + (if t = None \<or> t = Some (sc_tenant s) then 1 else 0)"
proof -
  have d: "distinct (pl_scans pl)" using assms(1) by (simp add: scans_ok_def distinct_map)
  show ?thesis
    using filter_map_replace [OF d assms(2), of "counted t" s'] assms(4) unfolding running_scans_counted put_scan_map [OF assms(1-3)]
    by (auto simp: counted_def split: if_splits option.splits simp del: filter_map)
qed

definition within_limits :: "deployment \<Rightarrow> platform \<Rightarrow> bool" where
  "within_limits D pl \<longleftrightarrow> running_scans pl None \<le> max 0 (dp_max_concurrent D) \<and>
     (\<forall>t. running_scans pl (Some t) \<le> max 0 (scan_concurrency_limit pl t))"

lemma step_within_limits:
  assumes "pipeline_step D pl pl'" "scans_ok pl" "within_limits D pl"
  shows "within_limits D pl'"
  using assms(1,2)
proof (cases rule: pipeline_step_cases)
  case 1
  then have "scan_concurrency_limit pl' t = scan_concurrency_limit pl t" for t by (intro limit_same) (simp_all add: scans_evolve_def)
  then show ?thesis using assms(3) evolves_counted [OF 1] order_trans unfolding within_limits_def by metis
next
  case (2 c sid)
  have lim: "scan_concurrency_limit pl' t = scan_concurrency_limit pl t" for t using try_start_tables [of D c sid pl] by (intro limit_same) (simp_all add: 2)
  from assms(2) show ?thesis
  proof (cases rule: try_start_cases [where D = D and c = c and sid = sid])
    case quiet
    then have "running_scans pl' t \<le> running_scans pl t" for t using keeps_counted [of "pl_scans pl" "pl_scans pl'" t] by (simp add: running_scans_counted 2)
    then show ?thesis using assms(3) lim order_trans unfolding within_limits_def by metis
  next
    case (started s s')
    have up: "running_scans pl' t \<le> running_scans pl t + (if t = None \<or> t = Some (sc_tenant s) then 1 else 0)" for t
      using start_counted [OF assms(2) started(1), of s' t] started(2,3) by (simp add: 2 moves_def running_scans_def)
    have free: "running_scans pl None < dp_max_concurrent D" "running_scans pl (Some (sc_tenant s)) < scan_concurrency_limit pl (sc_tenant s)"
      using started(4) by (auto simp: slots_taken_def)
    have "running_scans pl' None \<le> max 0 (dp_max_concurrent D)" using up [of None] free(1) by simp
    moreover have "running_scans pl' (Some t) \<le> max 0 (scan_concurrency_limit pl t)" for t
    proof (cases "t = sc_tenant s")
      case True
      then show ?thesis using up [of "Some t"] free(2) by simp
    next
      case False
      have "running_scans pl (Some t) \<le> max 0 (scan_concurrency_limit pl t)" using assms(3) unfolding within_limits_def by blast
      then show ?thesis using False up [of "Some t"] by simp
    qed
    ultimately show ?thesis unfolding within_limits_def lim by blast
  qed
qed



subsection \<open>Authorized targets\<close>

text \<open>What the scope checker promises of a host it allows, and of a target.\<close>

definition host_authorized :: "checker \<Rightarrow> (string \<Rightarrow> string list) \<Rightarrow> string \<Rightarrow> bool \<Rightarrow> bool" where
  "host_authorized ck derived h active \<longleftrightarrow>
     (case ip_address h of
        None \<Rightarrow> \<not> name_excluded ck h \<and> name_authorized ck h active
      | Some a \<Rightarrow> \<not> address_excluded ck a \<and>
          (address_authorized ck a active \<or> (\<exists>p \<in> set (derived h). origin_authorized ck p active \<and> (active \<longrightarrow> derived_ip_scanning ck))) \<and>
          (active \<longrightarrow> allow_non_public ck \<or> is_global a))"

definition target_authorized :: "unicode \<Rightarrow> checker \<Rightarrow> (string \<Rightarrow> string list) \<Rightarrow> target \<Rightarrow> bool \<Rightarrow> bool" where
  "target_authorized u ck derived t active \<longleftrightarrow>
     (if kind t = target_kind.CIDR
      then \<exists>net. ip_network (val t) = Some net \<and> (\<forall>(n, r) \<in> set (nets ck). is_exclusion r \<longrightarrow> \<not> overlaps n net) \<and>
             (\<exists>(n, r) \<in> set (nets ck). authorizes ck r active \<and> subnet_of net n = Some True)
      else \<exists>h. target_host u t = Inr h \<and> host_authorized ck derived h active)"

lemma check_authorized:
  assumes "check u ck derived t active = Some d" "allowed d"
  shows "target_authorized u ck derived t active"
proof (cases "kind t = target_kind.CIDR")
  case True
  then have c: "check_network ck (val t) active = Some d" using assms(1) by (simp add: check_def)
  then obtain net where "ip_network (val t) = Some net" by (auto simp: check_network_def split: option.splits)
  then show ?thesis using check_network_allowed [OF c assms(2)] True by (simp add: target_authorized_def)
next
  case False
  then obtain h where h: "target_host u t = Inr h" "check_host ck derived h active = Some d"
    using assms(1) by (auto simp: check_def split: sum.splits)
  have "host_authorized ck derived h active"
    using check_host_decision [OF h(2) assms(2)] check_parent_allowed [of ck active]
    unfolding host_authorized_def by (auto split: option.split) blast+
  then show ?thesis using False h(1) by (simp add: target_authorized_def)
qed

lemma prepare_stage_skip: "prepare_stage D c g pool st s pl = Some (pl', s', None) \<Longrightarrow> pl_inv pl' = pl_inv pl"
  by (auto simp: prepare_stage_def Let_def bind_eq_Some_conv split: if_splits)

text \<open>A job comes from one pending stage; the stages before it were skipped.\<close>

lemma prepare_stages_last:
  assumes "prepare_stages D c g pool sts s pl = Some (pl', s', Some sj)"
    and "distinct (map sg_id (sc_stages s))" "distinct sts" "set sts \<subseteq> set (sc_stages s)"
  shows "\<exists>st0 s0 pl0. prepare_stage D c g pool st0 s0 pl0 = Some (pl', s', Some sj) \<and> st0 \<in> set (sc_stages s0) \<and> same_row s s0 \<and>
    same_tables pl pl0 \<and> pl_inv pl0 = pl_inv pl"
  using assms
proof (induction sts arbitrary: s pl)
  case (Cons st sts)
  show ?case
  proof (cases "sg_status st = stage_status.PENDING")
    case False
    then show ?thesis using Cons by simp
  next
    case pending: True
    then obtain pl1 s1 y where y: "prepare_stage D c g pool st s pl = Some (pl1, s1, y)"
      using Cons.prems(1) by (auto split: option.splits)
    have st: "st \<in> set (sc_stages s)" using Cons.prems(4) by simp
    obtain st' where st': "s1 = put_stage st' s" "sg_id st' = sg_id st" "sg_scan st' = sg_scan st" "same_tables pl pl1"
      using y by (rule prepare_stage_cases)
    show ?thesis
    proof (cases y)
      case (Some z)
      then have "prepare_stage D c g pool st s pl = Some (pl', s', Some sj)" using Cons.prems(1) pending y by (cases z) simp
      then show ?thesis using st by (intro exI [of _ st] exI [of _ s] exI [of _ pl]) (simp add: same_tables_def)
    next
      case None
      have "set sts \<subseteq> set (sc_stages s1)"
        using Cons.prems(3,4) unfolding st'(1) put_stage_same [OF Cons.prems(2) st st'(2)] by force
      moreover have "distinct (map sg_id (sc_stages s1))" using Cons.prems(2) unfolding st'(1) put_stage_ids .
      moreover have "prepare_stages D c g pool sts s1 pl1 = Some (pl', s', Some sj)" using Cons.prems(1) pending y None by simp
      ultimately obtain st0 s0 pl0 where "prepare_stage D c g pool st0 s0 pl0 = Some (pl', s', Some sj)" "st0 \<in> set (sc_stages s0)" "same_row s1 s0"
          "same_tables pl1 pl0" "pl_inv pl0 = pl_inv pl1"
        using Cons.IH [of s1 pl1] Cons.prems(3) by auto
      then show ?thesis
        using same_row_trans [OF same_row_put [OF st st'(3), folded st'(1)]] same_tables_trans [OF st'(4)] prepare_stage_skip [of D c g pool st s pl pl1 s1] y None
        by metis
    qed
  qed
qed simp

text \<open>Whether the engine of a stage touches its targets, under the configuration of the stage.\<close>

definition engine_active :: "deployment \<Rightarrow> scan_stage \<Rightarrow> bool option" where
  "engine_active D st = do {
     ad \<leftarrow> get_adapter D (sg_engine st);
     cfg \<leftarrow> ad_parse ad (public_config (sg_config st));
     Some (ad_active ad cfg) }"

text \<open>The job of a stage.\<close>

lemma prepare_stage_job:
  assumes "prepare_stage D c g pool st s pl = Some (pl', s', Some (st', job))"
  obtains ck ad cfg built decided where "load_checker D pl g = Some ck" "get_adapter D (sg_engine st) = Some ad"
    "build_targets D c pl g s (sg_type st) (ad_crawled_pages ad) = Some built" "ad_parse ad (public_config (sg_config st)) = Some cfg"
    "decide D ck (ad_active ad cfg) built = Some decided" "map fst (filter (allowed \<circ> snd) decided) \<noteq> []"
    "make_job D s st ad ck (map fst (filter (allowed \<circ> snd) decided)) pool (fresh pl) = Some job"
    "pl_decisions pl' = pl_decisions pl @ map (decision_row s st (ad_active ad cfg)) decided @ map (invalid_row s st (ad_active ad cfg)) (st_invalid built)"
    "sg_id st' = sg_id st" "sg_engine st' = sg_engine st" "sg_config st' = sg_config st" "sg_task st' = Some (jb_id job)" "sg_pool st' = Some pool"
    "s' = put_stage st' s"
  using assms by (auto simp: prepare_stage_def Let_def bind_eq_Some_conv used_id_def dispatch_stage_def simp del: map_is_Nil_conv split: if_splits)

lemma make_job_facts:
  assumes "make_job D s st ad ck ts pool i = Some job"
  shows "jb_targets job = ts" "jb_id job = uuid_hex i" "jb_tenant job = uuid_str (sc_tenant s)" "jb_scan job = uuid_str (sc_id s)" "jb_stage job = uuid_str (sg_id st)"
    "jb_adapter job = sg_engine st" "excluded_networks ck = Some (jb_excluded job)"
  using assms by (auto simp: make_job_def Let_def split: option.splits if_splits)

lemma decided_target:
  assumes "decide D ck active built = Some decided" "(t, d) \<in> set decided"
  shows "check (dp_unicode D) ck (members (st_derived built)) t active = Some d" "t \<in> set (st_targets built)"
proof -
  have l: "list_all2 (\<lambda>t td. map_option (Pair t) (check (dp_unicode D) ck (members (st_derived built)) t active) = Some td) (st_targets built) decided"
    using assms(1) by (simp add: decide_def mapM_opt_Some)
  obtain i where i: "i < length decided" "decided ! i = (t, d)" using assms(2) by (auto simp: in_set_conv_nth)
  then have "map_option (Pair (st_targets built ! i)) (check (dp_unicode D) ck (members (st_derived built)) (st_targets built ! i) active) = Some (t, d)"
      "i < length (st_targets built)"
    using list_all2_nthD2 [OF l i(1)] list_all2_lengthD [OF l] by auto
  then show "check (dp_unicode D) ck (members (st_derived built)) t active = Some d" "t \<in> set (st_targets built)" by auto
qed

lemma decide_length: "decide D ck active built = Some decided \<Longrightarrow> length decided = length (st_targets built)"
  by (auto simp: decide_def mapM_opt_Some dest: list_all2_lengthD)

lemma build_targets_limit: "build_targets D c pl g s t pages = Some built \<Longrightarrow> length (st_targets built) \<le> dp_max_targets D"
  by (auto simp: build_targets_def split: option.splits)

text \<open>The derivations a stage works with are those of the inventory, or none.\<close>

lemma add_targets_derived [simp]: "st_derived (add_targets u kvs out) = st_derived out"
proof -
  have "st_derived (add_target u kv out) = st_derived out" for kv out by (simp add: add_target_def split: sum.split)
  then show ?thesis unfolding add_targets_def by (induction kvs arbitrary: out) simp_all
qed

lemma add_pages_derived [simp]: "st_derived (add_pages x url ps out) = st_derived out"
  by (induction ps arbitrary: out) (simp_all add: add_target_def split: sum.split)

lemma for_each_derived:
  assumes "\<And>a out out'. f a out = Some out' \<Longrightarrow> st_derived out' = st_derived out" "for_each f as out = Some out'"
  shows "st_derived out' = st_derived out"
  using assms(2) by (induction "as" arbitrary: out) (auto simp: bind_eq_Some_conv dest: assms(1))

lemma web_endpoint_derived: "web_endpoint x a out = Some out' \<Longrightarrow> st_derived out' = st_derived out"
  by (auto simp: web_endpoint_def Let_def add_target_def split: sum.splits)

lemma stage_targets_derived:
  assumes "stage_targets_of t x = Some out"
  shows "st_derived out \<in> {[], ip_to_hosts (ts_db x) (og_id (ts_org x))}"
proof -
  have web: "st_derived out = ip_to_hosts (ts_db x) (og_id (ts_org x))" if "web_stage x = Some out"
    using for_each_derived [of "web_endpoint x", OF web_endpoint_derived that [unfolded web_stage_def]] by (simp add: source_resolutions_def)
  show ?thesis
    using assms web by (cases t) (auto simp: domain_stage_def dns_stage_def enrichment_stage_def port_stage_def http_stage_def no_targets_def
      source_resolutions_def Let_def)
qed

lemma group_members: "v \<in> set (members (group kvs) k) \<longleftrightarrow> (k, v) \<in> set kvs"
proof -
  have "v \<in> set (members (fold add_member kvs d) k) \<longleftrightarrow> (k, v) \<in> set kvs \<or> v \<in> set (members d k)" for d
  proof (induction kvs arbitrary: d)
    case (Cons kv kvs)
    have "v \<in> set (members (add_member kv d) k) \<longleftrightarrow> kv = (k, v) \<or> v \<in> set (members d k)"
      by (cases kv) (auto simp: members_def add_member_def Let_def split: option.splits if_splits)
    then show ?case using Cons by auto
  qed simp
  from this [of "[]"] show ?thesis by (simp add: group_def members_def)
qed

text \<open>A name an address is derived from: an in-scope name that resolves to it now.\<close>

definition resolves_to :: "inventory \<Rightarrow> uuid \<Rightarrow> string \<Rightarrow> string \<Rightarrow> bool" where
  "resolves_to db org h i \<longleftrightarrow> (\<exists>r src dst. r \<in> set (relationships db) \<and> rl_org r = org \<and> rl_active r \<and> rl_type r = relation_type.RESOLVES_TO \<and>
     get_asset db (rl_source_asset r) = Some src \<and> get_asset db (rl_target_asset r) = Some dst \<and>
     as_scope src = scope_status.IN_SCOPE \<and> as_norm src = h \<and> as_status dst = asset_status.ACTIVE \<and> as_norm dst = i)"

lemma resolution_Some: "resolution db org r = Some (h, i) \<Longrightarrow> r \<in> set (relationships db) \<Longrightarrow> resolves_to db org h i"
  by (auto simp: resolution_def resolves_to_def split: if_splits option.splits)

lemma ip_to_hosts_members: "h \<in> set (members (ip_to_hosts db org) i) \<Longrightarrow> resolves_to db org h i"
  unfolding ip_to_hosts_def group_members resolutions_def using resolution_Some [of db org _ h i]
  by (auto simp: List.map_filter_def case_prod_unfold)

lemma build_targets_derived:
  assumes "build_targets D c pl g s t pages = Some built" "h \<in> set (members (st_derived built) i)"
  shows "resolves_to (pl_inv pl) (og_id g) h i"
proof -
  obtain x out where x: "target_source_of D c pl g s pages = Some x" "stage_targets_of t x = Some out" "st_derived built = st_derived out"
    using assms(1) by (auto simp: build_targets_def split: option.splits)
  have "ts_db x = pl_inv pl" "ts_org x = g" using x(1) by (auto simp: target_source_of_def)
  then have "st_derived built \<in> {[], ip_to_hosts (pl_inv pl) (og_id g)}" using stage_targets_derived [OF x(2)] x(3) by simp
  then show ?thesis using assms(2) ip_to_hosts_members [of h "pl_inv pl" "og_id g" i] by (auto simp: members_def [of "[]"])
qed

text \<open>A job is prepared for a running scan of an active tenant and organization whose pool may be used.\<close>

lemma prepare_next_stage_job:
  assumes "prepare_next_stage D c s pl = Some (pl', Some (st, job))" "scan_ok s"
  obtains g t st0 s0 pl0 s' pl1 where "get_org pl (sc_org s) = Some g" "get_tenant pl (sc_tenant s) = Some t"
    "sc_status s = scan_status.RUNNING" "inactive_reason D pl s = None"
    "prepare_stage D c g (or_default (Some (tn_worker_pool t))) st0 s0 pl0 = Some (pl1, s', Some (st, job))" "pl' = put_scan s' pl1"
    "st0 \<in> set (sc_stages s0)" "same_row s s0" "same_tables pl pl0" "pl_inv pl0 = pl_inv pl"
proof -
  have run: "sc_status s = scan_status.RUNNING" "inactive_reason D pl s = None"
    using assms(1) by (auto simp: prepare_next_stage_def split: if_splits option.splits)
  then obtain g t pl1 s' where gt: "get_org pl (sc_org s) = Some g" "get_tenant pl (sc_tenant s) = Some t"
      and p: "prepare_stages D c g (or_default (Some (tn_worker_pool t))) (sort_key sg_position (sc_stages s)) s pl = Some (pl1, s', Some (st, job))"
      and pl': "pl' = put_scan s' pl1"
    using assms(1) by (auto simp: prepare_next_stage_def split: option.splits)
  have d: "distinct (map sg_id (sc_stages s))" using assms(2) by (simp add: scan_ok_def)
  then have "distinct (sort_key sg_position (sc_stages s))" "set (sort_key sg_position (sc_stages s)) \<subseteq> set (sc_stages s)" by (simp_all add: distinct_map)
  from prepare_stages_last [OF p d this] show ?thesis using that [OF gt run _ pl'] by blast
qed

lemma checker_same: "same_tables pl pl0 \<Longrightarrow> load_checker D pl0 g = load_checker D pl g"
  by (simp add: load_checker_def get_tenant_def entries_of_def same_tables_def cong: option.case_cong)

lemma excluded_networks_told:
  assumes "excluded_networks ck = Some ns" "r \<in> set (rules ck)" "is_exclusion r" "is_net_rule r"
  shows "\<exists>n. ip_network (rule_value r) = Some n \<and> show_net n \<in> set ns"
proof -
  let ?rs = "filter (\<lambda>r. is_exclusion r \<and> rule_type r \<in> {scope_entry_type.IP, scope_entry_type.CIDR}) (rules ck)"
  have l: "list_all2 (\<lambda>r v. map_option show_net (ip_network (rule_value r)) = Some v) ?rs ns"
    using assms(1) by (simp add: excluded_networks_def mapM_opt_Some)
  have "r \<in> set ?rs" using assms(2-4) by (simp add: is_net_rule_def)
  then obtain i where i: "i < length ?rs" "?rs ! i = r" unfolding in_set_conv_nth by blast
  have "map_option show_net (ip_network (rule_value r)) = Some (ns ! i)" using list_all2_nthD [OF l i(1)] i(2) by simp
  moreover have "ns ! i \<in> set ns" using i(1) list_all2_lengthD [OF l] by simp
  ultimately show ?thesis by auto
qed



subsection \<open>Results\<close>

lemma binding_error_None:
  "result_binding_error (Some s) (Some st) env r = None \<longleftrightarrow>
     sg_scan st = sc_id s \<and> uuid_str (sc_tenant s) = ev_tenant env \<and> sg_task st = Some (ev_job env) \<and> ev_job env \<noteq> [] \<and> or_default (sg_pool st) = ev_pool env \<and>
     sg_engine st = sr_adapter r \<and> sg_status st = stage_status.RUNNING \<and> sc_status s = scan_status.RUNNING"
  by (auto simp: result_binding_error_def)

lemma accepted_result_resolves:
  assumes "scans_ok pl" "get_scan pl sid = Some s" "st \<in> set (sc_stages s)" "sg_status st = stage_status.RUNNING" "sc_status s = scan_status.RUNNING"
    "complete_stage D c s st r pl = Some pl'"
  obtains st' s' where "scans_ok pl'" "get_scan pl' sid = Some s'" "moves s s'" "sc_stages s' = sc_stages (put_stage st' s)" "sc_status s' = scan_status.RUNNING"
    "sg_id st' = sg_id st" "sg_status st' \<in> done_states"
proof -
  obtain st' s' where *: "pl_scans pl' = pl_scans (put_scan s' pl)" "pl_tenants pl' = pl_tenants pl" "pl_plans pl' = pl_plans pl"
    "sc_stages s' = sc_stages (put_stage st' s)" "sc_id s' = sc_id s" "sc_tenant s' = sc_tenant s" "sc_org s' = sc_org s" "sc_status s' = sc_status s"
    "sg_id st' = sg_id st" "sg_scan st' = sg_scan st" "sg_status st' \<in> done_states"
    using assms(6,4,5) by (rule complete_stage_cases)
  have s: "s \<in> set (pl_scans pl)" "sc_id s = sid" using get_scan_in [OF assms(2)] by auto
  have "moves s s'" using assms(4,5) * by (intro resolve_moves [OF assms(3), where st' = st']) auto
  moreover have "scans_ok pl'" using scans_move_ok complete_stage_moves [OF assms(6,1) s(1) assms(3)] assms(1) by blast
  moreover have "get_scan pl' sid = Some s'" using put_scan_get [OF assms(1) s(1) *(5)] s(2) *(1) by (simp add: get_scan_def)
  ultimately show ?thesis using that * assms(5) by simp
qed



subsection \<open>Scans end\<close>

text \<open>
  One round of the pipeline for a scan: the task that advances it, and where that dispatches a job, the answer to the
  job or the report that it is lost (which the watchdog makes at the latest).
\<close>

inductive round :: "deployment \<Rightarrow> uuid \<Rightarrow> platform \<Rightarrow> platform \<Rightarrow> bool" for D sid where
  over: "advance_scan D c sid pl = Some (pl', None) \<Longrightarrow> round D sid pl pl'"
| lost: "advance_scan D c sid pl = Some (pl1, Some (st, job)) \<Longrightarrow> round D sid pl (stage_failed c' sid (sg_id st) why pl1)"
| answered: "advance_scan D c sid pl = Some (pl1, Some (st, job)) \<Longrightarrow> receive_result D c' sid (sg_id st) env r pl1 = Some (pl', True) \<Longrightarrow> round D sid pl pl'"

lemma advance_job:
  assumes "advance_scan D c sid pl = Some (pl', Some (st, job))" "scans_ok pl"
  shows "\<exists>s'. get_scan pl' sid = Some s' \<and> st \<in> set (sc_stages s') \<and> sg_status st = stage_status.RUNNING"
proof -
  obtain s where s: "get_scan pl sid = Some s" and p: "prepare_next_stage D c s pl = Some (pl', Some (st, job))"
    using assms(1) by (auto simp: advance_scan_def split: option.splits if_splits)
  have ok: "scan_ok s" "s \<in> set (pl_scans pl)" "sc_id s = sid" using get_scan_in [OF s] assms(2) by (auto simp: scans_ok_def)
  obtain g t st0 s0 pl0 s' pl1 where "get_org pl (sc_org s) = Some g" "get_tenant pl (sc_tenant s) = Some t"
      "sc_status s = scan_status.RUNNING" "inactive_reason D pl s = None"
    and q: "prepare_stage D c g (or_default (Some (tn_worker_pool t))) st0 s0 pl0 = Some (pl1, s', Some (st, job))" and pl': "pl' = put_scan s' pl1"
    and st0: "st0 \<in> set (sc_stages s0)" and row: "same_row s s0" "same_tables pl pl0" and "pl_inv pl0 = pl_inv pl"
    using p ok(1) by (rule prepare_next_stage_job)
  obtain st' where st': "s' = put_stage st' s0" "sg_id st' = sg_id st0" "sg_scan st' = sg_scan st0" "same_tables pl0 pl1"
    and x: "Some (st, job) = None \<and> sg_status st' = stage_status.SKIPPED \<or> (\<exists>j. Some (st, job) = Some (st', j) \<and> sg_status st' = stage_status.RUNNING)"
    using q by (rule prepare_stage_cases)
  then have st: "st' = st" "sg_status st = stage_status.RUNNING" by auto
  have "st \<in> set (sc_stages s')" using st0 st'(2) by (auto simp: st'(1) st(1) put_stage_def set_update_where intro!: image_eqI [of _ _ st0])
  moreover have "get_scan pl' sid = Some s'"
  proof -
    have "sc_id s' = sc_id s" using same_row_fields(1) [OF row(1)] by (simp add: st'(1))
    moreover have "pl_scans pl' = pl_scans (put_scan s' pl)"
      using same_tables_scans [OF same_tables_trans [OF row(2) st'(4)]] by (simp add: pl' put_scan_def)
    ultimately show ?thesis using put_scan_get [OF assms(2) ok(2)] ok(3) by (simp add: get_scan_def)
  qed
  ultimately show ?thesis using st(2) by blast
qed

text \<open>Resolving the stage in flight leaves none in flight and as many to come.\<close>

lemma resolved_counts:
  assumes "scan_ok s" "st \<in> set (sc_stages s)" "sg_status st = stage_status.RUNNING" "sg_id st' = sg_id st" "sg_status st' \<in> done_states"
  shows "having stage_status.RUNNING (sc_stages (put_stage st' s)) = 0"
    "having stage_status.PENDING (sc_stages (put_stage st' s)) = having stage_status.PENDING (sc_stages s)"
proof -
  have d: "distinct (map sg_id (sc_stages s))" "having stage_status.RUNNING (sc_stages s) \<le> 1" using assms(1) by (simp_all add: scan_ok_def)
  have n: "sg_status st' \<noteq> stage_status.RUNNING" "sg_status st' \<noteq> stage_status.PENDING" using assms(5) by (auto simp: done_states_def)
  show "having stage_status.RUNNING (sc_stages (put_stage st' s)) = 0"
    using put_stage_running [OF d(1) assms(2,4), of "\<lambda>x. sg_status x = stage_status.RUNNING"] d(2) n assms(3)
    by (simp del: length_0_conv)
  show "having stage_status.PENDING (sc_stages (put_stage st' s)) = having stage_status.PENDING (sc_stages s)"
    using put_stage_running [OF d(1) assms(2,4), of "\<lambda>x. sg_status x = stage_status.PENDING"] n assms(3) by simp
qed

text \<open>A running scan between two rounds has fewer stages to come after a round, or it is over.\<close>

definition between :: "platform \<Rightarrow> uuid \<Rightarrow> nat \<Rightarrow> bool" where
  "between pl sid n \<longleftrightarrow> scans_ok pl \<and> (\<exists>s. get_scan pl sid = Some s \<and>
     (ended s \<or> sc_status s = scan_status.RUNNING \<and> \<not> in_flight s \<and> having stage_status.PENDING (sc_stages s) < n))"

lemma stage_failed_resolves:
  assumes "scans_ok pl" "get_scan pl sid = Some s" "st \<in> set (sc_stages s)" "sg_status st = stage_status.RUNNING"
  obtains st' where "get_scan (stage_failed c sid (sg_id st) why pl) sid = Some (put_stage st' s)" "sg_id st' = sg_id st" "sg_status st' \<in> done_states"
    "scans_ok (stage_failed c sid (sg_id st) why pl)"
proof -
  let ?st = "st\<lparr>sg_status := failed_status st, sg_error := Some (take 4000 why), sg_finished_at := Some (cl_now c)\<rparr>"
  have s: "s \<in> set (pl_scans pl)" "sc_id s = sid" using get_scan_in [OF assms(2)] by auto
  have "distinct (map sg_id (sc_stages s))" using assms(1) s(1) by (auto simp: scans_ok_def scan_ok_def)
  then have "get_stage s (sg_id st) = Some st"
    unfolding get_stage_def using assms(3) by (intro find_unique) (auto simp: distinct_map inj_on_def)
  then have e: "stage_failed c sid (sg_id st) why pl = fail_stage c s st why pl" using assms(2) by (simp add: stage_failed_def with_stage_def)
  then have "get_scan (stage_failed c sid (sg_id st) why pl) sid = Some (put_stage ?st s)"
    using put_scan_get [OF assms(1) s(1), of "put_stage ?st s"] s(2) assms(4) by (simp add: fail_stage_def)
  moreover have "scans_ok (stage_failed c sid (sg_id st) why pl)" unfolding e using scans_move_ok [OF fail_stage_moves [OF assms(1) s(1) assms(3)] assms(1)] .
  ultimately show ?thesis using that [of ?st] by simp
qed

lemma round_between:
  assumes "round D sid pl pl'" "between pl sid (Suc n)"
  shows "between pl' sid n"
proof -
  have ok: "scans_ok pl" using assms(2) by (simp add: between_def)
  obtain s where s: "get_scan pl sid = Some s"
    and or: "ended s \<or> sc_status s = scan_status.RUNNING \<and> \<not> in_flight s \<and> having stage_status.PENDING (sc_stages s) < Suc n"
    using assms(2) by (auto simp: between_def)
  show ?thesis
  proof (cases "ended s")
    case True
    then have "advance_scan D c sid pl = Some (pl, None)" for c using s by (auto simp: advance_scan_def ended_simps)
    then have "pl' = pl" using assms(1) by (auto elim!: round.cases)
    then show ?thesis using ok s True by (auto simp: between_def)
  next
    case False
    then have run: "sc_status s = scan_status.RUNNING" "\<not> in_flight s" "having stage_status.PENDING (sc_stages s) < Suc n" using or by auto
    have in_pl: "s \<in> set (pl_scans pl)" "sc_id s = sid" using get_scan_in [OF s] by auto
    have get: "get_scan q sid = Some s'" if "pl_scans q = pl_scans (put_scan s' pl)" "moves s s'" for q s'
      using put_scan_get [OF ok in_pl(1), of s'] that in_pl(2) by (simp add: get_scan_def moves_def)
    from assms(1) show ?thesis
    proof cases
      case (over c)
      from over ok s run(1,2) obtain s' where "pl_scans pl' = pl_scans (put_scan s' pl)" "moves s s'" "ended s'"
        by (rule advance_scan_cases) auto
      then show ?thesis using get advance_evolves [OF over ok] evolves_ok by (auto simp: between_def)
    next
      case (lost c pl1 st job c' why)
      have ok1: "scans_ok pl1" using advance_evolves [OF lost(2) ok] evolves_ok by blast
      from lost(2) ok s run(1,2) obtain s1 where s1: "pl_scans pl1 = pl_scans (put_scan s1 pl)" "moves s s1" "sc_status s1 = scan_status.RUNNING"
          "having stage_status.PENDING (sc_stages s1) < having stage_status.PENDING (sc_stages s)"
        by (rule advance_scan_cases) auto
      have g1: "get_scan pl1 sid = Some s1" using get s1(1,2) by blast
      then have st: "st \<in> set (sc_stages s1)" "sg_status st = stage_status.RUNNING" using advance_job [OF lost(2) ok] by auto
      obtain st' where st': "get_scan pl' sid = Some (put_stage st' s1)" "sg_id st' = sg_id st" "sg_status st' \<in> done_states" "scans_ok pl'"
        using stage_failed_resolves [OF ok1 g1 st, of c' why] unfolding lost(1) [symmetric] by blast
      have "scan_ok s1" using ok1 get_scan_in [OF g1] by (simp add: scans_ok_def)
      from resolved_counts [OF this st st'(2,3)] show ?thesis
        using st'(1,4) s1(3,4) run(3) by (auto simp: between_def in_flight_having)
    next
      case (answered c pl1 st job c' env r)
      have ok1: "scans_ok pl1" using advance_evolves [OF answered(1) ok] evolves_ok by blast
      from answered(1) ok s run(1,2) obtain s1 where s1: "pl_scans pl1 = pl_scans (put_scan s1 pl)" "moves s s1" "sc_status s1 = scan_status.RUNNING"
          "having stage_status.PENDING (sc_stages s1) < having stage_status.PENDING (sc_stages s)"
        by (rule advance_scan_cases) auto
      have g1: "get_scan pl1 sid = Some s1" using get s1(1,2) by blast
      obtain x where x: "find (\<lambda>st'. sg_id st' = sg_id st) (concat (map sc_stages (pl_scans pl1))) = Some x"
          "result_binding_error (Some s1) (Some x) env r = None" "complete_stage D c' s1 x r pl1 = Some pl'"
        using answered(2) g1 by (cases rule: receive_result_cases) auto
      note e = x(2) [unfolded binding_error_None]
      have xin: "x \<in> set (sc_stages s1)" using bound_stage [OF ok1 g1 x(1)] e by simp
      from ok1 g1 xin _ _ x(3) obtain st' s' where "scans_ok pl'" and s': "get_scan pl' sid = Some s'" "sc_stages s' = sc_stages (put_stage st' s1)"
          "sc_status s' = scan_status.RUNNING" "sg_id st' = sg_id x" "sg_status st' \<in> done_states"
        by (rule accepted_result_resolves) (use e in auto)
      moreover have "scan_ok s1" using ok1 get_scan_in [OF g1] by (simp add: scans_ok_def)
      ultimately show ?thesis
        using resolved_counts [OF _ xin _ s'(4,5)] e s1(4) run(3) by (auto simp: between_def in_flight_having)
    qed
  qed
qed

lemma rounds_between: "(round D sid ^^ n) pl pl' \<Longrightarrow> between pl sid (n + k) \<Longrightarrow> between pl' sid k"
proof (induction n arbitrary: pl)
  case (Suc n)
  obtain pl1 where "round D sid pl pl1" "(round D sid ^^ n) pl1 pl'" using relpowp_Suc_D2 [OF Suc.prems(1)] by blast
  then show ?case using Suc.IH round_between Suc.prems(2) by simp
qed simp

text \<open>
  C8: scans end. From any platform reached from one without scans, a running scan that has no stage in flight is over
  after at most one round more than it has stages to come, whatever the sensors answer and however many jobs
  are lost: no round leaves it running with as many stages to come as before.
\<close>

theorem scan_ends:
  assumes "(pipeline_step D)\<^sup>*\<^sup>* pl0 pl" "pl_scans pl0 = []" "get_scan pl sid = Some s" "sc_status s = scan_status.RUNNING" "\<not> in_flight s"
    "(round D sid ^^ Suc n) pl pl'" "having stage_status.PENDING (sc_stages s) \<le> n"
  shows "\<exists>s'. get_scan pl' sid = Some s' \<and> ended s'"
proof -
  have "between pl sid (Suc n + 0)" using run_ok [OF assms(1)] assms(2-5,7) by (auto simp: between_def scans_ok_def)
  from rounds_between [OF assms(6) this] show ?thesis by (auto simp: between_def)
qed

theorem scan_ends_witness:
  "(pipeline_step example_deployment)\<^sup>*\<^sup>* example_platform (fst example_started) \<and> pl_scans example_platform = [] \<and>
   (round example_deployment 10 ^^ Suc 1) (fst example_started) (fst example_ended) \<and>
   (\<exists>s s'. get_scan (fst example_started) 10 = Some s \<and> sc_status s = scan_status.RUNNING \<and> \<not> in_flight s \<and>
     having stage_status.PENDING (sc_stages s) = 1 \<and> get_scan (fst example_ended) 10 = Some s' \<and> ended s')"
proof -
  obtain st job where sj: "snd example_dispatched = Some (st, job)" and id: "sg_id st = 11" using example_job by auto
  have "advance_scan example_deployment example_call 10 (fst example_started) = Some (fst example_dispatched, Some (st, job))"
    using example_advance sj by (metis prod.collapse)
  then have "round example_deployment 10 (fst example_started) (fst example_answered)"
    by (rule round.answered [where env = example_envelope]) (use example_answer id in simp)
  moreover have "round example_deployment 10 (fst example_answered) (fst example_ended)" using example_finish by (rule round.over)
  ultimately have r: "(round example_deployment 10 ^^ Suc 1) (fst example_started) (fst example_ended)" by auto
  obtain s where s: "get_scan (fst example_started) 10 = Some s" "sc_status s = scan_status.RUNNING" "map sg_status (sc_stages s) = [stage_status.PENDING]"
    using example_start by (auto simp: get_scan_def)
  then have p: "\<not> in_flight s" "having stage_status.PENDING (sc_stages s) = 1" by (auto simp: in_flight_def)
  show ?thesis
    using scan_ends [OF example_pipeline_run(1) example_no_scans s(1,2) p(1) r] p s(1,2) r example_pipeline_run(1) example_no_scans by fastforce
qed

subsection \<open>The watchdog\<close>

text \<open>
  C20: no lost job blocks a scan. A stage that is still in flight when its job must long be over (the stage limit and fifteen
  minutes after it was started) is found by the watchdog, and the report of the watchdog resolves it:
  then no stage of the scan is in flight, as many stages are to come as before, and the scan can be advanced.
\<close>

theorem watchdog_recovers:
  assumes "(pipeline_step D)\<^sup>*\<^sup>* pl0 pl" "pl_scans pl0 = []" "get_scan pl sid = Some s" "sc_status s = scan_status.RUNNING"
    "st \<in> set (sc_stages s)" "sg_status st = stage_status.RUNNING" "sg_started_at st = Some t" "t + (dp_stage_timeout D + 900) * 1000000 < now"
  shows "\<exists>why. (sid, sg_id st, why) \<in> set (stuck_stages D now pl) \<and>
    (\<exists>s'. get_scan (stage_failed c sid (sg_id st) why pl) sid = Some s' \<and> sc_status s' = scan_status.RUNNING \<and> \<not> in_flight s' \<and>
       having stage_status.PENDING (sc_stages s') = having stage_status.PENDING (sc_stages s))"
proof -
  have ok: "scans_ok pl" using run_ok [OF assms(1)] assms(2) by (simp add: scans_ok_def)
  have s: "s \<in> set (pl_scans pl)" "sc_id s = sid" using get_scan_in [OF assms(3)] by auto
  then have so: "scan_ok s" "sg_scan st = sid" using ok assms(5) by (auto simp: scans_ok_def scan_ok_def)
  have "is_stuck D now st" using assms(6-8) by (simp add: is_stuck_def)
  then obtain why where why: "(sid, sg_id st, why) \<in> set (stuck_stages D now pl)"
    using s(1) assms(5) so(2) by (auto simp: stuck_stages_def image_iff)
  obtain st' where st': "get_scan (stage_failed c sid (sg_id st) why pl) sid = Some (put_stage st' s)" "sg_id st' = sg_id st" "sg_status st' \<in> done_states"
    using stage_failed_resolves [OF ok assms(3,5,6)] by blast
  from resolved_counts [OF so(1) assms(5,6) st'(2,3)] show ?thesis
    using why st'(1) assms(4) by (auto simp: in_flight_having intro!: exI [of _ why])
qed

theorem watchdog_recovers_witness:
  "(pipeline_step example_deployment)\<^sup>*\<^sup>* example_platform (fst example_dispatched) \<and> pl_scans example_platform = [] \<and>
   (\<exists>s st why s'. get_scan (fst example_dispatched) 10 = Some s \<and> sc_status s = scan_status.RUNNING \<and> st \<in> set (sc_stages s) \<and>
     sg_status st = stage_status.RUNNING \<and> sg_started_at st = Some 1000 \<and>
     (10, sg_id st, why) \<in> set (stuck_stages example_deployment 20000000000 (fst example_dispatched)) \<and>
     get_scan (stage_failed example_call 10 (sg_id st) why (fst example_dispatched)) 10 = Some s' \<and> \<not> in_flight s')"
proof -
  have "map_option (\<lambda>s. (sc_status s, map (\<lambda>st. (sg_status st, sg_started_at st)) (sc_stages s))) (get_scan (fst example_dispatched) 10) =
      Some (scan_status.RUNNING, [(stage_status.RUNNING, Some 1000)])" by code_simp
  then obtain s st where s: "get_scan (fst example_dispatched) 10 = Some s" "sc_status s = scan_status.RUNNING" "st \<in> set (sc_stages s)"
      "sg_status st = stage_status.RUNNING" "sg_started_at st = Some 1000" by auto
  have "(1000 :: int) + (dp_stage_timeout example_deployment + 900) * 1000000 < 20000000000" by (simp add: example_deployment_def)
  from watchdog_recovers [OF example_pipeline_run(2) example_no_scans s this, of example_call] s example_pipeline_run(2) example_no_scans show ?thesis by blast
qed

end
