(* ===== verification/Spec2Isabelle.thy ===== *)
theory Spec2Isabelle
  imports Normalization ScopeChecker Versions Coordination RateLimit AuthSafety Cloud Rules Housekeeping RiskSafety
    ScopeSafety Pipeline
begin

text \<open>
  A verification library for the Exteriq attack surface management platform.

  \<^bold>\<open>The program.\<close> The platform watches what the organizations of its tenants expose to the Internet. An
  organization declares a scope (domains, addresses, ranges, exclusions). A scan runs the stages of a profile: for each
  stage the platform builds targets from the scope and the inventory, authorizes every target against the
  scope, and sends a job to a scanner in the pool of the tenant. The result comes back as observations; the ingestion engine
  attributes them to the organization, updates assets and relations, detects changes, and records findings,
  which the detection rules extend. At the end of a scan the risk scores are recomputed. Housekeeping ages assets out, warns of
  expiring certificates, ends accepted risks and fires schedules. Users sign in with passwords, second factors and sessions;
  what they change is written to a hash-chained audit log. Names of files below are relative to
  \<open>src/backend/app\<close>, those of sensors to \<open>src/workers/asm_sensors\<close>.

  \<^bold>\<open>Conventions.\<close> A Python \<open>str\<close> is a \<^typ>\<open>string\<close> of its UTF-8 bytes, an \<open>int\<close> an \<^typ>\<open>int\<close>, a \<open>float\<close> a \<^typ>\<open>rat\<close>,
  a point in time an \<^typ>\<open>int\<close> of microseconds, an identifier a \<^typ>\<open>nat\<close>. A dictionary is an association list in insertion order,
  a table a list of rows, an ORM object a record. A function that raises returns a sum or an option; a
  transaction that raises leaves the tables as they were. Each function is one transaction. The properties of runs quantify over all
  sequences of these steps. Code outside the repository is a parameter: the hash functions, encryption and signed tokens,
  the Unicode tables, the public suffix list, Redis, the DNS resolver, the scanners, the cron library, the object store. What is
  relied on is a hypothesis with a name or an assumption of a locale, and the witnesses instantiate it.

  \<^bold>\<open>Values and parsers.\<close> \<open>Prelude\<close> holds the operations of Python on strings, lists and dictionaries and the lemmas the components share.
  \<open>Enums\<close> has the enumerations (\<open>models/enums.py\<close>). \<open>IpAddress\<close>, \<open>Urls\<close>, \<open>IsoTime\<close> and \<open>Json\<close> model what is used of \<open>ipaddress\<close>,
  \<open>urllib\<close>, \<open>datetime\<close> and JSON values. \<open>Ports\<close> (\<open>ports.py\<close>) shows that merging keeps the denoted set of ports and that membership is
  membership in that set; \<open>Targets\<close> (\<open>targets.py\<close>) that the host read back from an accepted target is valid and canonical;
  \<open>Versions\<close> (\<open>threats/versions.py\<close>) that ranges are intervals of a total order; \<open>Normalization\<close>
  (\<open>assets/normalization.py\<close>) that normal forms are fixed points.

  \<^bold>\<open>Scope.\<close> \<open>ScopeChecker\<close> (\<open>scope/checker.py\<close>) decides about hosts and networks; its theorems say what an allowed target satisfies.
  \<open>ScopeService\<close> (\<open>scope/service.py\<close>) has the operations on entries; \<open>ScopeSafety\<close> shows, over all runs of them,
  that an entry is verified only by a proof, that entries stay canonical so that the checker can always be loaded, and that each change
  reaches the inventory at once.

  \<^bold>\<open>Scans.\<close> \<open>Platform\<close> has the tables and the surroundings (\<open>models/tenancy.py\<close>, \<open>models/scope.py\<close>, \<open>models/scans.py\<close>, the
  settings). \<open>Tenancy\<close> (\<open>tenants/service.py\<close>) has plans and quotas, \<open>ScanTargets\<close> (\<open>scans/targets.py\<close>) the targets of each
  stage, \<open>Scans\<close> (\<open>scans/profiles.py\<close>, \<open>scans/engines.py\<close>, \<open>create_scan\<close>) profiles and creation, \<open>Orchestrator\<close> the rest of
  \<open>scans/orchestrator.py\<close>, \<open>services/metrics.py\<close> and the transactions of \<open>workers/tasks.py\<close>, \<open>workers/results.py\<close> and of schedules.
  \<open>ScanSafety\<close> proves what each of them does to the table of scans and defines the step relation of the pipeline; \<open>Pipeline\<close> derives
  that only authorized targets are dispatched, that scans stay consistent and their end is final, that the limits on concurrency
  hold in every state, that a result is taken once and only for its job, that a scan ends within as many rounds as it has stages, and that the watchdog recovers lost
  jobs. \<open>ScanExample\<close> is a complete run, which the witnesses use.

  \<^bold>\<open>Inventory.\<close> \<open>Core\<close>, \<open>Observations\<close>, \<open>Settings\<close> and \<open>Inventory\<close> have requests, what sensors report, settings of tenants and the tables.
  \<open>Knowledge\<close>, \<open>Cloud\<close> and \<open>Detector\<close> (\<open>changes/knowledge.py\<close>, \<open>assets/cloud.py\<close>, \<open>changes/detector.py\<close>) classify changes.
  \<open>IngestScope\<close> and \<open>Ingest\<close> model \<open>assets/ingest.py\<close>; \<open>Cascade\<close> shows that the recursive deactivation ends, \<open>IngestSafety\<close> that a run
  loses no asset, respects the decisions of analysts, and never revives from historical sources. \<open>Findings\<close>
  (\<open>findings/service.py\<close>) is refined to an automaton of statuses in \<open>Lifecycle\<close>; \<open>Rules\<close> has \<open>findings/rules.py\<close>; \<open>Maintenance\<close> and
  \<open>Housekeeping\<close> have \<open>services/maintenance.py\<close>; \<open>Risk\<close> and \<open>RiskSafety\<close> have \<open>risk/engine.py\<close> and \<open>risk/service.py\<close>.

  \<^bold>\<open>Access.\<close> \<open>Permissions\<close> (\<open>auth/permissions.py\<close>), \<open>AuditLog\<close> (\<open>services/audit.py\<close>, \<open>core/logging.py\<close>), \<open>Auth\<close> (\<open>auth/service.py\<close>,
  \<open>api/deps.py\<close>) and \<open>AuthSafety\<close>, which proves over all sequences of requests that logout is final, that reuse of a refresh token revokes
  the session, that principals have only their current permissions, and the bound on guessed passwords. \<open>RateLimit\<close> has
  \<open>core/rate_limit.py\<close>, \<open>Coordination\<close> the leases and claims of \<open>coordination.py\<close> as interleaved jobs over a shared store.

  \<^bold>\<open>Bounds.\<close> The deactivation of owned assets recurses to depth 3, which \<open>deactivation_ends\<close> shows to be enough for every database, as
  ownership has three levels. The attribution of neighbours runs three rounds because the code does. Nothing else has fuel: loops are
  recursions over lists. A scan is over after one round more than it has pending stages.

  \<^bold>\<open>Not modelled.\<close> The threat center (\<open>threats/service.py\<close>) and screenshots (\<open>screenshots/service.py\<close>), whose effect on a finished scan is a
  parameter; the exposure map, dashboard and reports, which only read; notifications, feeds and storage, which are I/O; the routers
  and schemas of the HTTP interface, which call the services; sessions and row level security of the database, and its migrations;
  the runtime of sensors and their adapters, which run external programs. Of the modelled files: \<open>bootstrap\<close>, \<open>run_inline\<close>, the built-in
  profiles, retention, the authentication of result envelopes, and the part of the watchdog that reads when a row was last updated.
  Transactions are atomic; interleavings inside one are not modelled. Definitions that name a part of a function of the
  code are helpers of the definition of that function.
\<close>

end
